(* ===== verification/Prelude.thy ===== *)
theory Prelude
  imports Main "HOL-Library.Word" "HOL-Library.Sublist"
begin

text \<open>
  The vocabulary that every component of the agent subsystem shares: C strings, \<open>GError\<close>
  values and the results that carry them, the narrowing conversions between C integer types,
  the \<open>printf\<close> conversions the code uses and the GLib string helpers it calls.

  Conventions.  A \<open>gchar *\<close> is a \<open>cstr\<close>: \<open>None\<close> is the NULL pointer, \<open>Some s\<close> a
  NUL-terminated string whose bytes before the NUL are \<open>s\<close>; \<open>g_strdup\<close> is the identity on it and
  \<open>g_strcmp0 a b == 0\<close> is \<open>a = b\<close>.  \<open>gint\<close> and \<open>gint64\<close> values are \<open>int\<close>s, \<open>guint\<close> values
  \<open>nat\<close>s, and each narrowing conversion of the code is written out with \<open>to_gint\<close> or \<open>to_guint\<close>.
  The translation function \<open>_()\<close> is the identity, as in the C locale.
\<close>

named_theorems result_simps \<open>inversion rules of the result monad\<close>
named_theorems copy_simps \<open>copy functions reproduce their argument\<close>
named_theorems str_simps \<open>rules for the string helpers\<close>

subsection \<open>C strings\<close>

type_synonym cstr = "string option"

text \<open>\<open>s && s[0]\<close>: a string that is there and is not empty.\<close>

definition nonempty :: "cstr \<Rightarrow> bool" where
  "nonempty s \<longleftrightarrow> (case s of None \<Rightarrow> False | Some cs \<Rightarrow> cs \<noteq> [])"

lemma nonempty_simps [simp, str_simps]:
  "\<not> nonempty None" "nonempty (Some cs) \<longleftrightarrow> cs \<noteq> []"
  by (simp_all add: nonempty_def)

lemma nonempty_iff: "nonempty s \<longleftrightarrow> (\<exists>c cs. s = Some (c # cs))"
  by (cases s) (auto simp: neq_Nil_conv)

text \<open>\<open>s ? s : d\<close>.\<close>

definition str_or :: "cstr \<Rightarrow> string \<Rightarrow> string" where
  "str_or s d = (case s of None \<Rightarrow> d | Some cs \<Rightarrow> cs)"

lemma str_or_simps [simp, str_simps]: "str_or None d = d" "str_or (Some cs) d = cs"
  by (simp_all add: str_or_def)

text \<open>The single quote, which Isabelle's string literals cannot hold.\<close>

definition quoted :: "string \<Rightarrow> string" where
  "quoted s = CHR 0x27 # s @ [CHR 0x27]"

subsection \<open>Errors and results\<close>

record gerror =
  gerr_domain :: string
  gerr_code :: int
  gerr_message :: string

text \<open>
  \<open>g_set_error (err, \<dots>)\<close> on a location that already holds an error leaves that error in place
  (GLib only logs a warning).
\<close>

definition g_set_error :: "gerror option \<Rightarrow> gerror \<Rightarrow> gerror option" where
  "g_set_error loc e = (case loc of None \<Rightarrow> Some e | Some e' \<Rightarrow> Some e')"

type_synonym 'a result = "gerror + 'a"

definition ebind :: "'a result \<Rightarrow> ('a \<Rightarrow> 'b result) \<Rightarrow> 'b result" where
  "ebind m f = (case m of Inl e \<Rightarrow> Inl e | Inr x \<Rightarrow> f x)"

lemma ebind_simps [simp]: "ebind (Inl e) f = Inl e" "ebind (Inr x) f = f x"
  by (simp_all add: ebind_def)

lemma ebind_Inr_iff [result_simps]: "ebind m f = Inr y \<longleftrightarrow> (\<exists>x. m = Inr x \<and> f x = Inr y)"
  by (cases m) auto

lemma ebind_Inl_iff:
  "ebind m f = Inl e \<longleftrightarrow> m = Inl e \<or> (\<exists>x. m = Inr x \<and> f x = Inl e)"
  by (cases m) auto

lemma if_Inl_eq_Inr [result_simps]: "(if b then Inl e else r) = Inr y \<longleftrightarrow> \<not> b \<and> r = Inr y"
  by auto

lemma if_Inr_eq_Inr [result_simps]: "(if b then r else Inl e) = Inr y \<longleftrightarrow> b \<and> r = Inr y"
  by auto

text \<open>A loop that stops at the first failing element.\<close>

fun eloop :: "(nat \<Rightarrow> 'a \<Rightarrow> 'b result) \<Rightarrow> nat \<Rightarrow> 'a list \<Rightarrow> 'b list result" where
  "eloop f i [] = Inr []"
| "eloop f i (x # xs) = ebind (f i x) (\<lambda>y. ebind (eloop f (Suc i) xs) (\<lambda>ys. Inr (y # ys)))"

lemma eloop_length: "eloop f i xs = Inr ys \<Longrightarrow> length ys = length xs"
  by (induction f i xs arbitrary: ys rule: eloop.induct) (auto simp: result_simps)

lemma eloop_nth:
  "eloop f i xs = Inr ys \<Longrightarrow> n < length xs \<Longrightarrow> f (i + n) (xs ! n) = Inr (ys ! n)"
proof (induction f i xs arbitrary: ys n rule: eloop.induct)
  case (2 f i x xs)
  then obtain y zs where y: "f i x = Inr y" and zs: "eloop f (Suc i) xs = Inr zs" and ys: "ys = y # zs"
    by (auto simp: result_simps)
  show ?case
  proof (cases n)
    case 0
    with y ys show ?thesis by simp
  next
    case (Suc m)
    with "2.IH"[OF zs, of m] "2.prems"(2) ys show ?thesis by simp
  qed
qed simp

lemma eloop_all:
  assumes "eloop f i xs = Inr ys" and "\<And>j x y. f j x = Inr y \<Longrightarrow> P y"
  shows "list_all P ys"
  using assms
  by (induction f i xs arbitrary: ys rule: eloop.induct) (auto simp: result_simps)

lemma eloop_ok_iff:
  "(\<exists>ys. eloop f i xs = Inr ys) \<longleftrightarrow> (\<forall>n < length xs. \<exists>y. f (i + n) (xs ! n) = Inr y)"
proof (induction f i xs rule: eloop.induct)
  case (2 f i x xs)
  show ?case
  proof (cases "f i x")
    case (Inl e)
    then show ?thesis by force
  next
    case (Inr y)
    have split: "(\<forall>n < length (x # xs). Q n) \<longleftrightarrow> Q 0 \<and> (\<forall>n < length xs. Q (Suc n))" for Q
      by (auto simp: less_Suc_eq_0_disj)
    show ?thesis
      unfolding split using 2 Inr
      by (auto simp: result_simps)
  qed
qed simp

subsection \<open>Integer conversions\<close>

definition to_guint :: "int \<Rightarrow> nat" where
  "to_guint x = nat (x mod 2 ^ 32)"

definition to_gint :: "int \<Rightarrow> int" where
  "to_gint x = (x + 2 ^ 31) mod 2 ^ 32 - 2 ^ 31"

lemma to_guint_bound: "to_guint x < 2 ^ 32"
  by (simp add: to_guint_def nat_less_iff)

lemma to_guint_lt [simp]: "to_guint x < 4294967296"
  using to_guint_bound [of x] by simp

lemma to_guint_id: "0 \<le> x \<Longrightarrow> x < 2 ^ 32 \<Longrightarrow> to_guint x = nat x"
  by (simp add: to_guint_def)

lemma to_gint_id: "- (2 ^ 31) \<le> x \<Longrightarrow> x < 2 ^ 31 \<Longrightarrow> to_gint x = x"
  by (simp add: to_gint_def)

lemma to_gint_range: "- (2 ^ 31) \<le> to_gint x \<and> to_gint x < 2 ^ 31"
  by (simp add: to_gint_def)

subsection \<open>Printing integers\<close>

fun show_nat :: "nat \<Rightarrow> string" where
  "show_nat n = (if n < 10 then [char_of (48 + n)]
                 else show_nat (n div 10) @ [char_of (48 + n mod 10)])"

declare show_nat.simps [simp del]

definition show_int :: "int \<Rightarrow> string" where
  "show_int i = (if i < 0 then CHR ''-'' # show_nat (nat (- i)) else show_nat (nat i))"

text \<open>The digits determine the number: reading them back is the inverse of printing.\<close>

definition read_nat :: "string \<Rightarrow> nat" where
  "read_nat s = foldl (\<lambda>a c. 10 * a + (of_char c - 48)) 0 s"

lemma of_char_digit: "d < 10 \<Longrightarrow> (of_char (char_of (48 + d :: nat)) :: nat) = 48 + d"
  by (simp add: of_char_of)

lemma read_show_nat [str_simps]: "read_nat (show_nat n) = n"
proof (induction n rule: show_nat.induct)
  case (1 n)
  show ?case
  proof (cases "n < 10")
    case True
    then show ?thesis
      by (subst show_nat.simps) (simp add: read_nat_def of_char_digit)
  next
    case False
    with 1 have IH: "read_nat (show_nat (n div 10)) = n div 10" by simp
    have "n mod 10 < 10" by simp
    with False IH show ?thesis
      by (subst show_nat.simps) (simp add: read_nat_def of_char_digit)
  qed
qed

lemma show_nat_inj: "show_nat m = show_nat n \<longleftrightarrow> m = n"
  by (metis read_show_nat)

lemma show_nat_digits: "c \<in> set (show_nat n) \<Longrightarrow> 48 \<le> (of_char c :: nat) \<and> (of_char c :: nat) < 58"
proof (induction n rule: show_nat.induct)
  case (1 n)
  show ?case
  proof (cases "n < 10")
    case True
    with 1 show ?thesis by (simp add: show_nat.simps of_char_digit)
  next
    case False
    have "n mod 10 < 10" by simp
    with 1 False show ?thesis
      by (subst (asm) (2) show_nat.simps) (auto simp: of_char_digit)
  qed
qed

lemma show_nat_nonempty [simp]: "show_nat n \<noteq> []"
  by (subst show_nat.simps) simp

lemma minus_not_digit: "CHR ''-'' \<notin> set (show_nat n)"
  using show_nat_digits [of "CHR ''-''" n] by (auto simp: of_char_def)

lemma show_int_inj: "show_int i = show_int j \<longleftrightarrow> i = j"
proof -
  have "show_nat m \<noteq> CHR ''-'' # cs" for m cs
    using minus_not_digit [of m] by (metis list.set_intros(1))
  moreover have "CHR ''-'' # cs \<noteq> show_nat m" for m cs
    using minus_not_digit [of m] by (metis list.set_intros(1))
  ultimately show ?thesis
    by (auto simp: show_int_def show_nat_inj)
qed

text \<open>A printed number ends where the next separator begins.\<close>

lemma append_sep_eq:
  "x \<notin> set xs \<Longrightarrow> x \<notin> set ys \<Longrightarrow> xs @ x # s = ys @ x # t \<longleftrightarrow> xs = ys \<and> s = t"
  by (induction xs arbitrary: ys) (case_tac ys; auto)+

lemma show_nat_sep [str_simps]:
  "show_nat m @ CHR ''-'' # s = show_nat n @ CHR ''-'' # t \<longleftrightarrow> m = n \<and> s = t"
  by (simp add: append_sep_eq minus_not_digit show_nat_inj)

lemma show_int_sep [str_simps]:
  "show_int i @ CHR ''-'' # s = show_int j @ CHR ''-'' # t \<longleftrightarrow> i = j \<and> s = t"
proof -
  have mixed: "show_nat m @ u \<noteq> CHR ''-'' # v" for m u v
    using minus_not_digit [of m] show_nat_nonempty [of m]
    by (cases "show_nat m") auto
  show ?thesis
    using mixed mixed [THEN not_sym] by (auto simp: show_int_def show_nat_sep)
qed

subsection \<open>GLib string helpers\<close>

definition has_prefix :: "string \<Rightarrow> string \<Rightarrow> bool" where
  "has_prefix s p \<longleftrightarrow> take (length p) s = p"

definition has_suffix :: "string \<Rightarrow> string \<Rightarrow> bool" where
  "has_suffix s p \<longleftrightarrow> length p \<le> length s \<and> drop (length s - length p) s = p"

lemma has_prefix_iff: "has_prefix s p \<longleftrightarrow> prefix p s"
  by (auto simp: has_prefix_def prefix_def) (metis append_take_drop_id)

text \<open>\<open>g_ascii_isspace\<close>: space, tab, newline, form feed, carriage return (not vertical tab).\<close>

definition g_ascii_isspace :: "char \<Rightarrow> bool" where
  "g_ascii_isspace c \<longleftrightarrow> c \<in> {CHR '' '', CHR 0x09, CHR 0x0A, CHR 0x0C, CHR 0x0D}"

definition g_strchomp :: "string \<Rightarrow> string" where
  "g_strchomp s = rev (dropWhile g_ascii_isspace (rev s))"

definition g_strstrip :: "string \<Rightarrow> string" where
  "g_strstrip s = g_strchomp (dropWhile g_ascii_isspace s)"

text \<open>\<open>strrchr (s, c)\<close> as the part of \<open>s\<close> after the last \<open>c\<close>, if there is one.\<close>

definition after_last :: "char \<Rightarrow> string \<Rightarrow> string option" where
  "after_last c s = (if c \<in> set s then Some (rev (takeWhile (\<lambda>d. d \<noteq> c) (rev s))) else None)"

end
