(* ===== verification/Floats.thy ===== *)
theory Floats
  imports Complex_Main "HOL-Library.Log_Nat" Prelude
begin

text \<open>
  C's \<open>float\<close> and \<open>double\<close>.  A value is NaN, an infinity or a finite number, which is the exact
  rational it denotes; the arithmetic operations compute the exact result and round it to the
  format, to nearest with ties to even, as IEEE 754 prescribes.  The order is IEEE's: every
  comparison with a NaN is false, so it is an instance of \<open>ord\<close> only.  The two zeros are not told
  apart (no modelled code divides by a zero it could see the sign of).
\<close>

datatype flt = NaN | Inf bool | Fin rat

subsection \<open>Comparison\<close>

instantiation flt :: ord
begin

fun less_flt :: "flt \<Rightarrow> flt \<Rightarrow> bool" where
  "less_flt (Fin x) (Fin y) = (x < y)"
| "less_flt (Fin x) (Inf s) = s"
| "less_flt (Inf s) (Fin y) = (\<not> s)"
| "less_flt (Inf s) (Inf t) = (\<not> s \<and> t)"
| "less_flt _ _ = False"

fun less_eq_flt :: "flt \<Rightarrow> flt \<Rightarrow> bool" where
  "less_eq_flt (Fin x) (Fin y) = (x \<le> y)"
| "less_eq_flt (Fin x) (Inf s) = s"
| "less_eq_flt (Inf s) (Fin y) = (\<not> s)"
| "less_eq_flt (Inf s) (Inf t) = (s \<longrightarrow> t)"
| "less_eq_flt _ _ = False"

instance ..

end

text \<open>\<open>a == b\<close> on floating-point operands.\<close>

definition feq :: "flt \<Rightarrow> flt \<Rightarrow> bool" where
  "feq x y \<longleftrightarrow> x \<noteq> NaN \<and> x = y"

definition isnan_flt :: "flt \<Rightarrow> bool" where
  "isnan_flt x \<longleftrightarrow> x = NaN"

definition isfinite_flt :: "flt \<Rightarrow> bool" where
  "isfinite_flt x \<longleftrightarrow> (case x of Fin _ \<Rightarrow> True | _ \<Rightarrow> False)"

lemma flt_less_irrefl [simp]: "\<not> x < (x :: flt)"
  by (cases x) auto

lemma flt_less_imp_le: "x < y \<Longrightarrow> x \<le> (y :: flt)"
  by (cases x; cases y) auto

lemma flt_not_less_iff: "x \<noteq> NaN \<Longrightarrow> y \<noteq> NaN \<Longrightarrow> \<not> x < y \<longleftrightarrow> y \<le> (x :: flt)"
  by (cases x; cases y) auto

lemma flt_le_refl_iff [simp]: "x \<le> x \<longleftrightarrow> x \<noteq> (NaN :: flt)"
  by (cases x) auto

lemma flt_le_trans: "x \<le> y \<Longrightarrow> y \<le> z \<Longrightarrow> x \<le> (z :: flt)"
  by (cases x; cases y; cases z) auto

lemma flt_le_not_nan: "x \<le> y \<Longrightarrow> x \<noteq> NaN \<and> y \<noteq> (NaN :: flt)"
  by (cases x; cases y) auto

lemma flt_less_not_nan: "x < y \<Longrightarrow> x \<noteq> NaN \<and> y \<noteq> (NaN :: flt)"
  by (cases x; cases y) auto

lemma flt_nan_cmp [simp]: "\<not> NaN < x" "\<not> x < NaN" "\<not> NaN \<le> x" "\<not> x \<le> (NaN :: flt)"
  by (cases x; simp)+

subsection \<open>Rounding\<close>

definition pow2 :: "int \<Rightarrow> rat" where
  "pow2 k = (if 0 \<le> k then 2 ^ nat k else 1 / 2 ^ nat (- k))"

text \<open>The exponent \<open>e\<close> with \<open>2 ^ e \<le> x < 2 ^ (e + 1)\<close>, for a positive \<open>x\<close>.\<close>

definition ilog2 :: "rat \<Rightarrow> int" where
  "ilog2 x = (let (n, d) = quotient_of x; k = bitlen n - bitlen d
              in if pow2 k \<le> x then k else k - 1)"

definition round_even :: "rat \<Rightarrow> int" where
  "round_even x =
     (let f = \<lfloor>x\<rfloor>; r = x - of_int f
      in if r < 1 / 2 then f else if r > 1 / 2 then f + 1 else if even f then f else f + 1)"

definition fl_round :: "int \<Rightarrow> int \<Rightarrow> int \<Rightarrow> rat \<Rightarrow> flt" where
  "fl_round prec emin emax x =
     (if x = 0 then Fin 0
      else let e = max (ilog2 \<bar>x\<bar>) emin;
               u = pow2 (e - (prec - 1));
               y = of_int (round_even (x / u)) * u
           in if pow2 (emax + 1) \<le> \<bar>y\<bar> then Inf (0 < y) else Fin y)"

definition round64 :: "rat \<Rightarrow> flt" where
  "round64 = fl_round 53 (- 1022) 1023"

definition round32 :: "rat \<Rightarrow> flt" where
  "round32 = fl_round 24 (- 126) 127"

text \<open>The conversion from \<open>double\<close> to \<open>float\<close>; the other direction is exact.\<close>

definition to_float :: "flt \<Rightarrow> flt" where
  "to_float x = (case x of Fin q \<Rightarrow> round32 q | _ \<Rightarrow> x)"

lemma fl_round_not_nan [simp]: "fl_round p a b x \<noteq> NaN"
  by (auto simp: fl_round_def Let_def)

lemma round_not_nan [simp]: "round64 x \<noteq> NaN" "round32 x \<noteq> NaN"
  by (simp_all add: round64_def round32_def)

lemma round_zero [simp]: "round64 0 = Fin 0" "round32 0 = Fin 0"
  by (simp_all add: round64_def round32_def fl_round_def)

subsection \<open>Arithmetic\<close>

text \<open>Each operation takes the rounding of its format as its first argument.\<close>

fun fadd :: "(rat \<Rightarrow> flt) \<Rightarrow> flt \<Rightarrow> flt \<Rightarrow> flt" where
  "fadd r (Fin x) (Fin y) = r (x + y)"
| "fadd r (Fin x) (Inf s) = Inf s"
| "fadd r (Inf s) (Fin y) = Inf s"
| "fadd r (Inf s) (Inf t) = (if s = t then Inf s else NaN)"
| "fadd r _ _ = NaN"

fun fneg :: "flt \<Rightarrow> flt" where
  "fneg (Fin x) = Fin (- x)"
| "fneg (Inf s) = Inf (\<not> s)"
| "fneg NaN = NaN"

definition fsub :: "(rat \<Rightarrow> flt) \<Rightarrow> flt \<Rightarrow> flt \<Rightarrow> flt" where
  "fsub r x y = fadd r x (fneg y)"

fun fmul :: "(rat \<Rightarrow> flt) \<Rightarrow> flt \<Rightarrow> flt \<Rightarrow> flt" where
  "fmul r (Fin x) (Fin y) = r (x * y)"
| "fmul r (Fin x) (Inf s) = (if x = 0 then NaN else Inf (s = (0 < x)))"
| "fmul r (Inf s) (Fin y) = (if y = 0 then NaN else Inf (s = (0 < y)))"
| "fmul r (Inf s) (Inf t) = Inf (s = t)"
| "fmul r _ _ = NaN"

fun fdiv :: "(rat \<Rightarrow> flt) \<Rightarrow> flt \<Rightarrow> flt \<Rightarrow> flt" where
  "fdiv r (Fin x) (Fin y) = (if y = 0 then (if x = 0 then NaN else Inf (0 < x)) else r (x / y))"
| "fdiv r (Fin x) (Inf s) = Fin 0"
| "fdiv r (Inf s) (Fin y) = Inf (s = (0 \<le> y))"
| "fdiv r _ _ = NaN"

fun fabs_flt :: "flt \<Rightarrow> flt" where
  "fabs_flt (Fin x) = Fin \<bar>x\<bar>"
| "fabs_flt (Inf s) = Inf True"
| "fabs_flt NaN = NaN"

text \<open>
  \<open>lrint\<close> in the default rounding mode.  On a value no \<open>long\<close> can hold the C standard leaves the
  result open; the model returns what x86-64 does.
\<close>

definition lrint :: "flt \<Rightarrow> int" where
  "lrint x = (case x of Fin q \<Rightarrow> round_even q | _ \<Rightarrow> - (2 ^ 63))"

subsection \<open>The macros \<open>MIN\<close>, \<open>MAX\<close>, \<open>CLAMP\<close> and \<open>CLAMPS\<close>\<close>

definition MAXf :: "flt \<Rightarrow> flt \<Rightarrow> flt" where
  "MAXf a b = (if b < a then a else b)"

definition MINf :: "flt \<Rightarrow> flt \<Rightarrow> flt" where
  "MINf a b = (if a < b then a else b)"

text \<open>GLib's \<open>CLAMP (x, low, high)\<close>: a NaN goes through.\<close>

definition CLAMPf :: "flt \<Rightarrow> flt \<Rightarrow> flt \<Rightarrow> flt" where
  "CLAMPf x low high = (if high < x then high else if x < low then low else x)"

text \<open>darktable's \<open>CLAMPS (A, L, H)\<close>: a NaN becomes \<open>L\<close>.\<close>

definition CLAMPS :: "flt \<Rightarrow> flt \<Rightarrow> flt \<Rightarrow> flt" where
  "CLAMPS a l h = (if l < a then (if a < h then a else h) else l)"

definition CLAMPi :: "int \<Rightarrow> int \<Rightarrow> int \<Rightarrow> int" where
  "CLAMPi x low high = (if high < x then high else if x < low then low else x)"

lemma CLAMPf_range:
  "low \<le> high \<Longrightarrow> x \<noteq> NaN \<Longrightarrow> low \<le> CLAMPf x low high \<and> CLAMPf x low high \<le> high"
  by (cases x; cases low; cases high) (auto simp: CLAMPf_def split: if_splits)

lemma CLAMPf_id: "low \<le> x \<Longrightarrow> x \<le> high \<Longrightarrow> CLAMPf x low high = x"
  by (cases x; cases low; cases high) (auto simp: CLAMPf_def)

lemma CLAMPf_nan [simp]: "CLAMPf NaN low high = NaN"
  by (simp add: CLAMPf_def)

lemma CLAMPS_range: "l \<le> h \<Longrightarrow> l \<le> CLAMPS a l h \<and> CLAMPS a l h \<le> h"
  by (cases a; cases l; cases h) (auto simp: CLAMPS_def)

lemma CLAMPi_range: "low \<le> high \<Longrightarrow> low \<le> CLAMPi x low high \<and> CLAMPi x low high \<le> high"
  by (auto simp: CLAMPi_def)

lemma CLAMPi_id: "low \<le> x \<Longrightarrow> x \<le> high \<Longrightarrow> CLAMPi x low high = x"
  by (auto simp: CLAMPi_def)

end
