(* ===== verification/Json.thy ===== *)
theory Json
  imports Floats
begin

text \<open>
  The JSON tree of json-glib, the library the code reads and writes messages with: the node kinds
  that \<open>JSON_NODE_HOLDS_NULL\<close>, \<open>_VALUE\<close>, \<open>_ARRAY\<close> and \<open>_OBJECT\<close> distinguish, with the value types
  \<open>G_TYPE_BOOLEAN\<close>, \<open>G_TYPE_INT64\<close>, \<open>G_TYPE_DOUBLE\<close> and \<open>G_TYPE_STRING\<close> (a number without a
  fraction or an exponent is an \<open>INT64\<close> node).  Text is turned into a tree by a \<open>JsonParser\<close> and a
  tree into text by a \<open>JsonGenerator\<close>; neither is part of the repository, so every definition that
  uses one takes it as an argument, of type \<open>json_loader\<close> or \<open>json_printer\<close>.
  A \<open>JsonBuilder\<close> session is written as the tree it builds.
\<close>

datatype json =
    JNull
  | JBool bool
  | JInt int
  | JDouble flt
  | JString string
  | JArray "json list"
  | JObject "(string \<times> json) list"

type_synonym json_object = "(string \<times> json) list"

text \<open>\<open>json_parser_load_from_data\<close> (text, length) and the parser's root, which can be NULL.\<close>

type_synonym json_loader = "string \<Rightarrow> int \<Rightarrow> json option result"

text \<open>\<open>json_generator_to_data\<close>: NULL if it cannot print the tree.\<close>

type_synonym json_printer = "json \<Rightarrow> cstr"

definition json_object_has_member :: "json_object \<Rightarrow> string \<Rightarrow> bool" where
  "json_object_has_member obj m \<longleftrightarrow> map_of obj m \<noteq> None"

definition json_object_get_member :: "json_object \<Rightarrow> string \<Rightarrow> json option" where
  "json_object_get_member obj m = map_of obj m"

text \<open>
  \<open>json_builder_add_string_value\<close> with a NULL string adds a null node.
\<close>

definition js_str :: "cstr \<Rightarrow> json" where
  "js_str s = (case s of None \<Rightarrow> JNull | Some cs \<Rightarrow> JString cs)"

text \<open>The code's pattern \<open>if(has) add_\<dots>_value (v) else add_null_value ()\<close>.\<close>

definition js_if :: "bool \<Rightarrow> json \<Rightarrow> json" where
  "js_if has v = (if has then v else JNull)"

lemma js_str_simps [simp]: "js_str None = JNull" "js_str (Some cs) = JString cs"
  by (simp_all add: js_str_def)

lemma js_if_simps [simp]: "js_if True v = v" "js_if False v = JNull"
  by (simp_all add: js_if_def)

lemma js_str_eq_JString [simp]: "js_str s = JString cs \<longleftrightarrow> s = Some cs"
  by (cases s) simp_all

lemma json_member_Nil [simp]:
  "\<not> json_object_has_member [] m" "json_object_get_member [] m = None"
  by (simp_all add: json_object_has_member_def json_object_get_member_def)

lemma json_member_Cons [simp]:
  "json_object_has_member ((k, v) # obj) m \<longleftrightarrow> k = m \<or> json_object_has_member obj m"
  "json_object_get_member ((k, v) # obj) m
     = (if k = m then Some v else json_object_get_member obj m)"
  by (auto simp: json_object_has_member_def json_object_get_member_def)

lemma json_has_member_iff:
  "json_object_has_member obj m \<longleftrightarrow> (\<exists>v. json_object_get_member obj m = Some v)"
  by (auto simp: json_object_has_member_def json_object_get_member_def)

end
