(* ===== verification/Protocol_Types.thy ===== *)
theory Protocol_Types
  imports Json
begin

text \<open>
  The data of the chat protocol, from \<open>agent_capabilities.h\<close>, \<open>agent_state.h\<close> and
  \<open>agent_protocol.h\<close>: the choice options and capabilities of the manifest, the image state of a
  request, requests, operations and responses; the init, clear and copy functions of each, and the
  string forms of the three enums.  Arrays of pointers are lists; a NULL array is \<open>None\<close> where the
  code tests for one.  A zeroed struct (\<open>g_new0\<close>, \<open>memset\<close>) is a \<open>zero_\<dots>\<close> constant.
  Record fields carry a prefix because Isabelle's field names are global.
\<close>

unbundle bit_operations_syntax

subsection \<open>Choice options and capabilities\<close>

record dt_agent_choice_option =
  opt_choice_value :: int
  opt_choice_id :: cstr
  opt_label :: cstr

record dt_agent_capability =
  cap_module_id :: cstr
  cap_module_label :: cstr
  cap_capability_id :: cstr
  cap_label :: cstr
  cap_kind :: cstr
  cap_target_type :: cstr
  cap_action_path :: cstr
  cap_supported_modes :: "32 word"
  cap_min_number :: flt
  cap_max_number :: flt
  cap_default_number :: flt
  cap_step_number :: flt
  cap_choices :: "dt_agent_choice_option list option"
  cap_has_default_choice_value :: bool
  cap_default_choice_value :: int
  cap_has_default_bool :: bool
  cap_default_bool :: bool

definition zero_choice_option :: dt_agent_choice_option where
  "zero_choice_option = \<lparr>opt_choice_value = 0, opt_choice_id = None, opt_label = None\<rparr>"

definition dt_agent_choice_option_copy :: "dt_agent_choice_option \<Rightarrow> dt_agent_choice_option" where
  "dt_agent_choice_option_copy src = zero_choice_option
     \<lparr>opt_choice_value := opt_choice_value src,
      opt_choice_id := opt_choice_id src,
      opt_label := opt_label src\<rparr>"

lemma dt_agent_choice_option_copy_id [copy_simps]: "dt_agent_choice_option_copy src = src"
  by (simp add: dt_agent_choice_option_copy_def zero_choice_option_def)

text \<open>The loop that every owner of a choices array copies it with.\<close>

definition copy_choices ::
  "dt_agent_choice_option list option \<Rightarrow> dt_agent_choice_option list option" where
  "copy_choices choices =
     (case choices of None \<Rightarrow> None | Some os \<Rightarrow> Some (map dt_agent_choice_option_copy os))"

lemma copy_choices_id [copy_simps]: "copy_choices choices = choices"
  by (cases choices) (simp_all add: copy_choices_def dt_agent_choice_option_copy_id map_idI)

definition zero_capability :: dt_agent_capability where
  "zero_capability = \<lparr>cap_module_id = None, cap_module_label = None, cap_capability_id = None,
     cap_label = None, cap_kind = None, cap_target_type = None, cap_action_path = None,
     cap_supported_modes = 0, cap_min_number = Fin 0, cap_max_number = Fin 0,
     cap_default_number = Fin 0, cap_step_number = Fin 0, cap_choices = None,
     cap_has_default_choice_value = False, cap_default_choice_value = 0,
     cap_has_default_bool = False, cap_default_bool = False\<rparr>"

definition dt_agent_capability_copy :: "dt_agent_capability \<Rightarrow> dt_agent_capability" where
  "dt_agent_capability_copy src = zero_capability
     \<lparr>cap_module_id := cap_module_id src,
      cap_module_label := cap_module_label src,
      cap_capability_id := cap_capability_id src,
      cap_label := cap_label src,
      cap_kind := cap_kind src,
      cap_target_type := cap_target_type src,
      cap_action_path := cap_action_path src,
      cap_supported_modes := cap_supported_modes src,
      cap_min_number := cap_min_number src,
      cap_max_number := cap_max_number src,
      cap_default_number := cap_default_number src,
      cap_step_number := cap_step_number src,
      cap_choices := copy_choices (cap_choices src),
      cap_has_default_choice_value := cap_has_default_choice_value src,
      cap_default_choice_value := cap_default_choice_value src,
      cap_has_default_bool := cap_has_default_bool src,
      cap_default_bool := cap_default_bool src\<rparr>"

lemma dt_agent_capability_copy_id [copy_simps]: "dt_agent_capability_copy src = src"
  by (simp add: dt_agent_capability_copy_def zero_capability_def copy_simps)

subsection \<open>The image state\<close>

record dt_agent_image_metadata =
  md_has_image_id :: bool
  md_image_id :: int
  md_image_name :: cstr
  md_camera_maker :: cstr
  md_camera_model :: cstr
  md_width :: int
  md_height :: int
  md_exif_exposure_seconds :: flt
  md_exif_aperture :: flt
  md_exif_iso :: flt
  md_exif_focal_length :: flt

record dt_agent_image_control =
  ctl_module_id :: cstr
  ctl_module_label :: cstr
  ctl_setting_id :: cstr
  ctl_capability_id :: cstr
  ctl_label :: cstr
  ctl_kind :: cstr
  ctl_action_path :: cstr
  ctl_supported_modes :: "32 word"
  ctl_has_current_number :: bool
  ctl_current_number :: flt
  ctl_choices :: "dt_agent_choice_option list option"
  ctl_has_default_choice_value :: bool
  ctl_default_choice_value :: int
  ctl_has_current_choice_value :: bool
  ctl_current_choice_value :: int
  ctl_current_choice_id :: cstr
  ctl_has_default_bool :: bool
  ctl_default_bool :: bool
  ctl_has_current_bool :: bool
  ctl_current_bool :: bool
  ctl_min_number :: flt
  ctl_max_number :: flt
  ctl_default_number :: flt
  ctl_step_number :: flt

record dt_agent_history_item =
  hi_num :: int
  hi_module :: cstr
  hi_enabled :: bool
  hi_multi_priority :: int
  hi_instance_name :: cstr
  hi_iop_order :: int

record dt_agent_preview =
  pv_available :: bool
  pv_preview_id :: cstr
  pv_mime_type :: cstr
  pv_width :: int
  pv_height :: int
  pv_base64_data :: cstr

text \<open>The four bin arrays are \<open>guint32[256]\<close>.\<close>

record dt_agent_histogram =
  hg_available :: bool
  hg_bin_count :: int
  hg_red :: "32 word list"
  hg_green :: "32 word list"
  hg_blue :: "32 word list"
  hg_luma :: "32 word list"

record dt_agent_image_state =
  st_history_position :: int
  st_history_count :: int
  st_metadata :: dt_agent_image_metadata
  st_controls :: "dt_agent_image_control list option"
  st_history :: "dt_agent_history_item list option"
  st_preview :: dt_agent_preview
  st_histogram :: dt_agent_histogram

definition zero_metadata :: dt_agent_image_metadata where
  "zero_metadata = \<lparr>md_has_image_id = False, md_image_id = 0, md_image_name = None,
     md_camera_maker = None, md_camera_model = None, md_width = 0, md_height = 0,
     md_exif_exposure_seconds = Fin 0, md_exif_aperture = Fin 0, md_exif_iso = Fin 0,
     md_exif_focal_length = Fin 0\<rparr>"

definition zero_control :: dt_agent_image_control where
  "zero_control = \<lparr>ctl_module_id = None, ctl_module_label = None, ctl_setting_id = None,
     ctl_capability_id = None, ctl_label = None, ctl_kind = None, ctl_action_path = None,
     ctl_supported_modes = 0, ctl_has_current_number = False, ctl_current_number = Fin 0,
     ctl_choices = None, ctl_has_default_choice_value = False, ctl_default_choice_value = 0,
     ctl_has_current_choice_value = False, ctl_current_choice_value = 0,
     ctl_current_choice_id = None, ctl_has_default_bool = False, ctl_default_bool = False,
     ctl_has_current_bool = False, ctl_current_bool = False, ctl_min_number = Fin 0,
     ctl_max_number = Fin 0, ctl_default_number = Fin 0, ctl_step_number = Fin 0\<rparr>"

definition zero_history_item :: dt_agent_history_item where
  "zero_history_item = \<lparr>hi_num = 0, hi_module = None, hi_enabled = False,
     hi_multi_priority = 0, hi_instance_name = None, hi_iop_order = 0\<rparr>"

definition zero_preview :: dt_agent_preview where
  "zero_preview = \<lparr>pv_available = False, pv_preview_id = None, pv_mime_type = None,
     pv_width = 0, pv_height = 0, pv_base64_data = None\<rparr>"

definition zero_histogram :: dt_agent_histogram where
  "zero_histogram = \<lparr>hg_available = False, hg_bin_count = 0, hg_red = replicate 256 0,
     hg_green = replicate 256 0, hg_blue = replicate 256 0, hg_luma = replicate 256 0\<rparr>"

definition zero_image_state :: dt_agent_image_state where
  "zero_image_state = \<lparr>st_history_position = 0, st_history_count = 0,
     st_metadata = zero_metadata, st_controls = None, st_history = None,
     st_preview = zero_preview, st_histogram = zero_histogram\<rparr>"

text \<open>
  The elements of a \<open>GPtrArray\<close> that the code walks without a NULL test.  Walking a NULL array is a
  crash in C; the model returns no elements there, and a property whose code would walk one assumes
  \<open>image_state_ready\<close>: the two arrays of the image state exist, as they do after
  \<open>dt_agent_image_state_init\<close> and until \<open>dt_agent_image_state_clear\<close>.
\<close>

definition garray :: "'a list option \<Rightarrow> 'a list" where
  "garray a = (case a of None \<Rightarrow> [] | Some xs \<Rightarrow> xs)"

lemma garray_simps [simp]: "garray None = []" "garray (Some xs) = xs"
  by (simp_all add: garray_def)

definition image_state_ready :: "dt_agent_image_state \<Rightarrow> bool" where
  "image_state_ready st \<longleftrightarrow> st_controls st \<noteq> None \<and> st_history st \<noteq> None"

definition dt_agent_image_state_init :: dt_agent_image_state where
  "dt_agent_image_state_init = zero_image_state\<lparr>st_controls := Some [], st_history := Some []\<rparr>"

definition dt_agent_image_state_clear :: "dt_agent_image_state \<Rightarrow> dt_agent_image_state" where
  "dt_agent_image_state_clear st = zero_image_state"

lemma init_ready [simp]: "image_state_ready dt_agent_image_state_init"
  by (simp add: image_state_ready_def dt_agent_image_state_init_def)

definition agent_image_control_copy :: "dt_agent_image_control \<Rightarrow> dt_agent_image_control" where
  "agent_image_control_copy src = zero_control
     \<lparr>ctl_module_id := ctl_module_id src,
      ctl_module_label := ctl_module_label src,
      ctl_setting_id := ctl_setting_id src,
      ctl_capability_id := ctl_capability_id src,
      ctl_label := ctl_label src,
      ctl_kind := ctl_kind src,
      ctl_action_path := ctl_action_path src,
      ctl_supported_modes := ctl_supported_modes src,
      ctl_has_current_number := ctl_has_current_number src,
      ctl_current_number := ctl_current_number src,
      ctl_choices := copy_choices (ctl_choices src),
      ctl_has_default_choice_value := ctl_has_default_choice_value src,
      ctl_default_choice_value := ctl_default_choice_value src,
      ctl_has_current_choice_value := ctl_has_current_choice_value src,
      ctl_current_choice_value := ctl_current_choice_value src,
      ctl_current_choice_id := ctl_current_choice_id src,
      ctl_has_default_bool := ctl_has_default_bool src,
      ctl_default_bool := ctl_default_bool src,
      ctl_has_current_bool := ctl_has_current_bool src,
      ctl_current_bool := ctl_current_bool src,
      ctl_min_number := ctl_min_number src,
      ctl_max_number := ctl_max_number src,
      ctl_default_number := ctl_default_number src,
      ctl_step_number := ctl_step_number src\<rparr>"

lemma agent_image_control_copy_id [copy_simps]: "agent_image_control_copy src = src"
  by (simp add: agent_image_control_copy_def zero_control_def copy_simps)

definition agent_history_item_copy :: "dt_agent_history_item \<Rightarrow> dt_agent_history_item" where
  "agent_history_item_copy src = zero_history_item
     \<lparr>hi_num := hi_num src,
      hi_module := hi_module src,
      hi_enabled := hi_enabled src,
      hi_multi_priority := hi_multi_priority src,
      hi_instance_name := hi_instance_name src,
      hi_iop_order := hi_iop_order src\<rparr>"

lemma agent_history_item_copy_id [copy_simps]: "agent_history_item_copy src = src"
  by (simp add: agent_history_item_copy_def zero_history_item_def)

definition dt_agent_image_state_copy :: "dt_agent_image_state \<Rightarrow> dt_agent_image_state" where
  "dt_agent_image_state_copy src =
     (let dest = dt_agent_image_state_init;
          m = st_metadata src;
          p = st_preview src;
          h = st_histogram src
      in dest
        \<lparr>st_history_position := st_history_position src,
         st_history_count := st_history_count src,
         st_metadata := (st_metadata dest)
           \<lparr>md_has_image_id := md_has_image_id m,
            md_image_id := md_image_id m,
            md_image_name := md_image_name m,
            md_camera_maker := md_camera_maker m,
            md_camera_model := md_camera_model m,
            md_width := md_width m,
            md_height := md_height m,
            md_exif_exposure_seconds := md_exif_exposure_seconds m,
            md_exif_aperture := md_exif_aperture m,
            md_exif_iso := md_exif_iso m,
            md_exif_focal_length := md_exif_focal_length m\<rparr>,
         st_controls := Some (garray (st_controls dest)
                               @ map agent_image_control_copy (garray (st_controls src))),
         st_history := Some (garray (st_history dest)
                              @ map agent_history_item_copy (garray (st_history src))),
         st_preview := (st_preview dest)
           \<lparr>pv_available := pv_available p,
            pv_preview_id := pv_preview_id p,
            pv_mime_type := pv_mime_type p,
            pv_width := pv_width p,
            pv_height := pv_height p,
            pv_base64_data := pv_base64_data p\<rparr>,
         st_histogram := (st_histogram dest)
           \<lparr>hg_available := hg_available h,
            hg_bin_count := hg_bin_count h,
            hg_red := hg_red h,
            hg_green := hg_green h,
            hg_blue := hg_blue h,
            hg_luma := hg_luma h\<rparr>\<rparr>)"

lemma dt_agent_image_state_copy_id [copy_simps]:
  "image_state_ready src \<Longrightarrow> dt_agent_image_state_copy src = src"
  by (cases src) (auto simp: dt_agent_image_state_copy_def dt_agent_image_state_init_def Let_def
        zero_image_state_def zero_metadata_def zero_preview_def zero_histogram_def
        agent_image_control_copy_id agent_history_item_copy_id map_idI image_state_ready_def)

subsection \<open>The enums and their names\<close>

datatype dt_agent_operation_kind_t =
    DT_AGENT_OPERATION_UNKNOWN
  | DT_AGENT_OPERATION_SET_FLOAT
  | DT_AGENT_OPERATION_SET_CHOICE
  | DT_AGENT_OPERATION_SET_BOOL

datatype dt_agent_value_mode_t =
    DT_AGENT_VALUE_MODE_UNKNOWN
  | DT_AGENT_VALUE_MODE_SET
  | DT_AGENT_VALUE_MODE_DELTA

datatype dt_agent_refinement_mode_t =
    DT_AGENT_REFINEMENT_MODE_UNKNOWN
  | DT_AGENT_REFINEMENT_MODE_SINGLE
  | DT_AGENT_REFINEMENT_MODE_MULTI

fun dt_agent_operation_kind_to_string :: "dt_agent_operation_kind_t \<Rightarrow> string" where
  "dt_agent_operation_kind_to_string DT_AGENT_OPERATION_SET_FLOAT = ''set-float''"
| "dt_agent_operation_kind_to_string DT_AGENT_OPERATION_SET_CHOICE = ''set-choice''"
| "dt_agent_operation_kind_to_string DT_AGENT_OPERATION_SET_BOOL = ''set-bool''"
| "dt_agent_operation_kind_to_string DT_AGENT_OPERATION_UNKNOWN = ''unknown''"

definition dt_agent_operation_kind_from_string :: "cstr \<Rightarrow> dt_agent_operation_kind_t" where
  "dt_agent_operation_kind_from_string kind_name =
     (if kind_name = Some ''set-float'' then DT_AGENT_OPERATION_SET_FLOAT
      else if kind_name = Some ''set-choice'' then DT_AGENT_OPERATION_SET_CHOICE
      else if kind_name = Some ''set-bool'' then DT_AGENT_OPERATION_SET_BOOL
      else DT_AGENT_OPERATION_UNKNOWN)"

fun dt_agent_value_mode_to_string :: "dt_agent_value_mode_t \<Rightarrow> string" where
  "dt_agent_value_mode_to_string DT_AGENT_VALUE_MODE_SET = ''set''"
| "dt_agent_value_mode_to_string DT_AGENT_VALUE_MODE_DELTA = ''delta''"
| "dt_agent_value_mode_to_string DT_AGENT_VALUE_MODE_UNKNOWN = ''unknown''"

definition dt_agent_value_mode_from_string :: "cstr \<Rightarrow> dt_agent_value_mode_t" where
  "dt_agent_value_mode_from_string mode_name =
     (if mode_name = Some ''set'' then DT_AGENT_VALUE_MODE_SET
      else if mode_name = Some ''delta'' then DT_AGENT_VALUE_MODE_DELTA
      else DT_AGENT_VALUE_MODE_UNKNOWN)"

fun dt_agent_refinement_mode_to_string :: "dt_agent_refinement_mode_t \<Rightarrow> string" where
  "dt_agent_refinement_mode_to_string DT_AGENT_REFINEMENT_MODE_SINGLE = ''single-turn''"
| "dt_agent_refinement_mode_to_string DT_AGENT_REFINEMENT_MODE_MULTI = ''multi-turn''"
| "dt_agent_refinement_mode_to_string DT_AGENT_REFINEMENT_MODE_UNKNOWN = ''unknown''"

definition dt_agent_refinement_mode_from_string :: "cstr \<Rightarrow> dt_agent_refinement_mode_t" where
  "dt_agent_refinement_mode_from_string mode_name =
     (if mode_name = Some ''single-turn'' then DT_AGENT_REFINEMENT_MODE_SINGLE
      else if mode_name = Some ''multi-turn'' then DT_AGENT_REFINEMENT_MODE_MULTI
      else DT_AGENT_REFINEMENT_MODE_UNKNOWN)"

lemma operation_kind_string_roundtrip [simp]:
  "dt_agent_operation_kind_from_string (Some (dt_agent_operation_kind_to_string k)) = k"
  by (cases k) (simp_all add: dt_agent_operation_kind_from_string_def)

lemma value_mode_string_roundtrip [simp]:
  "dt_agent_value_mode_from_string (Some (dt_agent_value_mode_to_string m)) = m"
  by (cases m) (simp_all add: dt_agent_value_mode_from_string_def)

lemma refinement_mode_string_roundtrip [simp]:
  "dt_agent_refinement_mode_from_string (Some (dt_agent_refinement_mode_to_string m)) = m"
  by (cases m) (simp_all add: dt_agent_refinement_mode_from_string_def)

lemma enum_from_literals [simp]:
  "dt_agent_operation_kind_from_string (Some ''set-float'') = DT_AGENT_OPERATION_SET_FLOAT"
  "dt_agent_operation_kind_from_string (Some ''set-choice'') = DT_AGENT_OPERATION_SET_CHOICE"
  "dt_agent_operation_kind_from_string (Some ''set-bool'') = DT_AGENT_OPERATION_SET_BOOL"
  "dt_agent_value_mode_from_string (Some ''set'') = DT_AGENT_VALUE_MODE_SET"
  "dt_agent_value_mode_from_string (Some ''delta'') = DT_AGENT_VALUE_MODE_DELTA"
  by (simp_all add: dt_agent_operation_kind_from_string_def dt_agent_value_mode_from_string_def)

lemma operation_kind_from_string_known:
  "dt_agent_operation_kind_from_string s \<noteq> DT_AGENT_OPERATION_UNKNOWN
     \<Longrightarrow> s = Some (dt_agent_operation_kind_to_string (dt_agent_operation_kind_from_string s))"
  by (auto simp: dt_agent_operation_kind_from_string_def split: if_splits)

lemma refinement_mode_from_string_known:
  "dt_agent_refinement_mode_from_string s \<noteq> DT_AGENT_REFINEMENT_MODE_UNKNOWN
     \<Longrightarrow> s = Some (dt_agent_refinement_mode_to_string (dt_agent_refinement_mode_from_string s))"
  by (auto simp: dt_agent_refinement_mode_from_string_def split: if_splits)

lemmas enum_string_roundtrips =
  operation_kind_string_roundtrip value_mode_string_roundtrip refinement_mode_string_roundtrip

subsection \<open>Requests, operations and responses\<close>

definition DT_AGENT_CHAT_SCHEMA_VERSION :: string where
  "DT_AGENT_CHAT_SCHEMA_VERSION = ''3.0''"

definition DT_AGENT_CHAT_DEFAULT_MAX_REFINEMENT_TURNS :: nat where
  "DT_AGENT_CHAT_DEFAULT_MAX_REFINEMENT_TURNS = 15"

record dt_agent_ui_context =
  ui_view :: cstr
  ui_has_image_id :: bool
  ui_image_id :: int
  ui_image_name :: cstr

record dt_agent_chat_request =
  req_schema_version :: cstr
  req_request_id :: cstr
  req_app_session_id :: cstr
  req_image_session_id :: cstr
  req_conversation_id :: cstr
  req_turn_id :: cstr
  req_image_revision_id :: cstr
  req_message_text :: cstr
  req_refinement_mode :: dt_agent_refinement_mode_t
  req_refinement_enabled :: bool
  req_refinement_pass_index :: nat
  req_refinement_max_passes :: nat
  req_fast_mode :: bool
  req_refinement_goal_text :: cstr
  req_ui_context :: dt_agent_ui_context
  req_capabilities :: "dt_agent_capability list option"
  req_image_state :: dt_agent_image_state

record dt_agent_chat_operation =
  op_operation_id :: cstr
  op_sequence :: int
  op_kind :: dt_agent_operation_kind_t
  op_kind_name :: cstr
  op_status :: cstr
  op_target_type :: cstr
  op_action_path :: cstr
  op_setting_id :: cstr
  op_value_mode :: dt_agent_value_mode_t
  op_number :: flt
  op_has_choice_value :: bool
  op_choice_value :: int
  op_choice_id :: cstr
  op_has_bool_value :: bool
  op_bool_value :: bool

record dt_agent_chat_response =
  resp_schema_version :: cstr
  resp_request_id :: cstr
  resp_app_session_id :: cstr
  resp_image_session_id :: cstr
  resp_conversation_id :: cstr
  resp_turn_id :: cstr
  resp_plan_id :: cstr
  resp_base_image_revision_id :: cstr
  resp_status :: cstr
  resp_message_role :: cstr
  resp_message_text :: cstr
  resp_operations :: "dt_agent_chat_operation list option"
  resp_refinement_mode :: dt_agent_refinement_mode_t
  resp_refinement_enabled :: bool
  resp_refinement_pass_index :: nat
  resp_refinement_max_passes :: nat
  resp_refinement_continue :: bool
  resp_refinement_stop_reason :: cstr
  resp_error_code :: cstr
  resp_error_message :: cstr

definition zero_ui_context :: dt_agent_ui_context where
  "zero_ui_context = \<lparr>ui_view = None, ui_has_image_id = False, ui_image_id = 0,
     ui_image_name = None\<rparr>"

definition zero_request :: dt_agent_chat_request where
  "zero_request = \<lparr>req_schema_version = None, req_request_id = None, req_app_session_id = None,
     req_image_session_id = None, req_conversation_id = None, req_turn_id = None,
     req_image_revision_id = None, req_message_text = None,
     req_refinement_mode = DT_AGENT_REFINEMENT_MODE_UNKNOWN, req_refinement_enabled = False,
     req_refinement_pass_index = 0, req_refinement_max_passes = 0, req_fast_mode = False,
     req_refinement_goal_text = None, req_ui_context = zero_ui_context,
     req_capabilities = None, req_image_state = zero_image_state\<rparr>"

definition zero_operation :: dt_agent_chat_operation where
  "zero_operation = \<lparr>op_operation_id = None, op_sequence = 0, op_kind = DT_AGENT_OPERATION_UNKNOWN,
     op_kind_name = None, op_status = None, op_target_type = None, op_action_path = None,
     op_setting_id = None, op_value_mode = DT_AGENT_VALUE_MODE_UNKNOWN, op_number = Fin 0,
     op_has_choice_value = False, op_choice_value = 0, op_choice_id = None,
     op_has_bool_value = False, op_bool_value = False\<rparr>"

definition zero_response :: dt_agent_chat_response where
  "zero_response = \<lparr>resp_schema_version = None, resp_request_id = None,
     resp_app_session_id = None, resp_image_session_id = None, resp_conversation_id = None,
     resp_turn_id = None, resp_plan_id = None, resp_base_image_revision_id = None,
     resp_status = None, resp_message_role = None, resp_message_text = None,
     resp_operations = None, resp_refinement_mode = DT_AGENT_REFINEMENT_MODE_UNKNOWN,
     resp_refinement_enabled = False, resp_refinement_pass_index = 0,
     resp_refinement_max_passes = 0, resp_refinement_continue = False,
     resp_refinement_stop_reason = None, resp_error_code = None, resp_error_message = None\<rparr>"

text \<open>
  \<open>dt_agent_ui_context_clear\<close>, \<open>dt_agent_chat_request_clear\<close> and \<open>dt_agent_chat_response_clear\<close>
  free what the struct owns and zero it.
\<close>

definition dt_agent_ui_context_clear :: "dt_agent_ui_context \<Rightarrow> dt_agent_ui_context" where
  "dt_agent_ui_context_clear ui = zero_ui_context"

definition dt_agent_chat_request_init :: dt_agent_chat_request where
  "dt_agent_chat_request_init = zero_request
     \<lparr>req_schema_version := Some DT_AGENT_CHAT_SCHEMA_VERSION,
      req_refinement_mode := DT_AGENT_REFINEMENT_MODE_SINGLE,
      req_refinement_enabled := False,
      req_refinement_pass_index := 1,
      req_refinement_max_passes := 1,
      req_fast_mode := False,
      req_capabilities := Some []\<rparr>"

definition dt_agent_chat_request_clear :: "dt_agent_chat_request \<Rightarrow> dt_agent_chat_request" where
  "dt_agent_chat_request_clear request = zero_request"

definition dt_agent_chat_request_copy :: "dt_agent_chat_request \<Rightarrow> dt_agent_chat_request" where
  "dt_agent_chat_request_copy src =
     (let dest = dt_agent_chat_request_init; ui = req_ui_context src
      in dest
        \<lparr>req_schema_version := req_schema_version src,
         req_request_id := req_request_id src,
         req_app_session_id := req_app_session_id src,
         req_image_session_id := req_image_session_id src,
         req_conversation_id := req_conversation_id src,
         req_turn_id := req_turn_id src,
         req_image_revision_id := req_image_revision_id src,
         req_message_text := req_message_text src,
         req_refinement_mode := req_refinement_mode src,
         req_refinement_enabled := req_refinement_enabled src,
         req_refinement_pass_index := req_refinement_pass_index src,
         req_refinement_max_passes := req_refinement_max_passes src,
         req_fast_mode := req_fast_mode src,
         req_refinement_goal_text := req_refinement_goal_text src,
         req_ui_context := (req_ui_context dest)
           \<lparr>ui_view := ui_view ui,
            ui_has_image_id := ui_has_image_id ui,
            ui_image_id := ui_image_id ui,
            ui_image_name := ui_image_name ui\<rparr>,
         req_capabilities := Some (garray (req_capabilities dest)
           @ (case req_capabilities src of
                None \<Rightarrow> [] | Some caps \<Rightarrow> map dt_agent_capability_copy caps)),
         req_image_state := dt_agent_image_state_copy (req_image_state src)\<rparr>)"

lemma dt_agent_chat_request_copy_eq [copy_simps]:
  assumes "image_state_ready (req_image_state src)"
  shows "dt_agent_chat_request_copy src
           = src\<lparr>req_capabilities := Some (garray (req_capabilities src))\<rparr>"
  using assms
  by (cases src, cases "req_ui_context src")
     (auto simp: dt_agent_chat_request_copy_def dt_agent_chat_request_init_def zero_request_def
        zero_ui_context_def Let_def map_idI dt_agent_capability_copy_id
        dt_agent_image_state_copy_id split: option.splits)

definition dt_agent_chat_response_init :: dt_agent_chat_response where
  "dt_agent_chat_response_init = zero_response\<lparr>resp_operations := Some []\<rparr>"

definition dt_agent_chat_response_clear :: "dt_agent_chat_response \<Rightarrow> dt_agent_chat_response" where
  "dt_agent_chat_response_clear response = zero_response"

end
