(* ===== verification/Bauhaus.thy ===== *)
theory Bauhaus
  imports Protocol_Types
begin

text \<open>
  What the agent sees of darktable: image operation modules with their parameter memory and
  introspection tables (\<open>imageop.h\<close>, \<open>introspection.h\<close>), the sliders and comboboxes of
  \<open>bauhaus.c\<close> and the actions they are registered under (\<open>action.h\<close>).  Widgets and modules are
  values in a \<open>world\<close> state, a widget pointer is a handle (a number), a parameter pointer an
  address.  What the widgets call back into (the modules' \<open>gui_changed\<close> code and the signal
  handlers), \<open>dt_action_process\<close>, the curve code of \<open>draw.h\<close> and \<open>log10f\<close> are fields of an
  \<open>env\<close> argument, as functions on the world where they can change it.
\<close>

subsection \<open>Introspection tables and parameter memory\<close>

datatype dt_introspection_type_t =
    DT_INTROSPECTION_TYPE_NONE | DT_INTROSPECTION_TYPE_OPAQUE | DT_INTROSPECTION_TYPE_FLOAT
  | DT_INTROSPECTION_TYPE_DOUBLE | DT_INTROSPECTION_TYPE_FLOATCOMPLEX | DT_INTROSPECTION_TYPE_CHAR
  | DT_INTROSPECTION_TYPE_INT8 | DT_INTROSPECTION_TYPE_UINT8 | DT_INTROSPECTION_TYPE_SHORT
  | DT_INTROSPECTION_TYPE_USHORT | DT_INTROSPECTION_TYPE_INT | DT_INTROSPECTION_TYPE_UINT
  | DT_INTROSPECTION_TYPE_LONG | DT_INTROSPECTION_TYPE_ULONG | DT_INTROSPECTION_TYPE_BOOL
  | DT_INTROSPECTION_TYPE_ARRAY | DT_INTROSPECTION_TYPE_ENUM | DT_INTROSPECTION_TYPE_STRUCT
  | DT_INTROSPECTION_TYPE_UNION

record enum_tuple =
  et_name :: string
  et_value :: int
  et_description :: cstr

text \<open>
  The union \<open>dt_introspection_field_t\<close>: the header fields the code reads, and the payload of the
  array, enum and bool members.
\<close>

datatype dt_introspection_field_t =
    Field (f_type: dt_introspection_type_t) (f_name: string) (f_size: int) (f_offset: int)
          (f_payload: field_payload)
and field_payload =
    P_None
  | P_Array nat dt_introspection_field_t
  | P_Enum "enum_tuple list option" int
  | P_Bool bool

datatype cell = CFloat flt | CInt int

text \<open>Reading through a \<open>float *\<close> or an \<open>int *\<close>; a cell of the other type has no C meaning.\<close>

definition cell_float :: "cell \<Rightarrow> flt" where
  "cell_float c = (case c of CFloat v \<Rightarrow> v | CInt _ \<Rightarrow> NaN)"

definition cell_int :: "cell \<Rightarrow> int" where
  "cell_int c = (case c of CInt i \<Rightarrow> i | CFloat _ \<Rightarrow> 0)"

definition dt_introspection_access_array ::
  "dt_introspection_field_t option \<Rightarrow> int option \<Rightarrow> int
     \<Rightarrow> (int \<times> dt_introspection_field_t) option" where
  "dt_introspection_access_array self start element =
     (case (self, start) of
        (Some fld, Some addr) \<Rightarrow>
          (case f_payload fld of
             P_Array count child \<Rightarrow>
               if f_type fld = DT_INTROSPECTION_TYPE_ARRAY \<and> to_guint element < count
               then Some (addr + int (to_guint element) * f_size child, child) else None
           | _ \<Rightarrow> None)
      | _ \<Rightarrow> None)"

subsection \<open>Widgets\<close>

text \<open>The pair of directions of the slider's \<open>curve\<close> function is two fields.\<close>

record bauhaus_slider =
  sl_pos :: flt
  sl_min :: flt
  sl_max :: flt
  sl_soft_min :: flt
  sl_soft_max :: flt
  sl_hard_min :: flt
  sl_hard_max :: flt
  sl_defpos :: flt
  sl_step :: flt
  sl_digits :: int
  sl_factor :: flt
  sl_degrees :: bool
  sl_curve_get :: "flt \<Rightarrow> flt"
  sl_curve_set :: "flt \<Rightarrow> flt"
  sl_is_changed :: bool
  sl_is_dragging :: bool
  sl_timeout_pending :: bool

record combobox_entry =
  en_label :: cstr
  en_data :: int
  en_sensitive :: bool

record bauhaus_combobox =
  cb_active :: int
  cb_defpos :: int
  cb_entries :: "combobox_entry list"

datatype widget_body =
    Slider bauhaus_slider
  | Combobox bauhaus_combobox
  | ToggleButton bool
  | OtherWidget

record widget =
  w_field :: "int option"
  w_field_type :: dt_introspection_type_t
  w_iop_instance :: bool
  w_introspection :: "enum_tuple list option"
  w_body :: widget_body

definition is_toggle :: "widget \<Rightarrow> bool" where
  "is_toggle wd \<longleftrightarrow> (case w_body wd of ToggleButton _ \<Rightarrow> True | _ \<Rightarrow> False)"

definition is_bauhaus :: "widget \<Rightarrow> bool" where
  "is_bauhaus wd \<longleftrightarrow> (case w_body wd of Slider _ \<Rightarrow> True | Combobox _ \<Rightarrow> True | _ \<Rightarrow> False)"

subsection \<open>Actions, modules and the world\<close>

datatype dt_action_t = Action (act_id: string) (act_label: cstr) (act_owner: "dt_action_t option")

record dt_action_target =
  tgt_action :: "dt_action_t option"
  tgt_target :: "nat option"

text \<open>
  \<open>mod_name\<close> is what the module's \<open>name\<close> function returns.  The function itself is never NULL:
  \<open>iop_api.h\<close> declares it REQUIRED, and a module that lacks it is not loaded (\<open>module_api.h\<close>).
  \<open>mod_linear\<close> is what \<open>so->get_introspection_linear ()\<close> returns up to the NONE entry, None if
  \<open>so\<close> or the function is NULL.
\<close>

record dt_iop_module =
  mod_op :: string
  mod_name :: cstr
  mod_multi_priority :: int
  mod_have_introspection :: bool
  mod_linear :: "dt_introspection_field_t list option"
  mod_params :: "int option"
  mod_params_size :: int
  mod_default_params :: "int option"
  mod_off :: "nat option"
  mod_default_enabled :: bool
  mod_widget_list :: "dt_action_target list"

record dt_develop =
  dev_iop :: "dt_iop_module option list"
  dev_chroma_adaptation :: bool

record world =
  wd_widgets :: "nat \<Rightarrow> widget option"
  wd_mem :: "int \<Rightarrow> cell"
  wd_develop :: "dt_develop option"
  wd_view_darkroom :: bool
  wd_gui_reset :: bool
  wd_zoom_step :: bool
  wd_accel_initialised :: bool

text \<open>
  \<open>env_stray_field\<close> and \<open>env_stray_number\<close> are what a read past the end of a widget that is not a
  bauhaus widget, or of the slider member of a combobox, yields: the casts of the code do not
  prevent such reads.
\<close>

record env =
  env_gui_changed :: "nat \<Rightarrow> cell \<Rightarrow> world \<Rightarrow> world"
  env_value_changed_signal :: "nat \<Rightarrow> world \<Rightarrow> world"
  env_toggled_signal :: "nat \<Rightarrow> world \<Rightarrow> world"
  env_action_process :: "string \<Rightarrow> int \<Rightarrow> string \<Rightarrow> string \<Rightarrow> flt \<Rightarrow> world \<Rightarrow> flt \<times> world"
  env_draw_curve :: "int \<Rightarrow> (flt \<times> flt) list \<Rightarrow> (flt \<Rightarrow> flt) option"
  env_log10f :: "flt \<Rightarrow> flt"
  env_stray_field :: "nat \<Rightarrow> int option"
  env_stray_number :: "nat \<Rightarrow> string \<Rightarrow> flt"

definition set_body :: "nat \<Rightarrow> widget_body \<Rightarrow> world \<Rightarrow> world" where
  "set_body h b wl =
     (case wd_widgets wl h of
        None \<Rightarrow> wl
      | Some wd \<Rightarrow> wl\<lparr>wd_widgets := (wd_widgets wl)(h \<mapsto> wd\<lparr>w_body := b\<rparr>)\<rparr>)"

definition mem_write :: "int \<Rightarrow> cell \<Rightarrow> world \<Rightarrow> world" where
  "mem_write a c wl = wl\<lparr>wd_mem := (wd_mem wl)(a := c)\<rparr>"

definition slider_of :: "world \<Rightarrow> nat \<Rightarrow> bauhaus_slider option" where
  "slider_of wl h =
     (case wd_widgets wl h of Some wd \<Rightarrow> (case w_body wd of Slider d \<Rightarrow> Some d | _ \<Rightarrow> None)
                            | None \<Rightarrow> None)"

text \<open>\<open>_combobox_data\<close>, with its repair of an active position outside the entries.\<close>

definition combobox_data :: "world \<Rightarrow> nat \<Rightarrow> bauhaus_combobox option" where
  "combobox_data wl h =
     (case wd_widgets wl h of
        Some wd \<Rightarrow>
          (case w_body wd of
             Combobox d \<Rightarrow>
               Some (if int (length (cb_entries d)) \<le> int (to_guint (cb_active d))
                     then d\<lparr>cb_active := - 1\<rparr> else d)
           | _ \<Rightarrow> None)
      | None \<Rightarrow> None)"

definition dt_bauhaus_widget_get_field :: "env \<Rightarrow> world \<Rightarrow> nat \<Rightarrow> int option" where
  "dt_bauhaus_widget_get_field env wl h =
     (case wd_widgets wl h of
        Some wd \<Rightarrow> if is_bauhaus wd then w_field wd else env_stray_field env h
      | None \<Rightarrow> env_stray_field env h)"

subsection \<open>C arithmetic of the sliders\<close>

text \<open>\<open>roundf\<close>: to the nearest integer, halves away from zero.\<close>

definition roundf :: "flt \<Rightarrow> flt" where
  "roundf x = (case x of
     Fin q \<Rightarrow> Fin (of_int (if 0 \<le> q then \<lfloor>q + 1 / 2\<rfloor> else - \<lfloor>1 / 2 - q\<rfloor>)) | _ \<Rightarrow> x)"

definition ftrunc :: "rat \<Rightarrow> int" where
  "ftrunc q = (if 0 \<le> q then \<lfloor>q\<rfloor> else \<lceil>q\<rceil>)"

text \<open>\<open>fmodf\<close> is exact.\<close>

fun fmodf :: "flt \<Rightarrow> flt \<Rightarrow> flt" where
  "fmodf (Fin x) (Fin y) = (if y = 0 then NaN else Fin (x - y * of_int (ftrunc (x / y))))"
| "fmodf (Fin x) (Inf s) = Fin x"
| "fmodf _ _ = NaN"

text \<open>Assigning a \<open>float\<close> to an \<open>int\<close>; out of range, what x86-64 does.\<close>

definition float_to_int :: "flt \<Rightarrow> int" where
  "float_to_int x = (case x of
     Fin q \<Rightarrow> (let i = ftrunc q in if - (2 ^ 31) \<le> i \<and> i < 2 ^ 31 then i else - (2 ^ 31))
   | _ \<Rightarrow> - (2 ^ 31))"

definition powf10 :: "int \<Rightarrow> flt" where
  "powf10 n = round32 (if 0 \<le> n then 10 ^ nat n else 1 / 10 ^ nat (- n))"

definition copysignf :: "flt \<Rightarrow> flt \<Rightarrow> flt" where
  "copysignf x y = (if y < Fin 0 then fneg (fabs_flt x) else fabs_flt x)"

subsection \<open>Sliders\<close>

definition slider_value :: "bauhaus_slider \<Rightarrow> flt" where
  "slider_value d =
     (if feq (sl_max d) (sl_min d) then sl_max d
      else fadd round32 (sl_min d)
             (fmul round32 (sl_curve_get d (sl_pos d)) (fsub round32 (sl_max d) (sl_min d))))"

definition dt_bauhaus_slider_get :: "world \<Rightarrow> nat \<Rightarrow> flt" where
  "dt_bauhaus_slider_get wl h =
     (case slider_of wl h of None \<Rightarrow> Fin (- 1) | Some d \<Rightarrow> slider_value d)"

definition dt_bauhaus_slider_get_hard_min :: "env \<Rightarrow> world \<Rightarrow> nat \<Rightarrow> flt" where
  "dt_bauhaus_slider_get_hard_min env wl h =
     (case slider_of wl h of None \<Rightarrow> env_stray_number env h ''hard_min'' | Some d \<Rightarrow> sl_hard_min d)"

definition dt_bauhaus_slider_get_hard_max :: "env \<Rightarrow> world \<Rightarrow> nat \<Rightarrow> flt" where
  "dt_bauhaus_slider_get_hard_max env wl h =
     (case slider_of wl h of None \<Rightarrow> env_stray_number env h ''hard_max'' | Some d \<Rightarrow> sl_hard_max d)"

definition dt_bauhaus_slider_get_default :: "env \<Rightarrow> world \<Rightarrow> nat \<Rightarrow> flt" where
  "dt_bauhaus_slider_get_default env wl h =
     (case slider_of wl h of None \<Rightarrow> env_stray_number env h ''defpos'' | Some d \<Rightarrow> sl_defpos d)"

text \<open>\<open>fminf\<close> and \<open>fmaxf\<close> return the other operand if one is a NaN.\<close>

definition fminf :: "flt \<Rightarrow> flt \<Rightarrow> flt" where
  "fminf a b = (if a = NaN then b else if b = NaN then a else if a < b then a else b)"

definition fmaxf :: "flt \<Rightarrow> flt \<Rightarrow> flt" where
  "fmaxf a b = (if a = NaN then b else if b = NaN then a else if b < a then a else b)"

definition floorf :: "flt \<Rightarrow> flt" where
  "floorf x = (case x of Fin q \<Rightarrow> Fin (of_int \<lfloor>q\<rfloor>) | _ \<Rightarrow> x)"

text \<open>
  \<open>powf (10.f, x)\<close> for an \<open>x\<close> without fractional part, as \<open>floorf\<close> leaves it: zero for minus infinity,
  infinite for infinity, a NaN for a NaN.
\<close>

definition powf10_floor :: "flt \<Rightarrow> flt" where
  "powf10_floor x =
     (case x of
        Fin q \<Rightarrow> powf10 \<lfloor>q\<rfloor>
      | Inf positive \<Rightarrow> if positive then Inf True else Fin 0
      | NaN \<Rightarrow> NaN)"

text \<open>
  The step the slider has, or one derived from its range.  The literals \<open>.1\<close> and \<open>.5\<close> are doubles,
  so the additions they occur in are.
\<close>

definition slider_derived_step :: "env \<Rightarrow> world \<Rightarrow> bauhaus_slider \<Rightarrow> flt" where
  "slider_derived_step env wl d =
     (let mn = if wd_zoom_step wl then sl_min d else sl_soft_min d;
          mx = if wd_zoom_step wl then sl_max d else sl_soft_max d;
          top = fminf (fsub round32 mx mn) (fmaxf (fabs_flt mn) (fabs_flt mx))
      in if Fin 100 \<le> top then Fin 1
         else let step = fdiv round32 (fmul round32 top (fabs_flt (sl_factor d))) (Fin 100);
                  log10step = env_log10f env step;
                  fdigits = floorf (to_float (fadd round64 log10step (round64 (1 / 10))));
                  step = powf10_floor fdigits;
                  step = if Fin (1 / 2) < fsub round32 log10step fdigits
                         then fmul round32 step (Fin 5) else step
              in fdiv round32 step (fabs_flt (sl_factor d)))"

definition dt_bauhaus_slider_get_step :: "env \<Rightarrow> world \<Rightarrow> nat \<Rightarrow> flt" where
  "dt_bauhaus_slider_get_step env wl h =
     (case slider_of wl h of
        None \<Rightarrow> Fin 0
      | Some d \<Rightarrow>
          copysignf (if feq (sl_step d) (Fin 0) then slider_derived_step env wl d else sl_step d)
                    (sl_factor d))"

text \<open>The first half of \<open>_slider_set_normalized\<close>: the new position, rounded to the digits shown.\<close>

definition slider_normalize :: "bauhaus_slider \<Rightarrow> flt \<Rightarrow> bauhaus_slider" where
  "slider_normalize d pos =
     (let range = fsub round32 (sl_max d) (sl_min d);
          rpos = CLAMPf pos (Fin 0) (Fin 1);
          rpos = sl_curve_get d rpos;
          rpos = fadd round32 (sl_min d) (fmul round32 range rpos);
          base = fmul round32 (powf10 (sl_digits d)) (sl_factor d);
          rpos = fdiv round32 (roundf (fmul round32 base rpos)) base;
          rpos = fdiv round32 (fsub round32 rpos (sl_min d)) range
      in d\<lparr>sl_pos := sl_curve_set d rpos\<rparr>)"

text \<open>The range of \<open>dt_bauhaus_slider_set\<close>: clamped to the hard limits, an angle wrapped around.\<close>

definition slider_target :: "bauhaus_slider \<Rightarrow> flt \<Rightarrow> flt \<times> bauhaus_slider" where
  "slider_target d pos =
     (let rpos = CLAMPf pos (sl_hard_min d) (sl_hard_max d);
          gpos = if feq rpos pos \<or> \<not> sl_degrees d then rpos
                 else fadd round32 (sl_hard_min d)
                        (fmodf (fsub round32 (fadd round32 pos (sl_hard_max d))
                                             (fmul round32 (Fin 2) (sl_hard_min d)))
                               (fsub round32 (sl_hard_max d) (sl_hard_min d)))
      in (gpos, d\<lparr>sl_min := if feq gpos rpos then MINf (sl_min d) rpos else sl_hard_min d,
                  sl_max := if feq gpos rpos then MAXf (sl_max d) rpos else sl_hard_max d\<rparr>))"

definition slider_move :: "bauhaus_slider \<Rightarrow> flt \<Rightarrow> bauhaus_slider" where
  "slider_move d pos =
     (case slider_target d pos of
        (gpos, d') \<Rightarrow>
          slider_normalize d' (sl_curve_set d'
            (fdiv round32 (fsub round32 gpos (sl_min d')) (fsub round32 (sl_max d') (sl_min d')))))"

text \<open>Writing the parameter a slider is bound to.\<close>

definition slider_write_field :: "env \<Rightarrow> nat \<Rightarrow> widget \<Rightarrow> flt \<Rightarrow> world \<Rightarrow> world" where
  "slider_write_field env h wd val wl =
     (case w_field wd of
        None \<Rightarrow> wl
      | Some a \<Rightarrow>
          (case w_field_type wd of
             DT_INTROSPECTION_TYPE_FLOAT \<Rightarrow>
               (let prev = cell_float (wd_mem wl a); wl = mem_write a (CFloat val) wl
                in if feq val prev then wl else env_gui_changed env h (CFloat prev) wl)
           | DT_INTROSPECTION_TYPE_INT \<Rightarrow>
               (let prev = cell_int (wd_mem wl a); i = float_to_int val;
                    wl = mem_write a (CInt i) wl
                in if i = prev then wl else env_gui_changed env h (CInt prev) wl)
           | DT_INTROSPECTION_TYPE_USHORT \<Rightarrow>
               (let prev = cell_int (wd_mem wl a); i = float_to_int val mod 2 ^ 16;
                    wl = mem_write a (CInt i) wl
                in if i = prev then wl else env_gui_changed env h (CInt prev) wl)
           | _ \<Rightarrow> wl))"

definition slider_value_change :: "env \<Rightarrow> nat \<Rightarrow> world \<Rightarrow> world" where
  "slider_value_change env h wl =
     (case wd_widgets wl h of
        None \<Rightarrow> wl
      | Some wd \<Rightarrow>
          (case w_body wd of
             Slider d \<Rightarrow>
               if sl_is_changed d \<and> \<not> sl_timeout_pending d
               then
                 let wl = slider_write_field env h wd (slider_value d) wl;
                     wl = env_value_changed_signal env h wl
                 in case slider_of wl h of
                      None \<Rightarrow> wl
                    | Some d \<Rightarrow>
                        set_body h (Slider (d\<lparr>sl_is_changed := False,
                          sl_timeout_pending := sl_timeout_pending d \<or> sl_is_dragging d\<rparr>)) wl
               else wl
           | _ \<Rightarrow> wl))"

definition dt_bauhaus_slider_set :: "env \<Rightarrow> nat \<Rightarrow> flt \<Rightarrow> world \<Rightarrow> world" where
  "dt_bauhaus_slider_set env h pos wl =
     (if isnan_flt pos then wl
      else case slider_of wl h of
        None \<Rightarrow> wl
      | Some d \<Rightarrow>
          if wd_gui_reset wl then set_body h (Slider (slider_move d pos)) wl
          else slider_value_change env h
                 (set_body h (Slider ((slider_move d pos)\<lparr>sl_is_changed := True\<rparr>)) wl))"

subsection \<open>Comboboxes\<close>

text \<open>The data pointer of the active entry, as \<open>GPOINTER_TO_INT\<close> reads it (NULL is 0).\<close>

definition dt_bauhaus_combobox_get_data :: "world \<Rightarrow> nat \<Rightarrow> int" where
  "dt_bauhaus_combobox_get_data wl h =
     (case combobox_data wl h of
        None \<Rightarrow> 0
      | Some d \<Rightarrow> if cb_active d < 0 then 0 else en_data (cb_entries d ! nat (cb_active d)))"

definition dt_bauhaus_combobox_get :: "world \<Rightarrow> nat \<Rightarrow> int" where
  "dt_bauhaus_combobox_get wl h =
     (case combobox_data wl h of None \<Rightarrow> - 1 | Some d \<Rightarrow> cb_active d)"

definition dt_bauhaus_combobox_get_entry :: "world \<Rightarrow> nat \<Rightarrow> int \<Rightarrow> cstr" where
  "dt_bauhaus_combobox_get_entry wl h pos =
     (case combobox_data wl h of
        None \<Rightarrow> None
      | Some d \<Rightarrow> if pos < 0 \<or> int (length (cb_entries d)) \<le> pos then None
                  else en_label (cb_entries d ! nat pos))"

definition dt_bauhaus_combobox_get_default :: "world \<Rightarrow> nat \<Rightarrow> int" where
  "dt_bauhaus_combobox_get_default wl h =
     (case combobox_data wl h of None \<Rightarrow> 0 | Some d \<Rightarrow> cb_defpos d)"

definition dt_bauhaus_combobox_length :: "world \<Rightarrow> nat \<Rightarrow> nat" where
  "dt_bauhaus_combobox_length wl h =
     (case combobox_data wl h of None \<Rightarrow> 0 | Some d \<Rightarrow> length (cb_entries d))"

fun entry_index :: "int \<Rightarrow> combobox_entry list \<Rightarrow> int \<Rightarrow> int" where
  "entry_index i [] v = - 1"
| "entry_index i (e # es) v = (if en_data e = v then i else entry_index (i + 1) es v)"

definition dt_bauhaus_combobox_get_from_value :: "world \<Rightarrow> nat \<Rightarrow> int \<Rightarrow> int" where
  "dt_bauhaus_combobox_get_from_value wl h v =
     (case combobox_data wl h of None \<Rightarrow> - 1 | Some d \<Rightarrow> entry_index 0 (cb_entries d) v)"

text \<open>Writing the parameter a combobox is bound to.\<close>

definition combobox_write_field :: "env \<Rightarrow> nat \<Rightarrow> widget \<Rightarrow> bauhaus_combobox \<Rightarrow> world \<Rightarrow> world" where
  "combobox_write_field env h wd d wl =
     (case w_field wd of
        None \<Rightarrow> wl
      | Some a \<Rightarrow>
          (let prev = cell_int (wd_mem wl a);
               store = (\<lambda>i. let wl = mem_write a (CInt i) wl
                            in if i = prev then wl else env_gui_changed env h (CInt prev) wl)
           in case w_field_type wd of
                DT_INTROSPECTION_TYPE_ENUM \<Rightarrow>
                  if 0 \<le> cb_active d then store (en_data (cb_entries d ! nat (cb_active d))) else wl
              | DT_INTROSPECTION_TYPE_INT \<Rightarrow> store (cb_active d)
              | DT_INTROSPECTION_TYPE_UINT \<Rightarrow> store (int (to_guint (cb_active d)))
              | DT_INTROSPECTION_TYPE_BOOL \<Rightarrow> store (cb_active d)
              | _ \<Rightarrow> wl))"

text \<open>\<open>dt_bauhaus_combobox_set\<close> with \<open>_combobox_set\<close>, not muted.\<close>

definition dt_bauhaus_combobox_set :: "env \<Rightarrow> nat \<Rightarrow> int \<Rightarrow> world \<Rightarrow> world" where
  "dt_bauhaus_combobox_set env h pos wl =
     (case wd_widgets wl h of
        None \<Rightarrow> wl
      | Some wd \<Rightarrow>
          (case w_body wd of
             Combobox d \<Rightarrow>
               (let d = d\<lparr>cb_active := CLAMPi pos (- 1) (int (length (cb_entries d)) - 1)\<rparr>;
                    wl = set_body h (Combobox d) wl
                in if wd_gui_reset wl then wl
                   else env_value_changed_signal env h (combobox_write_field env h wd d wl))
           | _ \<Rightarrow> wl))"

definition combobox_add_full :: "cstr \<Rightarrow> int \<Rightarrow> bauhaus_combobox \<Rightarrow> bauhaus_combobox" where
  "combobox_add_full label data d =
     (let data = if data = 0 \<and> cb_entries d \<noteq> [] \<and> en_data (cb_entries d ! 0) = 0
                 then en_data (last (cb_entries d)) + 1 else data
      in d\<lparr>cb_entries := cb_entries d @ [\<lparr>en_label = label, en_data = data, en_sensitive = True\<rparr>],
           cb_active := if cb_active d < 0 then 0 else cb_active d,
           cb_defpos := if cb_defpos d = - 1 then data else cb_defpos d\<rparr>)"

text \<open>
  The loop of \<open>dt_bauhaus_combobox_add_introspection\<close> from the entry whose value is \<open>start\<close>: the
  entries up to the one whose value is \<open>stop\<close> are added; the flag says that \<open>stop\<close> was found.
\<close>

fun add_introspection_items ::
  "enum_tuple list \<Rightarrow> int \<Rightarrow> bauhaus_combobox \<Rightarrow> bool \<times> bauhaus_combobox" where
  "add_introspection_items [] stop d = (False, d)"
| "add_introspection_items (it # its) stop d =
     (let txt = str_or (et_description it) (et_name it);
          d = if txt \<noteq> [] then combobox_add_full (Some txt) (et_value it) d else d
      in if et_value it = stop then (True, d) else add_introspection_items its stop d)"

definition dt_bauhaus_combobox_add_introspection ::
  "world \<Rightarrow> widget \<Rightarrow> enum_tuple list \<Rightarrow> int \<Rightarrow> int \<Rightarrow> bauhaus_combobox \<Rightarrow> bool \<times> bauhaus_combobox" where
  "dt_bauhaus_combobox_add_introspection wl wd items start stop d =
     (if \<not> wd_accel_initialised wl \<and> w_iop_instance wd then (False, d)
      else add_introspection_items (dropWhile (\<lambda>it. et_value it \<noteq> start) items) stop d)"

definition dt_bauhaus_combobox_set_from_value :: "env \<Rightarrow> nat \<Rightarrow> int \<Rightarrow> world \<Rightarrow> bool \<times> world" where
  "dt_bauhaus_combobox_set_from_value env h v wl =
     (let pos = dt_bauhaus_combobox_get_from_value wl h v;
          wl = dt_bauhaus_combobox_set env h pos wl
      in if pos \<noteq> - 1 then (True, wl)
         else case wd_widgets wl h of
           None \<Rightarrow> (False, wl)
         | Some wd \<Rightarrow>
             (case (w_introspection wd, combobox_data wl h) of
                (Some items, Some d) \<Rightarrow>
                  (case dt_bauhaus_combobox_add_introspection wl wd items v v d of
                     (found, d) \<Rightarrow>
                       let wl = set_body h (Combobox d) wl
                       in if found
                          then (True, dt_bauhaus_combobox_set env h
                                        (int (dt_bauhaus_combobox_length wl h) - 1) wl)
                          else (False, wl))
              | _ \<Rightarrow> (False, wl)))"

subsection \<open>Toggle buttons (GTK)\<close>

text \<open>\<open>gtk_toggle_button_set_active\<close> emits its signal if the state changes.\<close>

definition toggle_active :: "world \<Rightarrow> nat \<Rightarrow> bool" where
  "toggle_active wl h =
     (case wd_widgets wl h of
        Some wd \<Rightarrow> (case w_body wd of ToggleButton b \<Rightarrow> b | _ \<Rightarrow> False) | None \<Rightarrow> False)"

definition toggle_set_active :: "env \<Rightarrow> nat \<Rightarrow> bool \<Rightarrow> world \<Rightarrow> world" where
  "toggle_set_active env h b wl =
     (if toggle_active wl h = b then wl
      else env_toggled_signal env h (set_body h (ToggleButton b) wl))"

subsection \<open>The range of a slider\<close>

definition wf_slider :: "bauhaus_slider \<Rightarrow> bool" where
  "wf_slider d \<longleftrightarrow> sl_hard_min d \<le> sl_min d \<and> sl_min d \<le> sl_max d \<and> sl_max d \<le> sl_hard_max d"

lemma MINf_range: "a \<le> x \<Longrightarrow> a \<le> y \<Longrightarrow> a \<le> MINf x y \<and> MINf x y \<le> x \<and> MINf x y \<le> y"
  by (cases a; cases x; cases y) (auto simp: MINf_def)

lemma MAXf_range: "x \<le> a \<Longrightarrow> y \<le> a \<Longrightarrow> MAXf x y \<le> a \<and> x \<le> MAXf x y \<and> y \<le> MAXf x y"
  by (cases a; cases x; cases y) (auto simp: MAXf_def)

lemma slider_normalize_range [simp]:
  "sl_min (slider_normalize d p) = sl_min d" "sl_max (slider_normalize d p) = sl_max d"
  "sl_hard_min (slider_normalize d p) = sl_hard_min d"
  "sl_hard_max (slider_normalize d p) = sl_hard_max d"
  by (simp_all add: slider_normalize_def Let_def)

lemma slider_target_wf:
  assumes wf: "wf_slider d" and pos: "pos \<noteq> NaN" and t: "slider_target d pos = (gpos, d')"
  shows "wf_slider d' \<and> sl_hard_min d' = sl_hard_min d \<and> sl_hard_max d' = sl_hard_max d
         \<and> (\<not> sl_degrees d \<or> feq (CLAMPf pos (sl_hard_min d) (sl_hard_max d)) pos
              \<longrightarrow> sl_min d' \<le> gpos \<and> gpos \<le> sl_max d')"
proof -
  let ?r = "CLAMPf pos (sl_hard_min d) (sl_hard_max d)"
  from wf have o: "sl_hard_min d \<le> sl_min d" "sl_min d \<le> sl_max d" "sl_max d \<le> sl_hard_max d"
    by (simp_all add: wf_slider_def)
  then have hard: "sl_hard_min d \<le> sl_hard_max d" by (blast intro: flt_le_trans)
  have r: "sl_hard_min d \<le> ?r" "?r \<le> sl_hard_max d"
    using CLAMPf_range [OF hard pos] by simp_all
  have mn: "sl_hard_min d \<le> MINf (sl_min d) ?r" "MINf (sl_min d) ?r \<le> sl_min d" "MINf (sl_min d) ?r \<le> ?r"
    using MINf_range o(1) r(1) by blast+
  have mx: "MAXf (sl_max d) ?r \<le> sl_hard_max d" "sl_max d \<le> MAXf (sl_max d) ?r" "?r \<le> MAXf (sl_max d) ?r"
    using MAXf_range o(3) r(2) by blast+
  have "MINf (sl_min d) ?r \<le> MAXf (sl_max d) ?r"
    using mn(3) mx(3) by (rule flt_le_trans)
  moreover have "feq ?r ?r"
    using r(1) flt_le_not_nan by (auto simp: feq_def)
  ultimately show ?thesis
    using t mn mx hard o
    by (auto simp: slider_target_def wf_slider_def Let_def split: if_splits)
qed

lemma slider_move_wf:
  assumes "wf_slider d" and "pos \<noteq> NaN"
  shows "wf_slider (slider_move d pos) \<and> sl_hard_min (slider_move d pos) = sl_hard_min d
         \<and> sl_hard_max (slider_move d pos) = sl_hard_max d"
proof -
  obtain gpos d' where t: "slider_target d pos = (gpos, d')" by fastforce
  with slider_target_wf [OF assms t] show ?thesis
    by (auto simp: slider_move_def wf_slider_def)
qed

subsection \<open>Interfaces of the value widgets\<close>

text \<open>
  What the agent relies on when it writes a control: a value the control accepts can be set, is read
  back afterwards, and setting it does not change which values are accepted.
\<close>

locale value_control =
  fixes getv :: "'w \<Rightarrow> 'v" and setv :: "'v \<Rightarrow> 'w \<Rightarrow> bool \<times> 'w" and accepts :: "'w \<Rightarrow> 'v \<Rightarrow> bool"
  assumes set_ok: "accepts w v \<Longrightarrow> fst (setv v w)"
    and get_set: "accepts w v \<Longrightarrow> getv (snd (setv v w)) = v"
    and accepts_set: "accepts w v \<Longrightarrow> accepts w u \<Longrightarrow> accepts (snd (setv v w)) u"
begin

lemma set_undo:
  assumes "accepts w v" and "accepts w (getv w)"
  shows "getv (snd (setv (getv w) (snd (setv v w)))) = getv w"
  using assms by (simp add: get_set accepts_set)

lemma set_twice:
  assumes "accepts w v" and "accepts w u"
  shows "getv (snd (setv u (snd (setv v w)))) = u"
  using assms by (simp add: get_set accepts_set)

end

text \<open>
  The callbacks that a widget's change triggers leave that widget itself as it is.  Properties that
  read a value back assume it: a \<open>gui_changed\<close> function could reset the widget that called it.
\<close>

definition callbacks_keep :: "env \<Rightarrow> nat \<Rightarrow> bool" where
  "callbacks_keep env h \<longleftrightarrow>
     (\<forall>c wl. wd_widgets (env_gui_changed env h c wl) h = wd_widgets wl h)
     \<and> (\<forall>wl. wd_widgets (env_value_changed_signal env h wl) h = wd_widgets wl h)
     \<and> (\<forall>wl. wd_widgets (env_toggled_signal env h wl) h = wd_widgets wl h)"

lemma entry_index_first:
  assumes "\<exists>e \<in> set es. en_data e = v"
  shows "\<exists>n < length es. entry_index i es v = i + int n \<and> en_data (es ! n) = v"
  using assms
proof (induction es arbitrary: i)
  case (Cons e es)
  show ?case
  proof (cases "en_data e = v")
    case False
    with Cons obtain n where "n < length es" "entry_index (i + 1) es v = i + 1 + int n" "en_data (es ! n) = v"
      by auto
    with False show ?thesis by (intro exI [of _ "Suc n"]) simp
  qed (auto intro: exI [of _ 0])
qed simp

lemma entry_index_absent: "\<forall>e \<in> set es. en_data e \<noteq> v \<Longrightarrow> entry_index i es v = - 1"
  by (induction es arbitrary: i) auto

lemma combobox_data_set_body [simp]:
  "wd_widgets wl h = Some wd \<Longrightarrow> wd_widgets (set_body h b wl) h = Some (wd\<lparr>w_body := b\<rparr>)"
  by (simp add: set_body_def)

lemma combobox_data_cong: "wd_widgets wl h = wd_widgets wl' h \<Longrightarrow> combobox_data wl h = combobox_data wl' h"
  by (simp add: combobox_data_def)

lemma mem_write_widgets [simp]: "wd_widgets (mem_write a c wl) = wd_widgets wl"
  by (simp add: mem_write_def)

lemma combobox_write_field_widget:
  "callbacks_keep env h \<Longrightarrow> wd_widgets (combobox_write_field env h wd d wl) h = wd_widgets wl h"
  by (auto simp: combobox_write_field_def callbacks_keep_def Let_def
      split: option.splits dt_introspection_type_t.splits)

lemma combobox_set_widget:
  assumes "callbacks_keep env h" and "wd_widgets wl h = Some wd" and "w_body wd = Combobox d"
  shows "wd_widgets (dt_bauhaus_combobox_set env h pos wl) h
           = Some (wd\<lparr>w_body := Combobox (d\<lparr>cb_active :=
               CLAMPi pos (- 1) (int (length (cb_entries d)) - 1)\<rparr>)\<rparr>)"
  using assms combobox_write_field_widget [OF assms(1)]
  by (auto simp: dt_bauhaus_combobox_set_def Let_def) (auto simp: callbacks_keep_def)

text \<open>A combobox accepts the values of its entries.\<close>

definition combobox_accepts :: "env \<Rightarrow> nat \<Rightarrow> world \<Rightarrow> int \<Rightarrow> bool" where
  "combobox_accepts env h wl v \<longleftrightarrow>
     callbacks_keep env h
     \<and> (\<exists>wd d. wd_widgets wl h = Some wd \<and> w_body wd = Combobox d
          \<and> length (cb_entries d) < 2 ^ 31 \<and> (\<exists>e \<in> set (cb_entries d). en_data e = v))"

lemma combobox_set_from_value_accepts:
  assumes "combobox_accepts env h wl v"
  shows "\<exists>wd d n. wd_widgets wl h = Some wd \<and> w_body wd = Combobox d \<and> n < length (cb_entries d)
     \<and> length (cb_entries d) < 2 ^ 31 \<and> en_data (cb_entries d ! n) = v
     \<and> fst (dt_bauhaus_combobox_set_from_value env h v wl)
     \<and> wd_widgets (snd (dt_bauhaus_combobox_set_from_value env h v wl)) h
         = Some (wd\<lparr>w_body := Combobox (d\<lparr>cb_active := int n\<rparr>)\<rparr>)"
proof -
  from assms obtain wd d where wd: "callbacks_keep env h" "wd_widgets wl h = Some wd"
    "w_body wd = Combobox d" "length (cb_entries d) < 2 ^ 31" "\<exists>e \<in> set (cb_entries d). en_data e = v"
    by (auto simp: combobox_accepts_def)
  from entry_index_first [OF wd(5), of 0] obtain n where
    n: "n < length (cb_entries d)" "entry_index 0 (cb_entries d) v = int n" "en_data (cb_entries d ! n) = v"
    by auto
  have pos: "dt_bauhaus_combobox_get_from_value wl h v = int n"
    using wd n by (simp add: dt_bauhaus_combobox_get_from_value_def combobox_data_def)
  have set: "wd_widgets (dt_bauhaus_combobox_set env h (int n) wl) h
      = Some (wd\<lparr>w_body := Combobox (d\<lparr>cb_active := int n\<rparr>)\<rparr>)"
    using combobox_set_widget [OF wd(1-3), of "int n"] n by (simp add: CLAMPi_def)
  have "dt_bauhaus_combobox_set_from_value env h v wl = (True, dt_bauhaus_combobox_set env h (int n) wl)"
    using pos by (simp add: dt_bauhaus_combobox_set_from_value_def Let_def)
  with wd n set show ?thesis by auto
qed

interpretation combobox_control: value_control
  "\<lambda>wl. dt_bauhaus_combobox_get_data wl h" "\<lambda>v wl. dt_bauhaus_combobox_set_from_value env h v wl"
  "combobox_accepts env h" for env h
proof
  fix w v u
  assume acc: "combobox_accepts env h w v"
  from combobox_set_from_value_accepts [OF acc] obtain wd d n where
    s: "wd_widgets w h = Some wd" "w_body wd = Combobox d" "n < length (cb_entries d)"
       "length (cb_entries d) < 2 ^ 31" "en_data (cb_entries d ! n) = v"
       "fst (dt_bauhaus_combobox_set_from_value env h v w)"
       "wd_widgets (snd (dt_bauhaus_combobox_set_from_value env h v w)) h
         = Some (wd\<lparr>w_body := Combobox (d\<lparr>cb_active := int n\<rparr>)\<rparr>)"
    by blast
  show "fst (dt_bauhaus_combobox_set_from_value env h v w)" by (rule s(6))
  have "to_guint (int n) = n"
    using s(3,4) by (simp add: to_guint_id)
  then show "dt_bauhaus_combobox_get_data (snd (dt_bauhaus_combobox_set_from_value env h v w)) h = v"
    using s by (simp add: dt_bauhaus_combobox_get_data_def combobox_data_def)
  show "combobox_accepts env h (snd (dt_bauhaus_combobox_set_from_value env h v w)) u"
    if "combobox_accepts env h w u"
    using that s by (auto simp: combobox_accepts_def)
qed

definition toggle_accepts :: "env \<Rightarrow> nat \<Rightarrow> world \<Rightarrow> bool \<Rightarrow> bool" where
  "toggle_accepts env h wl b \<longleftrightarrow>
     callbacks_keep env h \<and> (\<exists>wd s. wd_widgets wl h = Some wd \<and> w_body wd = ToggleButton s)"

lemma toggle_set_widget:
  assumes "toggle_accepts env h wl b"
  shows "\<exists>wd. wd_widgets wl h = Some wd \<and> is_toggle wd
     \<and> wd_widgets (toggle_set_active env h b wl) h = Some (wd\<lparr>w_body := ToggleButton b\<rparr>)"
  using assms
  by (auto simp: toggle_accepts_def toggle_set_active_def toggle_active_def is_toggle_def
      callbacks_keep_def)

interpretation toggle_control: value_control
  "\<lambda>wl. toggle_active wl h" "\<lambda>b wl. (True, toggle_set_active env h b wl)" "toggle_accepts env h" for env h
proof
  fix w v u
  assume acc: "toggle_accepts env h w v"
  from toggle_set_widget [OF acc] obtain wd where
    wd: "wd_widgets (toggle_set_active env h v w) h = Some (wd\<lparr>w_body := ToggleButton v\<rparr>)" by blast
  show "fst (True, toggle_set_active env h v w)" by simp
  show "toggle_active (snd (True, toggle_set_active env h v w)) h = v"
    using wd by (simp add: toggle_active_def)
  show "toggle_accepts env h (snd (True, toggle_set_active env h v w)) u"
    using wd acc by (simp add: toggle_accepts_def)
qed

subsection \<open>Setting a slider\<close>

lemma slider_write_field_widget:
  "callbacks_keep env h \<Longrightarrow> wd_widgets (slider_write_field env h wd v wl) h = wd_widgets wl h"
  by (auto simp: slider_write_field_def callbacks_keep_def Let_def
      split: option.splits dt_introspection_type_t.splits)

lemma slider_of_Some:
  "slider_of wl h = Some d \<longleftrightarrow> (\<exists>wd. wd_widgets wl h = Some wd \<and> w_body wd = Slider d)"
  by (auto simp: slider_of_def split: option.splits widget_body.splits)

lemma slider_value_change_slider:
  assumes keep: "callbacks_keep env h" and d: "slider_of wl h = Some d"
  shows "\<exists>ch tp. slider_of (slider_value_change env h wl) h
           = Some (d\<lparr>sl_is_changed := ch, sl_timeout_pending := tp\<rparr>)"
proof -
  from d obtain wd where wd: "wd_widgets wl h = Some wd" "w_body wd = Slider d"
    by (auto simp: slider_of_Some)
  let ?wl = "env_value_changed_signal env h (slider_write_field env h wd (slider_value d) wl)"
  have w: "wd_widgets ?wl h = Some wd"
    using keep slider_write_field_widget [OF keep] wd by (simp add: callbacks_keep_def)
  then have s: "slider_of ?wl h = Some d" using wd by (simp add: slider_of_Some)
  have same: "d = d\<lparr>sl_is_changed := sl_is_changed d, sl_timeout_pending := sl_timeout_pending d\<rparr>"
    by simp
  show ?thesis
  proof (cases "sl_is_changed d \<and> \<not> sl_timeout_pending d")
    case True
    then have "slider_value_change env h wl = set_body h (Slider (d\<lparr>sl_is_changed := False,
        sl_timeout_pending := sl_timeout_pending d \<or> sl_is_dragging d\<rparr>)) ?wl"
      using wd s by (simp add: slider_value_change_def Let_def)
    with w show ?thesis by (auto simp: slider_of_Some)
  next
    case False
    then have "slider_value_change env h wl = wl"
      using wd by (auto simp: slider_value_change_def)
    with d same show ?thesis by metis
  qed
qed

lemma slider_set_slider:
  assumes keep: "callbacks_keep env h" and d: "slider_of wl h = Some d" and pos: "pos \<noteq> NaN"
  shows "\<exists>ch tp. slider_of (dt_bauhaus_slider_set env h pos wl) h
           = Some ((slider_move d pos)\<lparr>sl_is_changed := ch, sl_timeout_pending := tp\<rparr>)"
proof -
  from d obtain wd where wd: "wd_widgets wl h = Some wd" "w_body wd = Slider d"
    by (auto simp: slider_of_Some)
  show ?thesis
  proof (cases "wd_gui_reset wl")
    case True
    then have "dt_bauhaus_slider_set env h pos wl = set_body h (Slider (slider_move d pos)) wl"
      using d pos by (simp add: dt_bauhaus_slider_set_def isnan_flt_def)
    then have "slider_of (dt_bauhaus_slider_set env h pos wl) h = Some (slider_move d pos)"
      using wd by (simp add: slider_of_Some)
    moreover have "slider_move d pos = (slider_move d pos)
        \<lparr>sl_is_changed := sl_is_changed (slider_move d pos),
         sl_timeout_pending := sl_timeout_pending (slider_move d pos)\<rparr>" by simp
    ultimately show ?thesis by metis
  next
    case False
    let ?d = "(slider_move d pos)\<lparr>sl_is_changed := True\<rparr>"
    have "slider_of (set_body h (Slider ?d) wl) h = Some ?d"
      using wd by (simp add: slider_of_Some)
    from slider_value_change_slider [OF keep this] show ?thesis
      using False d pos by (auto simp: dt_bauhaus_slider_set_def isnan_flt_def)
  qed
qed

lemma wf_slider_flags [simp]:
  "wf_slider (d\<lparr>sl_is_changed := ch, sl_timeout_pending := tp\<rparr>) \<longleftrightarrow> wf_slider d"
  by (simp add: wf_slider_def)

end
