(* ===== verification/Protocol_Parse.thy ===== *)
theory Protocol_Parse
  imports Protocol_Types
begin

text \<open>
  Parsing of chat responses, \<open>dt_agent_chat_response_parse_data\<close> of \<open>agent_protocol.c\<close> and its
  static helpers, with every error branch and its message.  \<open>wf_response\<close> says what a parsed
  response looks like, and \<open>response_object\<close> is a reference encoder for such responses (the
  server's side of the protocol); the parser is sound and complete for them.
\<close>

subsection \<open>The parser\<close>

definition agent_protocol_error :: "string \<Rightarrow> gerror" where
  "agent_protocol_error msg =
     \<lparr>gerr_domain = ''dt-agent-protocol-error'', gerr_code = 1, gerr_message = msg\<rparr>"

fun string_in_list :: "cstr \<Rightarrow> string list \<Rightarrow> bool" where
  "string_in_list None choices = False"
| "string_in_list (Some v) [] = False"
| "string_in_list (Some v) (choice # choices) =
     (if v = choice then True else string_in_list (Some v) choices)"

definition missing_member :: "string \<Rightarrow> gerror" where
  "missing_member m = agent_protocol_error (''missing required member '' @ quoted m)"

definition require_string_member :: "json_object \<Rightarrow> string \<Rightarrow> string result" where
  "require_string_member obj m =
     (if \<not> json_object_has_member obj m then Inl (missing_member m)
      else case json_object_get_member obj m of
        Some (JString s) \<Rightarrow>
          if s = [] then Inl (agent_protocol_error (''member '' @ quoted m @ '' must not be empty''))
          else Inr s
      | _ \<Rightarrow> Inl (agent_protocol_error (''member '' @ quoted m @ '' must be a string'')))"

definition require_number_member :: "json_object \<Rightarrow> string \<Rightarrow> flt result" where
  "require_number_member obj m =
     (if \<not> json_object_has_member obj m then Inl (missing_member m)
      else case json_object_get_member obj m of
        Some (JDouble d) \<Rightarrow> Inr d
      | _ \<Rightarrow> Inl (agent_protocol_error (''member '' @ quoted m @ '' must be numeric'')))"

definition require_uint_member :: "json_object \<Rightarrow> string \<Rightarrow> nat result" where
  "require_uint_member obj m =
     (if \<not> json_object_has_member obj m then Inl (missing_member m)
      else case json_object_get_member obj m of
        Some (JInt value) \<Rightarrow>
          if value < 0 then Inl (agent_protocol_error (''member '' @ quoted m @ '' must be >= 0''))
          else Inr (to_guint value)
      | _ \<Rightarrow> Inl (agent_protocol_error (''member '' @ quoted m @ '' must be an integer'')))"

definition require_boolean_member :: "json_object \<Rightarrow> string \<Rightarrow> bool result" where
  "require_boolean_member obj m =
     (if \<not> json_object_has_member obj m then Inl (missing_member m)
      else case json_object_get_member obj m of
        Some (JBool b) \<Rightarrow> Inr b
      | _ \<Rightarrow> Inl (agent_protocol_error (''member '' @ quoted m @ '' must be a boolean'')))"

definition parse_optional_string_member :: "json_object \<Rightarrow> string \<Rightarrow> cstr result" where
  "parse_optional_string_member obj m =
     (if \<not> json_object_has_member obj m then Inr None
      else case json_object_get_member obj m of
        Some JNull \<Rightarrow> Inr None
      | Some (JString s) \<Rightarrow> Inr (Some s)
      | _ \<Rightarrow> Inl (agent_protocol_error (''member '' @ quoted m @ '' must be a string or null'')))"

text \<open>Role and text of a message.\<close>

definition parse_message :: "json_object \<Rightarrow> string \<Rightarrow> (string \<times> string) result" where
  "parse_message obj m =
     (if \<not> json_object_has_member obj m then Inl (missing_member m)
      else case json_object_get_member obj m of
        Some (JObject message) \<Rightarrow>
          ebind (require_string_member message ''role'') (\<lambda>role.
          ebind (require_string_member message ''text'') (\<lambda>txt.
          Inr (role, txt)))
      | _ \<Rightarrow> Inl (agent_protocol_error (''member '' @ quoted m @ '' must be an object'')))"

text \<open>
  Mode, enabled, pass index, maximum, continue flag and stop reason.  Without
  \<open>require_continue_member\<close> the continue flag of the response keeps the False it was
  initialised with.
\<close>

definition parse_refinement ::
  "json_object \<Rightarrow> string \<Rightarrow> bool
     \<Rightarrow> (dt_agent_refinement_mode_t \<times> bool \<times> nat \<times> nat \<times> bool \<times> cstr) result" where
  "parse_refinement obj m require_continue_member =
     (if \<not> json_object_has_member obj m then Inl (missing_member m)
      else case json_object_get_member obj m of
        Some (JObject refinement) \<Rightarrow>
          ebind (require_string_member refinement ''mode'') (\<lambda>mode_name.
          ebind (require_boolean_member refinement ''enabled'') (\<lambda>parsed_enabled.
          ebind (require_uint_member refinement ''passIndex'') (\<lambda>pass_index.
          ebind (require_uint_member refinement ''maxPasses'') (\<lambda>max_passes.
          ebind (if require_continue_member
                 then require_boolean_member refinement ''continueRefining''
                 else Inr False) (\<lambda>parsed_continue.
          ebind (parse_optional_string_member refinement ''stopReason'') (\<lambda>stop_reason.
          let mode = dt_agent_refinement_mode_from_string (Some mode_name) in
          if mode = DT_AGENT_REFINEMENT_MODE_UNKNOWN
          then Inl (agent_protocol_error (''unsupported refinement mode '' @ quoted mode_name))
          else if pass_index = 0 \<or> max_passes = 0 \<or> max_passes < pass_index
          then Inl (agent_protocol_error
                 ''refinement passIndex/maxPasses must satisfy 1 <= passIndex <= maxPasses'')
          else Inr (mode, parsed_enabled, pass_index, max_passes,
                    require_continue_member \<and> parsed_continue, stop_reason)))))))
      | _ \<Rightarrow> Inl (agent_protocol_error (''member '' @ quoted m @ '' must be an object'')))"

text \<open>Code and message of the error member, both NULL if it is null.\<close>

definition parse_error :: "json_object \<Rightarrow> (cstr \<times> cstr) result" where
  "parse_error obj =
     (if \<not> json_object_has_member obj ''error'' then Inl (missing_member ''error'')
      else case json_object_get_member obj ''error'' of
        Some JNull \<Rightarrow> Inr (None, None)
      | Some (JObject err) \<Rightarrow>
          ebind (require_string_member err ''code'') (\<lambda>code.
          ebind (require_string_member err ''message'') (\<lambda>msg.
          Inr (Some code, Some msg)))
      | _ \<Rightarrow> Inl (agent_protocol_error (''member '' @ quoted ''error'' @ '' must be an object or null'')))"

text \<open>The tail of \<open>_parse_operation\<close>: the \<open>switch\<close> on the operation's kind.\<close>

definition parse_operation_value ::
  "dt_agent_chat_operation \<Rightarrow> json_object \<Rightarrow> dt_agent_chat_operation result" where
  "parse_operation_value operation value =
     (case op_kind operation of
        DT_AGENT_OPERATION_SET_FLOAT \<Rightarrow>
          ebind (require_number_member value ''number'') (\<lambda>number.
          Inr (operation\<lparr>op_number := number\<rparr>))
      | DT_AGENT_OPERATION_SET_CHOICE \<Rightarrow>
          (case json_object_get_member value ''choiceValue'' of
             Some (JInt choice_value) \<Rightarrow>
               (let operation = operation\<lparr>op_has_choice_value := True,
                                          op_choice_value := to_gint choice_value\<rparr>
                in case json_object_get_member value ''choiceId'' of
                     Some (JString choice_id) \<Rightarrow>
                       if choice_id \<noteq> [] then Inr (operation\<lparr>op_choice_id := Some choice_id\<rparr>)
                       else Inr operation
                   | _ \<Rightarrow> Inr operation)
           | _ \<Rightarrow> Inl (agent_protocol_error ''choice operations require integer choiceValue''))
      | DT_AGENT_OPERATION_SET_BOOL \<Rightarrow>
          (case json_object_get_member value ''boolValue'' of
             Some (JBool b) \<Rightarrow> Inr (operation\<lparr>op_has_bool_value := True, op_bool_value := b\<rparr>)
           | _ \<Rightarrow> Inl (agent_protocol_error ''bool operations require boolean boolValue''))
      | DT_AGENT_OPERATION_UNKNOWN \<Rightarrow> Inr operation)"

definition parse_sequence :: "json_object \<Rightarrow> int" where
  "parse_sequence obj =
     (case json_object_get_member obj ''sequence'' of Some (JInt i) \<Rightarrow> to_gint i | _ \<Rightarrow> 0)"

definition parse_operation :: "json_object \<Rightarrow> dt_agent_chat_operation result" where
  "parse_operation obj =
     ebind (require_string_member obj ''operationId'') (\<lambda>operation_id.
     ebind (require_string_member obj ''kind'') (\<lambda>kind_name.
     let operation = zero_operation\<lparr>op_operation_id := Some operation_id,
                       op_kind_name := Some kind_name, op_status := Some ''planned'',
                       op_kind := dt_agent_operation_kind_from_string (Some kind_name)\<rparr> in
     if op_kind operation = DT_AGENT_OPERATION_UNKNOWN
     then Inl (agent_protocol_error (''unsupported operation kind '' @ quoted kind_name))
     else if \<not> json_object_has_member obj ''target'' \<or> \<not> json_object_has_member obj ''value''
     then Inl (agent_protocol_error ''operation must include target and value objects'')
     else case (json_object_get_member obj ''target'', json_object_get_member obj ''value'') of
       (Some (JObject target), Some (JObject value)) \<Rightarrow>
         ebind (require_string_member target ''type'') (\<lambda>target_type.
         ebind (require_string_member target ''actionPath'') (\<lambda>action_path.
         ebind (require_string_member target ''settingId'') (\<lambda>setting_id.
         if target_type \<noteq> ''darktable-action''
         then Inl (agent_protocol_error (''unsupported target type '' @ quoted target_type))
         else
           ebind (require_string_member value ''mode'') (\<lambda>value_mode_name.
           let operation = operation\<lparr>op_target_type := Some target_type,
                             op_action_path := Some action_path, op_setting_id := Some setting_id,
                             op_value_mode := dt_agent_value_mode_from_string (Some value_mode_name),
                             op_sequence := parse_sequence obj\<rparr> in
           if op_value_mode operation = DT_AGENT_VALUE_MODE_UNKNOWN
           then Inl (agent_protocol_error ''unsupported value mode'')
           else parse_operation_value operation value))))
     | _ \<Rightarrow> Inl (agent_protocol_error ''operation target and value must be objects'')))"

text \<open>App session, image session, conversation and turn id.\<close>

definition parse_session :: "json_object \<Rightarrow> (string \<times> string \<times> string \<times> string) result" where
  "parse_session obj =
     (if \<not> json_object_has_member obj ''session'' then Inl (missing_member ''session'')
      else case json_object_get_member obj ''session'' of
        Some (JObject session) \<Rightarrow>
          ebind (require_string_member session ''appSessionId'') (\<lambda>app.
          ebind (require_string_member session ''imageSessionId'') (\<lambda>img.
          ebind (require_string_member session ''conversationId'') (\<lambda>conv.
          ebind (require_string_member session ''turnId'') (\<lambda>turn.
          Inr (app, img, conv, turn)))))
      | _ \<Rightarrow> Inl (agent_protocol_error (''member '' @ quoted ''session'' @ '' must be an object'')))"

text \<open>
  The consistency checks on the members read first; \<open>None\<close> if all hold.
\<close>

definition response_check :: "dt_agent_chat_response \<Rightarrow> gerror option" where
  "response_check response =
     (if resp_schema_version response \<noteq> Some DT_AGENT_CHAT_SCHEMA_VERSION
      then Some (agent_protocol_error (''unsupported schemaVersion ''
                   @ quoted (str_or (resp_schema_version response) '''')))
      else if \<not> string_in_list (resp_status response) [''ok'', ''error'']
      then Some (agent_protocol_error (''unsupported response status ''
                   @ quoted (str_or (resp_status response) '''')))
      else if resp_message_role response \<noteq> Some ''assistant''
      then Some (agent_protocol_error (''response message role must be '' @ quoted ''assistant''))
      else if resp_status response = Some ''error''
              \<and> (resp_error_code response = None \<or> resp_error_message response = None)
      then Some (agent_protocol_error ''error responses require error details'')
      else if resp_status response = Some ''ok''
              \<and> (resp_error_code response \<noteq> None \<or> resp_error_message response \<noteq> None)
      then Some (agent_protocol_error ''ok responses must not include error details'')
      else None)"

definition parse_operation_node :: "nat \<Rightarrow> json \<Rightarrow> dt_agent_chat_operation result" where
  "parse_operation_node i node =
     (case node of
        JObject obj \<Rightarrow> parse_operation obj
      | _ \<Rightarrow> Inl (agent_protocol_error (''operation '' @ show_nat i @ '' must be an object'')))"

definition parse_plan ::
  "json_object \<Rightarrow> dt_agent_chat_response \<Rightarrow> dt_agent_chat_response result" where
  "parse_plan obj response =
     (if \<not> json_object_has_member obj ''plan'' then Inl (missing_member ''plan'')
      else case json_object_get_member obj ''plan'' of
        Some (JObject plan) \<Rightarrow>
          ebind (require_string_member plan ''planId'') (\<lambda>plan_id.
          ebind (require_string_member plan ''baseImageRevisionId'') (\<lambda>revision.
          if \<not> json_object_has_member plan ''operations''
          then Inl (agent_protocol_error ''plan must include operations'')
          else case json_object_get_member plan ''operations'' of
            Some (JArray operations) \<Rightarrow>
              ebind (eloop parse_operation_node 0 operations) (\<lambda>ops.
              Inr (response\<lparr>resp_plan_id := Some plan_id,
                            resp_base_image_revision_id := Some revision,
                            resp_operations := Some (garray (resp_operations response) @ ops)\<rparr>))
          | _ \<Rightarrow> Inl (agent_protocol_error ''plan operations must be an array'')))
      | _ \<Rightarrow> Inl (agent_protocol_error (''member '' @ quoted ''plan'' @ '' must be an object'')))"

text \<open>The members that are read before any check.\<close>

definition parse_response_head :: "json_object \<Rightarrow> dt_agent_chat_response result" where
  "parse_response_head obj =
     ebind (require_string_member obj ''schemaVersion'') (\<lambda>schema_version.
     ebind (require_string_member obj ''requestId'') (\<lambda>request_id.
     ebind (parse_session obj) (\<lambda>(app, img, conv, turn).
     ebind (require_string_member obj ''status'') (\<lambda>status.
     ebind (parse_message obj ''assistantMessage'') (\<lambda>(role, txt).
     ebind (parse_error obj) (\<lambda>(code, msg).
     Inr (dt_agent_chat_response_init
            \<lparr>resp_schema_version := Some schema_version, resp_request_id := Some request_id,
             resp_app_session_id := Some app, resp_image_session_id := Some img,
             resp_conversation_id := Some conv, resp_turn_id := Some turn,
             resp_status := Some status, resp_message_role := Some role,
             resp_message_text := Some txt, resp_error_code := code,
             resp_error_message := msg\<rparr>)))))))"

definition parse_response_object :: "json_object \<Rightarrow> dt_agent_chat_response result" where
  "parse_response_object obj =
     ebind (parse_response_head obj) (\<lambda>response.
     case response_check response of Some e \<Rightarrow> Inl e | None \<Rightarrow>
     ebind (parse_refinement obj ''refinement'' (resp_status response = Some ''ok''))
       (\<lambda>(mode, enabled, pass_index, max_passes, continue_refining, stop_reason).
     let response = response
           \<lparr>resp_refinement_mode := mode, resp_refinement_enabled := enabled,
            resp_refinement_pass_index := pass_index, resp_refinement_max_passes := max_passes,
            resp_refinement_continue := continue_refining,
            resp_refinement_stop_reason := stop_reason\<rparr> in
     if resp_status response = Some ''ok'' then parse_plan obj response else Inr response))"

text \<open>
  The whole function: its result, what \<open>*response\<close> holds afterwards and what \<open>*error\<close> holds
  afterwards.  A response that cannot be loaded is left as it was; one that fails later is cleared.
  \<open>response\<close> is \<open>None\<close> for a NULL pointer.
\<close>

definition dt_agent_chat_response_parse_data ::
  "json_loader \<Rightarrow> cstr \<Rightarrow> int \<Rightarrow> dt_agent_chat_response option \<Rightarrow> gerror option
     \<Rightarrow> bool \<times> dt_agent_chat_response option \<times> gerror option" where
  "dt_agent_chat_response_parse_data load data len response error =
     (case (data, response) of
        (Some text, Some r) \<Rightarrow>
          (case load text len of
             Inl e \<Rightarrow> (False, response, g_set_error error e)
           | Inr (Some (JObject obj)) \<Rightarrow>
               (case parse_response_object obj of
                  Inl e \<Rightarrow> (False, Some (dt_agent_chat_response_clear r), g_set_error error e)
                | Inr r' \<Rightarrow> (True, Some r', error))
           | Inr _ \<Rightarrow> (False, response,
                       g_set_error error (agent_protocol_error ''response root must be an object'')))
      | _ \<Rightarrow> (False, response,
              g_set_error error (agent_protocol_error ''response buffer is invalid'')))"

subsection \<open>When the member readers succeed\<close>

lemma has_member_None_iff:
  "json_object_has_member obj m \<longleftrightarrow> json_object_get_member obj m \<noteq> None"
  by (simp add: json_object_has_member_def json_object_get_member_def)

lemma require_string_member_ok [result_simps]:
  "require_string_member obj m = Inr s
     \<longleftrightarrow> json_object_get_member obj m = Some (JString s) \<and> s \<noteq> []"
  by (auto simp: require_string_member_def has_member_None_iff split: json.splits if_splits)

lemma require_number_member_ok [result_simps]:
  "require_number_member obj m = Inr d \<longleftrightarrow> json_object_get_member obj m = Some (JDouble d)"
  by (auto simp: require_number_member_def has_member_None_iff split: json.splits if_splits)

lemma require_uint_member_ok [result_simps]:
  "require_uint_member obj m = Inr n
     \<longleftrightarrow> (\<exists>v. json_object_get_member obj m = Some (JInt v) \<and> 0 \<le> v \<and> n = to_guint v)"
  by (auto simp: require_uint_member_def has_member_None_iff split: json.splits if_splits)

lemma require_boolean_member_ok [result_simps]:
  "require_boolean_member obj m = Inr b \<longleftrightarrow> json_object_get_member obj m = Some (JBool b)"
  by (auto simp: require_boolean_member_def has_member_None_iff split: json.splits if_splits)

lemma parse_optional_string_member_ok [result_simps]:
  "parse_optional_string_member obj m = Inr s
     \<longleftrightarrow> (case s of None \<Rightarrow> json_object_get_member obj m \<in> {None, Some JNull}
                | Some cs \<Rightarrow> json_object_get_member obj m = Some (JString cs))"
  by (auto simp: parse_optional_string_member_def has_member_None_iff
      split: json.splits if_splits option.splits)

text \<open>The nested readers: the object they look into, and its members.\<close>

lemma parse_message_ok [result_simps]:
  "parse_message obj m = Inr (role, txt)
     \<longleftrightarrow> (\<exists>message. json_object_get_member obj m = Some (JObject message)
           \<and> require_string_member message ''role'' = Inr role
           \<and> require_string_member message ''text'' = Inr txt)"
  by (auto simp: parse_message_def has_member_None_iff result_simps
      split: json.splits if_splits option.splits)

lemma parse_session_ok [result_simps]:
  "parse_session obj = Inr (app, img, conv, turn)
     \<longleftrightarrow> (\<exists>session. json_object_get_member obj ''session'' = Some (JObject session)
           \<and> require_string_member session ''appSessionId'' = Inr app
           \<and> require_string_member session ''imageSessionId'' = Inr img
           \<and> require_string_member session ''conversationId'' = Inr conv
           \<and> require_string_member session ''turnId'' = Inr turn)"
  by (auto simp: parse_session_def has_member_None_iff result_simps
      split: json.splits if_splits option.splits)

lemma parse_error_ok [result_simps]:
  "parse_error obj = Inr (code, msg)
     \<longleftrightarrow> json_object_get_member obj ''error'' = Some JNull \<and> code = None \<and> msg = None
       \<or> (\<exists>err c t. json_object_get_member obj ''error'' = Some (JObject err)
           \<and> require_string_member err ''code'' = Inr c \<and> code = Some c
           \<and> require_string_member err ''message'' = Inr t \<and> msg = Some t)"
  by (auto simp: parse_error_def has_member_None_iff result_simps
      split: json.splits if_splits option.splits)

lemma parse_refinement_ok [result_simps]:
  "parse_refinement obj m req = Inr (mode, enabled, p, n, cont, stop)
     \<longleftrightarrow> (\<exists>r name c. json_object_get_member obj m = Some (JObject r)
           \<and> require_string_member r ''mode'' = Inr name
           \<and> mode = dt_agent_refinement_mode_from_string (Some name)
           \<and> mode \<noteq> DT_AGENT_REFINEMENT_MODE_UNKNOWN
           \<and> require_boolean_member r ''enabled'' = Inr enabled
           \<and> require_uint_member r ''passIndex'' = Inr p
           \<and> require_uint_member r ''maxPasses'' = Inr n
           \<and> p \<noteq> 0 \<and> n \<noteq> 0 \<and> p \<le> n
           \<and> (if req then require_boolean_member r ''continueRefining'' = Inr c else c = False)
           \<and> cont = c
           \<and> parse_optional_string_member r ''stopReason'' = Inr stop)"
  unfolding parse_refinement_def
  by (cases "json_object_get_member obj m")
     (auto simp: has_member_None_iff ebind_Inr_iff if_Inl_eq_Inr Let_def not_less
        split: json.splits if_splits)

lemma string_in_list_iff: "string_in_list v cs \<longleftrightarrow> (\<exists>s \<in> set cs. v = Some s)"
  by (induction v cs rule: string_in_list.induct) auto

lemma response_check_ok:
  "response_check r = None
     \<longleftrightarrow> resp_schema_version r = Some ''3.0'' \<and> resp_message_role r = Some ''assistant''
       \<and> (resp_status r = Some ''ok'' \<and> resp_error_code r = None \<and> resp_error_message r = None
          \<or> resp_status r = Some ''error''
             \<and> resp_error_code r \<noteq> None \<and> resp_error_message r \<noteq> None)"
  by (auto simp: response_check_def string_in_list_iff DT_AGENT_CHAT_SCHEMA_VERSION_def)

subsection \<open>What a parsed operation looks like\<close>

definition is_gint :: "int \<Rightarrow> bool" where
  "is_gint i \<longleftrightarrow> - (2 ^ 31) \<le> i \<and> i < 2 ^ 31"

lemma is_gint_to_gint [simp]: "is_gint (to_gint i)"
  using to_gint_range by (simp add: is_gint_def)

lemma to_gint_is_gint [simp]: "is_gint i \<Longrightarrow> to_gint i = i"
  by (simp add: is_gint_def to_gint_id)

definition wf_operation :: "dt_agent_chat_operation \<Rightarrow> bool" where
  "wf_operation operation \<longleftrightarrow>
     nonempty (op_operation_id operation)
     \<and> op_kind operation \<noteq> DT_AGENT_OPERATION_UNKNOWN
     \<and> op_kind_name operation = Some (dt_agent_operation_kind_to_string (op_kind operation))
     \<and> op_status operation = Some ''planned''
     \<and> op_target_type operation = Some ''darktable-action''
     \<and> nonempty (op_action_path operation) \<and> nonempty (op_setting_id operation)
     \<and> op_value_mode operation \<noteq> DT_AGENT_VALUE_MODE_UNKNOWN
     \<and> is_gint (op_sequence operation)
     \<and> (op_kind operation \<noteq> DT_AGENT_OPERATION_SET_FLOAT \<longrightarrow> op_number operation = Fin 0)
     \<and> op_has_choice_value operation = (op_kind operation = DT_AGENT_OPERATION_SET_CHOICE)
     \<and> is_gint (op_choice_value operation)
     \<and> (op_kind operation \<noteq> DT_AGENT_OPERATION_SET_CHOICE
          \<longrightarrow> op_choice_value operation = 0 \<and> op_choice_id operation = None)
     \<and> op_choice_id operation \<noteq> Some []
     \<and> op_has_bool_value operation = (op_kind operation = DT_AGENT_OPERATION_SET_BOOL)
     \<and> (op_kind operation \<noteq> DT_AGENT_OPERATION_SET_BOOL \<longrightarrow> \<not> op_bool_value operation)"

lemma is_gint_0 [simp]: "is_gint 0"
  by (simp add: is_gint_def)

lemma parse_sequence_gint [simp]: "is_gint (parse_sequence obj)"
  by (auto simp: parse_sequence_def split: option.splits json.splits)

lemma case_member_ok [result_simps]:
  "(case x of Some (JInt v) \<Rightarrow> f v | _ \<Rightarrow> Inl e) = Inr y \<longleftrightarrow> (\<exists>v. x = Some (JInt v) \<and> f v = Inr y)"
  "(case x of Some (JBool v1) \<Rightarrow> f1 v1 | _ \<Rightarrow> Inl e) = Inr y \<longleftrightarrow> (\<exists>v. x = Some (JBool v) \<and> f1 v = Inr y)"
  "(case x of Some (JArray v2) \<Rightarrow> f2 v2 | _ \<Rightarrow> Inl e) = Inr y \<longleftrightarrow> (\<exists>v. x = Some (JArray v) \<and> f2 v = Inr y)"
  "(case x of Some (JObject v3) \<Rightarrow> f3 v3 | _ \<Rightarrow> Inl e) = Inr y \<longleftrightarrow> (\<exists>v. x = Some (JObject v) \<and> f3 v = Inr y)"
  by (auto split: option.splits json.splits)

lemma case_two_objects_ok [result_simps]:
  "(case (x, x') of (Some (JObject v), Some (JObject v')) \<Rightarrow> f v v' | _ \<Rightarrow> Inl e) = Inr y
     \<longleftrightarrow> (\<exists>v v'. x = Some (JObject v) \<and> x' = Some (JObject v') \<and> f v v' = Inr y)"
  by (auto split: option.splits json.splits)

lemma parse_operation_value_ok:
  assumes "parse_operation_value operation value = Inr out"
  shows "\<exists>n c i b. out = (case op_kind operation of
      DT_AGENT_OPERATION_SET_FLOAT \<Rightarrow> operation\<lparr>op_number := n\<rparr>
    | DT_AGENT_OPERATION_SET_CHOICE \<Rightarrow>
        operation\<lparr>op_has_choice_value := True, op_choice_value := to_gint c,
          op_choice_id := (if i = [] then op_choice_id operation else Some i)\<rparr>
    | DT_AGENT_OPERATION_SET_BOOL \<Rightarrow> operation\<lparr>op_has_bool_value := True, op_bool_value := b\<rparr>
    | DT_AGENT_OPERATION_UNKNOWN \<Rightarrow> operation)"
proof (cases "op_kind operation")
  case DT_AGENT_OPERATION_SET_CHOICE
  with assms obtain c where c: "json_object_get_member value ''choiceValue'' = Some (JInt c)"
    by (auto simp: parse_operation_value_def result_simps)
  obtain i where "out = operation\<lparr>op_has_choice_value := True, op_choice_value := to_gint c,
          op_choice_id := (if i = [] then op_choice_id operation else Some i)\<rparr>"
  proof (cases "\<exists>s. json_object_get_member value ''choiceId'' = Some (JString s)")
    case True
    then obtain s where s: "json_object_get_member value ''choiceId'' = Some (JString s)" by blast
    show ?thesis
      using assms c DT_AGENT_OPERATION_SET_CHOICE s
      by (intro that[of s]) (auto simp: parse_operation_value_def split: if_splits)
  next
    case False
    show ?thesis
      using assms c DT_AGENT_OPERATION_SET_CHOICE False
      by (intro that[of "[]"])
         (auto simp: parse_operation_value_def Let_def split: option.splits json.splits)
  qed
  with DT_AGENT_OPERATION_SET_CHOICE show ?thesis by auto
qed (use assms in \<open>auto simp: parse_operation_value_def result_simps\<close>)

lemma parse_operation_wf:
  assumes "parse_operation obj = Inr operation"
  shows "wf_operation operation"
proof -
  from assms obtain oid kname path sid mode vobj where
    ne: "oid \<noteq> []" "path \<noteq> []" "sid \<noteq> []"
    and kind: "dt_agent_operation_kind_from_string (Some kname) \<noteq> DT_AGENT_OPERATION_UNKNOWN"
    and mode: "dt_agent_value_mode_from_string (Some mode) \<noteq> DT_AGENT_VALUE_MODE_UNKNOWN"
    and val: "parse_operation_value (zero_operation\<lparr>op_operation_id := Some oid,
                op_kind_name := Some kname, op_status := Some ''planned'',
                op_kind := dt_agent_operation_kind_from_string (Some kname),
                op_target_type := Some ''darktable-action'', op_action_path := Some path,
                op_setting_id := Some sid,
                op_value_mode := dt_agent_value_mode_from_string (Some mode),
                op_sequence := parse_sequence obj\<rparr>) vobj = Inr operation"
    unfolding parse_operation_def by (auto simp: result_simps Let_def)
  from operation_kind_from_string_known [OF kind]
  have kname: "kname = dt_agent_operation_kind_to_string (dt_agent_operation_kind_from_string (Some kname))"
    by simp
  show ?thesis
    using parse_operation_value_ok [OF val] kname kind mode ne
    by (cases "dt_agent_operation_kind_from_string (Some kname)")
       (auto simp: wf_operation_def zero_operation_def split: if_splits)
qed

subsection \<open>What a parsed response looks like\<close>

definition wf_response :: "dt_agent_chat_response \<Rightarrow> bool" where
  "wf_response r \<longleftrightarrow>
     resp_schema_version r = Some ''3.0'' \<and> nonempty (resp_request_id r)
     \<and> nonempty (resp_app_session_id r) \<and> nonempty (resp_image_session_id r)
     \<and> nonempty (resp_conversation_id r) \<and> nonempty (resp_turn_id r)
     \<and> resp_message_role r = Some ''assistant'' \<and> nonempty (resp_message_text r)
     \<and> resp_refinement_mode r \<noteq> DT_AGENT_REFINEMENT_MODE_UNKNOWN
     \<and> 1 \<le> resp_refinement_pass_index r
     \<and> resp_refinement_pass_index r \<le> resp_refinement_max_passes r
     \<and> resp_refinement_max_passes r < 2 ^ 32
     \<and> (if resp_status r = Some ''ok''
        then resp_error_code r = None \<and> resp_error_message r = None
          \<and> nonempty (resp_plan_id r) \<and> nonempty (resp_base_image_revision_id r)
          \<and> (\<exists>ops. resp_operations r = Some ops \<and> list_all wf_operation ops)
        else resp_status r = Some ''error''
          \<and> nonempty (resp_error_code r) \<and> nonempty (resp_error_message r)
          \<and> resp_plan_id r = None \<and> resp_base_image_revision_id r = None
          \<and> resp_operations r = Some [] \<and> \<not> resp_refinement_continue r)"

lemma parse_response_head_ok:
  assumes "parse_response_head obj = Inr r"
  obtains sv rid app img conv turn status role mtext code msg where
    "r = dt_agent_chat_response_init
            \<lparr>resp_schema_version := Some sv, resp_request_id := Some rid,
             resp_app_session_id := Some app, resp_image_session_id := Some img,
             resp_conversation_id := Some conv, resp_turn_id := Some turn,
             resp_status := Some status, resp_message_role := Some role,
             resp_message_text := Some mtext, resp_error_code := code,
             resp_error_message := msg\<rparr>"
    "rid \<noteq> []" "app \<noteq> []" "img \<noteq> []" "conv \<noteq> []" "turn \<noteq> []" "mtext \<noteq> []"
    "code \<noteq> Some []" "msg \<noteq> Some []"
  using assms unfolding parse_response_head_def
  by (auto simp: result_simps split: prod.splits)

lemma parse_operation_node_wf: "parse_operation_node i node = Inr operation \<Longrightarrow> wf_operation operation"
  by (auto simp: parse_operation_node_def parse_operation_wf split: json.splits)

lemma parse_plan_ok:
  assumes "parse_plan obj r = Inr r'"
  obtains pid rev ops where
    "r' = r\<lparr>resp_plan_id := Some pid, resp_base_image_revision_id := Some rev,
            resp_operations := Some (garray (resp_operations r) @ ops)\<rparr>"
    "pid \<noteq> []" "rev \<noteq> []" "list_all wf_operation ops"
proof -
  from assms obtain pid rev nodes ops where
    "r' = r\<lparr>resp_plan_id := Some pid, resp_base_image_revision_id := Some rev,
            resp_operations := Some (garray (resp_operations r) @ ops)\<rparr>"
    "pid \<noteq> []" "rev \<noteq> []" and ops: "eloop parse_operation_node 0 nodes = Inr ops"
    unfolding parse_plan_def by (auto simp: result_simps)
  moreover from eloop_all [OF ops parse_operation_node_wf] have "list_all wf_operation ops"
    by simp
  ultimately show ?thesis using that by blast
qed

lemma parse_response_object_wf:
  assumes "parse_response_object obj = Inr r"
  shows "wf_response r"
proof -
  from assms obtain h mode en p n cont stop where
    head: "parse_response_head obj = Inr h" and check: "response_check h = None"
    and ref: "parse_refinement obj ''refinement'' (resp_status h = Some ''ok'')
                = Inr (mode, en, p, n, cont, stop)"
    and tail: "(let g = h\<lparr>resp_refinement_mode := mode, resp_refinement_enabled := en,
            resp_refinement_pass_index := p, resp_refinement_max_passes := n,
            resp_refinement_continue := cont, resp_refinement_stop_reason := stop\<rparr>
          in if resp_status g = Some ''ok'' then parse_plan obj g else Inr g) = Inr r"
    unfolding parse_response_object_def
    by (auto simp: ebind_Inr_iff split: option.splits prod.splits)
  from ref have m: "mode \<noteq> DT_AGENT_REFINEMENT_MODE_UNKNOWN" "1 \<le> p" "p \<le> n"
    and "n < 2 ^ 32" and c: "resp_status h \<noteq> Some ''ok'' \<Longrightarrow> \<not> cont"
    by (auto simp: result_simps to_guint_bound)
  obtain sv rid app img conv turn status role mtext code msg where h:
    "h = dt_agent_chat_response_init
            \<lparr>resp_schema_version := Some sv, resp_request_id := Some rid,
             resp_app_session_id := Some app, resp_image_session_id := Some img,
             resp_conversation_id := Some conv, resp_turn_id := Some turn,
             resp_status := Some status, resp_message_role := Some role,
             resp_message_text := Some mtext, resp_error_code := code,
             resp_error_message := msg\<rparr>"
    "rid \<noteq> []" "app \<noteq> []" "img \<noteq> []" "conv \<noteq> []" "turn \<noteq> []" "mtext \<noteq> []"
    "code \<noteq> Some []" "msg \<noteq> Some []"
    using parse_response_head_ok [OF head] .
  note [simp] = dt_agent_chat_response_init_def zero_response_def
  show ?thesis
  proof (cases "status = ''ok''")
    case True
    with tail h have "parse_plan obj (h\<lparr>resp_refinement_mode := mode, resp_refinement_enabled := en,
            resp_refinement_pass_index := p, resp_refinement_max_passes := n,
            resp_refinement_continue := cont, resp_refinement_stop_reason := stop\<rparr>) = Inr r"
      by (simp add: Let_def)
    then show ?thesis
      by (rule parse_plan_ok)
         (use check True h m \<open>n < 2 ^ 32\<close> in \<open>auto simp: wf_response_def response_check_ok\<close>)
  next
    case False
    with check h have st: "status = ''error''" "sv = ''3.0''" "role = ''assistant''"
      by (simp_all add: response_check_ok)
    from check h st obtain c1 m1 where cm: "code = Some c1" "msg = Some m1" "c1 \<noteq> []" "m1 \<noteq> []"
      by (auto simp: response_check_ok)
    from c h st have cont: "\<not> cont" by simp
    from tail h st have "r = h\<lparr>resp_refinement_mode := mode, resp_refinement_enabled := en,
            resp_refinement_pass_index := p, resp_refinement_max_passes := n,
            resp_refinement_continue := cont, resp_refinement_stop_reason := stop\<rparr>"
      by (simp add: Let_def)
    then show ?thesis
      using h st cm cont m \<open>n < 2 ^ 32\<close> by (simp add: wf_response_def)
  qed
qed

subsection \<open>The reference encoder\<close>

text \<open>A response as the protocol lays it out; the operations of an error response are left out.\<close>

definition operation_object :: "dt_agent_chat_operation \<Rightarrow> json_object" where
  "operation_object operation =
     [(''operationId'', js_str (op_operation_id operation)),
      (''sequence'', JInt (op_sequence operation)),
      (''kind'', js_str (op_kind_name operation)),
      (''target'', JObject [(''type'', js_str (op_target_type operation)),
                            (''actionPath'', js_str (op_action_path operation)),
                            (''settingId'', js_str (op_setting_id operation))]),
      (''value'', JObject [(''mode'', JString (dt_agent_value_mode_to_string (op_value_mode operation))),
                           (''number'', JDouble (op_number operation)),
                           (''choiceValue'', JInt (op_choice_value operation)),
                           (''choiceId'', js_str (op_choice_id operation)),
                           (''boolValue'', JBool (op_bool_value operation))])]"

definition response_object :: "dt_agent_chat_response \<Rightarrow> json_object" where
  "response_object r =
     [(''schemaVersion'', js_str (resp_schema_version r)),
      (''requestId'', js_str (resp_request_id r)),
      (''session'', JObject [(''appSessionId'', js_str (resp_app_session_id r)),
                             (''imageSessionId'', js_str (resp_image_session_id r)),
                             (''conversationId'', js_str (resp_conversation_id r)),
                             (''turnId'', js_str (resp_turn_id r))]),
      (''status'', js_str (resp_status r)),
      (''assistantMessage'', JObject [(''role'', js_str (resp_message_role r)),
                                      (''text'', js_str (resp_message_text r))]),
      (''refinement'', JObject
         [(''mode'', JString (dt_agent_refinement_mode_to_string (resp_refinement_mode r))),
          (''enabled'', JBool (resp_refinement_enabled r)),
          (''passIndex'', JInt (int (resp_refinement_pass_index r))),
          (''maxPasses'', JInt (int (resp_refinement_max_passes r))),
          (''continueRefining'', JBool (resp_refinement_continue r)),
          (''stopReason'', js_str (resp_refinement_stop_reason r))]),
      (''plan'',
         if resp_status r = Some ''ok''
         then JObject [(''planId'', js_str (resp_plan_id r)),
                       (''baseImageRevisionId'', js_str (resp_base_image_revision_id r)),
                       (''operations'', JArray (map (\<lambda>oper. JObject (operation_object oper))
                                                    (garray (resp_operations r))))]
         else JNull),
      (''error'',
         if resp_status r = Some ''ok'' then JNull
         else JObject [(''code'', js_str (resp_error_code r)),
                       (''message'', js_str (resp_error_message r))])]"

lemma require_string_js_str:
  "nonempty s \<Longrightarrow> json_object_get_member obj m = Some (js_str s)
     \<Longrightarrow> require_string_member obj m = Inr (the s)"
  by (auto simp: require_string_member_ok nonempty_iff)

lemma parse_operation_object:
  assumes "wf_operation operation"
  shows "parse_operation (operation_object operation) = Inr operation"
proof -
  from assms obtain oid path sid where
    ids: "op_operation_id operation = Some oid" "op_action_path operation = Some path"
         "op_setting_id operation = Some sid" "oid \<noteq> []" "path \<noteq> []" "sid \<noteq> []"
    by (auto simp: wf_operation_def nonempty_iff)
  have ne: "dt_agent_operation_kind_to_string k \<noteq> []" "dt_agent_value_mode_to_string m \<noteq> []" for k m
    by (cases k; simp) (cases m; simp)
  have str: "require_string_member obj m = Inr s"
    if "json_object_get_member obj m = Some (JString s)" "s \<noteq> []" for obj m s
    using that by (simp add: require_string_member_ok)
  have opt: "s = None \<or> (\<exists>cs. s = Some cs \<and> cs \<noteq> [])" if "s \<noteq> Some []" for s :: cstr
    using that by (cases s) auto
  show ?thesis
    using assms ids ne
    by (cases operation, cases "op_kind operation")
       (auto simp: wf_operation_def parse_operation_def operation_object_def str Let_def
          zero_operation_def parse_sequence_def parse_operation_value_def require_number_member_def
          dest!: opt)
qed

lemma eloop_operation_objects:
  "list_all wf_operation ops
     \<Longrightarrow> eloop parse_operation_node i (map (\<lambda>oper. JObject (operation_object oper)) ops) = Inr ops"
  by (induction ops arbitrary: i) (simp_all add: parse_operation_node_def parse_operation_object)

lemma parse_response_head_object:
  assumes "wf_response r"
  shows "parse_response_head (response_object r) = Inr (dt_agent_chat_response_init
            \<lparr>resp_schema_version := resp_schema_version r, resp_request_id := resp_request_id r,
             resp_app_session_id := resp_app_session_id r,
             resp_image_session_id := resp_image_session_id r,
             resp_conversation_id := resp_conversation_id r, resp_turn_id := resp_turn_id r,
             resp_status := resp_status r, resp_message_role := resp_message_role r,
             resp_message_text := resp_message_text r, resp_error_code := resp_error_code r,
             resp_error_message := resp_error_message r\<rparr>)"
proof -
  have str: "require_string_member obj m = Inr s"
    if "json_object_get_member obj m = Some (JString s)" "s \<noteq> []" for obj m s
    using that by (simp add: require_string_member_ok)
  have session: "parse_session (response_object r) = Inr (the (resp_app_session_id r),
      the (resp_image_session_id r), the (resp_conversation_id r), the (resp_turn_id r))"
    using assms by (auto simp: parse_session_ok response_object_def wf_response_def nonempty_iff str)
  have message: "parse_message (response_object r) ''assistantMessage''
      = Inr (the (resp_message_role r), the (resp_message_text r))"
    using assms by (auto simp: parse_message_ok response_object_def wf_response_def nonempty_iff str)
  have err: "parse_error (response_object r) = Inr (resp_error_code r, resp_error_message r)"
    using assms
    by (auto simp: parse_error_ok response_object_def wf_response_def nonempty_iff str split: if_splits)
  have "require_string_member (response_object r) ''schemaVersion'' = Inr ''3.0''"
       "require_string_member (response_object r) ''requestId'' = Inr (the (resp_request_id r))"
       "require_string_member (response_object r) ''status'' = Inr (the (resp_status r))"
    using assms by (auto simp: response_object_def wf_response_def nonempty_iff str split: if_splits)
  then show ?thesis
    using assms session message err
    by (auto simp: parse_response_head_def wf_response_def nonempty_iff split: if_splits)
qed

lemma parse_response_object_complete:
  assumes wf: "wf_response r"
  shows "parse_response_object (response_object r) = Inr r"
proof -
  have mode: "dt_agent_refinement_mode_to_string m \<noteq> []" for m by (cases m) simp_all
  let ?p = "resp_refinement_pass_index r" and ?n = "resp_refinement_max_passes r"
  have ref: "parse_refinement (response_object r) ''refinement'' (resp_status r = Some ''ok'')
      = Inr (resp_refinement_mode r, resp_refinement_enabled r, ?p, ?n,
             resp_refinement_continue r, resp_refinement_stop_reason r)"
    using wf mode
    by (auto simp: parse_refinement_ok response_object_def wf_response_def require_string_member_ok
        require_boolean_member_ok require_uint_member_ok parse_optional_string_member_ok
        to_guint_id split: option.splits if_splits)
  have check: "response_check (dt_agent_chat_response_init
            \<lparr>resp_schema_version := resp_schema_version r, resp_request_id := resp_request_id r,
             resp_app_session_id := resp_app_session_id r,
             resp_image_session_id := resp_image_session_id r,
             resp_conversation_id := resp_conversation_id r, resp_turn_id := resp_turn_id r,
             resp_status := resp_status r, resp_message_role := resp_message_role r,
             resp_message_text := resp_message_text r, resp_error_code := resp_error_code r,
             resp_error_message := resp_error_message r\<rparr>) = None"
    using wf by (auto simp: response_check_ok wf_response_def nonempty_iff split: if_splits)
  have plan: "parse_plan (response_object r) g = Inr (g\<lparr>resp_plan_id := resp_plan_id r,
      resp_base_image_revision_id := resp_base_image_revision_id r,
      resp_operations := resp_operations r\<rparr>)"
    if "resp_status r = Some ''ok''" "resp_operations g = Some []" for g
    using wf that
    by (auto simp: wf_response_def parse_plan_def response_object_def require_string_member_ok
        nonempty_iff ebind_def require_string_member_def eloop_operation_objects)
  show ?thesis
    unfolding parse_response_object_def parse_response_head_object [OF wf]
    using wf check ref plan
    by (cases r, cases "resp_status r = Some ''ok''")
       (auto simp: wf_response_def dt_agent_chat_response_init_def zero_response_def Let_def)
qed

subsection \<open>The parser as the client sees it\<close>

text \<open>
  C4: a response that \<open>dt_agent_chat_response_parse_data\<close> accepts is well formed, whatever the
  text and the JSON library: schema 3.0, all ids non-empty, role assistant, status ok without or
  error with error details, a known refinement mode, \<open>1 <= passIndex <= maxPasses < 2^32\<close>, a plan
  with ids exactly for status ok, and every operation of a known kind and mode on a darktable
  action with the value flag of its kind and no other.  \<open>*error\<close> is not touched.
\<close>

theorem response_parse_sound:
  assumes "dt_agent_chat_response_parse_data load data len response error = (True, out, error')"
  shows "\<exists>r. out = Some r \<and> wf_response r \<and> error' = error"
  using assms parse_response_object_wf
  by (auto simp: dt_agent_chat_response_parse_data_def
      split: option.splits sum.splits json.splits)

text \<open>A well-formed response with one operation of each kind, for the witnesses.\<close>

definition sample_response :: dt_agent_chat_response where
  "sample_response = dt_agent_chat_response_init
     \<lparr>resp_schema_version := Some ''3.0'', resp_request_id := Some ''r1'',
      resp_app_session_id := Some ''a1'', resp_image_session_id := Some ''i1'',
      resp_conversation_id := Some ''c1'', resp_turn_id := Some ''t1'',
      resp_plan_id := Some ''p1'', resp_base_image_revision_id := Some ''image-7-history-1-1'',
      resp_status := Some ''ok'', resp_message_role := Some ''assistant'',
      resp_message_text := Some ''done'',
      resp_operations := Some
        [zero_operation\<lparr>op_operation_id := Some ''o1'', op_sequence := 1,
           op_kind := DT_AGENT_OPERATION_SET_FLOAT, op_kind_name := Some ''set-float'',
           op_status := Some ''planned'', op_target_type := Some ''darktable-action'',
           op_action_path := Some ''iop/exposure/exposure'', op_setting_id := Some ''s1'',
           op_value_mode := DT_AGENT_VALUE_MODE_DELTA, op_number := Fin (1 / 2)\<rparr>,
         zero_operation\<lparr>op_operation_id := Some ''o2'', op_sequence := 2,
           op_kind := DT_AGENT_OPERATION_SET_CHOICE, op_kind_name := Some ''set-choice'',
           op_status := Some ''planned'', op_target_type := Some ''darktable-action'',
           op_action_path := Some ''iop/filmic/mode'', op_setting_id := Some ''s2'',
           op_value_mode := DT_AGENT_VALUE_MODE_SET, op_has_choice_value := True,
           op_choice_value := 3, op_choice_id := Some ''three''\<rparr>],
      resp_refinement_mode := DT_AGENT_REFINEMENT_MODE_MULTI, resp_refinement_enabled := True,
      resp_refinement_pass_index := 2, resp_refinement_max_passes := 3,
      resp_refinement_continue := True\<rparr>"

lemma sample_response_wf: "wf_response sample_response"
  by (simp add: wf_response_def sample_response_def wf_operation_def zero_operation_def
      is_gint_def dt_agent_chat_response_init_def zero_response_def)

lemma response_parse_sound_witness:
  "wf_response sample_response"
proof -
  let ?load = "\<lambda>text len. Inr (Some (JObject (response_object sample_response)))"
  have "dt_agent_chat_response_parse_data ?load (Some ''{}'') (- 1) (Some zero_response) None
          = (True, Some sample_response, None)"
    by (simp add: dt_agent_chat_response_parse_data_def parse_response_object_complete
        sample_response_wf)
  from response_parse_sound [OF this] show ?thesis by simp
qed

text \<open>
  C5: every well-formed response can be received: when the JSON library reads the text back as the
  tree the protocol prescribes for \<open>r\<close>, the parser succeeds and yields \<open>r\<close> itself, operations in
  order, whatever was in the response before.
\<close>

theorem response_parse_roundtrip:
  assumes "wf_response r" and "load text len = Inr (Some (JObject (response_object r)))"
  shows "dt_agent_chat_response_parse_data load (Some text) len (Some old) error
           = (True, Some r, error)"
  using assms by (simp add: dt_agent_chat_response_parse_data_def parse_response_object_complete)

lemma response_parse_roundtrip_witness:
  "dt_agent_chat_response_parse_data
     (\<lambda>text len. Inr (Some (JObject (response_object sample_response))))
     (Some ''{}'') 2 (Some zero_response) None = (True, Some sample_response, None)"
  by (rule response_parse_roundtrip) (simp_all add: sample_response_wf)

text \<open>Every error of the readers is one of the protocol's own.\<close>

definition fails_with_protocol_error :: "'a result \<Rightarrow> bool" where
  "fails_with_protocol_error r \<longleftrightarrow> (\<forall>e. r = Inl e \<longrightarrow> (\<exists>msg. e = agent_protocol_error msg))"

named_theorems protocol_errors \<open>readers that fail with errors of the protocol only\<close>

lemma protocol_error_returns [protocol_errors]:
  "fails_with_protocol_error (Inr x)" "fails_with_protocol_error (Inl (agent_protocol_error msg))"
  "fails_with_protocol_error (Inl (missing_member m))"
  by (auto simp: fails_with_protocol_error_def missing_member_def)

lemma protocol_error_ebind [protocol_errors]:
  "fails_with_protocol_error r \<Longrightarrow> (\<And>x. r = Inr x \<Longrightarrow> fails_with_protocol_error (f x))
     \<Longrightarrow> fails_with_protocol_error (ebind r f)"
  by (cases r) (auto simp: fails_with_protocol_error_def)

lemma protocol_error_members [protocol_errors]:
  "fails_with_protocol_error (require_string_member obj m)"
  "fails_with_protocol_error (require_number_member obj m)"
  "fails_with_protocol_error (require_uint_member obj m)"
  "fails_with_protocol_error (require_boolean_member obj m)"
  "fails_with_protocol_error (parse_optional_string_member obj m)"
  by (auto simp: require_string_member_def require_number_member_def require_uint_member_def
      require_boolean_member_def parse_optional_string_member_def protocol_errors
      split: option.splits json.splits)

lemma protocol_error_parts [protocol_errors]:
  "fails_with_protocol_error (parse_message obj m)"
  "fails_with_protocol_error (parse_error obj)"
  "fails_with_protocol_error (parse_session obj)"
  by (auto simp: parse_message_def parse_error_def parse_session_def
      intro!: protocol_errors split: option.splits json.splits)

lemma protocol_error_refinement [protocol_errors]:
  "fails_with_protocol_error (parse_refinement obj m req)"
  by (auto simp: parse_refinement_def Let_def intro!: protocol_errors split: option.splits json.splits)

lemma protocol_error_operation [protocol_errors]:
  "fails_with_protocol_error (parse_operation_node i node)"
proof -
  have v: "fails_with_protocol_error (parse_operation_value operation val)" for operation val
    by (auto simp: parse_operation_value_def Let_def intro!: protocol_errors
        split: option.splits json.splits dt_agent_operation_kind_t.splits)
  show ?thesis
    by (auto simp: parse_operation_node_def parse_operation_def Let_def intro!: protocol_errors v
        split: option.splits json.splits)
qed

lemma protocol_error_loop [protocol_errors]:
  "(\<And>i x. fails_with_protocol_error (f i x)) \<Longrightarrow> fails_with_protocol_error (eloop f n xs)"
  by (induction xs arbitrary: n) (auto intro!: protocol_errors)

lemma protocol_error_object: "fails_with_protocol_error (parse_response_object obj)"
proof -
  have c: "\<exists>msg. e = agent_protocol_error msg" if "response_check r = Some e" for r e
    using that by (auto simp: response_check_def split: if_splits)
  have p: "fails_with_protocol_error (parse_plan obj r)" for r
    by (auto simp: parse_plan_def intro!: protocol_errors split: option.splits json.splits)
  have h: "fails_with_protocol_error (parse_response_head obj)"
    by (auto simp: parse_response_head_def intro!: protocol_errors)
  show ?thesis
    by (auto simp: parse_response_object_def Let_def intro!: protocol_errors p h
        split: option.splits dest!: c)
qed

text \<open>
  C6: a rejected response leaves an error and nothing half-parsed.  An error that was there before is
  kept.  If a buffer or the response is missing, the text is not JSON, or its root is not an object,
  the response is exactly what it was, and the error is that of the cause, the JSON library's own
  included; if the root is an object, then every member of the response is reset, the error is one of
  the protocol's, and the object was not the encoding of any well-formed response.
\<close>

theorem response_parse_failure:
  assumes "dt_agent_chat_response_parse_data load data len response error = (False, out, error')"
  shows "error' \<noteq> None \<and> (error \<noteq> None \<longrightarrow> error' = error)
     \<and> (case (data, response) of
          (Some text, Some r) \<Rightarrow>
            (case load text len of
               Inl e \<Rightarrow> out = response \<and> (error = None \<longrightarrow> error' = Some e)
             | Inr (Some (JObject obj)) \<Rightarrow>
                 out = Some zero_response
                 \<and> (error = None \<longrightarrow> (\<exists>msg. error' = Some (agent_protocol_error msg)))
                 \<and> (\<forall>r'. wf_response r' \<longrightarrow> obj \<noteq> response_object r')
             | Inr _ \<Rightarrow> out = response
                 \<and> (error = None \<longrightarrow>
                      error' = Some (agent_protocol_error ''response root must be an object'')))
        | _ \<Rightarrow> out = response
            \<and> (error = None \<longrightarrow> error' = Some (agent_protocol_error ''response buffer is invalid'')))"
  using assms protocol_error_object
  by (auto simp: dt_agent_chat_response_parse_data_def g_set_error_def fails_with_protocol_error_def
      dt_agent_chat_response_clear_def parse_response_object_complete
      split: option.splits sum.splits json.splits)

lemma response_parse_failure_witness:
  "(let out = dt_agent_chat_response_parse_data (\<lambda>text len. Inr (Some (JObject []))) (Some ''{}'') 2
       (Some sample_response) None
    in \<not> fst out \<and> fst (snd out) = Some zero_response
       \<and> (\<exists>msg. snd (snd out) = Some (agent_protocol_error msg)))
   \<and> \<not> (\<exists>r'. wf_response r' \<and> [] = response_object r')"
proof -
  have run: "dt_agent_chat_response_parse_data (\<lambda>text len. Inr (Some (JObject []))) (Some ''{}'') 2
       (Some sample_response) None
     = (False, Some zero_response, Some (agent_protocol_error
          (''missing required member '' @ quoted ''schemaVersion'')))"
    by (simp add: dt_agent_chat_response_parse_data_def parse_response_object_def
        parse_response_head_def require_string_member_def missing_member_def g_set_error_def
        dt_agent_chat_response_clear_def)
  from response_parse_failure [OF run] run show ?thesis by auto
qed

end
