(* ===== verification/Protocol_Serialize.thy ===== *)
theory Protocol_Serialize
  imports Protocol_Parse
begin

text \<open>
  Serialisation of chat requests, \<open>dt_agent_chat_request_serialize\<close> of \<open>agent_protocol.c\<close> with its
  static helpers.  What the code adds to its \<open>JsonBuilder\<close> is written as the tree it builds; the
  generator that prints the tree is an argument.
\<close>

definition DT_AGENT_VALUE_MODE_FLAG_SET :: "32 word" where
  "DT_AGENT_VALUE_MODE_FLAG_SET = push_bit 0 1"

definition DT_AGENT_VALUE_MODE_FLAG_DELTA :: "32 word" where
  "DT_AGENT_VALUE_MODE_FLAG_DELTA = push_bit 1 1"

lemma flag_simps [simp]:
  "DT_AGENT_VALUE_MODE_FLAG_SET = 1" "DT_AGENT_VALUE_MODE_FLAG_DELTA = 2"
  by (simp_all add: DT_AGENT_VALUE_MODE_FLAG_SET_def DT_AGENT_VALUE_MODE_FLAG_DELTA_def)

definition json_supported_modes :: "32 word \<Rightarrow> json" where
  "json_supported_modes modes = JArray
     ((if modes AND DT_AGENT_VALUE_MODE_FLAG_SET \<noteq> 0 then [JString ''set''] else [])
      @ (if modes AND DT_AGENT_VALUE_MODE_FLAG_DELTA \<noteq> 0 then [JString ''delta''] else []))"

definition serialize_choice_options :: "dt_agent_choice_option list option \<Rightarrow> json" where
  "serialize_choice_options choices =
     (case choices of
        None \<Rightarrow> JNull
      | Some options \<Rightarrow> JArray (map (\<lambda>opt. JObject
          [(''choiceValue'', JInt (opt_choice_value opt)),
           (''choiceId'', js_str (opt_choice_id opt)),
           (''label'', js_str (opt_label opt))]) options))"

definition serialize_capability :: "dt_agent_capability \<Rightarrow> json" where
  "serialize_capability cap = JObject
     ([(''moduleId'', js_str (cap_module_id cap)),
       (''moduleLabel'', js_str (cap_module_label cap)),
       (''capabilityId'', js_str (cap_capability_id cap)),
       (''label'', js_str (cap_label cap)),
       (''kind'', js_str (cap_kind cap)),
       (''targetType'', js_str (cap_target_type cap)),
       (''actionPath'', js_str (cap_action_path cap)),
       (''supportedModes'', json_supported_modes (cap_supported_modes cap))]
      @ (if cap_kind cap = Some ''set-float''
         then [(''minNumber'', JDouble (cap_min_number cap)),
               (''maxNumber'', JDouble (cap_max_number cap)),
               (''defaultNumber'', JDouble (cap_default_number cap)),
               (''stepNumber'', JDouble (cap_step_number cap))]
         else [(''minNumber'', JNull), (''maxNumber'', JNull),
               (''defaultNumber'', JNull), (''stepNumber'', JNull)])
      @ [(''choices'', serialize_choice_options (cap_choices cap)),
         (''defaultChoiceValue'',
            js_if (cap_has_default_choice_value cap) (JInt (cap_default_choice_value cap))),
         (''defaultBool'', js_if (cap_has_default_bool cap) (JBool (cap_default_bool cap)))])"

definition serialize_capabilities :: "dt_agent_capability list option \<Rightarrow> json" where
  "serialize_capabilities capabilities =
     JArray (case capabilities of None \<Rightarrow> [] | Some caps \<Rightarrow> map serialize_capability caps)"

definition build_image_revision_id :: "dt_agent_chat_request option \<Rightarrow> string" where
  "build_image_revision_id request =
     (case request of
        None \<Rightarrow> ''image-unknown''
      | Some r \<Rightarrow>
          if nonempty (req_image_revision_id r) then the (req_image_revision_id r)
          else if ui_has_image_id (req_ui_context r)
          then ''image-'' @ show_int (ui_image_id (req_ui_context r)) @ ''-history-''
               @ show_int (st_history_position (req_image_state r)) @ ''-''
               @ show_int (st_history_count (req_image_state r))
          else ''image-unknown'')"

definition serialize_metadata :: "dt_agent_image_metadata \<Rightarrow> json" where
  "serialize_metadata md = JObject
     [(''imageId'', js_if (md_has_image_id md) (JInt (md_image_id md))),
      (''imageName'', js_str (md_image_name md)),
      (''cameraMaker'', js_str (md_camera_maker md)),
      (''cameraModel'', js_str (md_camera_model md)),
      (''width'', JInt (md_width md)),
      (''height'', JInt (md_height md)),
      (''exifExposureSeconds'', JDouble (md_exif_exposure_seconds md)),
      (''exifAperture'', JDouble (md_exif_aperture md)),
      (''exifIso'', JDouble (md_exif_iso md)),
      (''exifFocalLength'', JDouble (md_exif_focal_length md))]"

definition serialize_control :: "dt_agent_image_control \<Rightarrow> json" where
  "serialize_control ctl =
     (let is_float = (ctl_kind ctl = Some ''set-float'') in JObject
     [(''moduleId'', js_str (ctl_module_id ctl)),
      (''moduleLabel'', js_str (ctl_module_label ctl)),
      (''settingId'', js_str (ctl_setting_id ctl)),
      (''capabilityId'', js_str (ctl_capability_id ctl)),
      (''label'', js_str (ctl_label ctl)),
      (''kind'', js_str (ctl_kind ctl)),
      (''actionPath'', js_str (ctl_action_path ctl)),
      (''supportedModes'', json_supported_modes (ctl_supported_modes ctl)),
      (''minNumber'', js_if is_float (JDouble (ctl_min_number ctl))),
      (''maxNumber'', js_if is_float (JDouble (ctl_max_number ctl))),
      (''defaultNumber'', js_if is_float (JDouble (ctl_default_number ctl))),
      (''stepNumber'', js_if is_float (JDouble (ctl_step_number ctl))),
      (''currentNumber'', js_if (ctl_has_current_number ctl) (JDouble (ctl_current_number ctl))),
      (''choices'', serialize_choice_options (ctl_choices ctl)),
      (''defaultChoiceValue'',
         js_if (ctl_has_default_choice_value ctl) (JInt (ctl_default_choice_value ctl))),
      (''currentChoiceValue'',
         js_if (ctl_has_current_choice_value ctl) (JInt (ctl_current_choice_value ctl))),
      (''currentChoiceId'', js_str (ctl_current_choice_id ctl)),
      (''defaultBool'', js_if (ctl_has_default_bool ctl) (JBool (ctl_default_bool ctl))),
      (''currentBool'', js_if (ctl_has_current_bool ctl) (JBool (ctl_current_bool ctl)))])"

definition serialize_history_item :: "dt_agent_history_item \<Rightarrow> json" where
  "serialize_history_item item = JObject
     [(''num'', JInt (hi_num item)),
      (''module'', js_str (hi_module item)),
      (''enabled'', JBool (hi_enabled item)),
      (''multiPriority'', JInt (hi_multi_priority item)),
      (''instanceName'', js_str (hi_instance_name item)),
      (''iopOrder'', JInt (hi_iop_order item))]"

definition serialize_preview :: "dt_agent_preview \<Rightarrow> json" where
  "serialize_preview pv =
     (if pv_available pv
      then JObject
        [(''previewId'', js_str (pv_preview_id pv)),
         (''mimeType'', js_str (pv_mime_type pv)),
         (''width'', JInt (pv_width pv)),
         (''height'', JInt (pv_height pv)),
         (''base64Data'', js_str (pv_base64_data pv))]
      else JNull)"

text \<open>The loop writes the bins \<open>0\<close> to \<open>bin_count - 1\<close> of each channel.\<close>

definition serialize_channel :: "int \<Rightarrow> 32 word list \<Rightarrow> json" where
  "serialize_channel bin_count bins =
     JObject [(''bins'', JArray (map (\<lambda>b. JInt (uint b)) (take (nat bin_count) bins)))]"

definition serialize_histogram :: "dt_agent_histogram \<Rightarrow> json" where
  "serialize_histogram hg =
     (if hg_available hg
      then JObject
        [(''binCount'', JInt (hg_bin_count hg)),
         (''channels'', JObject
            [(''red'', serialize_channel (hg_bin_count hg) (hg_red hg)),
             (''green'', serialize_channel (hg_bin_count hg) (hg_green hg)),
             (''blue'', serialize_channel (hg_bin_count hg) (hg_blue hg)),
             (''luma'', serialize_channel (hg_bin_count hg) (hg_luma hg))])]
      else JNull)"

definition serialize_image_snapshot :: "dt_agent_chat_request \<Rightarrow> json" where
  "serialize_image_snapshot request =
     (let state = req_image_state request in JObject
       [(''imageRevisionId'', JString (build_image_revision_id (Some request))),
        (''historyPosition'', JInt (st_history_position state)),
        (''historyCount'', JInt (st_history_count state)),
        (''metadata'', serialize_metadata (st_metadata state)),
        (''editableSettings'', JArray (map serialize_control (garray (st_controls state)))),
        (''history'', JArray (map serialize_history_item (garray (st_history state)))),
        (''preview'', serialize_preview (st_preview state)),
        (''histogram'', serialize_histogram (st_histogram state))])"

text \<open>The guard of \<open>dt_agent_chat_request_serialize\<close>.\<close>

definition request_incomplete :: "dt_agent_chat_request \<Rightarrow> bool" where
  "request_incomplete request \<longleftrightarrow>
     req_request_id request = None \<or> req_app_session_id request = None
     \<or> req_image_session_id request = None \<or> req_conversation_id request = None
     \<or> req_turn_id request = None \<or> req_message_text request = None
     \<or> ui_view (req_ui_context request) = None
     \<or> req_capabilities request = None \<or> garray (req_capabilities request) = []
     \<or> req_refinement_mode request = DT_AGENT_REFINEMENT_MODE_UNKNOWN
     \<or> \<not> nonempty (req_refinement_goal_text request)
     \<or> req_refinement_enabled request
          \<noteq> (req_refinement_mode request = DT_AGENT_REFINEMENT_MODE_MULTI)
     \<or> req_refinement_pass_index request = 0
     \<or> req_refinement_max_passes request = 0
     \<or> req_refinement_max_passes request < req_refinement_pass_index request
     \<or> (\<not> req_refinement_enabled request
        \<and> (req_refinement_pass_index request \<noteq> 1 \<or> req_refinement_max_passes request \<noteq> 1))"

definition request_tree :: "dt_agent_chat_request \<Rightarrow> json" where
  "request_tree request =
     (let ui = req_ui_context request in JObject
       [(''schemaVersion'', JString (str_or (req_schema_version request) DT_AGENT_CHAT_SCHEMA_VERSION)),
        (''requestId'', js_str (req_request_id request)),
        (''session'', JObject
           [(''appSessionId'', js_str (req_app_session_id request)),
            (''imageSessionId'', js_str (req_image_session_id request)),
            (''conversationId'', js_str (req_conversation_id request)),
            (''turnId'', js_str (req_turn_id request))]),
        (''message'', JObject
           [(''role'', JString ''user''),
            (''text'', js_str (req_message_text request))]),
        (''fast'', JBool (req_fast_mode request)),
        (''uiContext'', JObject
           [(''view'', js_str (ui_view ui)),
            (''imageId'', js_if (ui_has_image_id ui) (JInt (ui_image_id ui))),
            (''imageName'', js_str (ui_image_name ui))]),
        (''refinement'', JObject
           [(''mode'', JString (dt_agent_refinement_mode_to_string (req_refinement_mode request))),
            (''enabled'', JBool (req_refinement_enabled request)),
            (''passIndex'', JInt (max 1 (to_gint (int (req_refinement_pass_index request))))),
            (''maxPasses'', JInt (max 1 (to_gint (int (req_refinement_max_passes request))))),
            (''goalText'', js_str (req_refinement_goal_text request))]),
        (''capabilityManifest'', JObject
           [(''manifestVersion'', JString ''darktable-agent-live''),
            (''targets'', serialize_capabilities (req_capabilities request))]),
        (''imageSnapshot'', serialize_image_snapshot request)])"

text \<open>
  The serialised text (NULL on an incomplete request, or if the generator gives none) and \<open>*error\<close>.
\<close>

definition dt_agent_chat_request_serialize ::
  "json_printer \<Rightarrow> dt_agent_chat_request option \<Rightarrow> gerror option \<Rightarrow> cstr \<times> gerror option" where
  "dt_agent_chat_request_serialize to_data request error =
     (case request of
        Some r \<Rightarrow>
          if request_incomplete r
          then (None, g_set_error error \<lparr>gerr_domain = ''dt-agent-protocol-error'', gerr_code = 1,
                                         gerr_message = ''request is incomplete''\<rparr>)
          else (to_data (request_tree r), error)
      | None \<Rightarrow> (None, g_set_error error \<lparr>gerr_domain = ''dt-agent-protocol-error'', gerr_code = 1,
                                             gerr_message = ''request is incomplete''\<rparr>))"

subsection \<open>What the server receives\<close>

text \<open>
  C7: the request the client sends for a copy is the request it sends for the original (the chat
  job serialises a copy): no field that reaches the wire is lost or changed by
  \<open>dt_agent_chat_request_copy\<close>, and neither is the decision to refuse an incomplete one.
\<close>

theorem request_copy_serialize:
  assumes "image_state_ready (req_image_state r)"
  shows "dt_agent_chat_request_serialize to_data (Some (dt_agent_chat_request_copy r)) error
           = dt_agent_chat_request_serialize to_data (Some r) error"
proof (cases "req_capabilities r")
  case None
  then show ?thesis
    by (simp add: dt_agent_chat_request_copy_eq [OF assms] dt_agent_chat_request_serialize_def
        request_incomplete_def)
next
  case (Some caps)
  then have "dt_agent_chat_request_copy r = r"
    by (simp add: dt_agent_chat_request_copy_eq [OF assms])
  then show ?thesis by simp
qed

text \<open>A complete request, for the witnesses.\<close>

definition sample_request :: dt_agent_chat_request where
  "sample_request = dt_agent_chat_request_init
     \<lparr>req_request_id := Some ''r1'', req_app_session_id := Some ''a1'',
      req_image_session_id := Some ''i1'', req_conversation_id := Some ''c1'',
      req_turn_id := Some ''t1'', req_message_text := Some ''brighter'',
      req_refinement_mode := DT_AGENT_REFINEMENT_MODE_MULTI, req_refinement_enabled := True,
      req_refinement_pass_index := 2, req_refinement_max_passes := 15,
      req_refinement_goal_text := Some ''brighter'',
      req_ui_context := \<lparr>ui_view = Some ''darkroom'', ui_has_image_id = True, ui_image_id = 42,
                          ui_image_name = None\<rparr>,
      req_capabilities := Some [zero_capability\<lparr>cap_kind := Some ''set-float''\<rparr>],
      req_image_state := dt_agent_image_state_init
        \<lparr>st_history_position := 3, st_history_count := 4\<rparr>\<rparr>"

lemma request_copy_serialize_witness:
  "dt_agent_chat_request_serialize (\<lambda>j. Some ''x'') (Some (dt_agent_chat_request_copy sample_request)) None
     = (Some ''x'', None)"
proof -
  have "image_state_ready (req_image_state sample_request)"
    by (simp add: sample_request_def image_state_ready_def dt_agent_image_state_init_def)
  from request_copy_serialize [OF this, of "\<lambda>j. Some ''x''" None]
  show ?thesis
    by (simp add: dt_agent_chat_request_serialize_def request_incomplete_def sample_request_def
        dt_agent_chat_request_init_def)
qed

text \<open>
  C8: a request that is accepted is understood as it was meant, provided its session ids are not empty
  and its maximum of passes is below 2147483648 (the code converts the pass numbers to a \<open>gint\<close>; the
  serialiser checks neither).  The session and refinement members the request carries are then read by
  the response parser (the server echoes both) as the very session ids, mode, flag and pass numbers of
  the request.
\<close>

theorem request_members_parse_back:
  assumes "dt_agent_chat_request_serialize to_data (Some r) None = (out, None)"
    and "nonempty (req_app_session_id r)" "nonempty (req_image_session_id r)"
    and "nonempty (req_conversation_id r)" "nonempty (req_turn_id r)"
    and "req_refinement_max_passes r < 2 ^ 31"
  shows "\<exists>obj. out = to_data (JObject obj)
     \<and> parse_session obj = Inr (the (req_app_session_id r), the (req_image_session_id r),
                                the (req_conversation_id r), the (req_turn_id r))
     \<and> parse_refinement obj ''refinement'' False
         = Inr (req_refinement_mode r, req_refinement_enabled r, req_refinement_pass_index r,
                req_refinement_max_passes r, False, None)
     \<and> (req_refinement_enabled r \<longleftrightarrow> req_refinement_mode r = DT_AGENT_REFINEMENT_MODE_MULTI)
     \<and> 1 \<le> req_refinement_pass_index r
     \<and> req_refinement_pass_index r \<le> req_refinement_max_passes r"
proof -
  from assms(1) have complete: "\<not> request_incomplete r" and out: "out = to_data (request_tree r)"
    by (auto simp: dt_agent_chat_request_serialize_def g_set_error_def split: if_splits)
  obtain obj where tree: "request_tree r = JObject obj"
    by (auto simp: request_tree_def Let_def)
  have mode: "dt_agent_refinement_mode_to_string m \<noteq> []" for m by (cases m) simp_all
  let ?p = "req_refinement_pass_index r" and ?n = "req_refinement_max_passes r"
  from complete have pass: "1 \<le> ?p" "?p \<le> ?n" and
    m: "req_refinement_mode r \<noteq> DT_AGENT_REFINEMENT_MODE_UNKNOWN" and
    en: "req_refinement_enabled r \<longleftrightarrow> req_refinement_mode r = DT_AGENT_REFINEMENT_MODE_MULTI"
    by (auto simp: request_incomplete_def)
  have num: "max 1 (to_gint (int ?p)) = int ?p" "max 1 (to_gint (int ?n)) = int ?n"
    using pass assms(6) by (simp_all add: to_gint_id)
  have guint: "to_guint (int ?p) = ?p" "to_guint (int ?n) = ?n"
    using pass assms(6) by (simp_all add: to_guint_id)
  have "parse_session obj = Inr (the (req_app_session_id r), the (req_image_session_id r),
                                 the (req_conversation_id r), the (req_turn_id r))"
    using tree assms(2-5)
    by (auto simp: parse_session_ok require_string_member_ok request_tree_def Let_def nonempty_iff)
  moreover have ex: "Ex Not" by (rule exI [of _ False]) simp
  have "parse_refinement obj ''refinement'' False
      = Inr (req_refinement_mode r, req_refinement_enabled r, ?p, ?n, False, None)"
    using tree [symmetric] pass m mode num guint ex
    by (simp add: parse_refinement_ok require_string_member_ok require_boolean_member_ok
        require_uint_member_ok parse_optional_string_member_ok request_tree_def Let_def)
  ultimately show ?thesis
    using out tree pass en by auto
qed

lemma request_members_parse_back_witness:
  "\<exists>obj. parse_refinement obj ''refinement'' False
     = Inr (DT_AGENT_REFINEMENT_MODE_MULTI, True, 2, 15, False, None)"
proof -
  have "dt_agent_chat_request_serialize (\<lambda>j. Some ''x'') (Some sample_request) None
          = (Some ''x'', None)"
    by (simp add: dt_agent_chat_request_serialize_def request_incomplete_def sample_request_def
        dt_agent_chat_request_init_def)
  from request_members_parse_back [OF this] show ?thesis
    by (auto simp: sample_request_def dt_agent_chat_request_init_def)
qed

text \<open>
  Image revision ids identify what they name.  Two requests without an explicit revision id and
  on an image get the same id exactly if image, history position and history count agree, so the
  client's comparison of revision ids detects every change of them (also for negative numbers,
  although fields and separators are both written with a minus sign).
\<close>

theorem image_revision_id_injective:
  assumes "\<not> nonempty (req_image_revision_id r)" "\<not> nonempty (req_image_revision_id r')"
    and "ui_has_image_id (req_ui_context r)" "ui_has_image_id (req_ui_context r')"
  shows "build_image_revision_id (Some r) = build_image_revision_id (Some r')
     \<longleftrightarrow> ui_image_id (req_ui_context r) = ui_image_id (req_ui_context r')
       \<and> st_history_position (req_image_state r) = st_history_position (req_image_state r')
       \<and> st_history_count (req_image_state r) = st_history_count (req_image_state r')"
  using assms by (auto simp: build_image_revision_id_def show_int_sep show_int_inj)

lemma image_revision_id_injective_witness:
  "build_image_revision_id (Some sample_request)
     \<noteq> build_image_revision_id (Some (sample_request
          \<lparr>req_image_state := dt_agent_image_state_init
             \<lparr>st_history_position := 3, st_history_count := 5\<rparr>\<rparr>))"
  by (subst image_revision_id_injective)
     (simp_all add: sample_request_def dt_agent_chat_request_init_def zero_request_def)

end
