(* ===== verification/Catalog.thy ===== *)
theory Catalog
  imports Bauhaus Protocol_Serialize
begin

text \<open>
  The catalog of editable settings, \<open>agent_catalog.c\<close>: the identifiers it builds, the descriptors
  it collects from the modules of the darkroom, looking one up, and reading and writing the control
  a descriptor is bound to.  Functions that cannot change the world return a value; those that can
  return the world too.
\<close>

subsection \<open>Descriptors\<close>

datatype dt_agent_descriptor_binding_t =
    DT_AGENT_DESCRIPTOR_BINDING_WIDGET
  | DT_AGENT_DESCRIPTOR_BINDING_RGBLEVELS_HANDLE
  | DT_AGENT_DESCRIPTOR_BINDING_COLORZONES_BAND

record dt_agent_action_descriptor =
  ad_module_id :: cstr
  ad_module_label :: cstr
  ad_capability_id :: cstr
  ad_setting_id :: cstr
  ad_label :: cstr
  ad_kind_name :: cstr
  ad_target_type :: cstr
  ad_action_path :: cstr
  ad_operation_kind :: dt_agent_operation_kind_t
  ad_supported_modes :: "32 word"
  ad_binding :: dt_agent_descriptor_binding_t
  ad_module :: "dt_iop_module option"
  ad_widget :: "nat option"
  ad_element_name :: cstr
  ad_channel_index :: int
  ad_element_index :: int
  ad_has_number_range :: bool
  ad_min_number :: flt
  ad_max_number :: flt
  ad_default_number :: flt
  ad_step_number :: flt
  ad_choices :: "dt_agent_choice_option list option"
  ad_has_default_choice_value :: bool
  ad_default_choice_value :: int
  ad_has_default_bool :: bool
  ad_default_bool :: bool

definition zero_descriptor :: dt_agent_action_descriptor where
  "zero_descriptor = \<lparr>ad_module_id = None, ad_module_label = None, ad_capability_id = None,
     ad_setting_id = None, ad_label = None, ad_kind_name = None, ad_target_type = None,
     ad_action_path = None, ad_operation_kind = DT_AGENT_OPERATION_UNKNOWN,
     ad_supported_modes = 0, ad_binding = DT_AGENT_DESCRIPTOR_BINDING_WIDGET, ad_module = None,
     ad_widget = None, ad_element_name = None, ad_channel_index = 0, ad_element_index = 0,
     ad_has_number_range = False, ad_min_number = Fin 0, ad_max_number = Fin 0,
     ad_default_number = Fin 0, ad_step_number = Fin 0, ad_choices = None,
     ad_has_default_choice_value = False, ad_default_choice_value = 0,
     ad_has_default_bool = False, ad_default_bool = False\<rparr>"

definition agent_catalog_error :: "string \<Rightarrow> gerror" where
  "agent_catalog_error msg =
     \<lparr>gerr_domain = ''dt-agent-catalog-error'', gerr_code = 1, gerr_message = msg\<rparr>"

definition rgblevels_channel_ids :: "string list" where
  "rgblevels_channel_ids = [''red'', ''green'', ''blue'']"
definition rgblevels_channel_labels :: "string list" where
  "rgblevels_channel_labels = [''R'', ''G'', ''B'']"
definition rgblevels_handle_ids :: "string list" where
  "rgblevels_handle_ids = [''black'', ''gray'', ''white'']"
definition rgblevels_handle_labels :: "string list" where
  "rgblevels_handle_labels = [''black'', ''gray'', ''white'']"
definition colorzones_channel_ids :: "string list" where
  "colorzones_channel_ids = [''lightness'', ''chroma'', ''hue'']"
definition colorzones_channel_labels :: "string list" where
  "colorzones_channel_labels = [''lightness'', ''chroma'', ''hue'']"
definition colorzones_band_ids :: "string list" where
  "colorzones_band_ids =
     [''red'', ''orange'', ''yellow'', ''green'', ''aqua'', ''blue'', ''purple'', ''magenta'']"
definition colorzones_band_labels :: "string list" where
  "colorzones_band_labels =
     [''red'', ''orange'', ''yellow'', ''green'', ''aqua'', ''blue'', ''purple'', ''magenta'']"

subsection \<open>Identifiers\<close>

definition dt_agent_catalog_is_action_path_allowed :: "cstr \<Rightarrow> bool" where
  "dt_agent_catalog_is_action_path_allowed action_path \<longleftrightarrow> nonempty action_path"

text \<open>The escapes of \<open>@\<close>, \<open>;\<close>, \<open>/\<close> and backslash in a path segment.\<close>

definition escape_char :: "char \<Rightarrow> string" where
  "escape_char c =
     (if c = CHR ''@'' \<or> c = CHR '';'' \<or> c = CHR ''/'' \<or> c = CHR 0x5C
      then [CHR ''@'', if c = CHR '';'' then CHR '':'' else if c = CHR ''/'' then CHR ''<''
                       else if c = CHR 0x5C then CHR ''>'' else CHR ''@'']
      else [c])"

text \<open>The separator is left out after an owner whose own path is empty.\<close>

fun action_full_id :: "dt_action_t \<Rightarrow> string" where
  "action_full_id (Action aid label owner) =
     (let prefix = (case owner of None \<Rightarrow> [] | Some ow \<Rightarrow> action_full_id ow)
      in prefix @ (if prefix \<noteq> [] then ''/'' else []) @ concat (map escape_char aid))"

definition id_char :: "char \<Rightarrow> bool" where
  "id_char c \<longleftrightarrow>
     (let n = of_char c :: nat in
      97 \<le> n \<and> n \<le> 122 \<or> 65 \<le> n \<and> n \<le> 90 \<or> 48 \<le> n \<and> n \<le> 57)"

definition sanitize_id_segment :: "cstr \<Rightarrow> string" where
  "sanitize_id_segment value =
     (if \<not> nonempty value then ''unknown''
      else map (\<lambda>c. if id_char c then c else CHR ''.'') (the value))"

definition build_setting_id :: "cstr \<Rightarrow> dt_iop_module option \<Rightarrow> string" where
  "build_setting_id action_path mdl =
     ''setting.'' @ sanitize_id_segment action_path @ ''.instance.''
     @ show_int (case mdl of None \<Rightarrow> 0 | Some m \<Rightarrow> mod_multi_priority m)"

definition build_setting_id_with_suffix ::
  "cstr \<Rightarrow> dt_iop_module option \<Rightarrow> cstr \<Rightarrow> string" where
  "build_setting_id_with_suffix action_path mdl sfx =
     (let setting_id = build_setting_id action_path mdl
      in if \<not> nonempty sfx then setting_id
         else setting_id @ ''.'' @ sanitize_id_segment sfx)"

definition build_capability_id :: "cstr \<Rightarrow> string" where
  "build_capability_id setting_id = ''capability.'' @ sanitize_id_segment setting_id"

definition build_module_id :: "dt_iop_module option \<Rightarrow> string" where
  "build_module_id mdl =
     (case mdl of Some m \<Rightarrow> (if mod_op m \<noteq> [] then mod_op m else ''unknown'') | None \<Rightarrow> ''unknown'')"

definition build_module_label :: "dt_iop_module option \<Rightarrow> string" where
  "build_module_label mdl =
     (case mdl of
        None \<Rightarrow> ''unknown''
      | Some m \<Rightarrow>
          if nonempty (mod_name m) then the (mod_name m) else build_module_id mdl)"

subsection \<open>Fields\<close>

definition linear_fields :: "dt_iop_module \<Rightarrow> dt_introspection_field_t list option" where
  "linear_fields m = (if mod_have_introspection m then mod_linear m else None)"

definition find_field_by_name :: "dt_iop_module option \<Rightarrow> cstr \<Rightarrow> dt_introspection_field_t option" where
  "find_field_by_name mdl field_name =
     (case mdl of
        None \<Rightarrow> None
      | Some m \<Rightarrow>
          if \<not> nonempty field_name then None
          else case linear_fields m of
            None \<Rightarrow> None
          | Some fs \<Rightarrow> find (\<lambda>f. Some (f_name f) = field_name) fs)"

definition field_data ::
  "dt_iop_module option \<Rightarrow> dt_introspection_field_t option \<Rightarrow> bool \<Rightarrow> int option" where
  "field_data mdl fld use_defaults =
     (case (mdl, fld) of
        (Some m, Some f) \<Rightarrow>
          (case if use_defaults then mod_default_params m else mod_params m of
             None \<Rightarrow> None
           | Some base \<Rightarrow> Some (base + f_offset f))
      | _ \<Rightarrow> None)"

definition find_field_for_widget ::
  "env \<Rightarrow> world \<Rightarrow> dt_iop_module \<Rightarrow> nat \<Rightarrow> dt_introspection_field_t option" where
  "find_field_for_widget env wl m h =
     (case linear_fields m of
        None \<Rightarrow> None
      | Some fs \<Rightarrow>
          (case (dt_bauhaus_widget_get_field env wl h, mod_params m) of
             (Some fld, Some params) \<Rightarrow>
               (let offset = fld - params
                in if 0 \<le> offset \<and> offset < mod_params_size m
                   then find (\<lambda>f. f_offset f = offset) fs else None)
           | _ \<Rightarrow> None))"

definition is_numeric_field :: "dt_introspection_field_t option \<Rightarrow> bool" where
  "is_numeric_field fld =
     (case fld of
        None \<Rightarrow> False
      | Some f \<Rightarrow>
          (case f_type f of
             DT_INTROSPECTION_TYPE_FLOAT \<Rightarrow> True | DT_INTROSPECTION_TYPE_DOUBLE \<Rightarrow> True
           | DT_INTROSPECTION_TYPE_INT \<Rightarrow> True | DT_INTROSPECTION_TYPE_UINT \<Rightarrow> True
           | DT_INTROSPECTION_TYPE_SHORT \<Rightarrow> True | DT_INTROSPECTION_TYPE_USHORT \<Rightarrow> True
           | DT_INTROSPECTION_TYPE_INT8 \<Rightarrow> True | DT_INTROSPECTION_TYPE_UINT8 \<Rightarrow> True
           | DT_INTROSPECTION_TYPE_CHAR \<Rightarrow> True
           | _ \<Rightarrow> False))"

subsection \<open>Descriptors of the widgets\<close>

definition enum_option :: "enum_tuple \<Rightarrow> dt_agent_choice_option" where
  "enum_option it = zero_choice_option
     \<lparr>opt_choice_value := et_value it, opt_choice_id := Some (et_name it),
      opt_label := Some (if nonempty (et_description it) then the (et_description it)
                         else et_name it)\<rparr>"

text \<open>The entries of a combobox from \<open>pos\<close> on, up to the first without a label.\<close>

fun entry_options :: "nat \<Rightarrow> combobox_entry list \<Rightarrow> dt_agent_choice_option list" where
  "entry_options pos [] = []"
| "entry_options pos (e # es) =
     (case en_label e of
        None \<Rightarrow> []
      | Some label \<Rightarrow>
          zero_choice_option\<lparr>opt_choice_value := int pos,
            opt_choice_id := Some (''choice.'' @ show_nat pos), opt_label := Some label\<rparr>
          # entry_options (Suc pos) es)"

text \<open>The tuples and the default of an enum field that has tuples.\<close>

definition enum_values :: "dt_introspection_field_t option \<Rightarrow> (enum_tuple list \<times> int) option" where
  "enum_values fld =
     (case fld of
        None \<Rightarrow> None
      | Some f \<Rightarrow>
          if f_type f = DT_INTROSPECTION_TYPE_ENUM
          then (case f_payload f of P_Enum (Some values) dflt \<Rightarrow> Some (values, dflt) | _ \<Rightarrow> None)
          else None)"

definition populate_choice_options ::
  "world \<Rightarrow> dt_agent_action_descriptor \<Rightarrow> nat \<Rightarrow> dt_introspection_field_t option
     \<Rightarrow> dt_agent_action_descriptor" where
  "populate_choice_options wl descriptor h fld =
     (case enum_values fld of
        Some (values, dflt) \<Rightarrow>
          descriptor\<lparr>ad_choices := Some (map enum_option values),
                     ad_has_default_choice_value := True, ad_default_choice_value := dflt\<rparr>
      | None \<Rightarrow>
          (let descriptor = descriptor\<lparr>ad_choices := Some
                 (case combobox_data wl h of None \<Rightarrow> [] | Some d \<Rightarrow> entry_options 0 (cb_entries d))\<rparr>
           in if 0 \<le> dt_bauhaus_combobox_get wl h
              then descriptor\<lparr>ad_has_default_choice_value := True,
                              ad_default_choice_value := dt_bauhaus_combobox_get_default wl h\<rparr>
              else descriptor))"

definition both_modes :: "32 word" where
  "both_modes = DT_AGENT_VALUE_MODE_FLAG_SET OR DT_AGENT_VALUE_MODE_FLAG_DELTA"

text \<open>The number range of \<open>_initialize_float_descriptor\<close>: minimum, maximum, default and step.\<close>

definition float_range :: "flt \<Rightarrow> flt \<Rightarrow> flt \<Rightarrow> flt \<Rightarrow> flt \<Rightarrow> (flt \<times> flt \<times> flt \<times> flt) option" where
  "float_range hard_min hard_max defpos current step =
     (if \<not> isfinite_flt current then None
      else
        let mn = if isfinite_flt hard_min then hard_min else current;
            mx = if isfinite_flt hard_max then hard_max else current;
            (mn, mx) = if mx < mn then (mx, mn) else (mn, mx);
            df = CLAMPf (if isfinite_flt defpos then defpos else current) mn mx;
            st = if \<not> isfinite_flt step \<or> step \<le> Fin 0
                 then let range = fabs_flt (fsub round64 mx mn)
                      in if Fin 0 < range
                         then MAXf (fdiv round64 range (Fin 1000)) (round64 (1 / 10000))
                         else round64 (1 / 10000)
                 else step
        in Some (mn, mx, df, st))"

definition initialize_float_descriptor ::
  "env \<Rightarrow> world \<Rightarrow> dt_agent_action_descriptor \<Rightarrow> nat \<Rightarrow> dt_agent_action_descriptor option" where
  "initialize_float_descriptor env wl descriptor h =
     (case float_range (dt_bauhaus_slider_get_hard_min env wl h)
             (dt_bauhaus_slider_get_hard_max env wl h) (dt_bauhaus_slider_get_default env wl h)
             (dt_bauhaus_slider_get wl h) (dt_bauhaus_slider_get_step env wl h) of
        None \<Rightarrow> None
      | Some (mn, mx, df, st) \<Rightarrow>
          Some (descriptor\<lparr>ad_supported_modes := both_modes, ad_has_number_range := True,
                  ad_min_number := mn, ad_max_number := mx, ad_default_number := df,
                  ad_step_number := st\<rparr>))"

definition new_float_descriptor ::
  "dt_iop_module option \<Rightarrow> nat option \<Rightarrow> cstr \<Rightarrow> cstr \<Rightarrow> cstr \<Rightarrow> flt \<Rightarrow> flt \<Rightarrow> flt \<Rightarrow> flt
     \<Rightarrow> dt_agent_action_descriptor" where
  "new_float_descriptor mdl widget action_path setting_suffix label mn mx df st =
     (let setting_id = build_setting_id_with_suffix action_path mdl setting_suffix in
      zero_descriptor
        \<lparr>ad_module_id := Some (build_module_id mdl),
         ad_module_label := Some (build_module_label mdl),
         ad_setting_id := Some setting_id,
         ad_capability_id := Some (build_capability_id (Some setting_id)),
         ad_label := label,
         ad_kind_name := Some (dt_agent_operation_kind_to_string DT_AGENT_OPERATION_SET_FLOAT),
         ad_target_type := Some ''darktable-action'',
         ad_action_path := action_path,
         ad_operation_kind := DT_AGENT_OPERATION_SET_FLOAT,
         ad_supported_modes := both_modes,
         ad_binding := DT_AGENT_DESCRIPTOR_BINDING_WIDGET,
         ad_module := mdl,
         ad_widget := widget,
         ad_has_number_range := True,
         ad_min_number := mn,
         ad_max_number := mx,
         ad_default_number := df,
         ad_step_number := st\<rparr>)"

definition is_toggle_button :: "world \<Rightarrow> nat \<Rightarrow> bool" where
  "is_toggle_button wl h = (case wd_widgets wl h of None \<Rightarrow> False | Some wd \<Rightarrow> is_toggle wd)"

definition operation_kind_of_field :: "dt_introspection_field_t \<Rightarrow> dt_agent_operation_kind_t" where
  "operation_kind_of_field fld =
     (if is_numeric_field (Some fld) then DT_AGENT_OPERATION_SET_FLOAT
      else if f_type fld = DT_INTROSPECTION_TYPE_ENUM then DT_AGENT_OPERATION_SET_CHOICE
      else if f_type fld = DT_INTROSPECTION_TYPE_BOOL then DT_AGENT_OPERATION_SET_BOOL
      else DT_AGENT_OPERATION_UNKNOWN)"

text \<open>
  \<open>_descriptor_for_widget\<close> in two parts: the descriptor itself, once the widget \<open>h\<close>, its field and
  the action path are known, and the checks before it.  \<open>GTK_IS_WIDGET (target)\<close> is that the world
  has a widget of that handle.
\<close>

definition widget_descriptor ::
  "env \<Rightarrow> world \<Rightarrow> dt_iop_module \<Rightarrow> nat \<Rightarrow> dt_introspection_field_t \<Rightarrow> cstr \<Rightarrow> string
     \<Rightarrow> dt_agent_action_descriptor option" where
  "widget_descriptor env wl m h fld label path =
     (let kind = operation_kind_of_field fld;
          setting_id = build_setting_id (Some path) (Some m);
          descriptor = zero_descriptor
            \<lparr>ad_module_id := Some (build_module_id (Some m)),
             ad_module_label := Some (build_module_label (Some m)),
             ad_setting_id := Some setting_id,
             ad_capability_id := Some (build_capability_id (Some setting_id)),
             ad_label := Some (str_or label (f_name fld)),
             ad_kind_name := Some (dt_agent_operation_kind_to_string kind),
             ad_target_type := Some ''darktable-action'',
             ad_action_path := Some path,
             ad_operation_kind := kind,
             ad_binding := DT_AGENT_DESCRIPTOR_BINDING_WIDGET,
             ad_module := Some m,
             ad_widget := Some h\<rparr>
      in case kind of
           DT_AGENT_OPERATION_SET_FLOAT \<Rightarrow> initialize_float_descriptor env wl descriptor h
         | DT_AGENT_OPERATION_SET_CHOICE \<Rightarrow>
             Some (populate_choice_options wl
               (descriptor\<lparr>ad_supported_modes := DT_AGENT_VALUE_MODE_FLAG_SET\<rparr>) h (Some fld))
         | DT_AGENT_OPERATION_SET_BOOL \<Rightarrow>
             Some (descriptor
               \<lparr>ad_supported_modes := DT_AGENT_VALUE_MODE_FLAG_SET,
                ad_has_default_bool := True,
                ad_default_bool :=
                  (if is_toggle_button wl h then toggle_active wl h
                   else case f_payload fld of P_Bool b \<Rightarrow> b | _ \<Rightarrow> False)\<rparr>)
         | DT_AGENT_OPERATION_UNKNOWN \<Rightarrow> Some descriptor)"

definition descriptor_for_widget ::
  "env \<Rightarrow> world \<Rightarrow> dt_iop_module \<Rightarrow> dt_action_target \<Rightarrow> dt_agent_action_descriptor option" where
  "descriptor_for_widget env wl m referral =
     (case (tgt_action referral, tgt_target referral) of
        (Some action, Some h) \<Rightarrow>
          if wd_widgets wl h = None then None
          else (case find_field_for_widget env wl m h of
                  None \<Rightarrow> None
                | Some fld \<Rightarrow>
                    if operation_kind_of_field fld = DT_AGENT_OPERATION_UNKNOWN then None
                    else if \<not> dt_agent_catalog_is_action_path_allowed (Some (action_full_id action))
                    then None
                    else widget_descriptor env wl m h fld (act_label action) (action_full_id action))
      | _ \<Rightarrow> None)"

definition descriptor_for_module_toggle ::
  "dt_iop_module option \<Rightarrow> dt_agent_action_descriptor option" where
  "descriptor_for_module_toggle mdl =
     (case mdl of
        None \<Rightarrow> None
      | Some m \<Rightarrow>
          (case mod_off m of
             None \<Rightarrow> None
           | Some off \<Rightarrow>
               (case find (\<lambda>candidate. tgt_target candidate = Some off) (mod_widget_list m) of
                  None \<Rightarrow> None
                | Some referral \<Rightarrow>
                    (case tgt_action referral of
                       None \<Rightarrow> None
                     | Some action \<Rightarrow>
                         (let action_path = Some (action_full_id action);
                              setting_id = build_setting_id action_path mdl
                          in if \<not> dt_agent_catalog_is_action_path_allowed action_path then None
                             else Some (zero_descriptor
                               \<lparr>ad_module_id := Some (build_module_id mdl),
                                ad_module_label := Some (build_module_label mdl),
                                ad_setting_id := Some setting_id,
                                ad_capability_id := Some (build_capability_id (Some setting_id)),
                                ad_label := Some (str_or (mod_name m) ''(null)'' @ '' enabled''),
                                ad_kind_name := Some ''set-bool'',
                                ad_target_type := Some ''darktable-action'',
                                ad_action_path := action_path,
                                ad_operation_kind := DT_AGENT_OPERATION_SET_BOOL,
                                ad_supported_modes := DT_AGENT_VALUE_MODE_FLAG_SET,
                                ad_widget := Some off,
                                ad_has_default_bool := True,
                                ad_default_bool := mod_default_enabled m\<rparr>))))))"

subsection \<open>Levels handles and colour zone bands\<close>

definition rgblevels_value_pointer :: "dt_iop_module option \<Rightarrow> bool \<Rightarrow> int \<Rightarrow> int \<Rightarrow> int option" where
  "rgblevels_value_pointer mdl use_defaults channel handle =
     (case find_field_by_name mdl (Some ''levels'') of
        None \<Rightarrow> None
      | Some levels_field \<Rightarrow>
          if f_type levels_field \<noteq> DT_INTROSPECTION_TYPE_ARRAY then None
          else case dt_introspection_access_array (Some levels_field)
                      (field_data mdl (Some levels_field) use_defaults) channel of
            None \<Rightarrow> None
          | Some (row, row_field) \<Rightarrow>
              if f_type row_field \<noteq> DT_INTROSPECTION_TYPE_ARRAY then None
              else case dt_introspection_access_array (Some row_field) (Some row) handle of
                None \<Rightarrow> None
              | Some (val, value_field) \<Rightarrow>
                  if f_type value_field \<noteq> DT_INTROSPECTION_TYPE_FLOAT then None else Some val)"

definition read_rgblevels_number :: "world \<Rightarrow> dt_agent_action_descriptor \<Rightarrow> flt option" where
  "read_rgblevels_number wl descriptor =
     (case ad_module descriptor of
        None \<Rightarrow> None
      | Some m \<Rightarrow>
          map_option (\<lambda>a. cell_float (wd_mem wl a))
            (rgblevels_value_pointer (Some m) False (ad_channel_index descriptor)
               (ad_element_index descriptor)))"

text \<open>\<open>-FLT_MAX\<close>.\<close>

definition DT_ACTION_NOT_VALID :: flt where
  "DT_ACTION_NOT_VALID = Fin (- ((2 ^ 24 - 1) * 2 ^ 104))"

definition DT_ACTION_IS_INVALID :: "flt \<Rightarrow> bool" where
  "DT_ACTION_IS_INVALID v \<longleftrightarrow> feq v DT_ACTION_NOT_VALID"

definition DT_VALUE_PATTERN_PLUS_MINUS :: flt where
  "DT_VALUE_PATTERN_PLUS_MINUS = Fin 2"

definition write_rgblevels_number ::
  "env \<Rightarrow> world \<Rightarrow> dt_agent_action_descriptor \<Rightarrow> flt \<Rightarrow> flt option \<times> world" where
  "write_rgblevels_number env wl descriptor requested =
     (case ad_module descriptor of
        None \<Rightarrow> (None, wl)
      | Some m \<Rightarrow>
          (case env_action_process env ''iop/rgblevels/channel'' (mod_multi_priority m)
                  (rgblevels_channel_ids ! nat (ad_channel_index descriptor)) ''activate'' (Fin 1) wl of
             (r, wl) \<Rightarrow>
               if DT_ACTION_IS_INVALID r then (None, wl)
               else
                 (case env_action_process env (str_or (ad_action_path descriptor) [])
                         (mod_multi_priority m) (str_or (ad_element_name descriptor) []) ''set''
                         (to_float requested) wl of
                    (applied, wl) \<Rightarrow>
                      if DT_ACTION_IS_INVALID applied then (None, wl) else (Some applied, wl))))"

text \<open>Node \<open>k\<close> of the curve at an address: two floats.\<close>

definition curve_node :: "world \<Rightarrow> int \<Rightarrow> nat \<Rightarrow> flt \<times> flt" where
  "curve_node wl a k =
     (cell_float (wd_mem wl (a + 8 * int k)), cell_float (wd_mem wl (a + 8 * int k + 4)))"

text \<open>The points given to the curve code: periodic, or continued by constants, before version 1.\<close>

definition colorzones_points :: "(flt \<times> flt) list \<Rightarrow> int \<Rightarrow> int \<Rightarrow> (flt \<times> flt) list" where
  "colorzones_points curve select_by splines_version =
     (if splines_version = 0
      then let n = length curve; periodic = (select_by = 2) in
        [(fsub round32 (fst (curve ! (n - 2))) (Fin 1),
          if periodic then snd (curve ! (n - 2)) else snd (curve ! 0))]
        @ curve
        @ [(fadd round32 (fst (curve ! 1)) (Fin 1),
            if periodic then snd (curve ! 1) else snd (curve ! (n - 1)))]
      else curve)"

definition access_int :: "world \<Rightarrow> int option \<Rightarrow> int option" where
  "access_int wl a = map_option (\<lambda>a. cell_int (wd_mem wl a)) a"

definition array_element ::
  "dt_iop_module option \<Rightarrow> dt_introspection_field_t option \<Rightarrow> bool \<Rightarrow> int \<Rightarrow> int option" where
  "array_element mdl fld use_defaults i =
     map_option fst (dt_introspection_access_array fld (field_data mdl fld use_defaults) i)"

text \<open>\<open>_colorzones_curve\<close>: the curve function, None where the code returns NULL.\<close>

definition colorzones_curve ::
  "env \<Rightarrow> world \<Rightarrow> dt_iop_module option \<Rightarrow> bool \<Rightarrow> int \<Rightarrow> (flt \<Rightarrow> flt) option" where
  "colorzones_curve env wl mdl use_defaults channel =
     (let curve_field = find_field_by_name mdl (Some ''curve'');
          num_field = find_field_by_name mdl (Some ''curve_num_nodes'');
          type_field = find_field_by_name mdl (Some ''curve_type'');
          select_field = find_field_by_name mdl (Some ''channel'');
          version_field = find_field_by_name mdl (Some ''splines_version'')
      in if curve_field = None \<or> num_field = None \<or> type_field = None \<or> select_field = None
            \<or> version_field = None
         then None
         else case (array_element mdl curve_field use_defaults channel,
                    access_int wl (array_element mdl num_field use_defaults channel)) of
           (Some curve, Some nodes) \<Rightarrow>
             if nodes < 2 then None
             else (case (access_int wl (array_element mdl type_field use_defaults channel),
                         access_int wl (field_data mdl select_field use_defaults),
                         access_int wl (field_data mdl version_field use_defaults)) of
                (Some curve_type, Some select_by, Some splines_version) \<Rightarrow>
                  env_draw_curve env curve_type
                    (colorzones_points (map (curve_node wl curve) [0..<nat nodes])
                       select_by splines_version)
              | _ \<Rightarrow> None)
         | _ \<Rightarrow> None)"

definition double_from_y :: "flt \<Rightarrow> flt" where
  "double_from_y y = fsub round64 (fmul round64 y (Fin 2)) (Fin 1)"

definition colorzones_current_value ::
  "env \<Rightarrow> world \<Rightarrow> dt_iop_module option \<Rightarrow> bool \<Rightarrow> int \<Rightarrow> int \<Rightarrow> flt option" where
  "colorzones_current_value env wl mdl use_defaults channel band =
     (case mdl of
        None \<Rightarrow> None
      | Some m \<Rightarrow>
          (let curve_field = find_field_by_name mdl (Some ''curve'');
               num_field = find_field_by_name mdl (Some ''curve_num_nodes'')
           in if curve_field = None \<or> num_field = None then None
              else case (array_element mdl curve_field use_defaults channel,
                         access_int wl (array_element mdl num_field use_defaults channel)) of
                (Some curve, Some nodes) \<Rightarrow>
                  if nodes < 2 then None
                  else
                    let x = round32 (of_int band / 8) in
                    (case find (\<lambda>(nx, ny). fabs_flt (fsub round32 nx x) \<le> Fin (1 / 16))
                            (map (curve_node wl curve) [0..<nat nodes]) of
                       Some (nx, ny) \<Rightarrow> Some (double_from_y ny)
                     | None \<Rightarrow>
                         map_option (\<lambda>f. double_from_y (f x))
                           (colorzones_curve env wl mdl use_defaults channel))
              | _ \<Rightarrow> None))"

definition read_colorzones_number :: "env \<Rightarrow> world \<Rightarrow> dt_agent_action_descriptor \<Rightarrow> flt option" where
  "read_colorzones_number env wl descriptor =
     colorzones_current_value env wl (ad_module descriptor) False (ad_channel_index descriptor)
       (ad_element_index descriptor)"

definition write_colorzones_number ::
  "env \<Rightarrow> world \<Rightarrow> dt_agent_action_descriptor \<Rightarrow> flt \<Rightarrow> flt option \<times> world" where
  "write_colorzones_number env wl descriptor requested =
     (case ad_module descriptor of
        None \<Rightarrow> (None, wl)
      | Some m \<Rightarrow>
          (let y = CLAMPf (to_float (fmul round64 (fadd round64 requested (Fin 1)) (Fin (1 / 2))))
                     (Fin 0) (Fin 1)
           in case env_action_process env ''iop/colorzones/channel'' (mod_multi_priority m)
                  (colorzones_channel_ids ! nat (ad_channel_index descriptor)) ''activate'' (Fin 1) wl of
             (r, wl) \<Rightarrow>
               if DT_ACTION_IS_INVALID r then (None, wl)
               else
                 (case env_action_process env (str_or (ad_action_path descriptor) [])
                         (mod_multi_priority m) (str_or (ad_element_name descriptor) []) ''set'' y wl of
                    (applied, wl) \<Rightarrow>
                      if DT_ACTION_IS_INVALID applied then (None, wl)
                      else (Some (double_from_y (fsub round32 applied DT_VALUE_PATTERN_PLUS_MINUS)), wl))))"

text \<open>
  The descriptors one loop body adds; the loops run over the channels and, inside, the handles or
  bands, and skip an element whose default cannot be read.
\<close>

definition rgblevels_descriptor ::
  "world \<Rightarrow> dt_iop_module \<Rightarrow> nat option \<Rightarrow> cstr \<Rightarrow> nat \<Rightarrow> nat \<Rightarrow> dt_agent_action_descriptor list" where
  "rgblevels_descriptor wl m widget action_path channel handle =
     (case rgblevels_value_pointer (Some m) True (int channel) (int handle) of
        None \<Rightarrow> []
      | Some default_value \<Rightarrow>
          [(new_float_descriptor (Some m) widget action_path
              (Some ((rgblevels_channel_ids ! channel) @ ''.'' @ (rgblevels_handle_ids ! handle)))
              (Some ((rgblevels_channel_labels ! channel) @ '' '' @ (rgblevels_handle_labels ! handle)))
              (Fin 0) (Fin 1) (cell_float (wd_mem wl default_value)) (round64 (1 / 1000)))
             \<lparr>ad_binding := DT_AGENT_DESCRIPTOR_BINDING_RGBLEVELS_HANDLE,
              ad_element_name := Some (rgblevels_handle_ids ! handle),
              ad_channel_index := int channel,
              ad_element_index := int handle\<rparr>])"

definition target_widget :: "world \<Rightarrow> dt_action_target \<Rightarrow> nat option" where
  "target_widget wl referral =
     (case tgt_target referral of
        None \<Rightarrow> None | Some h \<Rightarrow> if wd_widgets wl h = None then None else Some h)"

definition collect_rgblevels_descriptors ::
  "world \<Rightarrow> dt_iop_module \<Rightarrow> dt_action_target \<Rightarrow> dt_agent_action_descriptor list" where
  "collect_rgblevels_descriptors wl m referral =
     (case tgt_action referral of
        None \<Rightarrow> []
      | Some action \<Rightarrow>
          if mod_op m \<noteq> ''rgblevels'' \<or> act_id action \<noteq> ''levels'' then []
          else
            let action_path = Some (action_full_id action) in
            if \<not> dt_agent_catalog_is_action_path_allowed action_path then []
            else concat (map (\<lambda>channel. concat (map (\<lambda>handle.
                   rgblevels_descriptor wl m (target_widget wl referral) action_path channel handle)
                   [0..<3])) [0..<3]))"

definition colorzones_descriptor ::
  "env \<Rightarrow> world \<Rightarrow> dt_iop_module \<Rightarrow> nat option \<Rightarrow> cstr \<Rightarrow> nat \<Rightarrow> nat \<Rightarrow> dt_agent_action_descriptor list" where
  "colorzones_descriptor env wl m widget action_path channel band =
     (case colorzones_current_value env wl (Some m) True (int channel) (int band) of
        None \<Rightarrow> []
      | Some default_number \<Rightarrow>
          [(new_float_descriptor (Some m) widget action_path
              (Some ((colorzones_channel_ids ! channel) @ ''.'' @ (colorzones_band_ids ! band)))
              (Some ((colorzones_channel_labels ! channel) @ '' '' @ (colorzones_band_labels ! band)))
              (Fin (- 1)) (Fin 1) default_number (round64 (1 / 100)))
             \<lparr>ad_binding := DT_AGENT_DESCRIPTOR_BINDING_COLORZONES_BAND,
              ad_element_name := Some (colorzones_band_ids ! band),
              ad_channel_index := int channel,
              ad_element_index := int band\<rparr>])"

definition collect_colorzones_descriptors ::
  "env \<Rightarrow> world \<Rightarrow> dt_iop_module \<Rightarrow> dt_action_target \<Rightarrow> dt_agent_action_descriptor list" where
  "collect_colorzones_descriptors env wl m referral =
     (case tgt_action referral of
        None \<Rightarrow> []
      | Some action \<Rightarrow>
          if mod_op m \<noteq> ''colorzones'' \<or> act_id action \<noteq> ''graph'' then []
          else
            let action_path = Some (action_full_id action) in
            if \<not> dt_agent_catalog_is_action_path_allowed action_path then []
            else concat (map (\<lambda>channel. concat (map (\<lambda>band.
                   colorzones_descriptor env wl m (target_widget wl referral) action_path channel band)
                   [0..<8])) [0..<3]))"

subsection \<open>Collecting and finding descriptors\<close>

text \<open>The hash table of the setting ids seen so far, as a set.\<close>

definition g_hash_table_contains :: "string set \<Rightarrow> string \<Rightarrow> bool" where
  "g_hash_table_contains tab k \<longleftrightarrow> k \<in> tab"

definition g_hash_table_add :: "string \<Rightarrow> string set \<Rightarrow> string set" where
  "g_hash_table_add k tab = insert k tab"

type_synonym collected = "dt_agent_action_descriptor list \<times> string set"

definition add_descriptor_unique ::
  "dt_agent_action_descriptor option \<Rightarrow> collected \<Rightarrow> collected" where
  "add_descriptor_unique descriptor acc =
     (case (descriptor, acc) of
        (None, _) \<Rightarrow> acc
      | (Some d, (descriptors, seen)) \<Rightarrow>
          (case ad_setting_id d of
             None \<Rightarrow> acc
           | Some sid \<Rightarrow>
               if g_hash_table_contains seen sid then acc
               else if \<not> dt_agent_catalog_is_action_path_allowed (ad_action_path d) then acc
               else (descriptors @ [d], g_hash_table_add sid seen)))"

definition dt_agent_action_descriptor_copy ::
  "dt_agent_action_descriptor \<Rightarrow> dt_agent_action_descriptor" where
  "dt_agent_action_descriptor_copy src = zero_descriptor
     \<lparr>ad_module_id := ad_module_id src,
      ad_module_label := ad_module_label src,
      ad_capability_id := ad_capability_id src,
      ad_setting_id := ad_setting_id src,
      ad_label := ad_label src,
      ad_kind_name := ad_kind_name src,
      ad_target_type := ad_target_type src,
      ad_action_path := ad_action_path src,
      ad_operation_kind := ad_operation_kind src,
      ad_supported_modes := ad_supported_modes src,
      ad_binding := ad_binding src,
      ad_module := ad_module src,
      ad_widget := ad_widget src,
      ad_element_name := ad_element_name src,
      ad_channel_index := ad_channel_index src,
      ad_element_index := ad_element_index src,
      ad_has_number_range := ad_has_number_range src,
      ad_min_number := ad_min_number src,
      ad_max_number := ad_max_number src,
      ad_default_number := ad_default_number src,
      ad_step_number := ad_step_number src,
      ad_choices := copy_choices (ad_choices src),
      ad_has_default_choice_value := ad_has_default_choice_value src,
      ad_default_choice_value := ad_default_choice_value src,
      ad_has_default_bool := ad_has_default_bool src,
      ad_default_bool := ad_default_bool src\<rparr>"

lemma dt_agent_action_descriptor_copy_id [copy_simps]: "dt_agent_action_descriptor_copy src = src"
  by (simp add: dt_agent_action_descriptor_copy_def zero_descriptor_def copy_simps)

text \<open>
  One step of the widget loop: the descriptor of the widget, then the custom ones, taken from the
  end of their array.
\<close>

definition collect_referral ::
  "env \<Rightarrow> world \<Rightarrow> dt_iop_module \<Rightarrow> dt_action_target \<Rightarrow> collected \<Rightarrow> collected" where
  "collect_referral env wl m referral acc =
     (let acc = add_descriptor_unique (descriptor_for_widget env wl m referral) acc;
          custom = collect_rgblevels_descriptors wl m referral
                   @ collect_colorzones_descriptors env wl m referral
      in fold (\<lambda>d. add_descriptor_unique (Some d)) (rev custom) acc)"

definition collect_module :: "env \<Rightarrow> world \<Rightarrow> dt_iop_module option \<Rightarrow> collected \<Rightarrow> collected" where
  "collect_module env wl mdl acc =
     (case mdl of
        None \<Rightarrow> acc
      | Some m \<Rightarrow>
          fold (collect_referral env wl m) (mod_widget_list m)
            (add_descriptor_unique (descriptor_for_module_toggle mdl) acc))"

text \<open>Success returns the array's new contents; without a \<open>dev\<close> the array is not touched.\<close>

definition dt_agent_catalog_collect_descriptors ::
  "env \<Rightarrow> world \<Rightarrow> dt_develop option \<Rightarrow> dt_agent_action_descriptor list result" where
  "dt_agent_catalog_collect_descriptors env wl dev =
     (case dev of
        None \<Rightarrow> Inl (agent_catalog_error ''missing darkroom state'')
      | Some d \<Rightarrow> Inr (fst (fold (collect_module env wl) (dev_iop d) ([], {}))))"

definition descriptor_matches :: "cstr \<Rightarrow> cstr \<Rightarrow> dt_agent_action_descriptor \<Rightarrow> bool" where
  "descriptor_matches action_path setting_id d \<longleftrightarrow>
     ad_action_path d = action_path \<and> (nonempty setting_id \<longrightarrow> ad_setting_id d = setting_id)"

definition dt_agent_catalog_find_descriptor ::
  "env \<Rightarrow> world \<Rightarrow> dt_develop option \<Rightarrow> cstr \<Rightarrow> cstr \<Rightarrow> dt_agent_action_descriptor result" where
  "dt_agent_catalog_find_descriptor env wl dev action_path setting_id =
     (let unsupported = Inl (agent_catalog_error
            (''unsupported action path: '' @ str_or action_path ''unknown''))
      in if \<not> dt_agent_catalog_is_action_path_allowed action_path then unsupported
         else ebind (dt_agent_catalog_collect_descriptors env wl dev) (\<lambda>descriptors.
           case find (descriptor_matches action_path setting_id) descriptors of
             Some d \<Rightarrow> Inr (dt_agent_action_descriptor_copy d)
           | None \<Rightarrow> unsupported))"

subsection \<open>Reading and writing through a descriptor\<close>

definition dt_agent_catalog_supports_mode ::
  "dt_agent_action_descriptor \<Rightarrow> dt_agent_value_mode_t \<Rightarrow> bool" where
  "dt_agent_catalog_supports_mode descriptor mode =
     (case mode of
        DT_AGENT_VALUE_MODE_SET \<Rightarrow>
          ad_supported_modes descriptor AND DT_AGENT_VALUE_MODE_FLAG_SET \<noteq> 0
      | DT_AGENT_VALUE_MODE_DELTA \<Rightarrow>
          ad_supported_modes descriptor AND DT_AGENT_VALUE_MODE_FLAG_DELTA \<noteq> 0
      | DT_AGENT_VALUE_MODE_UNKNOWN \<Rightarrow> False)"

definition dt_agent_catalog_clamp_number :: "dt_agent_action_descriptor \<Rightarrow> flt \<Rightarrow> flt" where
  "dt_agent_catalog_clamp_number descriptor requested =
     (if \<not> ad_has_number_range descriptor then requested
      else CLAMPf requested (ad_min_number descriptor) (ad_max_number descriptor))"

text \<open>
  The readers and writers return what they store in their out parameter (None for a return of
  FALSE) and the contents of \<open>*error\<close> afterwards, given those before.  The readers of levels and
  colour zones fail without setting an error.
\<close>

definition dt_agent_catalog_read_current_number ::
  "env \<Rightarrow> world \<Rightarrow> dt_agent_action_descriptor \<Rightarrow> gerror option \<Rightarrow> flt option \<times> gerror option" where
  "dt_agent_catalog_read_current_number env wl descriptor error =
     (let incomplete = (None, g_set_error error
            (agent_catalog_error ''agent action descriptor is incomplete''))
      in if ad_operation_kind descriptor \<noteq> DT_AGENT_OPERATION_SET_FLOAT then incomplete
         else case ad_binding descriptor of
           DT_AGENT_DESCRIPTOR_BINDING_WIDGET \<Rightarrow>
             (case ad_widget descriptor of
                None \<Rightarrow> incomplete
              | Some h \<Rightarrow> (Some (dt_bauhaus_slider_get wl h), error))
         | DT_AGENT_DESCRIPTOR_BINDING_RGBLEVELS_HANDLE \<Rightarrow>
             (read_rgblevels_number wl descriptor, error)
         | DT_AGENT_DESCRIPTOR_BINDING_COLORZONES_BAND \<Rightarrow>
             (read_colorzones_number env wl descriptor, error))"

definition choice_id_for_value :: "dt_agent_choice_option list option \<Rightarrow> int \<Rightarrow> cstr" where
  "choice_id_for_value choices v =
     (case choices of
        None \<Rightarrow> None
      | Some os \<Rightarrow>
          (case find (\<lambda>opt. opt_choice_value opt = v) os of
             None \<Rightarrow> None | Some opt \<Rightarrow> opt_choice_id opt))"

definition dt_agent_catalog_read_current_choice ::
  "world \<Rightarrow> dt_agent_action_descriptor \<Rightarrow> gerror option \<Rightarrow> (int \<times> cstr) option \<times> gerror option" where
  "dt_agent_catalog_read_current_choice wl descriptor error =
     (case ad_widget descriptor of
        Some h \<Rightarrow>
          if ad_operation_kind descriptor = DT_AGENT_OPERATION_SET_CHOICE
          then let v = dt_bauhaus_combobox_get_data wl h
               in (Some (v, choice_id_for_value (ad_choices descriptor) v), error)
          else (None, g_set_error error (agent_catalog_error ''agent choice descriptor is incomplete''))
      | None \<Rightarrow>
          (None, g_set_error error (agent_catalog_error ''agent choice descriptor is incomplete'')))"

definition dt_agent_catalog_read_current_bool ::
  "world \<Rightarrow> dt_agent_action_descriptor \<Rightarrow> gerror option \<Rightarrow> bool option \<times> gerror option" where
  "dt_agent_catalog_read_current_bool wl descriptor error =
     (case ad_widget descriptor of
        Some h \<Rightarrow>
          if ad_operation_kind descriptor = DT_AGENT_OPERATION_SET_BOOL
          then (Some (if is_toggle_button wl h then toggle_active wl h
                      else dt_bauhaus_combobox_get_data wl h \<noteq> 0), error)
          else (None, g_set_error error (agent_catalog_error ''agent bool descriptor is incomplete''))
      | None \<Rightarrow>
          (None, g_set_error error (agent_catalog_error ''agent bool descriptor is incomplete'')))"

definition dt_agent_catalog_write_number ::
  "env \<Rightarrow> dt_agent_action_descriptor \<Rightarrow> flt \<Rightarrow> gerror option \<Rightarrow> world
     \<Rightarrow> flt option \<times> gerror option \<times> world" where
  "dt_agent_catalog_write_number env descriptor requested error wl =
     (let incomplete = (None, g_set_error error
            (agent_catalog_error ''agent action descriptor is incomplete''), wl);
          clamped = dt_agent_catalog_clamp_number descriptor requested
      in if ad_operation_kind descriptor \<noteq> DT_AGENT_OPERATION_SET_FLOAT then incomplete
         else case ad_binding descriptor of
           DT_AGENT_DESCRIPTOR_BINDING_WIDGET \<Rightarrow>
             (case ad_widget descriptor of
                None \<Rightarrow> incomplete
              | Some h \<Rightarrow>
                  let wl = dt_bauhaus_slider_set env h (to_float clamped) wl
                  in (Some (dt_bauhaus_slider_get wl h), error, wl))
         | DT_AGENT_DESCRIPTOR_BINDING_RGBLEVELS_HANDLE \<Rightarrow>
             (case write_rgblevels_number env wl descriptor clamped of
                (applied, wl) \<Rightarrow> (applied, error, wl))
         | DT_AGENT_DESCRIPTOR_BINDING_COLORZONES_BAND \<Rightarrow>
             (case write_colorzones_number env wl descriptor clamped of
                (applied, wl) \<Rightarrow> (applied, error, wl)))"

definition dt_agent_catalog_write_choice ::
  "env \<Rightarrow> dt_agent_action_descriptor \<Rightarrow> int \<Rightarrow> gerror option \<Rightarrow> world
     \<Rightarrow> int option \<times> gerror option \<times> world" where
  "dt_agent_catalog_write_choice env descriptor requested error wl =
     (case ad_widget descriptor of
        Some h \<Rightarrow>
          if ad_operation_kind descriptor = DT_AGENT_OPERATION_SET_CHOICE
          then (case dt_bauhaus_combobox_set_from_value env h requested wl of
              (ok, wl) \<Rightarrow>
                if ok then (Some (dt_bauhaus_combobox_get_data wl h), error, wl)
                else (None, g_set_error error (agent_catalog_error
                       (''unsupported choice value for action path: ''
                        @ str_or (ad_action_path descriptor) ''unknown'')), wl))
          else (None, g_set_error error
                 (agent_catalog_error ''agent choice descriptor is incomplete''), wl)
      | None \<Rightarrow>
          (None, g_set_error error (agent_catalog_error ''agent choice descriptor is incomplete''), wl))"

text \<open>The applied value starts as FALSE in the caller and stays so if it cannot be read back.\<close>

definition dt_agent_catalog_write_bool ::
  "env \<Rightarrow> dt_agent_action_descriptor \<Rightarrow> bool \<Rightarrow> gerror option \<Rightarrow> world
     \<Rightarrow> bool option \<times> gerror option \<times> world" where
  "dt_agent_catalog_write_bool env descriptor requested error wl =
     (case ad_widget descriptor of
        Some h \<Rightarrow>
          if ad_operation_kind descriptor = DT_AGENT_OPERATION_SET_BOOL
          then (case if is_toggle_button wl h then (True, toggle_set_active env h requested wl)
                     else dt_bauhaus_combobox_set_from_value env h (if requested then 1 else 0) wl of
              (ok, wl) \<Rightarrow>
                if ok
                then (Some (case fst (dt_agent_catalog_read_current_bool wl descriptor None) of
                              Some b \<Rightarrow> b | None \<Rightarrow> False), error, wl)
                else (None, g_set_error error (agent_catalog_error
                       (''failed to apply bool action path: ''
                        @ str_or (ad_action_path descriptor) ''unknown'')), wl))
          else (None, g_set_error error
                 (agent_catalog_error ''agent bool descriptor is incomplete''), wl)
      | None \<Rightarrow>
          (None, g_set_error error (agent_catalog_error ''agent bool descriptor is incomplete''), wl))"

subsection \<open>The table of seen ids\<close>

locale key_table =
  fixes contains :: "'t \<Rightarrow> 'k \<Rightarrow> bool" and add :: "'k \<Rightarrow> 't \<Rightarrow> 't" and empty :: 't
  assumes contains_empty: "\<not> contains empty k"
    and contains_add: "contains (add k t) k' \<longleftrightarrow> k = k' \<or> contains t k'"
begin

lemma contains_fold: "contains (fold add ks t) k \<longleftrightarrow> k \<in> set ks \<or> contains t k"
  by (induction ks arbitrary: t) (auto simp: contains_add)

text \<open>A table holds the keys of a list; adding a new key keeps the list free of repetitions.\<close>

definition holds :: "'t \<Rightarrow> 'k list \<Rightarrow> bool" where
  "holds t ks \<longleftrightarrow> (\<forall>k. contains t k \<longleftrightarrow> k \<in> set ks) \<and> distinct ks"

lemma holds_empty: "holds empty []"
  by (simp add: holds_def contains_empty)

lemma holds_add: "holds t ks \<Longrightarrow> \<not> contains t k \<Longrightarrow> holds (add k t) (ks @ [k])"
  by (auto simp: holds_def contains_add)

end

interpretation seen_ids: key_table g_hash_table_contains g_hash_table_add "{}"
  by unfold_locales (auto simp: g_hash_table_contains_def g_hash_table_add_def)

subsection \<open>What the collected descriptors look like\<close>

definition wf_descriptor :: "dt_agent_action_descriptor \<Rightarrow> bool" where
  "wf_descriptor d \<longleftrightarrow>
     nonempty (ad_action_path d) \<and> nonempty (ad_setting_id d)
     \<and> ad_capability_id d = Some (build_capability_id (ad_setting_id d))
     \<and> nonempty (ad_module_id d) \<and> nonempty (ad_module_label d)
     \<and> ad_target_type d = Some ''darktable-action''
     \<and> ad_operation_kind d \<noteq> DT_AGENT_OPERATION_UNKNOWN
     \<and> ad_kind_name d = Some (dt_agent_operation_kind_to_string (ad_operation_kind d))
     \<and> dt_agent_catalog_supports_mode d DT_AGENT_VALUE_MODE_SET
     \<and> (dt_agent_catalog_supports_mode d DT_AGENT_VALUE_MODE_DELTA
          \<longleftrightarrow> ad_operation_kind d = DT_AGENT_OPERATION_SET_FLOAT)
     \<and> (ad_binding d = DT_AGENT_DESCRIPTOR_BINDING_WIDGET \<longrightarrow> ad_widget d \<noteq> None)
     \<and> (ad_binding d \<noteq> DT_AGENT_DESCRIPTOR_BINDING_WIDGET
          \<longrightarrow> ad_operation_kind d = DT_AGENT_OPERATION_SET_FLOAT \<and> ad_module d \<noteq> None)
     \<and> (ad_operation_kind d = DT_AGENT_OPERATION_SET_FLOAT
          \<longrightarrow> ad_has_number_range d \<and> Fin 0 < ad_step_number d
              \<and> ad_min_number d \<le> ad_max_number d
              \<and> (ad_binding d = DT_AGENT_DESCRIPTOR_BINDING_WIDGET
                   \<longrightarrow> ad_min_number d \<le> ad_default_number d \<and> ad_default_number d \<le> ad_max_number d))
     \<and> (ad_operation_kind d = DT_AGENT_OPERATION_SET_CHOICE \<longrightarrow> ad_choices d \<noteq> None)
     \<and> (ad_operation_kind d = DT_AGENT_OPERATION_SET_BOOL \<longrightarrow> ad_has_default_bool d)"

lemma both_modes_bits [simp]:
  "both_modes AND 1 \<noteq> 0" "both_modes AND 2 \<noteq> 0"
  by (simp_all add: both_modes_def)

lemma set_flag_bits [simp]:
  "(1 :: 32 word) AND 1 \<noteq> 0" "(1 :: 32 word) AND 2 = 0"
  by simp_all

lemma small_round_pos:
  "Fin 0 < round64 (1 / 10000)" "Fin 0 < round64 (1 / 1000)" "Fin 0 < round64 (1 / 100)"
proof -
  have "round64 (1 / 10000) = Fin (7378697629483821 / 73786976294838206464)" by code_simp
  then show "Fin 0 < round64 (1 / 10000)" by simp
  have "round64 (1 / 1000) = Fin (1152921504606847 / 1152921504606846976)" by code_simp
  then show "Fin 0 < round64 (1 / 1000)" by simp
  have "round64 (1 / 100) = Fin (5764607523034235 / 576460752303423488)" by code_simp
  then show "Fin 0 < round64 (1 / 100)" by simp
qed

lemma MAXf_pos: "Fin 0 < b \<Longrightarrow> a \<noteq> NaN \<Longrightarrow> Fin 0 < MAXf a b"
  by (cases a; cases b) (auto simp: MAXf_def)

lemma fdiv_pos_not_nan: "x \<noteq> NaN \<Longrightarrow> fdiv round64 x (Fin 1000) \<noteq> NaN"
  by (cases x) simp_all

text \<open>The step is positive whatever the slider reports.\<close>

definition float_step :: "flt \<Rightarrow> flt \<Rightarrow> flt \<Rightarrow> flt" where
  "float_step mn mx step =
     (if \<not> isfinite_flt step \<or> step \<le> Fin 0
      then let range = fabs_flt (fsub round64 mx mn)
           in if Fin 0 < range then MAXf (fdiv round64 range (Fin 1000)) (round64 (1 / 10000))
              else round64 (1 / 10000)
      else step)"

lemma float_step_pos: "Fin 0 < float_step mn mx step"
proof (cases "isfinite_flt step \<and> \<not> step \<le> Fin 0")
  case True
  then show ?thesis
    by (cases step) (auto simp: float_step_def isfinite_flt_def)
next
  case False
  let ?r = "fabs_flt (fsub round64 mx mn)"
  have "Fin 0 < MAXf (fdiv round64 ?r (Fin 1000)) (round64 (1 / 10000))" if "Fin 0 < ?r"
    using that MAXf_pos small_round_pos(1) fdiv_pos_not_nan flt_less_not_nan by blast
  with False show ?thesis
    by (auto simp: float_step_def Let_def small_round_pos)
qed

lemma isfinite_flt_iff: "isfinite_flt x \<longleftrightarrow> (\<exists>q. x = Fin q)"
  by (cases x) (simp_all add: isfinite_flt_def)

lemma float_range_ok:
  assumes "float_range hmin hmax dp cur st = Some (mn, mx, df, step)"
  shows "mn \<le> mx \<and> mn \<le> df \<and> df \<le> mx \<and> Fin 0 < step"
proof -
  define a where "a = (if isfinite_flt hmin then hmin else cur)"
  define b where "b = (if isfinite_flt hmax then hmax else cur)"
  define c where "c = (if isfinite_flt dp then dp else cur)"
  from assms have fin: "isfinite_flt cur" by (auto simp: float_range_def split: if_splits)
  then have "isfinite_flt a" "isfinite_flt b" "isfinite_flt c"
    by (simp_all add: a_def b_def c_def)
  then obtain x y z where abc: "a = Fin x" "b = Fin y" "c = Fin z"
    by (auto simp: isfinite_flt_iff)
  have eq: "float_range hmin hmax dp cur st =
      (let (mn, mx) = if b < a then (b, a) else (a, b)
       in Some (mn, mx, CLAMPf c mn mx, float_step mn mx st))"
    using fin by (simp add: float_range_def a_def b_def c_def float_step_def Let_def)
  from assms eq have m: "(mn, mx) = (if b < a then (b, a) else (a, b))"
    and d: "df = CLAMPf c mn mx" and s: "step = float_step mn mx st"
    by (auto simp: Let_def split: if_splits)
  from m abc have "mn \<le> mx" by (auto split: if_splits)
  with CLAMPf_range [OF this, of c] abc d s float_step_pos show ?thesis by auto
qed

lemma descriptor_of_field_ok:
  assumes "operation_kind_of_field fld = DT_AGENT_OPERATION_SET_FLOAT"
    and "initialize_float_descriptor env wl d h = Some d'"
  shows "\<exists>mn mx df st. d' = d\<lparr>ad_supported_modes := both_modes, ad_has_number_range := True,
           ad_min_number := mn, ad_max_number := mx, ad_default_number := df, ad_step_number := st\<rparr>
         \<and> mn \<le> mx \<and> mn \<le> df \<and> df \<le> mx \<and> Fin 0 < st"
  using assms float_range_ok
  by (fastforce simp: initialize_float_descriptor_def split: option.splits)

lemma setting_id_ne [simp]: "build_setting_id p m \<noteq> []"
  by (simp add: build_setting_id_def)

lemma module_names_ne [simp]: "build_module_id m \<noteq> []" "build_module_label m \<noteq> []"
  by (auto simp: build_module_id_def build_module_label_def nonempty_iff split: option.splits)

lemma populate_choice_options_fields:
  "\<exists>os b v. populate_choice_options wl d h fld
     = d\<lparr>ad_choices := Some os, ad_has_default_choice_value := b, ad_default_choice_value := v\<rparr>"
proof -
  have *: "\<exists>os b v. P (d\<lparr>ad_choices := Some os, ad_has_default_choice_value := b,
                      ad_default_choice_value := v\<rparr>)"
    if "P (d\<lparr>ad_choices := Some xs, ad_has_default_choice_value := c, ad_default_choice_value := w\<rparr>)"
    for P xs c w using that by blast
  have upd: "d\<lparr>ad_choices := Some xs\<rparr> = d\<lparr>ad_choices := Some xs,
      ad_has_default_choice_value := ad_has_default_choice_value d,
      ad_default_choice_value := ad_default_choice_value d\<rparr>" for xs
    by (cases d) simp
  show ?thesis
  proof (cases "enum_values fld")
    case None
    then show ?thesis
      unfolding populate_choice_options_def Let_def by (auto intro!: * upd)
  next
    case (Some x)
    then show ?thesis
      unfolding populate_choice_options_def by (cases x) auto
  qed
qed

lemma new_float_descriptor_wf:
  assumes "nonempty path" and "b \<noteq> DT_AGENT_DESCRIPTOR_BINDING_WIDGET" and "mn \<le> mx" and "Fin 0 < st"
  shows "wf_descriptor ((new_float_descriptor (Some m) w path sfx label mn mx df st)
           \<lparr>ad_binding := b, ad_element_name := en, ad_channel_index := ci, ad_element_index := ei\<rparr>)"
  using assms
  by (simp add: wf_descriptor_def new_float_descriptor_def zero_descriptor_def Let_def
      build_setting_id_with_suffix_def dt_agent_catalog_supports_mode_def)

lemma rgblevels_descriptor_wf:
  "d \<in> set (collect_rgblevels_descriptors wl m referral) \<Longrightarrow> wf_descriptor d"
  by (auto simp: collect_rgblevels_descriptors_def rgblevels_descriptor_def Let_def
      dt_agent_catalog_is_action_path_allowed_def small_round_pos
      split: option.splits if_splits intro!: new_float_descriptor_wf)

lemma colorzones_descriptor_wf:
  "d \<in> set (collect_colorzones_descriptors env wl m referral) \<Longrightarrow> wf_descriptor d"
  by (auto simp: collect_colorzones_descriptors_def colorzones_descriptor_def Let_def
      dt_agent_catalog_is_action_path_allowed_def small_round_pos
      split: option.splits if_splits intro!: new_float_descriptor_wf)

lemma widget_descriptor_wf:
  assumes d: "widget_descriptor env wl m h fld label path = Some d"
    and kind: "operation_kind_of_field fld \<noteq> DT_AGENT_OPERATION_UNKNOWN" and path: "path \<noteq> []"
  shows "wf_descriptor d"
proof -
  note defs = wf_descriptor_def zero_descriptor_def dt_agent_catalog_supports_mode_def
  show ?thesis
  proof (cases "operation_kind_of_field fld")
    case DT_AGENT_OPERATION_SET_FLOAT
    with d obtain d0 where "initialize_float_descriptor env wl d0 h = Some d" and d0: "d0 = zero_descriptor
            \<lparr>ad_module_id := Some (build_module_id (Some m)),
             ad_module_label := Some (build_module_label (Some m)),
             ad_setting_id := Some (build_setting_id (Some path) (Some m)),
             ad_capability_id := Some (build_capability_id (Some (build_setting_id (Some path) (Some m)))),
             ad_label := Some (str_or label (f_name fld)),
             ad_kind_name := Some ''set-float'',
             ad_target_type := Some ''darktable-action'',
             ad_action_path := Some path,
             ad_operation_kind := DT_AGENT_OPERATION_SET_FLOAT,
             ad_binding := DT_AGENT_DESCRIPTOR_BINDING_WIDGET,
             ad_module := Some m,
             ad_widget := Some h\<rparr>"
      by (simp add: widget_descriptor_def Let_def)
    from descriptor_of_field_ok [OF DT_AGENT_OPERATION_SET_FLOAT this(1)] d0 path show ?thesis
      by (auto simp: defs)
  next
    case DT_AGENT_OPERATION_SET_CHOICE
    with d obtain d0 where "d = populate_choice_options wl d0 h (Some fld)" and d0: "d0 = zero_descriptor
            \<lparr>ad_module_id := Some (build_module_id (Some m)),
             ad_module_label := Some (build_module_label (Some m)),
             ad_setting_id := Some (build_setting_id (Some path) (Some m)),
             ad_capability_id := Some (build_capability_id (Some (build_setting_id (Some path) (Some m)))),
             ad_label := Some (str_or label (f_name fld)),
             ad_kind_name := Some ''set-choice'',
             ad_target_type := Some ''darktable-action'',
             ad_action_path := Some path,
             ad_operation_kind := DT_AGENT_OPERATION_SET_CHOICE,
             ad_binding := DT_AGENT_DESCRIPTOR_BINDING_WIDGET,
             ad_module := Some m,
             ad_widget := Some h,
             ad_supported_modes := DT_AGENT_VALUE_MODE_FLAG_SET\<rparr>"
      by (simp add: widget_descriptor_def Let_def)
    with populate_choice_options_fields [of wl d0 h "Some fld"] path show ?thesis
      by (auto simp: defs)
  next
    case DT_AGENT_OPERATION_SET_BOOL
    with d path show ?thesis by (auto simp: widget_descriptor_def Let_def defs)
  qed (use kind in simp)
qed

lemma descriptor_for_widget_wf:
  "descriptor_for_widget env wl m referral = Some d \<Longrightarrow> wf_descriptor d"
  by (auto simp: descriptor_for_widget_def dt_agent_catalog_is_action_path_allowed_def
      split: option.splits if_splits intro: widget_descriptor_wf)

lemma toggle_descriptor_wf:
  "descriptor_for_module_toggle mdl = Some d \<Longrightarrow> wf_descriptor d"
  by (auto simp: descriptor_for_module_toggle_def wf_descriptor_def zero_descriptor_def Let_def
      dt_agent_catalog_is_action_path_allowed_def dt_agent_catalog_supports_mode_def
      split: option.splits if_splits)

text \<open>The invariant of the collection loops.\<close>

definition collected_ok :: "collected \<Rightarrow> bool" where
  "collected_ok acc \<longleftrightarrow>
     list_all wf_descriptor (fst acc)
     \<and> seen_ids.holds (snd acc) (map (\<lambda>d. the (ad_setting_id d)) (fst acc))"

lemma collected_ok_empty: "collected_ok ([], {})"
  by (simp add: collected_ok_def seen_ids.holds_empty)

lemma add_descriptor_unique_ok:
  assumes "collected_ok acc" and "\<And>d. desc = Some d \<Longrightarrow> wf_descriptor d"
  shows "collected_ok (add_descriptor_unique desc acc)"
  using assms
  by (auto simp: collected_ok_def add_descriptor_unique_def seen_ids.holds_add
      split: option.splits prod.splits)

lemma fold_add_ok:
  "collected_ok acc \<Longrightarrow> \<forall>d \<in> set ds. wf_descriptor d
     \<Longrightarrow> collected_ok (fold (\<lambda>d. add_descriptor_unique (Some d)) ds acc)"
proof (induction ds arbitrary: acc)
  case (Cons d ds)
  then have "collected_ok (add_descriptor_unique (Some d) acc)"
    by (intro add_descriptor_unique_ok) auto
  with Cons show ?case by simp
qed simp

lemma collect_referral_ok: "collected_ok acc \<Longrightarrow> collected_ok (collect_referral env wl m referral acc)"
  unfolding collect_referral_def Let_def
  by (intro fold_add_ok add_descriptor_unique_ok)
     (auto dest: descriptor_for_widget_wf rgblevels_descriptor_wf colorzones_descriptor_wf)

lemma fold_ok: "P acc \<Longrightarrow> (\<And>x acc. P acc \<Longrightarrow> P (f x acc)) \<Longrightarrow> P (fold f xs acc)"
  by (induction xs arbitrary: acc) auto

lemma collect_module_ok: "collected_ok acc \<Longrightarrow> collected_ok (collect_module env wl mdl acc)"
  unfolding collect_module_def
  by (auto split: option.splits intro!: fold_ok [where P = collected_ok] collect_referral_ok
      add_descriptor_unique_ok dest: toggle_descriptor_wf)

lemma collect_descriptors_ok:
  assumes "dt_agent_catalog_collect_descriptors env wl dev = Inr ds"
  shows "list_all wf_descriptor ds \<and> distinct (map ad_setting_id ds)"
proof -
  from assms obtain d :: dt_develop where ds: "ds = fst (fold (collect_module env wl) (dev_iop d) ([], {}))"
    by (cases dev) (auto simp: dt_agent_catalog_collect_descriptors_def)
  have "collected_ok (fold (collect_module env wl) (dev_iop d) ([], {}))"
    by (rule fold_ok [where P = collected_ok]) (auto intro: collected_ok_empty collect_module_ok)
  then have wf: "list_all wf_descriptor ds" and dist: "distinct (map (\<lambda>d. the (ad_setting_id d)) ds)"
    by (auto simp: ds collected_ok_def seen_ids.holds_def)
  have "ad_setting_id d = Some (the (ad_setting_id d))" if "d \<in> set ds" for d
    using wf that by (auto simp: list_all_iff wf_descriptor_def nonempty_iff)
  then have eq: "map ad_setting_id ds = map Some (map (\<lambda>d. the (ad_setting_id d)) ds)"
    by simp
  have "distinct (map ad_setting_id ds)"
    unfolding eq using dist by (subst distinct_map) simp
  with wf show ?thesis by simp
qed

lemma distinct_map_find:
  assumes "distinct (map f xs)" and "x \<in> set xs" and "P x" and "\<And>y. P y \<Longrightarrow> f y = k"
  shows "find P xs = Some x"
  using assms(1,2)
proof (induction xs)
  case (Cons y ys)
  show ?case
  proof (cases "P y")
    case True
    then have fy: "f y = f x" using assms(3,4) by metis
    have "x = y"
    proof (rule ccontr)
      assume "x \<noteq> y"
      with Cons.prems(2) have "x \<in> set ys" by simp
      then have "f x \<in> f ` set ys" by (rule imageI)
      with fy Cons.prems(1) show False by simp
    qed
    with True show ?thesis by simp
  next
    case False
    with Cons.prems assms(3) have "x \<in> set ys" by auto
    with Cons.IH Cons.prems(1) False show ?thesis by simp
  qed
qed simp

text \<open>
  C23: what the catalog offers is well formed and unambiguous, for every world, every introspection
  table and every action tree: setting ids are pairwise different, each descriptor has a path, ids
  and a kind that fit together, offers mode \<open>set\<close> always and \<open>delta\<close> exactly for numbers, and a
  number has a range with minimum at most maximum, a positive step and (for widgets) the default
  inside the range.
\<close>

theorem catalog_descriptors_wf:
  assumes "dt_agent_catalog_collect_descriptors env wl dev = Inr ds"
  shows "list_all wf_descriptor ds \<and> distinct (map ad_setting_id ds)"
  by (rule collect_descriptors_ok [OF assms])

text \<open>A darkroom with a slider, a choice and a module toggle, for the witnesses.\<close>

definition sample_slider :: bauhaus_slider where
  "sample_slider = \<lparr>sl_pos = Fin (1 / 2), sl_min = Fin (- 4), sl_max = Fin 4,
     sl_soft_min = Fin (- 4), sl_soft_max = Fin 4, sl_hard_min = Fin (- 16),
     sl_hard_max = Fin 16, sl_defpos = Fin 0, sl_step = Fin (1 / 4), sl_digits = 2,
     sl_factor = Fin 1, sl_degrees = False, sl_curve_get = (\<lambda>x. x), sl_curve_set = (\<lambda>x. x),
     sl_is_changed = False, sl_is_dragging = False, sl_timeout_pending = False\<rparr>"

definition sample_combobox :: bauhaus_combobox where
  "sample_combobox = \<lparr>cb_active = 0, cb_defpos = 0, cb_entries =
     [\<lparr>en_label = Some ''as shot'', en_data = 0, en_sensitive = True\<rparr>,
      \<lparr>en_label = Some ''from area'', en_data = 3, en_sensitive = True\<rparr>]\<rparr>"

definition sample_module :: dt_iop_module where
  "sample_module =
     (let root = Action ''iop'' None None; me = Action ''exposure'' None (Some root)
      in \<lparr>mod_op = ''exposure'', mod_name = Some ''exposure'', mod_multi_priority = 0,
          mod_have_introspection = True,
          mod_linear = Some
            [Field DT_INTROSPECTION_TYPE_ENUM ''mode'' 4 0
               (P_Enum (Some [\<lparr>et_name = ''AS_SHOT'', et_value = 0, et_description = None\<rparr>,
                              \<lparr>et_name = ''AREA'', et_value = 3, et_description = Some ''area''\<rparr>]) 0),
             Field DT_INTROSPECTION_TYPE_FLOAT ''exposure'' 4 4 P_None],
          mod_params = Some 1000, mod_params_size = 8, mod_default_params = Some 2000,
          mod_off = Some 3, mod_default_enabled = True,
          mod_widget_list =
            [\<lparr>tgt_action = Some (Action ''enable'' None (Some me)), tgt_target = Some 3\<rparr>,
             \<lparr>tgt_action = Some (Action ''mode'' (Some ''mode'') (Some me)), tgt_target = Some 1\<rparr>,
             \<lparr>tgt_action = Some (Action ''exposure'' None (Some me)), tgt_target = Some 2\<rparr>]\<rparr>)"

definition sample_world :: world where
  "sample_world = \<lparr>wd_widgets = [1 \<mapsto> \<lparr>w_field = Some 1000, w_field_type = DT_INTROSPECTION_TYPE_ENUM,
        w_iop_instance = True, w_introspection = None, w_body = Combobox sample_combobox\<rparr>,
      2 \<mapsto> \<lparr>w_field = Some 1004, w_field_type = DT_INTROSPECTION_TYPE_FLOAT,
        w_iop_instance = True, w_introspection = None, w_body = Slider sample_slider\<rparr>,
      3 \<mapsto> \<lparr>w_field = None, w_field_type = DT_INTROSPECTION_TYPE_NONE,
        w_iop_instance = True, w_introspection = None, w_body = ToggleButton True\<rparr>],
     wd_mem = (\<lambda>a. if a = 1004 then CFloat (Fin 0) else CInt 0),
     wd_develop = Some \<lparr>dev_iop = [Some sample_module], dev_chroma_adaptation = False\<rparr>,
     wd_view_darkroom = True, wd_gui_reset = False, wd_zoom_step = False,
     wd_accel_initialised = True\<rparr>"

text \<open>An environment whose callbacks do nothing.\<close>

definition sample_env :: env where
  "sample_env = \<lparr>env_gui_changed = (\<lambda>h c wl. wl), env_value_changed_signal = (\<lambda>h wl. wl),
     env_toggled_signal = (\<lambda>h wl. wl),
     env_action_process = (\<lambda>path inst el ef v wl. (v, wl)),
     env_draw_curve = (\<lambda>ty pts. Some (\<lambda>x. x)), env_log10f = (\<lambda>x. Fin 0),
     env_stray_field = (\<lambda>h. None), env_stray_number = (\<lambda>h m. Fin 0)\<rparr>"

definition sample_descriptors :: "dt_agent_action_descriptor list" where
  "sample_descriptors =
     (case dt_agent_catalog_collect_descriptors sample_env sample_world (wd_develop sample_world) of
        Inr ds \<Rightarrow> ds | Inl _ \<Rightarrow> [])"

lemma sample_collect:
  "dt_agent_catalog_collect_descriptors sample_env sample_world (wd_develop sample_world)
     = Inr sample_descriptors"
  by (simp add: sample_descriptors_def dt_agent_catalog_collect_descriptors_def sample_world_def)

lemma catalog_descriptors_wf_witness:
  "list_all wf_descriptor sample_descriptors \<and> distinct (map ad_setting_id sample_descriptors)"
  by (rule catalog_descriptors_wf [OF sample_collect])

lemma sample_descriptor_ids:
  "map (\<lambda>d. the (ad_setting_id d)) sample_descriptors =
     [''setting.iop.exposure.enable.instance.0'', ''setting.iop.exposure.mode.instance.0'',
      ''setting.iop.exposure.exposure.instance.0'']"
  by code_simp

text \<open>
  C24: every descriptor the catalog offers can be addressed: looking up its own action path and
  setting id finds it, and not another descriptor.  So an operation built from the manifest reaches
  the control the manifest described.
\<close>

theorem catalog_find_complete:
  assumes "dt_agent_catalog_collect_descriptors env wl dev = Inr ds" and "d \<in> set ds"
  shows "dt_agent_catalog_find_descriptor env wl dev (ad_action_path d) (ad_setting_id d) = Inr d"
proof -
  from collect_descriptors_ok [OF assms(1)] assms(2)
  have wf: "wf_descriptor d" and dist: "distinct (map ad_setting_id ds)"
    by (auto simp: list_all_iff)
  from wf have ne: "nonempty (ad_action_path d)" "nonempty (ad_setting_id d)"
    by (simp_all add: wf_descriptor_def)
  have "find (descriptor_matches (ad_action_path d) (ad_setting_id d)) ds = Some d"
    by (rule distinct_map_find [OF dist assms(2), where k = "ad_setting_id d"])
       (use ne in \<open>auto simp: descriptor_matches_def\<close>)
  with assms(1) ne show ?thesis
    by (simp add: dt_agent_catalog_find_descriptor_def dt_agent_catalog_is_action_path_allowed_def
        dt_agent_action_descriptor_copy_id)
qed

lemma catalog_find_complete_witness:
  "\<exists>d \<in> set sample_descriptors.
     dt_agent_catalog_find_descriptor sample_env sample_world (wd_develop sample_world)
       (ad_action_path d) (ad_setting_id d) = Inr d"
proof -
  have "sample_descriptors \<noteq> []" using sample_descriptor_ids by auto
  then have "hd sample_descriptors \<in> set sample_descriptors" by simp
  with catalog_find_complete [OF sample_collect this] show ?thesis by blast
qed

text \<open>What a successful lookup returns.\<close>

lemma find_descriptor_ok:
  assumes "dt_agent_catalog_find_descriptor env wl dev path sid = Inr d"
  shows "\<exists>ds. dt_agent_catalog_collect_descriptors env wl dev = Inr ds \<and> d \<in> set ds
     \<and> wf_descriptor d \<and> ad_action_path d = path \<and> (nonempty sid \<longrightarrow> ad_setting_id d = sid)"
proof -
  from assms obtain ds where ds: "dt_agent_catalog_collect_descriptors env wl dev = Inr ds"
    and f: "find (descriptor_matches path sid) ds = Some d"
    by (auto simp: dt_agent_catalog_find_descriptor_def result_simps Let_def
        dt_agent_action_descriptor_copy_id split: if_splits option.splits)
  from f have "d \<in> set ds" "descriptor_matches path sid d"
    by (auto simp: find_Some_iff)
  with collect_descriptors_ok [OF ds] ds show ?thesis
    by (auto simp: descriptor_matches_def list_all_iff)
qed

text \<open>Whatever every source of descriptors guarantees, every collected descriptor has.\<close>

lemma add_descriptor_unique_all:
  "list_all P (fst acc) \<Longrightarrow> (\<And>d. desc = Some d \<Longrightarrow> P d) \<Longrightarrow> list_all P (fst (add_descriptor_unique desc acc))"
  by (auto simp: add_descriptor_unique_def split: option.splits prod.splits)

lemma collect_all:
  assumes ds: "dt_agent_catalog_collect_descriptors env wl dev = Inr ds"
    and w: "\<And>m referral d. descriptor_for_widget env wl m referral = Some d \<Longrightarrow> P d"
    and t: "\<And>mdl d. descriptor_for_module_toggle mdl = Some d \<Longrightarrow> P d"
    and r: "\<And>m referral d. d \<in> set (collect_rgblevels_descriptors wl m referral) \<Longrightarrow> P d"
    and c: "\<And>m referral d. d \<in> set (collect_colorzones_descriptors env wl m referral) \<Longrightarrow> P d"
  shows "list_all P ds"
proof -
  let ?ok = "\<lambda>acc. list_all P (fst (acc :: collected))"
  have custom: "?ok acc \<Longrightarrow> \<forall>d \<in> set xs. P d \<Longrightarrow> ?ok (fold (\<lambda>d. add_descriptor_unique (Some d)) xs acc)"
    for xs acc
  proof (induction xs arbitrary: acc)
    case (Cons x xs)
    have "?ok (add_descriptor_unique (Some x) acc)"
      by (rule add_descriptor_unique_all) (use Cons.prems in auto)
    with Cons show ?case by simp
  qed simp
  have referral: "?ok acc \<Longrightarrow> ?ok (collect_referral env wl m rf acc)" for m rf acc
    unfolding collect_referral_def Let_def
    by (intro custom add_descriptor_unique_all) (auto dest: w r c)
  have "?ok acc \<Longrightarrow> ?ok (collect_module env wl mdl acc)" for mdl acc
    unfolding collect_module_def
    by (auto split: option.splits intro!: fold_ok [where P = ?ok] referral
        add_descriptor_unique_all dest: t)
  then have "?ok (fold (collect_module env wl) xs ([], {}))" for xs
    by (intro fold_ok [where P = ?ok]) auto
  with ds show ?thesis
    by (auto simp: dt_agent_catalog_collect_descriptors_def split: option.splits)
qed

definition reads_finite :: "world \<Rightarrow> dt_agent_action_descriptor \<Rightarrow> bool" where
  "reads_finite wl d \<longleftrightarrow>
     (ad_operation_kind d = DT_AGENT_OPERATION_SET_FLOAT
        \<and> ad_binding d = DT_AGENT_DESCRIPTOR_BINDING_WIDGET
      \<longrightarrow> (\<exists>h. ad_widget d = Some h \<and> isfinite_flt (dt_bauhaus_slider_get wl h)))"

lemma initialize_float_finite:
  "initialize_float_descriptor env wl d h = Some d' \<Longrightarrow> isfinite_flt (dt_bauhaus_slider_get wl h)"
  by (auto simp: initialize_float_descriptor_def float_range_def split: option.splits if_splits)

lemma initialize_float_widget:
  "initialize_float_descriptor env wl d h = Some d' \<Longrightarrow> ad_widget d' = ad_widget d"
  by (auto simp: initialize_float_descriptor_def split: option.splits)

lemma widget_descriptor_finite:
  assumes "widget_descriptor env wl m h fld label path = Some d"
  shows "reads_finite wl d"
proof (cases "operation_kind_of_field fld")
  case DT_AGENT_OPERATION_SET_FLOAT
  with assms obtain d0 where d0: "initialize_float_descriptor env wl d0 h = Some d" "ad_widget d0 = Some h"
    by (auto simp: widget_descriptor_def Let_def)
  from initialize_float_finite [OF d0(1)] initialize_float_widget [OF d0(1)] d0(2) show ?thesis
    by (simp add: reads_finite_def)
next
  case DT_AGENT_OPERATION_SET_CHOICE
  with assms obtain d0 where d: "d = populate_choice_options wl d0 h (Some fld)"
    and "ad_operation_kind d0 = DT_AGENT_OPERATION_SET_CHOICE"
    by (auto simp: widget_descriptor_def Let_def)
  with populate_choice_options_fields [of wl d0 h "Some fld"] show ?thesis
    by (auto simp: reads_finite_def)
qed (use assms in \<open>auto simp: widget_descriptor_def reads_finite_def Let_def\<close>)

lemma custom_binding:
  "d \<in> set (collect_rgblevels_descriptors wl m referral) \<Longrightarrow> ad_binding d \<noteq> DT_AGENT_DESCRIPTOR_BINDING_WIDGET"
  "d \<in> set (collect_colorzones_descriptors env wl m referral) \<Longrightarrow> ad_binding d \<noteq> DT_AGENT_DESCRIPTOR_BINDING_WIDGET"
  by (auto simp: collect_rgblevels_descriptors_def rgblevels_descriptor_def
      collect_colorzones_descriptors_def colorzones_descriptor_def Let_def
      split: option.splits if_splits)

lemma toggle_kind:
  "descriptor_for_module_toggle mdl = Some d \<Longrightarrow> ad_operation_kind d = DT_AGENT_OPERATION_SET_BOOL"
  by (auto simp: descriptor_for_module_toggle_def Let_def split: option.splits if_splits)

text \<open>A slider whose value is not finite is never offered, so one that is found reads as finite.\<close>

lemma found_reads_finite:
  assumes "dt_agent_catalog_find_descriptor env wl dev path sid = Inr d"
  shows "reads_finite wl d"
proof -
  from find_descriptor_ok [OF assms] obtain ds where
    ds: "dt_agent_catalog_collect_descriptors env wl dev = Inr ds" "d \<in> set ds" by blast
  have "list_all (reads_finite wl) ds"
    by (rule collect_all [OF ds(1)])
       (auto simp: descriptor_for_widget_def reads_finite_def custom_binding dest: toggle_kind
          custom_binding widget_descriptor_finite [unfolded reads_finite_def]
          split: option.splits if_splits)
  with ds(2) show ?thesis by (simp add: list_all_iff)
qed

subsection \<open>Writing through a descriptor\<close>

lemma to_float_nan [simp]: "to_float x = NaN \<longleftrightarrow> x = NaN"
  by (cases x) (auto simp: to_float_def)

lemma clamp_number_range:
  assumes "wf_descriptor d" and "ad_operation_kind d = DT_AGENT_OPERATION_SET_FLOAT" and "v \<noteq> NaN"
  shows "ad_min_number d \<le> dt_agent_catalog_clamp_number d v
         \<and> dt_agent_catalog_clamp_number d v \<le> ad_max_number d"
  using assms CLAMPf_range by (auto simp: wf_descriptor_def dt_agent_catalog_clamp_number_def)

text \<open>
  Writing a number keeps the range a slider shows inside its hard limits.  Whatever number is requested
  (infinities, NaN and values outside the range of the descriptor included), a slider with
  \<open>hard_min <= min <= max <= hard_max\<close> has such a range afterwards, with the same hard limits; a NaN
  leaves the whole world unchanged.  Where in the range the slider then stands is left to the
  rounding of its digits.
\<close>

theorem write_number_keeps_slider_range:
  assumes "ad_operation_kind d = DT_AGENT_OPERATION_SET_FLOAT"
    and "ad_binding d = DT_AGENT_DESCRIPTOR_BINDING_WIDGET" and "ad_widget d = Some h"
    and "slider_of wl h = Some sl" and "wf_slider sl" and "callbacks_keep env h"
    and "dt_agent_catalog_write_number env d v error wl = (applied, error', wl')"
  shows "\<exists>sl'. slider_of wl' h = Some sl' \<and> wf_slider sl' \<and> applied = Some (slider_value sl')
           \<and> sl_hard_min sl' = sl_hard_min sl \<and> sl_hard_max sl' = sl_hard_max sl
           \<and> error' = error \<and> (v = NaN \<longrightarrow> wl' = wl)"
proof -
  let ?p = "to_float (dt_agent_catalog_clamp_number d v)"
  have w: "wl' = dt_bauhaus_slider_set env h ?p wl" "applied = Some (dt_bauhaus_slider_get wl' h)"
    "error' = error"
    using assms by (auto simp: dt_agent_catalog_write_number_def Let_def)
  have nan: "?p = NaN" if "v = NaN"
    using that by (simp add: dt_agent_catalog_clamp_number_def)
  show ?thesis
  proof (cases "?p = NaN")
    case True
    with w assms(4,5) show ?thesis
      by (simp add: dt_bauhaus_slider_set_def isnan_flt_def dt_bauhaus_slider_get_def)
  next
    case False
    from slider_set_slider [OF assms(6,4) False] obtain ch tp where
      s: "slider_of wl' h = Some ((slider_move sl ?p)\<lparr>sl_is_changed := ch, sl_timeout_pending := tp\<rparr>)"
      using w(1) by auto
    with slider_move_wf [OF assms(5) False] w nan False show ?thesis
      by (auto simp: dt_bauhaus_slider_get_def)
  qed
qed

lemma sample_env_keeps [simp]: "callbacks_keep sample_env h"
  by (simp add: callbacks_keep_def sample_env_def)

lemma sample_slider_of: "slider_of sample_world 2 = Some sample_slider"
  by (simp add: slider_of_def sample_world_def)

lemma sample_slider_wf: "wf_slider sample_slider"
  by (simp add: wf_slider_def sample_slider_def)

lemma write_number_keeps_slider_range_witness:
  "\<exists>sl. slider_of (snd (snd (dt_agent_catalog_write_number sample_env
       (new_float_descriptor None (Some 2) None None None (Fin (- 16)) (Fin 16) (Fin 0) (Fin 1))
       (Fin 20) None sample_world))) 2 = Some sl \<and> wf_slider sl \<and> sl_hard_max sl = Fin 16"
proof -
  let ?d = "new_float_descriptor None (Some 2) None None None (Fin (- 16)) (Fin 16) (Fin 0) (Fin 1)"
  obtain a e w where r: "dt_agent_catalog_write_number sample_env ?d (Fin 20) None sample_world = (a, e, w)"
    by (metis prod.exhaust)
  have "ad_operation_kind ?d = DT_AGENT_OPERATION_SET_FLOAT"
    "ad_binding ?d = DT_AGENT_DESCRIPTOR_BINDING_WIDGET" "ad_widget ?d = Some 2"
    by (simp_all add: new_float_descriptor_def Let_def)
  from write_number_keeps_slider_range [OF this sample_slider_of sample_slider_wf sample_env_keeps r] r
  show ?thesis by (auto simp: sample_slider_def)
qed


lemma sample_combobox_accepts: "combobox_accepts sample_env 1 sample_world 3"
  by (simp add: combobox_accepts_def sample_world_def sample_combobox_def)


text \<open>
  A module toggle (or any toggle button) that is written has the written state, is reported
  with it and reads back as it.
\<close>

theorem write_bool_toggle_read_back:
  assumes "ad_operation_kind d = DT_AGENT_OPERATION_SET_BOOL" and "ad_widget d = Some h"
    and "toggle_accepts env h wl b"
    and "dt_agent_catalog_write_bool env d b error wl = (applied, error', wl')"
  shows "applied = Some b \<and> error' = error
         \<and> dt_agent_catalog_read_current_bool wl' d None = (Some b, None)"
proof -
  from toggle_set_widget [OF assms(3)] obtain wd where
    wd: "wd_widgets wl h = Some wd" "is_toggle wd"
        "wd_widgets (toggle_set_active env h b wl) h = Some (wd\<lparr>w_body := ToggleButton b\<rparr>)" by blast
  have get: "toggle_active (toggle_set_active env h b wl) h = b"
    using toggle_control.get_set [OF assms(3)] by simp
  have t: "is_toggle_button wl h" "is_toggle_button (toggle_set_active env h b wl) h"
    using wd by (simp_all add: is_toggle_button_def is_toggle_def)
  show ?thesis
    using assms(1,2,4) t get
    by (auto simp: dt_agent_catalog_write_bool_def dt_agent_catalog_read_current_bool_def)
qed

lemma write_bool_toggle_read_back_witness:
  "fst (dt_agent_catalog_write_bool sample_env
     (zero_descriptor\<lparr>ad_operation_kind := DT_AGENT_OPERATION_SET_BOOL, ad_widget := Some 3\<rparr>)
     False None sample_world) = Some False"
proof -
  let ?d = "zero_descriptor\<lparr>ad_operation_kind := DT_AGENT_OPERATION_SET_BOOL, ad_widget := Some 3\<rparr>"
  have acc: "toggle_accepts sample_env 3 sample_world False"
    by (auto simp: toggle_accepts_def sample_world_def)
  obtain a e w where r: "dt_agent_catalog_write_bool sample_env ?d False None sample_world = (a, e, w)"
    by (metis prod.exhaust)
  from write_bool_toggle_read_back [OF _ _ acc r] r show ?thesis by simp
qed

end
