(* ===== verification/Action_Path.thy ===== *)
theory Action_Path
  imports Catalog
begin

text \<open>
  The way back from an action path to the action: the first half of \<open>_action_find\<close> of
  \<open>accelerators.c\<close>, which splits the path at its slashes and undoes the escapes of
  \<open>_action_full_id\<close>.  (\<open>dt_action_locate\<close> then walks down the action tree along the result.)
\<close>

text \<open>\<open>g_strsplit (s, "/", 0)\<close>; the empty string has no parts.\<close>

fun split_slash :: "string \<Rightarrow> string \<times> string list" where
  "split_slash [] = ([], [])"
| "split_slash (c # cs) =
     (case split_slash cs of (s, ss) \<Rightarrow> if c = CHR ''/'' then ([], s # ss) else (c # s, ss))"

definition g_strsplit_slash :: "string \<Rightarrow> string list" where
  "g_strsplit_slash s = (if s = [] then [] else case split_slash s of (t, ts) \<Rightarrow> t # ts)"

text \<open>
  The inner loop.  After an escape character at the very end of a segment the code goes on past the
  terminating NUL; the result is None there.
\<close>

fun unescape :: "string \<Rightarrow> string option" where
  "unescape [] = Some []"
| "unescape [c] = (if c = CHR ''@'' then None else Some [c])"
| "unescape (c # d # cs) =
     (if c = CHR ''@''
      then map_option ((#) (if d = CHR '':'' then CHR '';'' else if d = CHR ''<'' then CHR ''/''
                            else if d = CHR ''>'' then CHR 0x5C else CHR ''@'')) (unescape cs)
      else map_option ((#) c) (unescape (d # cs)))"

fun all_some :: "'a option list \<Rightarrow> 'a list option" where
  "all_some [] = Some []"
| "all_some (None # xs) = None"
| "all_some (Some x # xs) = map_option ((#) x) (all_some xs)"

definition action_find_path :: "string \<Rightarrow> string list option" where
  "action_find_path action_name = all_some (map unescape (g_strsplit_slash action_name))"

text \<open>The ids from the root of the action tree down to an action.\<close>

fun action_chain :: "dt_action_t \<Rightarrow> string list" where
  "action_chain (Action aid label owner) =
     (case owner of None \<Rightarrow> [] | Some ow \<Rightarrow> action_chain ow) @ [aid]"

definition escape :: "string \<Rightarrow> string" where
  "escape s = concat (map escape_char s)"

lemma escape_simps [simp]: "escape [] = []" "escape (c # cs) = escape_char c @ escape cs"
  by (simp_all add: escape_def)

lemma escape_empty_iff [simp]: "escape s = [] \<longleftrightarrow> s = []"
  by (cases s) (simp_all add: escape_char_def)

lemma escape_no_slash: "CHR ''/'' \<notin> set (escape s)"
  by (induction s) (auto simp: escape_char_def)

lemma unescape_Cons: "c \<noteq> CHR ''@'' \<Longrightarrow> unescape (c # cs) = map_option ((#) c) (unescape cs)"
  by (cases cs) simp_all

lemma unescape_escape: "unescape (escape s) = Some s"
proof (induction s)
  case (Cons c cs)
  consider "c = CHR ''@''" | "c = CHR '';''" | "c = CHR ''/''" | "c = CHR 0x5C"
    | "c \<noteq> CHR ''@'' \<and> c \<noteq> CHR '';'' \<and> c \<noteq> CHR ''/'' \<and> c \<noteq> CHR 0x5C" by blast
  then show ?case
    using Cons by cases (simp_all add: escape_char_def unescape_Cons)
qed simp

lemma split_slash_append:
  "CHR ''/'' \<notin> set s \<Longrightarrow> split_slash (s @ CHR ''/'' # t) = (s, fst (split_slash t) # snd (split_slash t))"
  by (induction s) (auto split: prod.splits)

lemma split_slash_none: "CHR ''/'' \<notin> set s \<Longrightarrow> split_slash s = (s, [])"
  by (induction s) auto

text \<open>The segments of a path, joined by slashes.\<close>

fun join_slash :: "string list \<Rightarrow> string" where
  "join_slash [] = []"
| "join_slash [s] = s"
| "join_slash (s # t # ts) = s @ CHR ''/'' # join_slash (t # ts)"

lemma split_join_slash:
  "ts \<noteq> [] \<Longrightarrow> \<forall>t \<in> set ts. CHR ''/'' \<notin> set t
     \<Longrightarrow> split_slash (join_slash ts) = (hd ts, tl ts)"
  by (induction ts rule: join_slash.induct) (auto simp: split_slash_none split_slash_append)

lemma join_slash_snoc: "ts \<noteq> [] \<Longrightarrow> join_slash (ts @ [s]) = join_slash ts @ CHR ''/'' # s"
  by (induction ts rule: join_slash.induct) auto

lemma join_slash_ne: "ts \<noteq> [] \<Longrightarrow> hd ts \<noteq> [] \<Longrightarrow> join_slash ts \<noteq> []"
  by (cases ts rule: join_slash.cases) auto

lemma action_chain_ne [simp]: "action_chain a \<noteq> []"
  by (cases a) simp

lemma action_full_id_join:
  "hd (action_chain a) \<noteq> [] \<Longrightarrow> action_full_id a = join_slash (map escape (action_chain a))"
proof (induction a)
  case (Action aid label owner)
  show ?case
  proof (cases owner)
    case None
    then show ?thesis by (simp add: escape_def Let_def)
  next
    case (Some ow)
    with Action.prems have hd: "hd (action_chain ow) \<noteq> []" by simp
    with Action.IH Some have IH: "action_full_id ow = join_slash (map escape (action_chain ow))"
      by simp
    have "join_slash (map escape (action_chain ow)) \<noteq> []"
      by (rule join_slash_ne) (simp_all add: hd hd_map)
    with Some IH show ?thesis
      by (simp add: Let_def join_slash_snoc flip: escape_def)
  qed
qed

lemma all_some_map: "(\<And>x. x \<in> set xs \<Longrightarrow> f x = Some (g x)) \<Longrightarrow> all_some (map f xs) = Some (map g xs)"
  by (induction xs) auto

text \<open>
  C26: the action path of a descriptor leads back to its action.  \<open>_action_find\<close> recovers from
  \<open>_action_full_id\<close> exactly the ids on the way from the root to the action, whatever characters
  (slashes and escapes included) the ids hold, and never reads past the end of a segment.  The root
  must have a non-empty id: below an empty one the separator is left out.
\<close>

theorem action_path_roundtrip:
  assumes "hd (action_chain a) \<noteq> []"
  shows "action_find_path (action_full_id a) = Some (action_chain a)"
proof -
  let ?ts = "map escape (action_chain a)"
  have ne: "?ts \<noteq> []" by simp
  have "join_slash ?ts \<noteq> []"
    by (rule join_slash_ne) (simp_all add: assms hd_map)
  moreover have "split_slash (join_slash ?ts) = (hd ?ts, tl ?ts)"
    by (rule split_join_slash) (auto simp: escape_no_slash)
  ultimately have "g_strsplit_slash (join_slash ?ts) = ?ts"
    using ne by (simp add: g_strsplit_slash_def)
  then show ?thesis
    using all_some_map [of "action_chain a" "\<lambda>s. unescape (escape s)" "\<lambda>s. s"]
    by (simp add: action_find_path_def action_full_id_join [OF assms] unescape_escape o_def)
qed

lemma action_path_roundtrip_witness:
  "action_find_path (action_full_id (Action ''a;b/c@'' None (Some (Action ''iop'' None None))))
     = Some [''iop'', ''a;b/c@'']"
  by (subst action_path_roundtrip) simp_all

end
