(* ===== verification/Jobs.thy ===== *)
theory Jobs
  imports Prelude Step_System "HOL-Library.Multiset"
begin

text \<open>
  The background job queues of \<open>control/jobs.c\<close>, which run the chat requests: five queues (four
  FIFO queues and the deduplicating stack for thumbnails), aging priorities of type
  \<open>unsigned char\<close>, worker slots, the flag that keeps exports apart, and the reserved workers.
  A job is a value with its address; the mutexes make each operation atomic, so that operations are
  functions on the control state.  Between two locks a thread holds a job that is in no queue and no slot:
  such jobs are the hands of the threads.  \<open>ct_disposed\<close> lists the jobs given to
  \<open>dt_control_job_dispose\<close>, oldest first.
\<close>

subsection \<open>Jobs\<close>

datatype dt_job_state_t =
    DT_JOB_STATE_INITIALIZED | DT_JOB_STATE_QUEUED | DT_JOB_STATE_RUNNING | DT_JOB_STATE_FINISHED
  | DT_JOB_STATE_CANCELLED | DT_JOB_STATE_DISCARDED | DT_JOB_STATE_DISPOSED

abbreviation DT_JOB_QUEUE_USER_FG :: nat where "DT_JOB_QUEUE_USER_FG \<equiv> 0"
abbreviation DT_JOB_QUEUE_SYSTEM_FG :: nat where "DT_JOB_QUEUE_SYSTEM_FG \<equiv> 1"
abbreviation DT_JOB_QUEUE_USER_BG :: nat where "DT_JOB_QUEUE_USER_BG \<equiv> 2"
abbreviation DT_JOB_QUEUE_USER_EXPORT :: nat where "DT_JOB_QUEUE_USER_EXPORT \<equiv> 3"
abbreviation DT_JOB_QUEUE_SYSTEM_BG :: nat where "DT_JOB_QUEUE_SYSTEM_BG \<equiv> 4"
abbreviation DT_JOB_QUEUE_MAX :: nat where "DT_JOB_QUEUE_MAX \<equiv> 5"
abbreviation DT_JOB_QUEUE_SYNCHRONOUS :: nat where "DT_JOB_QUEUE_SYNCHRONOUS \<equiv> 1000"

definition DT_CONTROL_FG_PRIORITY :: "8 word" where "DT_CONTROL_FG_PRIORITY = 4"
definition DT_CONTROL_MAX_JOBS :: nat where "DT_CONTROL_MAX_JOBS = 30"
definition DT_CTL_WORKER_RESERVED :: nat where "DT_CTL_WORKER_RESERVED = 3"

text \<open>
  Functions are compared by address only.  \<open>jb_params\<close> is the memory the parameters point to, of
  which \<open>jb_params_size\<close> bytes are compared; \<open>jb_progress\<close> says whether the job has a progress bar.  What
  the execute, state change and destroy functions do is their own.
\<close>

record dt_job =
  jb_addr :: nat
  jb_execute :: nat
  jb_params :: string
  jb_params_size :: nat
  jb_state :: dt_job_state_t
  jb_priority :: "8 word"
  jb_queue :: nat
  jb_state_changed_cb :: nat
  jb_progress :: bool
  jb_is_synchronous :: bool
  jb_description :: string

text \<open>NULL if the control system is not running.\<close>

definition dt_control_job_create :: "bool \<Rightarrow> nat \<Rightarrow> nat \<Rightarrow> string \<Rightarrow> dt_job option" where
  "dt_control_job_create running addr execute msg =
     (if \<not> running then None
      else Some \<lparr>jb_addr = addr, jb_execute = execute, jb_params = [], jb_params_size = 0,
                 jb_state = DT_JOB_STATE_INITIALIZED, jb_priority = 0, jb_queue = 0,
                 jb_state_changed_cb = 0, jb_progress = False, jb_is_synchronous = False,
                 jb_description = take 255 msg\<rparr>)"

definition dt_control_job_set_params_with_size :: "string \<Rightarrow> nat \<Rightarrow> dt_job \<Rightarrow> dt_job" where
  "dt_control_job_set_params_with_size params params_size job =
     (if jb_state job \<noteq> DT_JOB_STATE_INITIALIZED then job
      else job\<lparr>jb_params := params, jb_params_size := params_size\<rparr>)"

definition dt_control_job_set_params :: "string \<Rightarrow> dt_job \<Rightarrow> dt_job" where
  "dt_control_job_set_params params job =
     (if jb_state job \<noteq> DT_JOB_STATE_INITIALIZED then job
      else job\<lparr>jb_params := params, jb_params_size := 0\<rparr>)"

text \<open>
  \<open>state >= DT_JOB_STATE_FINISHED\<close>.  A progress bar is taken down when a job ends without having run.
\<close>

fun final_state :: "dt_job_state_t \<Rightarrow> bool" where
  "final_state DT_JOB_STATE_INITIALIZED = False"
| "final_state DT_JOB_STATE_QUEUED = False"
| "final_state DT_JOB_STATE_RUNNING = False"
| "final_state _ = True"

definition control_job_set_state :: "dt_job_state_t \<Rightarrow> dt_job \<Rightarrow> dt_job" where
  "control_job_set_state state job =
     (let job = (if final_state state \<and> jb_state job \<noteq> DT_JOB_STATE_RUNNING
                 then job\<lparr>jb_progress := False\<rparr> else job)
      in job\<lparr>jb_state := state\<rparr>)"

definition dt_control_job_get_state :: "dt_job option \<Rightarrow> dt_job_state_t" where
  "dt_control_job_get_state job =
     (case job of None \<Rightarrow> DT_JOB_STATE_DISPOSED | Some j \<Rightarrow> jb_state j)"

definition dt_control_job_cancel :: "dt_job \<Rightarrow> dt_job" where
  "dt_control_job_cancel job = control_job_set_state DT_JOB_STATE_CANCELLED job"

definition control_job_equal :: "dt_job option \<Rightarrow> dt_job option \<Rightarrow> bool" where
  "control_job_equal j1 j2 =
     (case (j1, j2) of
        (Some a, Some b) \<Rightarrow>
          if jb_params_size a \<noteq> 0 \<and> jb_params_size a = jb_params_size b
          then jb_execute a = jb_execute b \<and> jb_state_changed_cb a = jb_state_changed_cb b
               \<and> jb_queue a = jb_queue b
               \<and> take (jb_params_size a) (jb_params a) = take (jb_params_size a) (jb_params b)
          else jb_execute a = jb_execute b \<and> jb_state_changed_cb a = jb_state_changed_cb b
               \<and> jb_queue a = jb_queue b \<and> jb_description a = jb_description b
      | _ \<Rightarrow> False)"

lemma control_job_equal_sym: "control_job_equal a b = control_job_equal b a"
proof (cases a; cases b)
  fix x y
  assume "a = Some x" "b = Some y"
  then show ?thesis
    by (cases "jb_params_size x = jb_params_size y")
      (simp_all add: control_job_equal_def eq_commute [of "jb_execute x"] eq_commute [of "jb_queue x"]
        eq_commute [of "jb_state_changed_cb x"] eq_commute [of "jb_description x"]
        eq_commute [of "take n (jb_params x)" for n])
qed (simp_all add: control_job_equal_def)

subsection \<open>The control state\<close>

text \<open>
  What a thread has in its local variables outside of the locks: nothing; a job it has still to dispose of,
  and whether it lowers the pending counter after that; or that it has still to lower the counter.
\<close>

datatype job_hand = Empty_Hand | Holds dt_job bool | Owes

text \<open>\<open>ct_hand\<close> are the hands of the workers, \<open>ct_callers\<close> those of threads that have dropped a duplicate.\<close>

record dt_control =
  ct_queues :: "nat \<Rightarrow> dt_job list"
  ct_queue_length :: "nat \<Rightarrow> nat"
  ct_export_scheduled :: bool
  ct_num_threads :: nat
  ct_job :: "nat \<Rightarrow> dt_job option"
  ct_pending_jobs :: int
  ct_job_res :: "nat \<Rightarrow> dt_job option"
  ct_new_res :: "nat \<Rightarrow> bool"
  ct_disposed :: "dt_job list"
  ct_hand :: "nat \<Rightarrow> job_hand"
  ct_res_hand :: "nat \<Rightarrow> job_hand"
  ct_callers :: "job_hand list"

definition set_queue :: "nat \<Rightarrow> dt_job list \<Rightarrow> dt_control \<Rightarrow> dt_control" where
  "set_queue i q control = control\<lparr>ct_queues := (ct_queues control)(i := q)\<rparr>"

definition add_pending :: "int \<Rightarrow> dt_control \<Rightarrow> dt_control" where
  "add_pending n control = control\<lparr>ct_pending_jobs := ct_pending_jobs control + n\<rparr>"

definition dt_control_job_dispose :: "dt_job option \<Rightarrow> dt_control \<Rightarrow> dt_control" where
  "dt_control_job_dispose job control =
     (case job of
        None \<Rightarrow> control
      | Some j \<Rightarrow> control\<lparr>ct_disposed :=
                    ct_disposed control @ [control_job_set_state DT_JOB_STATE_DISPOSED (j\<lparr>jb_progress := False\<rparr>)]\<rparr>)"

text \<open>The next thing a thread does with what it has in hand.\<close>

definition clear_hand :: "job_hand \<Rightarrow> dt_control \<Rightarrow> job_hand \<times> dt_control" where
  "clear_hand h control =
     (case h of
        Holds job counts \<Rightarrow> (if counts then Owes else Empty_Hand, dt_control_job_dispose (Some job) control)
      | Owes \<Rightarrow> (Empty_Hand, add_pending (- 1) control)
      | Empty_Hand \<Rightarrow> (Empty_Hand, control))"

subsection \<open>Scheduling\<close>

text \<open>The scan for the queue whose head has the highest priority, the first such queue if several.\<close>

definition schedulable :: "dt_control \<Rightarrow> nat \<Rightarrow> bool" where
  "schedulable control i \<longleftrightarrow> ct_queues control i \<noteq> []
     \<and> \<not> (ct_export_scheduled control \<and> i = DT_JOB_QUEUE_USER_EXPORT)"

definition head_priority :: "dt_control \<Rightarrow> nat \<Rightarrow> nat" where
  "head_priority control i = unat (jb_priority (hd (ct_queues control i)))"

fun pick_queue :: "dt_control \<Rightarrow> nat list \<Rightarrow> nat option \<Rightarrow> nat option" where
  "pick_queue control [] best = best"
| "pick_queue control (i # is) best =
     pick_queue control is
       (if schedulable control i
           \<and> (case best of None \<Rightarrow> True
              | Some w \<Rightarrow> head_priority control w < head_priority control i)
        then Some i else best)"

text \<open>\<open>priority++\<close> on the head of a queue, which wraps around at 256.\<close>

definition age_head :: "dt_job list \<Rightarrow> dt_job list" where
  "age_head q = (case q of [] \<Rightarrow> [] | j # js \<Rightarrow> j\<lparr>jb_priority := jb_priority j + 1\<rparr> # js)"

definition control_schedule_job :: "nat \<Rightarrow> dt_control \<Rightarrow> dt_job option \<times> dt_control" where
  "control_schedule_job threadid control =
     (case pick_queue control [0..<DT_JOB_QUEUE_MAX] None of
        None \<Rightarrow> (None, control)
      | Some winner \<Rightarrow>
          let job = hd (ct_queues control winner)
          in (Some job, control
               \<lparr>ct_queues := (\<lambda>i. if i = winner then tl (ct_queues control i)
                                 else if i < DT_JOB_QUEUE_MAX then age_head (ct_queues control i)
                                 else ct_queues control i),
                ct_queue_length := (ct_queue_length control)(winner := ct_queue_length control winner - 1),
                ct_export_scheduled := ct_export_scheduled control \<or> winner = DT_JOB_QUEUE_USER_EXPORT,
                ct_job := (ct_job control)(threadid := Some job)\<rparr>))"

text \<open>
  \<open>_control_run_job\<close> in its parts: taking a job; executing it if it is still queued, which its state says,
  and leaving the slot under the lock; and, outside of it, disposing of the job and lowering the pending
  counter, one after the other.
\<close>

definition control_job_execute :: "dt_job \<Rightarrow> dt_job" where
  "control_job_execute job =
     control_job_set_state DT_JOB_STATE_FINISHED (control_job_set_state DT_JOB_STATE_RUNNING job)"

definition run_if_queued :: "dt_job \<Rightarrow> dt_job" where
  "run_if_queued job = (if jb_state job = DT_JOB_STATE_QUEUED then control_job_execute job else job)"

definition control_run_job_end :: "nat \<Rightarrow> dt_control \<Rightarrow> dt_control" where
  "control_run_job_end threadid control =
     (case ct_job control threadid of
        None \<Rightarrow> control
      | Some job \<Rightarrow>
          let job = run_if_queued job
          in control\<lparr>ct_job := (ct_job control)(threadid := None),
               ct_export_scheduled :=
                 (if jb_queue job = DT_JOB_QUEUE_USER_EXPORT then False else ct_export_scheduled control),
               ct_hand := (ct_hand control)(threadid := Holds job True)\<rparr>)"

definition control_run_job_free :: "nat \<Rightarrow> dt_control \<Rightarrow> dt_control" where
  "control_run_job_free threadid control =
     (let (h, control) = clear_hand (ct_hand control threadid) control
      in control\<lparr>ct_hand := (ct_hand control)(threadid := h)\<rparr>)"

subsection \<open>Adding jobs\<close>

text \<open>Has a worker taken an equal job?\<close>

definition already_scheduled :: "dt_job \<Rightarrow> dt_control \<Rightarrow> bool" where
  "already_scheduled job control \<longleftrightarrow>
     list_ex (\<lambda>k. control_job_equal (Some job) (ct_job control k)) [0..<ct_num_threads control]"

text \<open>The first equal job of a list, and the list without it.\<close>

fun take_equal :: "dt_job \<Rightarrow> dt_job list \<Rightarrow> (dt_job \<times> dt_job list) option" where
  "take_equal job [] = None"
| "take_equal job (other # rest) =
     (if control_job_equal (Some job) (Some other) then Some (other, rest)
      else map_option (apsnd (Cons other)) (take_equal job rest))"

text \<open>
  The stack of the system foreground queue: an equal job moves to the top, the bottom is dropped.  A
  duplicate stays in the hand of the caller, as it is disposed of after the lock; the job at the bottom is
  disposed of under the lock.
\<close>

definition add_caller :: "job_hand \<Rightarrow> dt_control \<Rightarrow> dt_control" where
  "add_caller h control = control\<lparr>ct_callers := ct_callers control @ [h]\<rparr>"

definition add_system_fg :: "dt_job \<Rightarrow> dt_control \<Rightarrow> dt_control" where
  "add_system_fg job control =
     (let job = job\<lparr>jb_priority := DT_CONTROL_FG_PRIORITY\<rparr>
      in if already_scheduled job control then add_caller (Holds job True) control
         else
           let q = ct_queues control DT_JOB_QUEUE_SYSTEM_FG;
               len = ct_queue_length control DT_JOB_QUEUE_SYSTEM_FG;
               (top, rest, len, dropped, pending) =
                 (case take_equal job q of
                    Some (other, rest) \<Rightarrow> (other, rest, len - 1, Some job, - 1)
                  | None \<Rightarrow> (job, q, len, None, 0));
               control = add_pending pending control;
               q = control_job_set_state DT_JOB_STATE_QUEUED top # rest;
               len = len + 1;
               (q, len, control) =
                 (if DT_CONTROL_MAX_JOBS < len
                  then (butlast q, len - 1, add_pending (- 1) (dt_control_job_dispose
                         (Some (control_job_set_state DT_JOB_STATE_DISCARDED (last q))) control))
                  else (q, len, control));
               control = (set_queue DT_JOB_QUEUE_SYSTEM_FG q control)
                 \<lparr>ct_queue_length := (ct_queue_length control)(DT_JOB_QUEUE_SYSTEM_FG := len)\<rparr>
           in case dropped of None \<Rightarrow> control | Some j \<Rightarrow> add_caller (Holds j False) control)"

text \<open>The caller discards the duplicate, disposes of it and lowers the counter if it has still to.\<close>

definition discard_hand :: "job_hand \<Rightarrow> job_hand" where
  "discard_hand h = (case h of Holds job counts \<Rightarrow> Holds (control_job_set_state DT_JOB_STATE_DISCARDED job) counts | _ \<Rightarrow> h)"

definition add_job_free :: "nat \<Rightarrow> dt_control \<Rightarrow> dt_control" where
  "add_job_free i control =
     (let (h, control) = clear_hand (discard_hand (ct_callers control ! i)) control
      in control\<lparr>ct_callers := (ct_callers control)[i := h]\<rparr>)"

definition base_priority :: "nat \<Rightarrow> 8 word" where
  "base_priority queue_id =
     (if queue_id = DT_JOB_QUEUE_USER_BG \<or> queue_id = DT_JOB_QUEUE_USER_EXPORT
         \<or> queue_id = DT_JOB_QUEUE_SYSTEM_BG
      then 0 else DT_CONTROL_FG_PRIORITY)"

definition add_fifo :: "nat \<Rightarrow> dt_job \<Rightarrow> dt_control \<Rightarrow> dt_control" where
  "add_fifo queue_id job control =
     (let job = job\<lparr>jb_priority := base_priority queue_id, jb_state := DT_JOB_STATE_QUEUED\<rparr>
      in (set_queue queue_id (ct_queues control queue_id @ [job]) control)
           \<lparr>ct_queue_length := (ct_queue_length control)(queue_id := ct_queue_length control queue_id + 1)\<rparr>)"

text \<open>
  The function returns TRUE on invalid arguments.  When the control system is not running the job is
  executed at once.
\<close>

definition dt_control_add_job ::
  "bool \<Rightarrow> nat \<Rightarrow> dt_job option \<Rightarrow> dt_control \<Rightarrow> bool \<times> dt_control" where
  "dt_control_add_job running queue_id job control =
     (case job of
        None \<Rightarrow> (True, control)
      | Some j \<Rightarrow>
          if DT_JOB_QUEUE_MAX \<le> queue_id \<and> queue_id \<noteq> DT_JOB_QUEUE_SYNCHRONOUS
          then (True, dt_control_job_dispose job control)
          else if \<not> running \<or> queue_id = DT_JOB_QUEUE_SYNCHRONOUS
          then (False, dt_control_job_dispose (Some (control_job_execute (j\<lparr>jb_is_synchronous := True\<rparr>))) control)
          else
            let j = j\<lparr>jb_queue := queue_id\<rparr>; control = add_pending 1 control
            in (False, if queue_id = DT_JOB_QUEUE_SYSTEM_FG then add_system_fg j control
                       else add_fifo queue_id j control))"

subsection \<open>Reserved workers\<close>

text \<open>A reserved worker has one waiting job; a newer one replaces it.\<close>

definition dt_control_add_job_res :: "dt_job option \<Rightarrow> nat \<Rightarrow> dt_control \<Rightarrow> bool \<times> dt_control" where
  "dt_control_add_job_res job res control =
     (case job of
        None \<Rightarrow> (True, control)
      | Some j \<Rightarrow>
          if DT_CTL_WORKER_RESERVED \<le> res then (True, dt_control_job_dispose job control)
          else
            let control = dt_control_job_dispose
                  (map_option (control_job_set_state DT_JOB_STATE_DISCARDED) (ct_job_res control res)) control
            in (False, control
                 \<lparr>ct_job_res := (ct_job_res control)(res := Some (control_job_set_state DT_JOB_STATE_QUEUED j)),
                  ct_new_res := (ct_new_res control)(res := True)\<rparr>))"

text \<open>
  \<open>_control_run_job_res\<close> in its parts: taking the job under the lock, where TRUE means that there was none;
  executing it, when it is in no slot; and disposing of it.
\<close>

definition control_run_job_res :: "nat \<Rightarrow> dt_control \<Rightarrow> bool \<times> dt_control" where
  "control_run_job_res res control =
     (if DT_CTL_WORKER_RESERVED \<le> res then (True, control)
      else
        let job = (if ct_new_res control res then ct_job_res control res else None);
            control = control\<lparr>ct_new_res := (ct_new_res control)(res := False),
              ct_job_res := (if ct_new_res control res then (ct_job_res control)(res := None)
                             else ct_job_res control)\<rparr>
        in case job of
             None \<Rightarrow> (True, control)
           | Some j \<Rightarrow> (False, control\<lparr>ct_res_hand := (ct_res_hand control)(res := Holds j False)\<rparr>))"

definition control_run_job_res_execute :: "nat \<Rightarrow> dt_control \<Rightarrow> dt_control" where
  "control_run_job_res_execute res control =
     (case ct_res_hand control res of
        Holds j counts \<Rightarrow> control\<lparr>ct_res_hand := (ct_res_hand control)(res := Holds (run_if_queued j) counts)\<rparr>
      | _ \<Rightarrow> control)"

definition control_run_job_res_free :: "nat \<Rightarrow> dt_control \<Rightarrow> dt_control" where
  "control_run_job_res_free res control =
     (let (h, control) = clear_hand (ct_res_hand control res) control
      in control\<lparr>ct_res_hand := (ct_res_hand control)(res := h)\<rparr>)"

subsection \<open>Where the jobs are\<close>

text \<open>
  The addresses of the jobs in the queues, in the slots of workers and reserved workers, in the hands of
  threads, and disposed of.
\<close>

definition queued_jobs :: "dt_control \<Rightarrow> nat multiset" where
  "queued_jobs control = (\<Sum>i<DT_JOB_QUEUE_MAX. mset (map jb_addr (ct_queues control i)))"

definition slot_job :: "dt_job option \<Rightarrow> nat multiset" where
  "slot_job j = (case j of None \<Rightarrow> {#} | Some job \<Rightarrow> {#jb_addr job#})"

definition running_jobs :: "dt_control \<Rightarrow> nat multiset" where
  "running_jobs control = (\<Sum>t<ct_num_threads control. slot_job (ct_job control t))"

definition disposed_jobs :: "dt_control \<Rightarrow> nat multiset" where
  "disposed_jobs control = mset (map jb_addr (ct_disposed control))"

definition reserved_jobs :: "dt_control \<Rightarrow> nat multiset" where
  "reserved_jobs control = (\<Sum>r<DT_CTL_WORKER_RESERVED. slot_job (ct_job_res control r))"

text \<open>A quantity summed over all hands, as the jobs in them and how often they will lower the counter.\<close>

definition all_hands :: "(job_hand \<Rightarrow> 'a :: comm_monoid_add) \<Rightarrow> dt_control \<Rightarrow> 'a" where
  "all_hands f control = (\<Sum>t<ct_num_threads control. f (ct_hand control t))
     + (\<Sum>r<DT_CTL_WORKER_RESERVED. f (ct_res_hand control r)) + sum_list (map f (ct_callers control))"

definition hand_job :: "job_hand \<Rightarrow> nat multiset" where
  "hand_job h = (case h of Holds job counts \<Rightarrow> {#jb_addr job#} | _ \<Rightarrow> {#})"

definition hand_owes :: "job_hand \<Rightarrow> nat" where
  "hand_owes h = (case h of Holds job counts \<Rightarrow> of_bool counts | Owes \<Rightarrow> 1 | Empty_Hand \<Rightarrow> 0)"

definition held_jobs :: "dt_control \<Rightarrow> nat multiset" where
  "held_jobs control = all_hands hand_job control"

definition owed :: "dt_control \<Rightarrow> nat" where
  "owed control = all_hands hand_owes control"

definition known_jobs :: "dt_control \<Rightarrow> nat multiset" where
  "known_jobs control = queued_jobs control + running_jobs control + disposed_jobs control + reserved_jobs control + held_jobs control"

inductive control_step :: "dt_control \<Rightarrow> dt_control \<Rightarrow> bool" where
  add_job: "queue_id < DT_JOB_QUEUE_MAX \<Longrightarrow> jb_addr j \<notin># known_jobs c
     \<Longrightarrow> dt_control_add_job running queue_id (Some j) c = (failed, c') \<Longrightarrow> control_step c c'"
| schedule: "t < ct_num_threads c \<Longrightarrow> ct_job c t = None
     \<Longrightarrow> control_schedule_job t c = (Some j, c') \<Longrightarrow> control_step c c'"
| run_end: "t < ct_num_threads c \<Longrightarrow> ct_job c t = Some j \<Longrightarrow> ct_hand c t = Empty_Hand
     \<Longrightarrow> control_step c (control_run_job_end t c)"
| run_free: "t < ct_num_threads c \<Longrightarrow> control_step c (control_run_job_free t c)"
| add_free: "i < length (ct_callers c) \<Longrightarrow> control_step c (add_job_free i c)"
| add_job_res: "jb_addr j \<notin># known_jobs c \<Longrightarrow> control_step c (snd (dt_control_add_job_res (Some j) res c))"
| run_job_res: "ct_res_hand c res = Empty_Hand \<Longrightarrow> control_step c (snd (control_run_job_res res c))"
| run_res_execute: "control_step c (control_run_job_res_execute res c)"
| run_res_free: "res < DT_CTL_WORKER_RESERVED \<Longrightarrow> control_step c (control_run_job_res_free res c)"

inductive_cases control_stepE: "control_step c c'"

definition control_init :: "dt_control \<Rightarrow> bool" where
  "control_init c \<longleftrightarrow> (\<forall>i. ct_queues c i = []) \<and> (\<forall>i. ct_queue_length c i = 0)
     \<and> \<not> ct_export_scheduled c \<and> (\<forall>t. ct_job c t = None) \<and> ct_pending_jobs c = 0
     \<and> (\<forall>r. ct_job_res c r = None \<and> \<not> ct_new_res c r) \<and> ct_disposed c = []
     \<and> (\<forall>t. ct_hand c t = Empty_Hand) \<and> (\<forall>r. ct_res_hand c r = Empty_Hand) \<and> ct_callers c = []"

lemma sum_upd:
  fixes f :: "nat \<Rightarrow> 'a :: comm_monoid_add"
  assumes "i < n" and "\<And>k. k \<noteq> i \<Longrightarrow> g k = f k"
  shows "(\<Sum>k<n. g k) + f i = (\<Sum>k<n. f k) + g i"
proof -
  have "(\<Sum>k<n. g k) = g i + (\<Sum>k \<in> {..<n} - {i}. g k)"
    "(\<Sum>k<n. f k) = f i + (\<Sum>k \<in> {..<n} - {i}. f k)"
    using assms(1) by (simp_all add: sum.remove)
  moreover have "(\<Sum>k \<in> {..<n} - {i}. g k) = (\<Sum>k \<in> {..<n} - {i}. f k)"
    using assms(2) by (intro sum.cong) auto
  ultimately show ?thesis by (simp add: ac_simps)
qed

lemma queued_jobs_upd:
  assumes "i < DT_JOB_QUEUE_MAX" "\<And>k. k \<noteq> i \<Longrightarrow> map jb_addr (ct_queues c' k) = map jb_addr (ct_queues c k)"
  shows "queued_jobs c' + mset (map jb_addr (ct_queues c i))
           = queued_jobs c + mset (map jb_addr (ct_queues c' i))"
  unfolding queued_jobs_def
  by (rule sum_upd [OF assms(1)]) (simp add: assms(2))

lemma running_jobs_upd:
  assumes "t < ct_num_threads c" "ct_num_threads c' = ct_num_threads c"
    "\<And>k. k \<noteq> t \<Longrightarrow> ct_job c' k = ct_job c k"
  shows "running_jobs c' + slot_job (ct_job c t) = running_jobs c + slot_job (ct_job c' t)"
  unfolding running_jobs_def assms(2)
  by (rule sum_upd [OF assms(1)]) (simp add: assms(3))

lemma hand_simps [simp]:
  "hand_job Empty_Hand = {#}" "hand_job (Holds j b) = {#jb_addr j#}" "hand_job Owes = {#}"
  "hand_owes Empty_Hand = 0" "hand_owes (Holds j b) = of_bool b" "hand_owes Owes = 1"
  by (simp_all add: hand_job_def hand_owes_def)

definition hands :: "dt_control \<Rightarrow> nat \<times> (nat \<Rightarrow> job_hand) \<times> (nat \<Rightarrow> job_hand) \<times> job_hand list" where
  "hands c = (ct_num_threads c, ct_hand c, ct_res_hand c, ct_callers c)"

lemma all_hands_kept: "hands c' = hands c \<Longrightarrow> all_hands f c' = all_hands f c"
  by (simp add: hands_def all_hands_def)

lemma held_kept: "hands c' = hands c \<Longrightarrow> held_jobs c' = held_jobs c \<and> owed c' = owed c"
  using all_hands_kept [of c' c hand_job] all_hands_kept [of c' c hand_owes] by (simp add: held_jobs_def owed_def)

lemma shift_sum:
  fixes a :: "'a :: comm_monoid_add"
  assumes "a' + x = a + y"
  shows "a' + r + x = a + r + y"
proof -
  have "a' + r + x = a' + x + r" by (simp add: add.assoc add.commute [of r])
  also have "\<dots> = a + y + r" by (simp only: assms)
  also have "\<dots> = a + r + y" by (simp add: add.assoc add.commute [of y])
  finally show ?thesis .
qed

lemma all_hands_worker:
  assumes "hands c' = (ct_num_threads c, (ct_hand c)(t := h), ct_res_hand c, ct_callers c)" "t < ct_num_threads c"
  shows "all_hands f c' + f (ct_hand c t) = all_hands f c + f h"
proof -
  have "(\<Sum>k<ct_num_threads c. f (ct_hand c' k)) + f (ct_hand c t) = (\<Sum>k<ct_num_threads c. f (ct_hand c k)) + f (ct_hand c' t)"
    by (rule sum_upd [OF assms(2)]) (use assms(1) in \<open>simp add: hands_def\<close>)
  from shift_sum [OF shift_sum [OF this]] assms(1) show ?thesis by (simp add: all_hands_def hands_def)
qed

lemma all_hands_res:
  assumes "hands c' = (ct_num_threads c, ct_hand c, (ct_res_hand c)(r := h), ct_callers c)" "r < DT_CTL_WORKER_RESERVED"
  shows "all_hands f c' + f (ct_res_hand c r) = all_hands f c + f h"
proof -
  have "(\<Sum>k<DT_CTL_WORKER_RESERVED. f (ct_res_hand c' k)) + f (ct_res_hand c r)
      = (\<Sum>k<DT_CTL_WORKER_RESERVED. f (ct_res_hand c k)) + f (ct_res_hand c' r)"
    by (rule sum_upd [OF assms(2)]) (use assms(1) in \<open>simp add: hands_def\<close>)
  from shift_sum [OF this, of "(\<Sum>t<ct_num_threads c. f (ct_hand c t)) + sum_list (map f (ct_callers c))"] assms(1)
  show ?thesis by (simp add: all_hands_def hands_def ac_simps)
qed

lemma sum_list_upd:
  fixes f :: "'a \<Rightarrow> 'b :: comm_monoid_add"
  shows "i < length xs \<Longrightarrow> sum_list (map f (xs[i := h])) + f (xs ! i) = sum_list (map f xs) + f h"
  by (induction xs arbitrary: i) (auto simp: ac_simps nth_Cons split: nat.splits)

lemma all_hands_caller:
  assumes "hands c' = (ct_num_threads c, ct_hand c, ct_res_hand c, (ct_callers c)[i := h])" "i < length (ct_callers c)"
  shows "all_hands f c' + f (ct_callers c ! i) = all_hands f c + f h"
  using sum_list_upd [OF assms(2), of f h] assms(1) by (simp add: all_hands_def hands_def add.assoc)

lemma all_hands_new_caller:
  "hands c' = (ct_num_threads c, ct_hand c, ct_res_hand c, ct_callers c @ [h]) \<Longrightarrow> all_hands f c' = all_hands f c + f h"
  by (simp add: all_hands_def hands_def add.assoc)

text \<open>Nothing is lost in a hand.\<close>

lemma clear_hand_effect:
  assumes "clear_hand h c = (h', c')"
  shows "ct_queues c' = ct_queues c" "ct_queue_length c' = ct_queue_length c" "ct_export_scheduled c' = ct_export_scheduled c"
    "ct_num_threads c' = ct_num_threads c" "ct_job c' = ct_job c" "ct_job_res c' = ct_job_res c" "ct_new_res c' = ct_new_res c"
    "hands c' = hands c"
    "disposed_jobs c' + hand_job h' = disposed_jobs c + hand_job h"
    "ct_pending_jobs c' + int (hand_owes h) = ct_pending_jobs c + int (hand_owes h')"
  using assms by (auto simp: clear_hand_def dt_control_job_dispose_def add_pending_def disposed_jobs_def hands_def
      control_job_set_state_def Let_def split: job_hand.splits)

subsection \<open>What each operation does to the queues\<close>

text \<open>The reserved workers are left alone by the operations on the queues.\<close>

lemma res_kept [simp]:
  "ct_job_res (snd (control_schedule_job t c)) = ct_job_res c"
  "ct_job_res (control_run_job_end t c) = ct_job_res c"
  "ct_job_res (snd (dt_control_add_job running q j c)) = ct_job_res c"
  by (auto simp: control_schedule_job_def control_run_job_end_def dt_control_add_job_def add_fifo_def add_system_fg_def
      set_queue_def add_pending_def dt_control_job_dispose_def add_caller_def Let_def split: option.splits)

lemma hands_kept [simp]:
  "hands (snd (control_schedule_job t c)) = hands c"
  by (auto simp: control_schedule_job_def hands_def Let_def split: option.splits)

lemma reserved_jobs_kept: "ct_job_res c' = ct_job_res c \<Longrightarrow> reserved_jobs c' = reserved_jobs c"
  by (simp add: reserved_jobs_def)

lemma reserved_jobs_upd:
  assumes "r < DT_CTL_WORKER_RESERVED" "ct_job_res c' = (ct_job_res c)(r := j)"
  shows "reserved_jobs c' + slot_job (ct_job_res c r) = reserved_jobs c + slot_job j"
proof -
  have "(\<Sum>k<DT_CTL_WORKER_RESERVED. slot_job (ct_job_res c' k)) + slot_job (ct_job_res c r)
      = (\<Sum>k<DT_CTL_WORKER_RESERVED. slot_job (ct_job_res c k)) + slot_job (ct_job_res c' r)"
    by (rule sum_upd [OF assms(1)]) (simp add: assms(2))
  then show ?thesis by (simp add: reserved_jobs_def assms(2))
qed

lemma pick_queue_Some:
  "pick_queue c is best = Some w \<Longrightarrow> best = Some w \<or> w \<in> set is \<and> schedulable c w"
  by (induction "is" arbitrary: best) (fastforce split: if_splits)+

lemma age_head_addr [simp]: "map jb_addr (age_head q) = map jb_addr q"
  by (simp add: age_head_def split: list.splits)

lemma age_head_length [simp]: "length (age_head q) = length q"
  by (simp add: age_head_def split: list.splits)

lemma age_head_empty [simp]: "age_head q = [] \<longleftrightarrow> q = []"
  by (simp add: age_head_def split: list.splits)

lemma age_head_tl [simp]: "tl (age_head q) = tl q"
  by (simp add: age_head_def split: list.splits)

lemma control_schedule_Some:
  assumes "control_schedule_job t c = (Some j, c')"
  obtains w where "w < DT_JOB_QUEUE_MAX" "schedulable c w" "pick_queue c [0..<DT_JOB_QUEUE_MAX] None = Some w"
    "ct_queues c w = j # ct_queues c' w"
    "\<And>i. i \<noteq> w \<Longrightarrow> i < DT_JOB_QUEUE_MAX \<Longrightarrow> ct_queues c' i = age_head (ct_queues c i)"
    "\<And>i. i \<noteq> w \<Longrightarrow> map jb_addr (ct_queues c' i) = map jb_addr (ct_queues c i)"
    "ct_queue_length c' = (ct_queue_length c)(w := ct_queue_length c w - 1)"
    "ct_export_scheduled c' \<longleftrightarrow> ct_export_scheduled c \<or> w = DT_JOB_QUEUE_USER_EXPORT"
    "ct_job c' = (ct_job c)(t := Some j)" "ct_num_threads c' = ct_num_threads c"
    "ct_pending_jobs c' = ct_pending_jobs c" "ct_disposed c' = ct_disposed c"
proof -
  from assms obtain w where w: "pick_queue c [0..<DT_JOB_QUEUE_MAX] None = Some w"
    by (auto simp: control_schedule_job_def split: option.splits)
  from pick_queue_Some [OF w] have s: "w < DT_JOB_QUEUE_MAX" "schedulable c w" by auto
  then have "ct_queues c w \<noteq> []" by (simp add: schedulable_def)
  with assms w s show thesis
    by (intro that [of w]) (auto simp: control_schedule_job_def Let_def)
qed

lemma take_equal_None: "take_equal job q = None \<longleftrightarrow> (\<forall>j \<in> set q. \<not> control_job_equal (Some job) (Some j))"
  by (induction q) auto

lemma take_equal_Some:
  "take_equal job q = Some (other, rest) \<Longrightarrow>
     \<exists>xs ys. q = xs @ other # ys \<and> rest = xs @ ys \<and> control_job_equal (Some job) (Some other)"
proof (induction q arbitrary: rest)
  case (Cons x q)
  show ?case
  proof (cases "control_job_equal (Some job) (Some x)")
    case True
    with Cons.prems show ?thesis by (intro exI [of _ "[]"] exI [of _ q]) auto
  next
    case False
    with Cons.prems obtain rest' where "take_equal job q = Some (other, rest')" "rest = x # rest'" by auto
    with Cons.IH [of rest'] show ?thesis by (metis append_Cons)
  qed
qed simp

subsection \<open>The invariant of the queues\<close>

definition distinct_jobs :: "dt_job list \<Rightarrow> bool" where
  "distinct_jobs q \<longleftrightarrow> sorted_wrt (\<lambda>a b. \<not> control_job_equal (Some a) (Some b)) q"

definition exporting :: "dt_control \<Rightarrow> nat \<Rightarrow> bool" where
  "exporting c t \<longleftrightarrow> (\<exists>j. ct_job c t = Some j \<and> jb_queue j = DT_JOB_QUEUE_USER_EXPORT)"

definition queues_ok :: "dt_control \<Rightarrow> bool" where
  "queues_ok c \<longleftrightarrow>
     (\<forall>i<DT_JOB_QUEUE_MAX. ct_queue_length c i = length (ct_queues c i)
        \<and> (\<forall>j \<in> set (ct_queues c i). jb_queue j = i))
     \<and> length (ct_queues c DT_JOB_QUEUE_SYSTEM_FG) \<le> DT_CONTROL_MAX_JOBS
     \<and> distinct_jobs (ct_queues c DT_JOB_QUEUE_SYSTEM_FG)"

definition exports_ok :: "dt_control \<Rightarrow> bool" where
  "exports_ok c \<longleftrightarrow> (\<forall>t. exporting c t \<longrightarrow> ct_export_scheduled c)
     \<and> (\<forall>t u. exporting c t \<longrightarrow> exporting c u \<longrightarrow> t = u)"

definition pending_ok :: "dt_control \<Rightarrow> bool" where
  "pending_ok c \<longleftrightarrow> ct_pending_jobs c = int (size (queued_jobs c) + size (running_jobs c) + owed c)"

definition once :: "dt_control \<Rightarrow> bool" where
  "once c \<longleftrightarrow> (\<forall>a. count (known_jobs c) a \<le> 1)"

definition control_inv :: "dt_control \<Rightarrow> bool" where
  "control_inv c \<longleftrightarrow> queues_ok c \<and> exports_ok c \<and> pending_ok c \<and> once c"

lemma control_job_equal_fields [simp]:
  "control_job_equal (Some (a\<lparr>jb_priority := p\<rparr>)) x = control_job_equal (Some a) x"
  "control_job_equal x (Some (a\<lparr>jb_priority := p\<rparr>)) = control_job_equal x (Some a)"
  "control_job_equal (Some (control_job_set_state st a)) x = control_job_equal (Some a) x"
  "control_job_equal x (Some (control_job_set_state st a)) = control_job_equal x (Some a)"
  by (auto simp: control_job_equal_def control_job_set_state_def Let_def split: option.splits)

lemma set_state_fields [simp]:
  "jb_addr (control_job_set_state st a) = jb_addr a" "jb_queue (control_job_set_state st a) = jb_queue a"
  "jb_priority (control_job_set_state st a) = jb_priority a"
  by (simp_all add: control_job_set_state_def Let_def)

lemma execute_fields [simp]: "jb_addr (run_if_queued a) = jb_addr a" "jb_queue (run_if_queued a) = jb_queue a"
    "jb_addr (control_job_execute a) = jb_addr a"
  by (simp_all add: run_if_queued_def control_job_execute_def)

lemma distinct_jobs_Cons [simp]:
  "distinct_jobs (j # q) \<longleftrightarrow> (\<forall>x \<in> set q. \<not> control_job_equal (Some j) (Some x)) \<and> distinct_jobs q"
  by (simp add: distinct_jobs_def)

lemma distinct_jobs_Nil [simp]: "distinct_jobs []"
  by (simp add: distinct_jobs_def)

lemma distinct_jobs_append:
  "distinct_jobs (xs @ ys) \<longleftrightarrow> distinct_jobs xs \<and> distinct_jobs ys
     \<and> (\<forall>x \<in> set xs. \<forall>y \<in> set ys. \<not> control_job_equal (Some x) (Some y))"
  by (simp add: distinct_jobs_def sorted_wrt_append)

lemma distinct_jobs_butlast: "distinct_jobs q \<Longrightarrow> distinct_jobs (butlast q)"
  by (cases q rule: rev_cases) (simp_all add: distinct_jobs_append)

lemma distinct_jobs_age: "distinct_jobs (age_head q) = distinct_jobs q"
  by (simp add: age_head_def split: list.splits)

lemma age_head_queue: "(\<forall>j \<in> set (age_head q). jb_queue j = i) \<longleftrightarrow> (\<forall>j \<in> set q. jb_queue j = i)"
  by (cases q) (simp_all add: age_head_def)

lemma schedule_queues_ok:
  assumes "control_schedule_job t c = (Some j, c')" "queues_ok c"
  shows "queues_ok c'"
  using assms(1)
proof (cases rule: control_schedule_Some)
  case (1 w)
  have q: "ct_queue_length c' i = length (ct_queues c' i) \<and> (\<forall>j \<in> set (ct_queues c' i). jb_queue j = i)"
    if "i < DT_JOB_QUEUE_MAX" for i
    using assms(2) that 1(1,4,5,7) age_head_queue [of "ct_queues c i" i]
    by (cases "i = w") (auto simp: queues_ok_def)
  have "length (ct_queues c' 1) \<le> length (ct_queues c 1) \<and> (distinct_jobs (ct_queues c 1) \<longrightarrow> distinct_jobs (ct_queues c' 1))"
    using 1(4) 1(5) [of 1] by (cases "w = 1") (auto simp: distinct_jobs_age)
  with q assms(2) show ?thesis by (auto simp: queues_ok_def)
qed

lemma schedule_jobs:
  assumes s: "control_schedule_job t c = (Some j, c')" and t: "t < ct_num_threads c" "ct_job c t = None"
  shows "known_jobs c' = known_jobs c \<and> owed c' = owed c
    \<and> size (queued_jobs c') + size (running_jobs c') = size (queued_jobs c) + size (running_jobs c)"
  using s
proof (cases rule: control_schedule_Some)
  case (1 w)
  have "queued_jobs c' + mset (map jb_addr (ct_queues c w)) = queued_jobs c + mset (map jb_addr (ct_queues c' w))"
    by (rule queued_jobs_upd [OF 1(1)]) (rule 1(6))
  with 1(4) have q: "queued_jobs c = add_mset (jb_addr j) (queued_jobs c')" by simp
  have "running_jobs c' + slot_job (ct_job c t) = running_jobs c + slot_job (ct_job c' t)"
    by (rule running_jobs_upd) (use t 1 in auto)
  with t 1 have r: "running_jobs c' = add_mset (jb_addr j) (running_jobs c)" by (simp add: slot_job_def)
  have "reserved_jobs c' = reserved_jobs c" by (rule reserved_jobs_kept) (metis res_kept(1) s snd_conv)
  moreover have "held_jobs c' = held_jobs c \<and> owed c' = owed c" by (rule held_kept) (metis hands_kept s snd_conv)
  ultimately show ?thesis using q r 1(12) by (simp add: known_jobs_def disposed_jobs_def)
qed

lemma schedule_exports:
  assumes s: "control_schedule_job t c = (Some j, c')" and "exports_ok c" "queues_ok c"
  shows "exports_ok c'"
  using s
proof (cases rule: control_schedule_Some)
  case (1 w)
  have j: "jb_queue j = w" using assms(3) 1(1,4) by (auto simp: queues_ok_def)
  have ex: "exporting c' u \<longleftrightarrow> (if u = t then w = DT_JOB_QUEUE_USER_EXPORT else exporting c u)" for u
    using 1(9) j by (simp add: exporting_def)
  show ?thesis
  proof (cases "w = DT_JOB_QUEUE_USER_EXPORT")
    case True
    then have "\<not> exporting c u" for u using assms(2) 1(2) by (auto simp: exports_ok_def schedulable_def)
    with True 1(8) show ?thesis by (simp add: exports_ok_def ex)
  next
    case False
    with assms(2) 1(8) show ?thesis by (auto simp: exports_ok_def ex)
  qed
qed

lemma run_end_fields:
  assumes "ct_job c t = Some j"
  shows "ct_queues (control_run_job_end t c) = ct_queues c"
    "ct_queue_length (control_run_job_end t c) = ct_queue_length c"
    "ct_num_threads (control_run_job_end t c) = ct_num_threads c"
    "ct_job (control_run_job_end t c) = (ct_job c)(t := None)"
    "ct_pending_jobs (control_run_job_end t c) = ct_pending_jobs c"
    "disposed_jobs (control_run_job_end t c) = disposed_jobs c"
    "hands (control_run_job_end t c) = (ct_num_threads c, (ct_hand c)(t := Holds (run_if_queued j) True), ct_res_hand c, ct_callers c)"
    "ct_export_scheduled (control_run_job_end t c)
       = (jb_queue j \<noteq> DT_JOB_QUEUE_USER_EXPORT \<and> ct_export_scheduled c)"
  using assms by (simp_all add: control_run_job_end_def Let_def disposed_jobs_def hands_def)

lemma run_end_known:
  assumes "t < ct_num_threads c" "ct_job c t = Some j" "ct_hand c t = Empty_Hand"
  shows "known_jobs (control_run_job_end t c) = known_jobs c" "owed (control_run_job_end t c) = owed c + 1"
    "queued_jobs (control_run_job_end t c) = queued_jobs c"
    "running_jobs c = add_mset (jb_addr j) (running_jobs (control_run_job_end t c))"
proof -
  let ?c = "control_run_job_end t c"
  note f = run_end_fields [OF assms(2)]
  show q: "queued_jobs ?c = queued_jobs c" by (simp add: queued_jobs_def f)
  have "running_jobs ?c + slot_job (ct_job c t) = running_jobs c + slot_job (ct_job ?c t)"
    by (rule running_jobs_upd [OF assms(1)]) (simp_all add: f)
  then show r: "running_jobs c = add_mset (jb_addr j) (running_jobs ?c)" by (simp add: f assms(2) slot_job_def)
  note h = all_hands_worker [OF f(7) assms(1)]
  from h [of hand_job] h [of hand_owes] have "held_jobs ?c = held_jobs c + {#jb_addr j#}" and o: "owed ?c = owed c + 1"
    by (simp_all add: held_jobs_def owed_def assms(3))
  with q r show "known_jobs ?c = known_jobs c" by (simp add: known_jobs_def f reserved_jobs_kept [OF res_kept(2)])
  show "owed ?c = owed c + 1" by (rule o)
qed

lemma run_end_inv:
  assumes "t < ct_num_threads c" "ct_job c t = Some j" "ct_hand c t = Empty_Hand" "control_inv c"
  shows "control_inv (control_run_job_end t c)"
proof -
  let ?c = "control_run_job_end t c"
  note f = run_end_fields [OF assms(2)] and k = run_end_known [OF assms(1-3)]
  have ex: "exporting ?c u \<longleftrightarrow> u \<noteq> t \<and> exporting c u" for u by (simp add: exporting_def f)
  have tj: "exporting c t \<longleftrightarrow> jb_queue j = DT_JOB_QUEUE_USER_EXPORT" by (simp add: exporting_def assms(2))
  have "exports_ok ?c" using assms(4) by (auto simp: control_inv_def exports_ok_def ex f tj)
  with assms(4) k show ?thesis by (simp add: control_inv_def queues_ok_def pending_ok_def once_def f)
qed

text \<open>
  The stack as a whole: the new job and the old queue are split into the new queue and the jobs
  disposed of.
\<close>

lemma add_system_fg_result:
  assumes ok: "queues_ok c" and j: "jb_queue j = DT_JOB_QUEUE_SYSTEM_FG"
  obtains q dropped where
    "ct_queues (add_system_fg j c) = (ct_queues c)(DT_JOB_QUEUE_SYSTEM_FG := q)"
    "ct_queue_length (add_system_fg j c) = (ct_queue_length c)(DT_JOB_QUEUE_SYSTEM_FG := length q)"
    "ct_job (add_system_fg j c) = ct_job c" "ct_num_threads (add_system_fg j c) = ct_num_threads c"
    "ct_export_scheduled (add_system_fg j c) = ct_export_scheduled c"
    "disposed_jobs (add_system_fg j c) + held_jobs (add_system_fg j c) = disposed_jobs c + held_jobs c + dropped"
    "ct_pending_jobs (add_system_fg j c) + 1 + int (owed c)
       = ct_pending_jobs c + int (owed (add_system_fg j c)) + int (length q) - int (length (ct_queues c DT_JOB_QUEUE_SYSTEM_FG))"
    "mset (map jb_addr q) + dropped
       = add_mset (jb_addr j) (mset (map jb_addr (ct_queues c DT_JOB_QUEUE_SYSTEM_FG)))"
    "length q \<le> DT_CONTROL_MAX_JOBS" "distinct_jobs q"
    "\<forall>x \<in> set q. jb_queue x = DT_JOB_QUEUE_SYSTEM_FG"
proof -
  let ?dispose = "\<lambda>j. control_job_set_state DT_JOB_STATE_DISPOSED (j\<lparr>jb_progress := False\<rparr>)"
  let ?q = "ct_queues c DT_JOB_QUEUE_SYSTEM_FG" and ?j = "j\<lparr>jb_priority := DT_CONTROL_FG_PRIORITY\<rparr>"
  have len: "ct_queue_length c 1 = length ?q" and bound: "length ?q \<le> DT_CONTROL_MAX_JOBS"
    and dist: "distinct_jobs ?q" and all: "\<forall>x \<in> set ?q. jb_queue x = 1"
    using ok by (simp_all add: queues_ok_def)
  note defs = add_system_fg_def Let_def add_pending_def dt_control_job_dispose_def set_queue_def
  have caller: "held_jobs c' = held_jobs c + {#jb_addr j#}" "owed c' = owed c + of_bool counts"
    if "hands c' = (ct_num_threads c, ct_hand c, ct_res_hand c, ct_callers c @ [Holds ?j counts])" for c' counts
    using all_hands_new_caller [OF that, of hand_job] all_hands_new_caller [OF that, of hand_owes]
    by (simp_all add: held_jobs_def owed_def)
  have same: "held_jobs c' = held_jobs c" "owed c' = owed c" if "hands c' = hands c" for c'
    using held_kept [OF that] by simp_all
  consider (running) "already_scheduled ?j c"
    | (moved) other rest where "\<not> already_scheduled ?j c" "take_equal ?j ?q = Some (other, rest)"
    | (new) "\<not> already_scheduled ?j c" "take_equal ?j ?q = None" "length ?q < DT_CONTROL_MAX_JOBS"
    | (full) "\<not> already_scheduled ?j c" "take_equal ?j ?q = None" "length ?q = DT_CONTROL_MAX_JOBS"
    using bound by fastforce
  then show thesis
  proof cases
    case running
    then have c': "add_system_fg j c = add_caller (Holds ?j True) c" by (simp add: defs)
    have "hands (add_system_fg j c) = (ct_num_threads c, ct_hand c, ct_res_hand c, ct_callers c @ [Holds ?j True])"
      by (simp add: c' hands_def add_caller_def)
    note h = caller [OF this]
    show thesis
      using len bound dist all
      by (intro that [of ?q "{#jb_addr j#}"]) (simp_all add: h, simp_all add: c' add_caller_def disposed_jobs_def fun_upd_idem)
  next
    case moved
    from take_equal_Some [OF moved(2)] obtain xs ys where
      m: "?q = xs @ other # ys" "rest = xs @ ys" by blast
    with bound len have l: "\<not> DT_CONTROL_MAX_JOBS < ct_queue_length c 1 - 1 + 1" by simp
    have sym: "control_job_equal (Some other) (Some x) = control_job_equal (Some x) (Some other)" for x
      by (rule control_job_equal_sym)
    let ?q' = "control_job_set_state DT_JOB_STATE_QUEUED other # rest"
    have c': "add_system_fg j c = add_caller (Holds ?j False) ((set_queue 1 ?q' (add_pending (- 1) c))
        \<lparr>ct_queue_length := (ct_queue_length c)(1 := length ?q)\<rparr>)"
      using moved l len m by (simp add: defs Suc_eq_plus1 add.assoc del: One_nat_def)
    then have "hands (add_system_fg j c) = (ct_num_threads c, ct_hand c, ct_res_hand c, ct_callers c @ [Holds ?j False])"
      by (simp add: hands_def add_caller_def set_queue_def add_pending_def)
    note h = caller [OF this]
    show thesis
      using m len bound dist all sym
      by (intro that [of ?q' "{#jb_addr j#}"])
        (simp_all add: h, auto simp: c' add_caller_def disposed_jobs_def set_queue_def add_pending_def distinct_jobs_append)
  next
    case new
    have none: "\<forall>x \<in> set ?q. \<not> control_job_equal (Some j) (Some x)"
      using new(2) by (simp add: take_equal_None)
    have c': "add_system_fg j c = (set_queue 1 (control_job_set_state DT_JOB_STATE_QUEUED ?j # ?q) c)
        \<lparr>ct_queue_length := (ct_queue_length c)(1 := length ?q + 1)\<rparr>"
      using new len by (simp add: defs del: One_nat_def)
    have "hands (add_system_fg j c) = hands c" by (simp add: c' hands_def set_queue_def)
    note h = same [OF this]
    show thesis
      using new(3) none dist all j
      by (intro that [of "control_job_set_state DT_JOB_STATE_QUEUED ?j # ?q" "{#}"])
        (simp_all add: h, simp_all add: c' set_queue_def disposed_jobs_def)
  next
    case full
    have none: "\<forall>x \<in> set ?q. \<not> control_job_equal (Some j) (Some x)"
      using full(2) by (simp add: take_equal_None)
    obtain xs x where q: "?q = xs @ [x]"
      using full(3) by (cases ?q rule: rev_cases) (auto simp: DT_CONTROL_MAX_JOBS_def)
    let ?d = "?dispose (control_job_set_state DT_JOB_STATE_DISCARDED x)"
    have c': "add_system_fg j c = (set_queue 1 (control_job_set_state DT_JOB_STATE_QUEUED ?j # xs) c)
        \<lparr>ct_queue_length := (ct_queue_length c)(1 := length ?q),
         ct_pending_jobs := ct_pending_jobs c - 1, ct_disposed := ct_disposed c @ [?d]\<rparr>"
      using full len q by (simp add: defs del: One_nat_def)
    have "hands (add_system_fg j c) = hands c" by (simp add: c' hands_def set_queue_def)
    note h = same [OF this]
    show thesis
      using full(3) none dist all j q
      by (intro that [of "control_job_set_state DT_JOB_STATE_QUEUED ?j # xs" "{#jb_addr x#}"])
        (simp_all add: h, simp_all add: c' set_queue_def disposed_jobs_def distinct_jobs_append)
  qed
qed

lemma multiset_shift:
  fixes a :: "'a multiset"
  assumes "a + q = b + q'" "q' + d = add_mset x q"
  shows "a + d = add_mset x b"
proof -
  have "(a + d) + q = (a + q) + d" by (simp add: ac_simps)
  also have "\<dots> = b + (q' + d)" by (simp add: assms(1) ac_simps)
  also have "\<dots> = add_mset x b + q" by (simp add: assms(2))
  finally show ?thesis by simp
qed

lemma add_job_inv:
  assumes q: "queue_id < DT_JOB_QUEUE_MAX" and new: "jb_addr j \<notin># known_jobs c"
    and inv: "control_inv c"
    and add: "dt_control_add_job True queue_id (Some j) c = (failed, c')"
  shows "control_inv c' \<and> known_jobs c' = add_mset (jb_addr j) (known_jobs c) \<and> \<not> failed"
proof -
  let ?j = "j\<lparr>jb_queue := queue_id\<rparr>" and ?c = "add_pending 1 c"
  from q add have c': "\<not> failed" "c' = (if queue_id = DT_JOB_QUEUE_SYSTEM_FG
      then add_system_fg ?j ?c else add_fifo queue_id ?j ?c)"
    by (auto simp: dt_control_add_job_def Let_def)
  have same: "ct_queues ?c = ct_queues c" "ct_queue_length ?c = ct_queue_length c" "ct_job ?c = ct_job c"
    "ct_num_threads ?c = ct_num_threads c" "ct_export_scheduled ?c = ct_export_scheduled c"
    "disposed_jobs ?c = disposed_jobs c" "hands ?c = hands c" "ct_pending_jobs ?c = ct_pending_jobs c + 1"
    by (simp_all add: add_pending_def disposed_jobs_def hands_def)
  have held: "held_jobs ?c = held_jobs c" "owed ?c = owed c" using held_kept [OF same(7)] by simp_all
  have qok: "queues_ok ?c" using inv by (simp add: control_inv_def queues_ok_def same)
  obtain qn dropped where r:
    "ct_queues c' = (ct_queues c)(queue_id := qn)"
    "ct_queue_length c' = (ct_queue_length c)(queue_id := length qn)"
    "ct_job c' = ct_job c" "ct_num_threads c' = ct_num_threads c"
    "ct_export_scheduled c' = ct_export_scheduled c"
    "disposed_jobs c' + held_jobs c' = disposed_jobs c + held_jobs c + dropped"
    "ct_pending_jobs c' + int (owed c)
       = ct_pending_jobs c + int (owed c') + int (length qn) - int (length (ct_queues c queue_id))"
    "mset (map jb_addr qn) + dropped = add_mset (jb_addr j) (mset (map jb_addr (ct_queues c queue_id)))"
    "queue_id = DT_JOB_QUEUE_SYSTEM_FG \<longrightarrow> length qn \<le> DT_CONTROL_MAX_JOBS \<and> distinct_jobs qn"
    "\<forall>x \<in> set qn. jb_queue x = queue_id"
  proof (cases "queue_id = DT_JOB_QUEUE_SYSTEM_FG")
    case True
    then have c'_eq: "c' = add_system_fg ?j ?c" using c'(2) by simp
    have "jb_queue ?j = DT_JOB_QUEUE_SYSTEM_FG" using True by simp
    show thesis
      by (rule add_system_fg_result [OF qok \<open>jb_queue ?j = DT_JOB_QUEUE_SYSTEM_FG\<close>])
        (rule that; simp add: same held c'_eq True)
  next
    case False
    let ?x = "?j\<lparr>jb_priority := base_priority queue_id, jb_state := DT_JOB_STATE_QUEUED\<rparr>"
    have c'_eq: "c' = (set_queue queue_id (ct_queues c queue_id @ [?x]) ?c)
        \<lparr>ct_queue_length := (ct_queue_length c)(queue_id := ct_queue_length c queue_id + 1)\<rparr>"
      using c'(2) False by (simp add: add_fifo_def Let_def set_queue_def same)
    have "hands c' = hands c" by (simp add: c'_eq hands_def set_queue_def same add_pending_def)
    from held_kept [OF this] have h: "held_jobs c' = held_jobs c" "owed c' = owed c" by simp_all
    from False q inv show thesis
      by (intro that [of "ct_queues c queue_id @ [?x]" "{#}"])
        (simp_all add: h, auto simp: c'_eq set_queue_def same disposed_jobs_def add_pending_def control_inv_def queues_ok_def)
  qed
  have "queued_jobs c' + mset (map jb_addr (ct_queues c queue_id))
      = queued_jobs c + mset (map jb_addr (ct_queues c' queue_id))"
    by (rule queued_jobs_upd [OF q]) (simp add: r)
  then have jobs: "queued_jobs c' + dropped = add_mset (jb_addr j) (queued_jobs c)"
    using r(8) multiset_shift [of "queued_jobs c'"] by (simp add: r(1))
  have run: "running_jobs c' = running_jobs c" by (simp add: running_jobs_def r)
  have res: "reserved_jobs c' = reserved_jobs c" by (rule reserved_jobs_kept) (metis res_kept(3) add snd_conv)
  have "known_jobs c' = (queued_jobs c' + running_jobs c + reserved_jobs c) + (disposed_jobs c' + held_jobs c')"
    by (simp add: known_jobs_def run res ac_simps)
  also have "\<dots> = (queued_jobs c' + running_jobs c + reserved_jobs c) + (disposed_jobs c + held_jobs c + dropped)"
    by (simp only: r(6))
  also have "\<dots> = (queued_jobs c' + dropped) + (running_jobs c + reserved_jobs c + disposed_jobs c + held_jobs c)"
    by (simp add: ac_simps)
  finally have known: "known_jobs c' = add_mset (jb_addr j) (known_jobs c)"
    by (simp only: jobs) (simp add: known_jobs_def ac_simps)
  have "size (queued_jobs c') + size dropped = size (queued_jobs c) + 1"
    "length qn + size dropped = length (ct_queues c queue_id) + 1"
    using arg_cong [OF jobs, of size] arg_cong [OF r(8), of size] by simp_all
  then have "pending_ok c'" using inv r(7) by (simp add: control_inv_def pending_ok_def run)
  moreover have "exports_ok c'" using inv by (simp add: control_inv_def exports_ok_def exporting_def r)
  moreover have "once c'" using inv new known
    by (auto simp: control_inv_def once_def not_in_iff)
  moreover have "queues_ok c'" using inv r(9,10) q by (auto simp: control_inv_def queues_ok_def r)
  ultimately show ?thesis using known c'(1) by (simp add: control_inv_def)
qed

lemma schedule_inv:
  assumes "t < ct_num_threads c" "ct_job c t = None" "control_schedule_job t c = (Some j, c')" "control_inv c"
  shows "control_inv c' \<and> known_jobs c' = known_jobs c"
proof -
  from assms(3) have "ct_pending_jobs c' = ct_pending_jobs c" by (rule control_schedule_Some)
  with assms schedule_queues_ok [OF assms(3)] schedule_exports [OF assms(3)] schedule_jobs [OF assms(3,1,2)]
  show ?thesis by (simp add: control_inv_def pending_ok_def once_def)
qed

text \<open>Disposing of jobs, and changes of the reserved workers and the hands, as long as no job is lost or doubled.\<close>

lemma inv_other_jobs:
  assumes "control_inv c" "ct_queues c' = ct_queues c" "ct_queue_length c' = ct_queue_length c"
    and "ct_export_scheduled c' = ct_export_scheduled c" "ct_num_threads c' = ct_num_threads c" "ct_job c' = ct_job c"
    and "ct_pending_jobs c' + int (owed c) = ct_pending_jobs c + int (owed c')"
    and "disposed_jobs c' + reserved_jobs c' + held_jobs c' = disposed_jobs c + reserved_jobs c + held_jobs c + new"
    and "new = {#} \<or> (\<exists>a. new = {#a#} \<and> a \<notin># known_jobs c)"
  shows "control_inv c' \<and> known_jobs c' = known_jobs c + new"
proof -
  have q: "queued_jobs c' = queued_jobs c" "running_jobs c' = running_jobs c"
    by (simp_all add: queued_jobs_def running_jobs_def assms)
  have "known_jobs c' = (queued_jobs c + running_jobs c) + (disposed_jobs c' + reserved_jobs c' + held_jobs c')"
    by (simp add: known_jobs_def q ac_simps)
  then have k: "known_jobs c' = known_jobs c + new" by (simp only: assms(8)) (simp add: known_jobs_def ac_simps)
  have "once c'" using assms(1,9) by (auto simp: control_inv_def once_def k not_in_iff)
  then show ?thesis using assms(1,7) k
    by (simp add: control_inv_def queues_ok_def exports_ok_def exporting_def pending_ok_def q assms(2-6))
qed

lemma add_job_now_inv:
  assumes "control_inv c" "jb_addr j \<notin># known_jobs c" "queue_id < DT_JOB_QUEUE_MAX"
    and "dt_control_add_job False queue_id (Some j) c = (failed, c')"
  shows "control_inv c' \<and> known_jobs c' = add_mset (jb_addr j) (known_jobs c)"
proof -
  have c': "c' = dt_control_job_dispose (Some (control_job_execute (j\<lparr>jb_is_synchronous := True\<rparr>))) c"
    using assms(3,4) by (simp add: dt_control_add_job_def)
  then have h: "held_jobs c' = held_jobs c \<and> owed c' = owed c"
    by (intro held_kept) (simp add: dt_control_job_dispose_def hands_def)
  have "disposed_jobs c' + reserved_jobs c' + held_jobs c' = disposed_jobs c + reserved_jobs c + held_jobs c + {#jb_addr j#}"
    by (simp add: h) (simp add: c' dt_control_job_dispose_def disposed_jobs_def reserved_jobs_def)
  from inv_other_jobs [OF assms(1) _ _ _ _ _ _ this] assms(2) h show ?thesis
    by (simp add: c' dt_control_job_dispose_def)
qed

lemma add_job_res_inv:
  assumes "control_inv c" "jb_addr j \<notin># known_jobs c" "(failed, c') = dt_control_add_job_res (Some j) res c"
  shows "control_inv c' \<and> known_jobs c' = add_mset (jb_addr j) (known_jobs c)"
proof -
  have "hands c' = hands c" using assms(3)
    by (auto simp: dt_control_add_job_res_def dt_control_job_dispose_def hands_def Let_def split: if_splits option.splits)
  then have h: "held_jobs c' = held_jobs c \<and> owed c' = owed c" by (rule held_kept)
  show ?thesis
  proof (cases "DT_CTL_WORKER_RESERVED \<le> res")
    case True
    then have "disposed_jobs c' + reserved_jobs c' + held_jobs c' = disposed_jobs c + reserved_jobs c + held_jobs c + {#jb_addr j#}"
      using assms(3) h by (simp add: dt_control_add_job_res_def dt_control_job_dispose_def disposed_jobs_def reserved_jobs_def)
    from inv_other_jobs [OF assms(1) _ _ _ _ _ _ this] assms(2,3) True h show ?thesis
      by (simp add: dt_control_add_job_res_def dt_control_job_dispose_def)
  next
    case False
    then have res: "res < DT_CTL_WORKER_RESERVED" by simp
    have d: "disposed_jobs c' = disposed_jobs c + slot_job (ct_job_res c res)"
      "ct_job_res c' = (ct_job_res c)(res := Some (control_job_set_state DT_JOB_STATE_QUEUED j))"
      using assms(3) False
      by (auto simp: dt_control_add_job_res_def Let_def dt_control_job_dispose_def disposed_jobs_def slot_job_def split: option.splits)
    from reserved_jobs_upd [OF res d(2)]
    have "reserved_jobs c' + slot_job (ct_job_res c res) = reserved_jobs c + {#jb_addr j#}" by (simp add: slot_job_def)
    then have "disposed_jobs c' + reserved_jobs c' + held_jobs c' = disposed_jobs c + reserved_jobs c + held_jobs c + {#jb_addr j#}"
      by (simp add: d(1) h ac_simps)
    from inv_other_jobs [OF assms(1) _ _ _ _ _ _ this] assms(2,3) False h show ?thesis
      by (auto simp: dt_control_add_job_res_def dt_control_job_dispose_def Let_def split: option.splits)
  qed
qed

lemma run_job_res_inv:
  assumes "control_inv c" "ct_res_hand c res = Empty_Hand" "(idle, c') = control_run_job_res res c"
  shows "control_inv c' \<and> known_jobs c' = known_jobs c"
proof (cases "res < DT_CTL_WORKER_RESERVED \<and> ct_new_res c res \<and> ct_job_res c res \<noteq> None")
  case True
  then obtain j where j: "ct_job_res c res = Some j" by blast
  have d: "disposed_jobs c' = disposed_jobs c" "ct_job_res c' = (ct_job_res c)(res := None)"
    "hands c' = (ct_num_threads c, ct_hand c, (ct_res_hand c)(res := Holds j False), ct_callers c)"
    using assms(3) True j by (auto simp: control_run_job_res_def Let_def disposed_jobs_def hands_def)
  have "reserved_jobs c' + {#jb_addr j#} = reserved_jobs c"
    using reserved_jobs_upd [OF conjunct1 [OF True] d(2)] by (simp add: slot_job_def j)
  moreover note h = all_hands_res [OF d(3) conjunct1 [OF True]]
  from h [of hand_job] h [of hand_owes] have "held_jobs c' = held_jobs c + {#jb_addr j#}" and o: "owed c' = owed c"
    by (simp_all add: held_jobs_def owed_def assms(2))
  ultimately have "disposed_jobs c' + reserved_jobs c' + held_jobs c' = disposed_jobs c + reserved_jobs c + held_jobs c + {#}"
    by (metis (no_types, lifting) add.right_neutral d(1) union_assoc union_commute)
  from inv_other_jobs [OF assms(1) _ _ _ _ _ _ this] assms(3) True j o show ?thesis
    by (simp add: control_run_job_res_def Let_def)
next
  case False
  then have d: "ct_job_res c' = ct_job_res c" "disposed_jobs c' = disposed_jobs c" "hands c' = hands c"
    using assms(3) by (auto simp: control_run_job_res_def Let_def disposed_jobs_def hands_def fun_upd_idem split: if_splits)
  note h = held_kept [OF d(3)]
  from d have "disposed_jobs c' + reserved_jobs c' + held_jobs c' = disposed_jobs c + reserved_jobs c + held_jobs c + {#}"
    by (simp add: reserved_jobs_def h)
  from inv_other_jobs [OF assms(1) _ _ _ _ _ _ this] assms(3) False h show ?thesis
    by (auto simp: control_run_job_res_def Let_def split: if_splits)
qed

lemma run_res_execute_inv:
  assumes "control_inv c"
  shows "control_inv (control_run_job_res_execute res c) \<and> known_jobs (control_run_job_res_execute res c) = known_jobs c"
proof -
  let ?c = "control_run_job_res_execute res c"
  have "hand_job (ct_res_hand ?c r) = hand_job (ct_res_hand c r)" "hand_owes (ct_res_hand ?c r) = hand_owes (ct_res_hand c r)" for r
    by (auto simp: control_run_job_res_execute_def split: job_hand.splits)
  moreover have same: "ct_num_threads ?c = ct_num_threads c" "ct_hand ?c = ct_hand c" "ct_callers ?c = ct_callers c"
    "ct_queues ?c = ct_queues c" "ct_queue_length ?c = ct_queue_length c" "ct_export_scheduled ?c = ct_export_scheduled c"
    "ct_job ?c = ct_job c" "ct_pending_jobs ?c = ct_pending_jobs c" "disposed_jobs ?c = disposed_jobs c" "reserved_jobs ?c = reserved_jobs c"
    by (auto simp: control_run_job_res_execute_def disposed_jobs_def reserved_jobs_def split: job_hand.splits)
  ultimately have h: "held_jobs ?c = held_jobs c" "owed ?c = owed c" by (simp_all add: held_jobs_def owed_def all_hands_def)
  from inv_other_jobs [OF assms same(4-6,1,7)] show ?thesis by (simp add: h same)
qed

text \<open>A thread goes on with what it has in hand.\<close>

lemma clear_hand_inv:
  assumes "control_inv c" "clear_hand h c = (h', c1)"
    and "ct_queues c' = ct_queues c1" "ct_queue_length c' = ct_queue_length c1" "ct_export_scheduled c' = ct_export_scheduled c1"
    and "ct_num_threads c' = ct_num_threads c1" "ct_job c' = ct_job c1" "ct_job_res c' = ct_job_res c1"
    and "ct_pending_jobs c' = ct_pending_jobs c1" "disposed_jobs c' = disposed_jobs c1"
    and "held_jobs c' + hand_job h = held_jobs c + hand_job h'" "owed c' + hand_owes h = owed c + hand_owes h'"
  shows "control_inv c' \<and> known_jobs c' = known_jobs c"
proof -
  note e = clear_hand_effect [OF assms(2)]
  have r: "reserved_jobs c' = reserved_jobs c" by (simp add: reserved_jobs_def assms(8) e)
  have "(disposed_jobs c' + held_jobs c') + (hand_job h + hand_job h') = (disposed_jobs c + held_jobs c) + (hand_job h + hand_job h')"
    using e(9) assms(10,11) by (metis (no_types, lifting) union_assoc union_commute)
  then have "disposed_jobs c' + reserved_jobs c' + held_jobs c' = disposed_jobs c + reserved_jobs c + held_jobs c + {#}"
    by (simp add: r ac_simps)
  moreover have "ct_pending_jobs c' + int (owed c) = ct_pending_jobs c + int (owed c')"
    using e(10) assms(9,12) by linarith
  ultimately show ?thesis
    using inv_other_jobs [OF assms(1), of c' "{#}"] by (simp add: assms(3-7) e)
qed

lemma run_free_inv:
  assumes "control_inv c" "t < ct_num_threads c"
  shows "control_inv (control_run_job_free t c) \<and> known_jobs (control_run_job_free t c) = known_jobs c"
proof -
  let ?c = "control_run_job_free t c"
  obtain h' c1 where h: "clear_hand (ct_hand c t) c = (h', c1)" by fastforce
  note e = clear_hand_effect(8) [OF h]
  have c': "?c = c1\<lparr>ct_hand := (ct_hand c1)(t := h')\<rparr>" by (simp add: control_run_job_free_def h)
  have "hands ?c = (ct_num_threads c, (ct_hand c)(t := h'), ct_res_hand c, ct_callers c)" using e by (simp add: c' hands_def)
  note a = all_hands_worker [OF this assms(2)]
  from clear_hand_inv [OF assms(1) h, of ?c] a [of hand_job] a [of hand_owes] show ?thesis
    by (simp add: c' held_jobs_def owed_def disposed_jobs_def)
qed

lemma run_res_free_inv:
  assumes "control_inv c" "r < DT_CTL_WORKER_RESERVED"
  shows "control_inv (control_run_job_res_free r c) \<and> known_jobs (control_run_job_res_free r c) = known_jobs c"
proof -
  let ?c = "control_run_job_res_free r c"
  obtain h' c1 where h: "clear_hand (ct_res_hand c r) c = (h', c1)" by fastforce
  note e = clear_hand_effect(8) [OF h]
  have c': "?c = c1\<lparr>ct_res_hand := (ct_res_hand c1)(r := h')\<rparr>" by (simp add: control_run_job_res_free_def h)
  have "hands ?c = (ct_num_threads c, ct_hand c, (ct_res_hand c)(r := h'), ct_callers c)" using e by (simp add: c' hands_def)
  note a = all_hands_res [OF this assms(2)]
  from clear_hand_inv [OF assms(1) h, of ?c] a [of hand_job] a [of hand_owes] show ?thesis
    by (simp add: c' held_jobs_def owed_def disposed_jobs_def)
qed

lemma discard_hand_simps [simp]: "hand_job (discard_hand h) = hand_job h" "hand_owes (discard_hand h) = hand_owes h"
  by (simp_all add: discard_hand_def split: job_hand.splits)

lemma add_free_inv:
  assumes "control_inv c" "i < length (ct_callers c)"
  shows "control_inv (add_job_free i c) \<and> known_jobs (add_job_free i c) = known_jobs c"
proof -
  let ?c = "add_job_free i c"
  obtain h' c1 where h: "clear_hand (discard_hand (ct_callers c ! i)) c = (h', c1)" by fastforce
  note e = clear_hand_effect(8) [OF h]
  have c': "?c = c1\<lparr>ct_callers := (ct_callers c1)[i := h']\<rparr>" by (simp add: add_job_free_def h)
  have "hands ?c = (ct_num_threads c, ct_hand c, ct_res_hand c, (ct_callers c)[i := h'])" using e by (simp add: c' hands_def)
  note a = all_hands_caller [OF this assms(2)]
  from clear_hand_inv [OF assms(1) h, of ?c] a [of hand_job] a [of hand_owes] show ?thesis
    by (simp add: c' held_jobs_def owed_def disposed_jobs_def)
qed

lemma control_step_inv: "control_inv c \<Longrightarrow> control_step c c' \<Longrightarrow> control_inv c' \<and> known_jobs c \<subseteq># known_jobs c'"
proof (erule control_stepE)
  fix queue_id j running failed
  assume a: "control_inv c" "queue_id < DT_JOB_QUEUE_MAX" "jb_addr j \<notin># known_jobs c"
    "dt_control_add_job running queue_id (Some j) c = (failed, c')"
  show ?thesis
  proof (cases running)
    case True
    with add_job_inv [OF a(2,3,1)] a(4) show ?thesis by simp
  next
    case False
    with add_job_now_inv [OF a(1,3,2)] a(4) show ?thesis by simp
  qed
next
  fix t j
  assume "control_inv c" "t < ct_num_threads c" "ct_job c t = None" "control_schedule_job t c = (Some j, c')"
  from schedule_inv [OF this(2,3,4,1)] show ?thesis by simp
next
  fix t j
  assume "control_inv c" "c' = control_run_job_end t c" "t < ct_num_threads c" "ct_job c t = Some j" "ct_hand c t = Empty_Hand"
  with run_end_inv [of t c j] run_end_known [of t c j] show ?thesis by simp
next
  fix j res
  assume "control_inv c" "c' = snd (dt_control_add_job_res (Some j) res c)" "jb_addr j \<notin># known_jobs c"
  with add_job_res_inv [of c j _ c' res] show ?thesis by (simp add: prod_eq_iff)
next
  fix res
  assume "control_inv c" "c' = snd (control_run_job_res res c)" "ct_res_hand c res = Empty_Hand"
  with run_job_res_inv [of c res _ c'] show ?thesis by (simp add: prod_eq_iff)
qed (simp_all add: run_free_inv add_free_inv run_res_execute_inv run_res_free_inv)

lemma control_init_inv: "control_init c \<Longrightarrow> control_inv c"
  by (simp add: control_init_def control_inv_def queues_ok_def exports_ok_def exporting_def pending_ok_def
      queued_jobs_def running_jobs_def slot_job_def once_def known_jobs_def disposed_jobs_def reserved_jobs_def
      held_jobs_def owed_def all_hands_def)

interpretation jobs: step_system control_init control_step control_inv
  by unfold_locales (use control_init_inv control_step_inv in blast)+

subsection \<open>No starvation\<close>

datatype control_op = Add nat dt_job | Schedule nat | Finish nat

fun run_op :: "control_op \<Rightarrow> dt_control \<Rightarrow> dt_control" where
  "run_op (Add queue_id j) c = snd (dt_control_add_job True queue_id (Some j) c)"
| "run_op (Schedule t) c = snd (control_schedule_job t c)"
| "run_op (Finish t) c = control_run_job_end t c"

text \<open>The jobs that the workers take while the operations run.\<close>

fun jobs_taken :: "control_op list \<Rightarrow> dt_control \<Rightarrow> dt_job list" where
  "jobs_taken [] c = []"
| "jobs_taken (opn # ops) c =
     (case opn of
        Schedule t \<Rightarrow> (case fst (control_schedule_job t c) of None \<Rightarrow> [] | Some j \<Rightarrow> [j])
      | _ \<Rightarrow> []) @ jobs_taken ops (run_op opn c)"

fun is_schedule :: "control_op \<Rightarrow> bool" where
  "is_schedule (Schedule t) = True"
| "is_schedule _ = False"

fun fifo_op :: "control_op \<Rightarrow> bool" where
  "fifo_op (Add queue_id j) = (queue_id < DT_JOB_QUEUE_MAX \<and> queue_id \<noteq> DT_JOB_QUEUE_SYSTEM_FG)"
| "fifo_op _ = True"

text \<open>No job behind the head of a queue is above the priority it was added with.\<close>

definition tails_unaged :: "dt_control \<Rightarrow> bool" where
  "tails_unaged c \<longleftrightarrow> (\<forall>i<DT_JOB_QUEUE_MAX. \<forall>j \<in> set (tl (ct_queues c i)).
     unat (jb_priority j) \<le> unat DT_CONTROL_FG_PRIORITY)"

definition ahead :: "dt_control \<Rightarrow> nat \<Rightarrow> nat set" where
  "ahead c q = {i. i < DT_JOB_QUEUE_MAX \<and> i \<noteq> q \<and> ct_queues c i \<noteq> [] \<and> head_priority c q \<le> head_priority c i}"

definition waits :: "dt_control \<Rightarrow> nat \<Rightarrow> nat" where
  "waits c q = (if head_priority c q < 5 then 10 - head_priority c q else card (ahead c q) + 1)"

lemma set_tl_subset: "x \<in> set (tl xs) \<Longrightarrow> x \<in> set xs"
  by (cases xs) auto

lemma ahead_finite: "finite (ahead c q)" by (simp add: ahead_def)

lemma ahead_card: "q < DT_JOB_QUEUE_MAX \<Longrightarrow> card (ahead c q) \<le> 4"
proof -
  assume "q < DT_JOB_QUEUE_MAX"
  moreover have "ahead c q \<subseteq> {..<DT_JOB_QUEUE_MAX} - {q}" by (auto simp: ahead_def)
  ultimately show ?thesis using card_mono [of "{..<DT_JOB_QUEUE_MAX} - {q}" "ahead c q"] by simp
qed

lemma pick_queue_max:
  "(\<exists>i \<in> set is. schedulable c i) \<or> best \<noteq> None \<Longrightarrow>
     \<exists>w. pick_queue c is best = Some w
       \<and> (\<forall>i \<in> set is. schedulable c i \<longrightarrow> head_priority c i \<le> head_priority c w)
       \<and> (\<forall>b. best = Some b \<longrightarrow> head_priority c b \<le> head_priority c w)"
proof (induction "is" arbitrary: best)
  case (Cons i "is")
  let ?best = "if schedulable c i
           \<and> (case best of None \<Rightarrow> True | Some w \<Rightarrow> head_priority c w < head_priority c i)
        then Some i else best"
  have "(\<exists>i \<in> set is. schedulable c i) \<or> ?best \<noteq> None"
    using Cons.prems by (auto split: option.splits)
  from Cons.IH [OF this] obtain w where w: "pick_queue c is ?best = Some w"
    "\<forall>i \<in> set is. schedulable c i \<longrightarrow> head_priority c i \<le> head_priority c w"
    "\<forall>b. ?best = Some b \<longrightarrow> head_priority c b \<le> head_priority c w" by blast
  have "schedulable c i \<longrightarrow> head_priority c i \<le> head_priority c w"
    "\<forall>b. best = Some b \<longrightarrow> head_priority c b \<le> head_priority c w"
    using w(3) by (auto split: option.splits if_splits)
  with w(1,2) show ?case by auto
qed auto

lemma pick_queue_first:
  "pick_queue c is best = Some w \<Longrightarrow>
     best = Some w \<or> (\<exists>xs ys. is = xs @ w # ys
       \<and> (\<forall>i \<in> set xs. schedulable c i \<longrightarrow> head_priority c i < head_priority c w)
       \<and> (\<forall>b. best = Some b \<longrightarrow> head_priority c b < head_priority c w))"
proof (induction "is" arbitrary: best)
  case (Cons i "is")
  let ?take = "schedulable c i \<and> (case best of None \<Rightarrow> True
      | Some w \<Rightarrow> head_priority c w < head_priority c i)"
  have "pick_queue c is (if ?take then Some i else best) = Some w" using Cons.prems by simp
  from Cons.IH [OF this] show ?case
  proof (elim disjE exE conjE)
    assume b: "(if ?take then Some i else best) = Some w"
    show ?thesis
    proof (cases ?take)
      case True
      with b show ?thesis by (intro disjI2 exI [of _ "[]"] exI [of _ "is"]) (auto split: option.splits)
    next
      case False
      from b have "best = Some w" by (simp only: if_not_P [OF False])
      then show ?thesis by simp
    qed
  next
    fix xs ys
    assume w: "is = xs @ w # ys" "\<forall>i \<in> set xs. schedulable c i \<longrightarrow> head_priority c i < head_priority c w"
      and b: "\<forall>b. (if ?take then Some i else best) = Some b \<longrightarrow> head_priority c b < head_priority c w"
    have "schedulable c i \<longrightarrow> head_priority c i < head_priority c w"
      "\<forall>b. best = Some b \<longrightarrow> head_priority c b < head_priority c w"
      using b by (auto split: option.splits if_splits)
    with w show ?thesis by (intro disjI2 exI [of _ "i # xs"] exI [of _ ys]) auto
  qed
qed simp

lemma pick_queue_least:
  assumes "pick_queue c [0..<n] None = Some w" "i < n" "schedulable c i"
  shows "head_priority c i < head_priority c w \<or> head_priority c i = head_priority c w \<and> w \<le> i"
proof -
  have "(\<exists>i \<in> set [0..<n]. schedulable c i) \<or> (None :: nat option) \<noteq> None" using assms(2,3) by auto
  from pick_queue_max [OF this] assms have le: "head_priority c i \<le> head_priority c w" by auto
  from pick_queue_first [OF assms(1)] obtain xs ys where
    xs: "[0..<n] = xs @ w # ys" "\<forall>i \<in> set xs. schedulable c i \<longrightarrow> head_priority c i < head_priority c w"
    by auto
  from arg_cong [OF xs(1), of sorted] have "sorted (w # ys)" by (simp add: sorted_append)
  then have after: "i \<in> set (w # ys) \<Longrightarrow> w \<le> i" by auto
  have "i \<in> set [0..<n]" using assms(2) by simp
  then have "i \<in> set xs \<or> i \<in> set (w # ys)" by (simp only: xs(1) set_append Un_iff)
  then show ?thesis
  proof
    assume "i \<in> set xs"
    with xs(2) assms(3) show ?thesis by blast
  next
    assume "i \<in> set (w # ys)"
    from after [OF this] le show ?thesis by linarith
  qed
qed

text \<open>One scheduling round either takes the head of the queue or brings its turn closer.\<close>

lemma schedule_round:
  assumes q: "q < DT_JOB_QUEUE_MAX" "q \<noteq> DT_JOB_QUEUE_USER_EXPORT"
    and head: "ct_queues c q = j # js" and tails: "tails_unaged c"
    and room: "unat (jb_priority j) + waits c q \<le> 255"
  shows "fst (control_schedule_job t c) = Some j \<or>
    (ct_queues (snd (control_schedule_job t c)) q = j\<lparr>jb_priority := jb_priority j + 1\<rparr> # js
      \<and> tails_unaged (snd (control_schedule_job t c))
      \<and> unat (jb_priority j + 1) = unat (jb_priority j) + 1
      \<and> waits (snd (control_schedule_job t c)) q < waits c q)"
proof -
  have "schedulable c q" using q head by (simp add: schedulable_def)
  with q pick_queue_max [of "[0..<DT_JOB_QUEUE_MAX]" c None] obtain w where
    w: "pick_queue c [0..<DT_JOB_QUEUE_MAX] None = Some w" and le: "head_priority c q \<le> head_priority c w"
    by fastforce
  then obtain k c' where s: "control_schedule_job t c = (Some k, c')"
    by (simp add: control_schedule_job_def Let_def)
  from s show ?thesis
  proof (cases rule: control_schedule_Some)
    case (1 v)
    with w have v: "v = w" by simp
    show ?thesis
    proof (cases "w = q")
      case True
      with 1(4) v head s show ?thesis by simp
    next
      case False
      have p: "waits c q \<ge> 1" using room by (auto simp: waits_def)
      have up: "unat (jb_priority j + 1) = unat (jb_priority j) + 1"
        using room p by (simp add: unat_word_ariths)
      have cq: "ct_queues c' q = j\<lparr>jb_priority := jb_priority j + 1\<rparr> # js"
        using 1(5) [of q] q False v head by (simp add: age_head_def)
      have tl_eq: "set (tl (ct_queues c' i)) \<subseteq> set (tl (ct_queues c i))" if "i < DT_JOB_QUEUE_MAX" for i
        using 1(4) 1(5) [of i] that by (cases "i = w") (auto simp: v dest: set_tl_subset)
      have t': "tails_unaged c'" using tails tl_eq by (fastforce simp: tails_unaged_def)
      have hq: "head_priority c q = unat (jb_priority j)" "head_priority c' q = unat (jb_priority j) + 1"
        by (simp_all add: head_priority_def head cq up)
      have "waits c' q < waits c q"
      proof (cases "unat (jb_priority j) < 5")
        case True
        with ahead_card [OF q(1), of c'] show ?thesis by (auto simp: waits_def hq)
      next
        case big: False
        have "ahead c' q \<subseteq> ahead c q - {w}"
        proof
          fix i assume i: "i \<in> ahead c' q"
          have "i \<noteq> w"
          proof
            assume "i = w"
            with i have ne: "ct_queues c' w \<noteq> []" and h: "unat (jb_priority j) + 1 \<le> head_priority c' w"
              by (simp_all add: ahead_def hq)
            then have "hd (ct_queues c' w) \<in> set (tl (ct_queues c w))" using 1(4) v by simp
            with tails 1(1) v have "head_priority c' w \<le> 4"
              by (fastforce simp: tails_unaged_def head_priority_def DT_CONTROL_FG_PRIORITY_def)
            with h big show False by simp
          qed
          with i 1(5) [of i] v obtain x xs where x: "ct_queues c i = x # xs"
            "ct_queues c' i = x\<lparr>jb_priority := jb_priority x + 1\<rparr> # xs"
            by (cases "ct_queues c i") (auto simp: ahead_def age_head_def)
          have "unat (jb_priority x + 1) \<le> unat (jb_priority x) + 1"
            by (simp add: unat_word_ariths)
          with i \<open>i \<noteq> w\<close> x show "i \<in> ahead c q - {w}"
            by (auto simp: ahead_def hq head_priority_def [of _ i])
        qed
        moreover have "w \<in> ahead c q"
          using False le 1(1,2) v by (simp add: ahead_def schedulable_def)
        ultimately have "card (ahead c' q) < card (ahead c q)"
          by (meson ahead_finite card_Diff1_less card_mono finite_Diff order_le_less_trans)
        with big show ?thesis by (simp add: waits_def hq)
      qed
      with cq t' up s show ?thesis by simp
    qed
  qed
qed

lemma add_fifo_head:
  assumes "tails_unaged c" "queue_id < DT_JOB_QUEUE_MAX" "queue_id \<noteq> DT_JOB_QUEUE_SYSTEM_FG"
    and q: "q < DT_JOB_QUEUE_MAX" "ct_queues c q = j # js"
    and c': "c' = snd (dt_control_add_job True queue_id (Some x) c)"
  shows "\<exists>js'. ct_queues c' q = j # js' \<and> tails_unaged c' \<and> waits c' q \<le> waits c q"
proof -
  obtain y where y: "ct_queues c' = (ct_queues c)(queue_id := ct_queues c queue_id @ [y])"
    and yp: "jb_priority y = base_priority queue_id"
    using assms(2,3) c' by (simp add: dt_control_add_job_def add_fifo_def Let_def set_queue_def add_pending_def)
  have small: "unat (jb_priority y) \<le> 4" by (simp add: yp base_priority_def DT_CONTROL_FG_PRIORITY_def)
  have "set (tl (ct_queues c' i)) \<subseteq> insert y (set (tl (ct_queues c i)))" for i
    by (cases "ct_queues c i") (auto simp: y)
  with assms(1) small have t: "tails_unaged c'" by (fastforce simp: tails_unaged_def DT_CONTROL_FG_PRIORITY_def)
  have hq: "head_priority c' q = head_priority c q" using q by (auto simp: head_priority_def y)
  have "ahead c' q \<subseteq> ahead c q" if big: "\<not> head_priority c q < 5"
  proof
    fix i assume i: "i \<in> ahead c' q"
    show "i \<in> ahead c q"
    proof (cases "ct_queues c i = []")
      case True
      with i have "i = queue_id" "head_priority c' i = unat (jb_priority y)"
        by (auto simp: ahead_def y head_priority_def split: if_splits)
      with i hq big small show ?thesis by (simp add: ahead_def)
    next
      case False
      then have "head_priority c' i = head_priority c i" by (auto simp: head_priority_def y)
      with i False hq show ?thesis by (simp add: ahead_def)
    qed
  qed
  then have "waits c' q \<le> waits c q" using card_mono [OF ahead_finite] by (auto simp: waits_def hq)
  moreover have "ct_queues c' q = j # (if q = queue_id then js @ [y] else js)" using q by (auto simp: y)
  ultimately show ?thesis using t by blast
qed

lemma taken_in_time:
  assumes "q < DT_JOB_QUEUE_MAX" "q \<noteq> DT_JOB_QUEUE_USER_EXPORT" "ct_queues c q = j # js" "tails_unaged c"
    and "unat (jb_priority j) + waits c q \<le> 255" "\<forall>opn \<in> set ops. fifo_op opn"
    and "waits c q \<le> length (filter is_schedule ops)"
  shows "\<exists>p. j\<lparr>jb_priority := p\<rparr> \<in> set (jobs_taken ops c)"
  using assms
proof (induction ops arbitrary: c j js)
  case Nil
  then have "waits c q = 0" by simp
  with Nil show ?case by (simp add: waits_def split: if_splits)
next
  case (Cons opn ops)
  show ?case
  proof (cases opn)
    case (Add queue_id x)
    with Cons.prems(6) add_fifo_head [OF Cons.prems(4) _ _ Cons.prems(1,3) refl, of queue_id x]
    obtain js' where "ct_queues (run_op opn c) q = j # js'" "tails_unaged (run_op opn c)"
      "waits (run_op opn c) q \<le> waits c q" by auto
    with Cons.IH [OF Cons.prems(1,2) this(1,2)] Cons.prems(5,6,7) Add show ?thesis by auto
  next
    case (Schedule t)
    from schedule_round [OF Cons.prems(1,2,3,4,5), of t] show ?thesis
    proof (elim disjE exE conjE)
      assume "fst (control_schedule_job t c) = Some j"
      with Schedule show ?thesis by (intro exI [of _ "jb_priority j"]) simp
    next
      let ?j = "j\<lparr>jb_priority := jb_priority j + 1\<rparr>" and ?c = "snd (control_schedule_job t c)"
      assume "ct_queues ?c q = ?j # js" "tails_unaged ?c"
        "unat (jb_priority j + 1) = unat (jb_priority j) + 1" "waits ?c q < waits c q"
      with Cons.IH [OF Cons.prems(1,2) this(1,2)] Cons.prems(5,6,7) Schedule
      obtain p where "?j\<lparr>jb_priority := p\<rparr> \<in> set (jobs_taken ops ?c)" by auto
      with Schedule show ?thesis by (intro exI [of _ p]) simp
    qed
  next
    case (Finish t)
    have "ct_queues (run_op opn c) = ct_queues c"
    proof (cases "ct_job c t")
      case None
      then show ?thesis by (simp add: Finish control_run_job_end_def)
    next
      case (Some a)
      then show ?thesis by (simp add: Finish run_end_fields)
    qed
    then have same: "ct_queues (run_op opn c) q = j # js" "tails_unaged (run_op opn c)"
      "waits (run_op opn c) q = waits c q"
      using Cons.prems(3,4) by (simp_all add: tails_unaged_def waits_def ahead_def head_priority_def)
    with Cons.IH [OF Cons.prems(1,2) same(1,2)] Cons.prems(5,6,7) Finish show ?thesis by auto
  qed
qed

subsection \<open>Properties\<close>

text \<open>A control system with two workers, and two jobs for it.\<close>

definition sample_control :: dt_control where
  "sample_control = \<lparr>ct_queues = (\<lambda>_. []), ct_queue_length = (\<lambda>_. 0), ct_export_scheduled = False,
     ct_num_threads = 2, ct_job = (\<lambda>_. None), ct_pending_jobs = 0, ct_job_res = (\<lambda>_. None),
     ct_new_res = (\<lambda>_. False), ct_disposed = [], ct_hand = (\<lambda>_. Empty_Hand), ct_res_hand = (\<lambda>_. Empty_Hand),
     ct_callers = []\<rparr>"

definition sample_job :: "nat \<Rightarrow> dt_job" where
  "sample_job a = the (dt_control_job_create True a 7 ''agent chat'')"

definition sample_added :: dt_control where
  "sample_added = snd (dt_control_add_job True DT_JOB_QUEUE_USER_BG (Some (sample_job 1)) sample_control)"

lemma sample_control_init: "control_init sample_control"
  by (simp add: control_init_def sample_control_def)

lemma sample_added_step: "control_step\<^sup>*\<^sup>* sample_control sample_added"
  unfolding sample_added_def
  by (rule r_into_rtranclp, rule control_step.add_job [where queue_id = DT_JOB_QUEUE_USER_BG and j = "sample_job 1" and running = True and failed = False])
    (simp_all add: known_jobs_def queued_jobs_def running_jobs_def disposed_jobs_def slot_job_def reserved_jobs_def
      held_jobs_def all_hands_def sample_control_def dt_control_add_job_def Let_def)

text \<open>
  C30: At every moment of a running control system the recorded queue lengths are the lengths of the
  queues, the thumbnail stack holds at most 30 jobs and no two equal ones, the pending counter is the
  number of queued and running jobs and of those that a thread has taken out and not counted off yet, and
  at most one worker runs an export.
\<close>

theorem job_queues_consistent:
  assumes "control_init c0" "control_step\<^sup>*\<^sup>* c0 c"
  shows "(\<forall>i<DT_JOB_QUEUE_MAX. ct_queue_length c i = length (ct_queues c i))
    \<and> length (ct_queues c DT_JOB_QUEUE_SYSTEM_FG) \<le> 30
    \<and> sorted_wrt (\<lambda>a b. \<not> control_job_equal (Some a) (Some b)) (ct_queues c DT_JOB_QUEUE_SYSTEM_FG)
    \<and> ct_pending_jobs c = int (size (queued_jobs c) + size (running_jobs c) + owed c)
    \<and> (\<forall>t u j k. ct_job c t = Some j \<and> ct_job c u = Some k \<and> jb_queue j = DT_JOB_QUEUE_USER_EXPORT
         \<and> jb_queue k = DT_JOB_QUEUE_USER_EXPORT \<longrightarrow> t = u)"
  using jobs.inv_reachable [OF assms]
  by (auto simp: control_inv_def queues_ok_def pending_ok_def exports_ok_def exporting_def
      distinct_jobs_def DT_CONTROL_MAX_JOBS_def)

theorem job_queues_consistent_witness:
  "ct_pending_jobs sample_added = int (size (queued_jobs sample_added) + size (running_jobs sample_added) + owed sample_added)"
  using job_queues_consistent [OF sample_control_init sample_added_step] by blast

text \<open>
  C29: A job is neither lost nor run or freed twice: once it is known to the control system, every later
  state, between any two locks, has it exactly once: in a queue, in the slot of a worker or a reserved
  worker, in the hand of a thread that executes it outside of a slot or is about to dispose of it, or among
  the jobs disposed of.
\<close>

theorem job_in_one_place:
  assumes "control_init c0" "control_step\<^sup>*\<^sup>* c0 c" "control_step\<^sup>*\<^sup>* c c'" "a \<in># known_jobs c"
  shows "count (queued_jobs c') a + count (running_jobs c') a + count (reserved_jobs c') a + count (held_jobs c') a
    + count (disposed_jobs c') a = 1"
proof -
  have inv: "control_inv c" by (rule jobs.inv_reachable [OF assms(1,2)])
  have "known_jobs c \<subseteq># known_jobs c'" using assms(3)
  proof (induction rule: rtranclp_induct)
    case (step y z)
    from jobs.inv_steps [OF step.hyps(1) inv] control_step_inv [OF _ step.hyps(2)] step.IH
    show ?case by (meson subset_mset.order_trans)
  qed simp
  from mset_subset_eqD [OF this assms(4)] have "a \<in># known_jobs c'" .
  then have "1 \<le> count (known_jobs c') a" by simp
  moreover have "count (known_jobs c') a \<le> 1"
    using jobs.inv_steps [OF assms(3) inv] by (simp add: control_inv_def once_def)
  ultimately show ?thesis by (simp add: known_jobs_def)
qed

theorem job_in_one_place_witness:
  "count (queued_jobs sample_added) 1 + count (running_jobs sample_added) 1
     + count (reserved_jobs sample_added) 1 + count (held_jobs sample_added) 1 + count (disposed_jobs sample_added) 1 = 1"
proof -
  have "1 \<in># known_jobs sample_added"
    by (simp add: known_jobs_def queued_jobs_def lessThan_nat_numeral lessThan_Suc eval_nat_numeral
        sample_added_def sample_control_def sample_job_def
        dt_control_add_job_def add_fifo_def set_queue_def add_pending_def dt_control_job_create_def Let_def)
  from job_in_one_place [OF sample_control_init sample_added_step rtranclp.rtrancl_refl this]
  show ?thesis .
qed

text \<open>
  A worker gets a job whenever a queue offers one, from the head of a queue with the highest
  priority, the first such queue in the order of the queue ids.
\<close>

theorem scheduled_job_is_first:
  "case control_schedule_job t c of
     (None, c') \<Rightarrow> c' = c \<and> (\<forall>i<DT_JOB_QUEUE_MAX. \<not> schedulable c i)
   | (Some j, c') \<Rightarrow> \<exists>w<DT_JOB_QUEUE_MAX. schedulable c w \<and> ct_queues c w = j # ct_queues c' w
       \<and> (\<forall>i<DT_JOB_QUEUE_MAX. schedulable c i \<longrightarrow> head_priority c i < unat (jb_priority j)
            \<or> head_priority c i = unat (jb_priority j) \<and> w \<le> i)"
proof (cases "control_schedule_job t c")
  case (Pair r c')
  show ?thesis
  proof (cases r)
    case None
    with Pair have "pick_queue c [0..<DT_JOB_QUEUE_MAX] None = None" "c' = c"
      by (auto simp: control_schedule_job_def Let_def split: option.splits)
    moreover have "\<not> schedulable c i" if "i < DT_JOB_QUEUE_MAX" for i
    proof
      assume "schedulable c i"
      with that have "(\<exists>i \<in> set [0..<DT_JOB_QUEUE_MAX]. schedulable c i) \<or> (None :: nat option) \<noteq> None" by auto
      from pick_queue_max [OF this] calculation show False by auto
    qed
    ultimately show ?thesis using None Pair by simp
  next
    case (Some j)
    with Pair have "control_schedule_job t c = (Some j, c')" by simp
    then show ?thesis
    proof (cases rule: control_schedule_Some)
      case (1 w)
      have "head_priority c w = unat (jb_priority j)" by (simp add: head_priority_def 1(4))
      with 1 pick_queue_least [OF 1(3)] Some Pair show ?thesis by auto
    qed
  qed
qed

theorem scheduled_job_is_first_witness:
  "\<exists>w<DT_JOB_QUEUE_MAX. schedulable sample_added w \<and> fst (control_schedule_job 0 sample_added) \<noteq> None"
proof -
  have "schedulable sample_added DT_JOB_QUEUE_USER_BG"
    by (simp add: schedulable_def sample_added_def sample_control_def dt_control_add_job_def add_fifo_def
        set_queue_def add_pending_def Let_def)
  then show ?thesis
    using scheduled_job_is_first [where t = 0 and c = sample_added]
    by (cases "control_schedule_job 0 sample_added") (auto split: option.splits)
qed

text \<open>
  C31: No starvation of heads: a job at the head of any queue but the export queue, of a priority of at
  most 245, is taken within ten scheduling rounds, whatever is added to the FIFO queues and whenever
  workers finish meanwhile, provided the jobs behind the heads of all queues have priorities of at most
  4, as they have when they are added.  (Left out are the export queue, which is not looked at while an
  export runs, and thumbnail jobs added meanwhile, which push an aged head back into its queue.)
\<close>

theorem head_taken_within_ten_rounds:
  assumes "q < DT_JOB_QUEUE_MAX" "q \<noteq> DT_JOB_QUEUE_USER_EXPORT" "ct_queues c q = j # js"
    and "\<forall>i<DT_JOB_QUEUE_MAX. \<forall>k \<in> set (tl (ct_queues c i)). unat (jb_priority k) \<le> 4"
    and "unat (jb_priority j) \<le> 245" "\<forall>opn \<in> set ops. fifo_op opn"
    and "10 \<le> length (filter is_schedule ops)"
  shows "\<exists>p. j\<lparr>jb_priority := p\<rparr> \<in> set (jobs_taken ops c)"
proof (rule taken_in_time [OF assms(1,2,3) _ _ assms(6)])
  show "tails_unaged c" using assms(4) by (simp add: tails_unaged_def DT_CONTROL_FG_PRIORITY_def)
  have "waits c q \<le> 10" using ahead_card [OF assms(1), of c] by (auto simp: waits_def)
  with assms(5,7) show "unat (jb_priority j) + waits c q \<le> 255"
    "waits c q \<le> length (filter is_schedule ops)" by simp_all
qed

theorem head_taken_within_ten_rounds_witness:
  "\<exists>p. (sample_job 1)\<lparr>jb_queue := 2, jb_state := DT_JOB_STATE_QUEUED, jb_priority := p\<rparr>
     \<in> set (jobs_taken (replicate 10 (Schedule 0)) sample_added)"
proof -
  let ?j = "(sample_job 1)\<lparr>jb_queue := 2, jb_state := DT_JOB_STATE_QUEUED, jb_priority := 0\<rparr>"
  have "ct_queues sample_added DT_JOB_QUEUE_USER_BG = ?j # []"
    "\<forall>i<DT_JOB_QUEUE_MAX. \<forall>k \<in> set (tl (ct_queues sample_added i)). unat (jb_priority k) \<le> 4"
    by (simp_all add: sample_added_def sample_control_def dt_control_add_job_def add_fifo_def set_queue_def
        add_pending_def base_priority_def Let_def)
  from head_taken_within_ten_rounds [OF _ _ this, of "replicate 10 (Schedule 0)"]
  show ?thesis by simp
qed

end
