(* ===== verification/Job_Workers.thy ===== *)
theory Job_Workers
  imports Jobs
begin

text \<open>
  The threads of \<open>control/jobs.c\<close>: the workers, the reserved workers and the kicker, which sleep on one
  condition variable, with starting and closing them (\<open>dt_control_jobs_init\<close>, \<open>dt_control_quit\<close> and
  \<open>dt_control_shutdown\<close> of \<open>control/control.c\<close>).  A thread is where it is in its loop; its steps are the
  stretches between two points where others can intervene.
\<close>

subsection \<open>The threads\<close>

datatype dt_control_state_t = DT_CONTROL_STATE_DISABLED | DT_CONTROL_STATE_RUNNING | DT_CONTROL_STATE_CLEANUP

text \<open>
  A worker: created; about to test the loop condition; about to look for a job; executing one; with an
  executed job in hand; about to wait as it found none; asleep on the condition variable; ended.
\<close>

datatype worker_at = Created | At_Loop | At_Search | In_Job | After_Job | At_Wait | Asleep | Ended

datatype kicker_at = Kicker_Created | Kicker_At_Loop | Kicker_Sleeps | Kicker_Ended

text \<open>\<open>th_notices\<close> counts the threads that have queued a job and will wake the workers next.\<close>

record control_threads =
  th_control :: dt_control
  th_state :: dt_control_state_t
  th_quitting :: bool
  th_running_jobs :: int
  th_workers :: "nat \<Rightarrow> worker_at"
  th_res :: "nat \<Rightarrow> worker_at"
  th_kicker :: kicker_at
  th_notices :: nat

definition dt_control_running :: "control_threads \<Rightarrow> bool" where
  "dt_control_running th \<longleftrightarrow> th_state th = DT_CONTROL_STATE_RUNNING"

definition worker_goes :: "nat \<Rightarrow> worker_at \<Rightarrow> control_threads \<Rightarrow> control_threads" where
  "worker_goes k at th = th\<lparr>th_workers := (th_workers th)(k := at)\<rparr>"

definition res_goes :: "nat \<Rightarrow> worker_at \<Rightarrow> control_threads \<Rightarrow> control_threads" where
  "res_goes r at th = th\<lparr>th_res := (th_res th)(r := at)\<rparr>"

definition dt_control_jobs_init :: "nat \<Rightarrow> dt_control \<Rightarrow> control_threads" where
  "dt_control_jobs_init num_threads control =
     \<lparr>th_control = control\<lparr>ct_num_threads := num_threads, ct_job := (\<lambda>_. None),
        ct_job_res := (\<lambda>_. None), ct_new_res := (\<lambda>_. False), ct_hand := (\<lambda>_. Empty_Hand), ct_res_hand := (\<lambda>_. Empty_Hand)\<rparr>,
      th_state = DT_CONTROL_STATE_RUNNING, th_quitting = False, th_running_jobs = 0,
      th_workers = (\<lambda>_. Created), th_res = (\<lambda>_. Created), th_kicker = Kicker_Created, th_notices = 0\<rparr>"

definition dt_control_all_running :: "control_threads \<Rightarrow> bool" where
  "dt_control_all_running th \<longleftrightarrow> dt_control_running th
     \<and> th_running_jobs th = int (ct_num_threads (th_control th)) + 1 + int DT_CTL_WORKER_RESERVED"

definition dt_control_jobs_pending :: "dt_job_state_t \<Rightarrow> control_threads option \<Rightarrow> int" where
  "dt_control_jobs_pending backthumbs th =
     (case th of
        None \<Rightarrow> 0
      | Some th \<Rightarrow> if backthumbs = DT_JOB_STATE_RUNNING then ct_pending_jobs (th_control th) - 1
                    else ct_pending_jobs (th_control th))"

definition dt_control_jobs_cleanup :: "dt_control \<Rightarrow> dt_control" where
  "dt_control_jobs_cleanup control = control\<lparr>ct_job := (\<lambda>_. None)\<rparr>"

definition dt_control_job_add_progress :: "dt_job option \<Rightarrow> dt_job option" where
  "dt_control_job_add_progress job = map_option (\<lambda>j. j\<lparr>jb_progress := True\<rparr>) job"

subsection \<open>What the threads do\<close>

definition count_started :: "control_threads \<Rightarrow> control_threads" where
  "count_started th = th\<lparr>th_running_jobs := th_running_jobs th + 1\<rparr>"

text \<open>\<open>pthread_cond_broadcast\<close>.\<close>

definition wake :: "worker_at \<Rightarrow> worker_at" where
  "wake at = (if at = Asleep then At_Loop else at)"

definition cond_broadcast :: "control_threads \<Rightarrow> control_threads" where
  "cond_broadcast th = th\<lparr>th_workers := (\<lambda>k. wake (th_workers th k)), th_res := (\<lambda>r. wake (th_res th r))\<rparr>"

text \<open>The next step of a thread; None: it waits for the condition variable or has ended.\<close>

definition control_work :: "nat \<Rightarrow> control_threads \<Rightarrow> control_threads option" where
  "control_work k th =
     (case th_workers th k of
        Created \<Rightarrow> Some (worker_goes k At_Loop (count_started th))
      | At_Loop \<Rightarrow> Some (worker_goes k (if dt_control_running th then At_Search else Ended) th)
      | At_Search \<Rightarrow>
          (case control_schedule_job k (th_control th) of
             (None, c) \<Rightarrow> Some (worker_goes k At_Wait th)
           | (Some j, c) \<Rightarrow> Some (worker_goes k In_Job (th\<lparr>th_control := c\<rparr>)))
      | In_Job \<Rightarrow> Some (worker_goes k After_Job (th\<lparr>th_control := control_run_job_end k (th_control th)\<rparr>))
      | After_Job \<Rightarrow>
          let c = control_run_job_free k (th_control th)
          in Some (worker_goes k (if ct_hand c k = Empty_Hand then At_Loop else After_Job) (th\<lparr>th_control := c\<rparr>))
      | At_Wait \<Rightarrow> Some (worker_goes k Asleep th)
      | Asleep \<Rightarrow> None
      | Ended \<Rightarrow> None)"

text \<open>A reserved worker executes its job when it is in no slot any more.\<close>

definition control_work_res :: "nat \<Rightarrow> control_threads \<Rightarrow> control_threads option" where
  "control_work_res r th =
     (case th_res th r of
        Created \<Rightarrow> Some (res_goes r At_Loop (count_started th))
      | At_Loop \<Rightarrow> Some (res_goes r (if dt_control_running th then At_Search else Ended) th)
      | At_Search \<Rightarrow>
          let (idle, c) = control_run_job_res r (th_control th)
          in Some (res_goes r (if idle then At_Wait else In_Job) (th\<lparr>th_control := c\<rparr>))
      | In_Job \<Rightarrow> Some (res_goes r After_Job (th\<lparr>th_control := control_run_job_res_execute r (th_control th)\<rparr>))
      | After_Job \<Rightarrow>
          let c = control_run_job_res_free r (th_control th)
          in Some (res_goes r (if ct_res_hand c r = Empty_Hand then At_Loop else After_Job) (th\<lparr>th_control := c\<rparr>))
      | At_Wait \<Rightarrow> Some (res_goes r Asleep th)
      | _ \<Rightarrow> None)"

definition control_worker_kicker :: "control_threads \<Rightarrow> control_threads option" where
  "control_worker_kicker th =
     (case th_kicker th of
        Kicker_Created \<Rightarrow> Some ((count_started th)\<lparr>th_kicker := Kicker_At_Loop\<rparr>)
      | Kicker_At_Loop \<Rightarrow> Some (th\<lparr>th_kicker := (if dt_control_running th then Kicker_Sleeps else Kicker_Ended)\<rparr>)
      | Kicker_Sleeps \<Rightarrow> Some ((cond_broadcast th)\<lparr>th_kicker := Kicker_At_Loop\<rparr>)
      | Kicker_Ended \<Rightarrow> None)"

text \<open>
  Adding a job, up to the broadcast that follows.  Whether the system runs is looked up before the queue is
  locked and may no longer be true.
\<close>

definition added_job :: "nat \<Rightarrow> dt_job \<Rightarrow> dt_job" where
  "added_job queue_id j = j\<lparr>jb_queue := queue_id, jb_priority := DT_CONTROL_FG_PRIORITY\<rparr>"

definition add_job_silent :: "bool \<Rightarrow> nat \<Rightarrow> dt_job \<Rightarrow> dt_control \<Rightarrow> bool" where
  "add_job_silent running queue_id j control \<longleftrightarrow> \<not> running
     \<or> queue_id = DT_JOB_QUEUE_SYSTEM_FG \<and> already_scheduled (added_job queue_id j) control"

definition threads_add_job :: "bool \<Rightarrow> nat \<Rightarrow> dt_job \<Rightarrow> control_threads \<Rightarrow> control_threads" where
  "threads_add_job running queue_id j th =
     th\<lparr>th_control := snd (dt_control_add_job running queue_id (Some j) (th_control th)),
        th_notices := th_notices th + (if add_job_silent running queue_id j (th_control th) then 0 else 1)\<rparr>"

definition threads_add_job_res :: "nat \<Rightarrow> dt_job \<Rightarrow> control_threads \<Rightarrow> control_threads" where
  "threads_add_job_res res j th =
     th\<lparr>th_control := snd (dt_control_add_job_res (Some j) res (th_control th)),
        th_notices := th_notices th + (if res < DT_CTL_WORKER_RESERVED then 1 else 0)\<rparr>"

definition threads_add_free :: "nat \<Rightarrow> control_threads \<Rightarrow> control_threads" where
  "threads_add_free i th = th\<lparr>th_control := add_job_free i (th_control th)\<rparr>"

definition notice_workers :: "control_threads \<Rightarrow> control_threads" where
  "notice_workers th = (cond_broadcast th)\<lparr>th_notices := th_notices th - 1\<rparr>"

text \<open>Closing: \<open>dt_control_quit\<close> before and after it has waited for pending jobs, and \<open>dt_control_shutdown\<close>.\<close>

definition quit_begins :: "control_threads \<Rightarrow> control_threads option" where
  "quit_begins th = (if \<not> dt_control_running th \<or> th_quitting th then None else Some (th\<lparr>th_quitting := True\<rparr>))"

definition quit_ends :: "control_threads \<Rightarrow> control_threads" where
  "quit_ends th = th\<lparr>th_state := DT_CONTROL_STATE_CLEANUP\<rparr>"

text \<open>Whether the threads are joined, and the state after the broadcast.\<close>

definition dt_control_shutdown :: "control_threads \<Rightarrow> bool \<times> control_threads" where
  "dt_control_shutdown th =
     (th_state th = DT_CONTROL_STATE_CLEANUP, cond_broadcast (th\<lparr>th_state := DT_CONTROL_STATE_DISABLED\<rparr>))"

text \<open>All joins return.\<close>

definition all_joined :: "control_threads \<Rightarrow> bool" where
  "all_joined th \<longleftrightarrow> th_kicker th = Kicker_Ended
     \<and> list_all (\<lambda>k. th_workers th k = Ended) [0..<ct_num_threads (th_control th)]
     \<and> list_all (\<lambda>r. th_res th r = Ended) [0..<DT_CTL_WORKER_RESERVED]"

subsection \<open>Runs\<close>

text \<open>The steps of the threads themselves, then those of all the program.\<close>

inductive own_step :: "control_threads \<Rightarrow> control_threads \<Rightarrow> bool" where
  work: "k < ct_num_threads (th_control th) \<Longrightarrow> control_work k th = Some th' \<Longrightarrow> own_step th th'"
| work_res: "r < DT_CTL_WORKER_RESERVED \<Longrightarrow> control_work_res r th = Some th' \<Longrightarrow> own_step th th'"
| kick: "control_worker_kicker th = Some th' \<Longrightarrow> own_step th th'"

inductive threads_step :: "control_threads \<Rightarrow> control_threads \<Rightarrow> bool" where
  own: "own_step th th' \<Longrightarrow> threads_step th th'"
| add: "queue_id < DT_JOB_QUEUE_MAX \<Longrightarrow> jb_addr j \<notin># known_jobs (th_control th)
     \<Longrightarrow> running \<or> \<not> dt_control_running th \<Longrightarrow> threads_step th (threads_add_job running queue_id j th)"
| add_done: "i < length (ct_callers (th_control th)) \<Longrightarrow> threads_step th (threads_add_free i th)"
| add_res: "jb_addr j \<notin># known_jobs (th_control th) \<Longrightarrow> threads_step th (threads_add_job_res res j th)"
| notice: "0 < th_notices th \<Longrightarrow> threads_step th (notice_workers th)"
| quit: "quit_begins th = Some th' \<Longrightarrow> threads_step th th'"
| quit_done: "th_quitting th \<Longrightarrow> dt_control_running th \<Longrightarrow> threads_step th (quit_ends th)"
| shutdown: "threads_step th (snd (dt_control_shutdown th))"

inductive_cases own_stepE: "own_step th th'"
inductive_cases threads_stepE: "threads_step th th'"

definition threads_init :: "control_threads \<Rightarrow> bool" where
  "threads_init th \<longleftrightarrow> (\<exists>n c. control_init c \<and> th = dt_control_jobs_init n c)"

text \<open>
  A worker has a job in its slot exactly while it executes one, threads have something in hand exactly when
  their place in the loop says so, and no thread ends while the system runs.
\<close>

definition has_job :: "dt_control \<Rightarrow> nat \<Rightarrow> bool" where
  "has_job c k \<longleftrightarrow> ct_job c k \<noteq> None"

definition in_place :: "dt_control \<Rightarrow> (nat \<Rightarrow> worker_at) \<Rightarrow> (nat \<Rightarrow> worker_at) \<Rightarrow> bool" where
  "in_place c workers res \<longleftrightarrow> (\<forall>k<ct_num_threads c. (has_job c k \<longleftrightarrow> workers k = In_Job)
        \<and> (ct_hand c k \<noteq> Empty_Hand \<longleftrightarrow> workers k = After_Job))
     \<and> (\<forall>r<DT_CTL_WORKER_RESERVED. ct_res_hand c r \<noteq> Empty_Hand \<longleftrightarrow> res r = In_Job \<or> res r = After_Job)"

definition threads_inv :: "control_threads \<Rightarrow> bool" where
  "threads_inv th \<longleftrightarrow> in_place (th_control th) (th_workers th) (th_res th) \<and> control_inv (th_control th)
     \<and> (dt_control_running th \<longrightarrow> th_kicker th \<noteq> Kicker_Ended
          \<and> (\<forall>k. th_workers th k \<noteq> Ended) \<and> (\<forall>r. th_res th r \<noteq> Ended))"

lemma threads_simps [simp]:
  "th_control (worker_goes k at th) = th_control th" "th_state (worker_goes k at th) = th_state th"
  "th_workers (worker_goes k at th) = (th_workers th)(k := at)" "th_res (worker_goes k at th) = th_res th"
  "th_kicker (worker_goes k at th) = th_kicker th"
  "th_control (res_goes k at th) = th_control th" "th_state (res_goes k at th) = th_state th"
  "th_workers (res_goes k at th) = th_workers th" "th_res (res_goes k at th) = (th_res th)(k := at)"
  "th_kicker (res_goes k at th) = th_kicker th"
  "th_control (count_started th) = th_control th" "th_state (count_started th) = th_state th"
  "th_workers (count_started th) = th_workers th" "th_res (count_started th) = th_res th"
  "th_kicker (count_started th) = th_kicker th"
  "th_control (cond_broadcast th) = th_control th" "th_state (cond_broadcast th) = th_state th"
  "th_workers (cond_broadcast th) k = wake (th_workers th k)" "th_res (cond_broadcast th) k = wake (th_res th k)"
  "th_kicker (cond_broadcast th) = th_kicker th"
  by (simp_all add: worker_goes_def res_goes_def count_started_def cond_broadcast_def)

lemma wake_simps [simp]: "wake at = In_Job \<longleftrightarrow> at = In_Job" "wake at = Ended \<longleftrightarrow> at = Ended"
  "wake at = After_Job \<longleftrightarrow> at = After_Job"
  by (simp_all add: wake_def)

text \<open>Every step is a step of the queues or none.\<close>

lemma slots_kept [simp]:
  "ct_num_threads (snd (control_schedule_job t c)) = ct_num_threads c"
  "ct_num_threads (control_run_job_end t c) = ct_num_threads c"
  "ct_num_threads (snd (dt_control_add_job running q j c)) = ct_num_threads c"
  "ct_num_threads (snd (dt_control_add_job_res j r c)) = ct_num_threads c"
  "ct_num_threads (snd (control_run_job_res r c)) = ct_num_threads c"
  "ct_num_threads (control_run_job_res_execute r c) = ct_num_threads c"
  "ct_job (snd (dt_control_add_job running q j c)) = ct_job c"
  "ct_job (snd (dt_control_add_job_res j r c)) = ct_job c"
  "ct_job (snd (control_run_job_res r c)) = ct_job c"
  "ct_job (control_run_job_res_execute r c) = ct_job c"
  by (auto simp: control_schedule_job_def control_run_job_end_def dt_control_add_job_def add_fifo_def add_system_fg_def
      set_queue_def add_pending_def dt_control_job_dispose_def dt_control_add_job_res_def control_run_job_res_def add_caller_def
      control_run_job_res_execute_def Let_def split: option.splits job_hand.splits)

lemma places_kept [simp]:
  "ct_hand (snd (control_schedule_job t c)) = ct_hand c" "ct_res_hand (snd (control_schedule_job t c)) = ct_res_hand c"
  "ct_hand (snd (dt_control_add_job running q j c)) = ct_hand c" "ct_res_hand (snd (dt_control_add_job running q j c)) = ct_res_hand c"
  "ct_hand (snd (dt_control_add_job_res j r c)) = ct_hand c" "ct_res_hand (snd (dt_control_add_job_res j r c)) = ct_res_hand c"
  "ct_hand (snd (control_run_job_res r c)) = ct_hand c"
  "ct_hand (control_run_job_res_execute r c) = ct_hand c"
  by (auto simp: control_schedule_job_def dt_control_add_job_def add_fifo_def add_system_fg_def
      set_queue_def add_pending_def dt_control_job_dispose_def dt_control_add_job_res_def control_run_job_res_def add_caller_def
      control_run_job_res_execute_def Let_def split: option.splits job_hand.splits)

lemma freed_kept [simp]:
  "ct_num_threads (control_run_job_free t c) = ct_num_threads c" "ct_num_threads (control_run_job_res_free r c) = ct_num_threads c"
  "ct_num_threads (add_job_free i c) = ct_num_threads c" "ct_job (control_run_job_free t c) = ct_job c"
  "ct_job (control_run_job_res_free r c) = ct_job c" "ct_job (add_job_free i c) = ct_job c"
  "ct_res_hand (control_run_job_free t c) = ct_res_hand c" "ct_hand (control_run_job_res_free r c) = ct_hand c"
  "ct_hand (add_job_free i c) = ct_hand c" "ct_res_hand (add_job_free i c) = ct_res_hand c"
  "ct_queues (control_run_job_free t c) = ct_queues c" "ct_export_scheduled (control_run_job_free t c) = ct_export_scheduled c"
  by (auto simp: control_run_job_free_def control_run_job_res_free_def add_job_free_def clear_hand_def add_pending_def
      dt_control_job_dispose_def split: job_hand.splits)

lemma hand_of_others:
  "ct_hand (control_run_job_free t c) = (ct_hand c)(t := ct_hand (control_run_job_free t c) t)"
  "ct_res_hand (control_run_job_res_free r c) = (ct_res_hand c)(r := ct_res_hand (control_run_job_res_free r c) r)"
  by (auto simp: control_run_job_free_def control_run_job_res_free_def clear_hand_def add_pending_def
      dt_control_job_dispose_def fun_eq_iff split: job_hand.splits)

text \<open>A hand is empty after two steps.\<close>

lemma freed_twice [simp]:
  "ct_hand (control_run_job_free k (control_run_job_free k c)) k = Empty_Hand"
  "ct_res_hand (control_run_job_res_free k (control_run_job_res_free k c)) k = Empty_Hand"
  by (auto simp: control_run_job_free_def control_run_job_res_free_def clear_hand_def add_pending_def
      dt_control_job_dispose_def split: job_hand.splits)

lemma res_hand_taken:
  "fst (control_run_job_res r c) \<Longrightarrow> ct_res_hand (snd (control_run_job_res r c)) = ct_res_hand c"
  "\<not> fst (control_run_job_res r c) \<Longrightarrow> \<exists>j. ct_res_hand (snd (control_run_job_res r c)) = (ct_res_hand c)(r := Holds j False)"
  "ct_res_hand c r \<noteq> Empty_Hand \<Longrightarrow> \<exists>h. h \<noteq> Empty_Hand \<and> ct_res_hand (control_run_job_res_execute r c) = (ct_res_hand c)(r := h)"
  by (auto simp: control_run_job_res_def control_run_job_res_execute_def Let_def fun_eq_iff split: option.splits job_hand.splits if_splits)

definition refines_queues :: "control_threads \<Rightarrow> control_threads \<Rightarrow> bool" where
  "refines_queues th th' \<longleftrightarrow> control_step (th_control th) (th_control th') \<or> th_control th' = th_control th"

lemma refines_same [simp]: "th_control th' = th_control th \<Longrightarrow> refines_queues th th'"
  by (simp add: refines_queues_def)

lemma running_simps [simp]:
  "dt_control_running (worker_goes k at th) = dt_control_running th"
  "dt_control_running (res_goes r at th) = dt_control_running th"
  "dt_control_running (count_started th) = dt_control_running th"
  "dt_control_running (cond_broadcast th) = dt_control_running th"
  "dt_control_running (th\<lparr>th_control := c\<rparr>) = dt_control_running th"
  "dt_control_running (th\<lparr>th_kicker := i\<rparr>) = dt_control_running th"
  "dt_control_running (th\<lparr>th_notices := n\<rparr>) = dt_control_running th"
  "dt_control_running (th\<lparr>th_quitting := b\<rparr>) = dt_control_running th"
  by (simp_all add: dt_control_running_def)

lemma inv_has_job: "threads_inv th \<Longrightarrow> k < ct_num_threads (th_control th) \<Longrightarrow> has_job (th_control th) k \<longleftrightarrow> th_workers th k = In_Job"
  by (simp add: threads_inv_def in_place_def)

lemma inv_worker_hand:
  "threads_inv th \<Longrightarrow> k < ct_num_threads (th_control th) \<Longrightarrow> ct_hand (th_control th) k \<noteq> Empty_Hand \<longleftrightarrow> th_workers th k = After_Job"
  by (simp add: threads_inv_def in_place_def)

lemma inv_res_hand:
  "threads_inv th \<Longrightarrow> r < DT_CTL_WORKER_RESERVED
     \<Longrightarrow> ct_res_hand (th_control th) r \<noteq> Empty_Hand \<longleftrightarrow> th_res th r = In_Job \<or> th_res th r = After_Job"
  by (simp add: threads_inv_def in_place_def)

lemma inv_worker_goes:
  assumes "threads_inv th" "th_workers th k \<notin> {In_Job, After_Job}" "at \<notin> {In_Job, After_Job}" "dt_control_running th \<Longrightarrow> at \<noteq> Ended"
  shows "threads_inv (worker_goes k at th)"
  using assms by (simp add: threads_inv_def in_place_def)

lemma inv_res_goes:
  assumes "threads_inv th" "th_res th r \<notin> {In_Job, After_Job}" "at \<notin> {In_Job, After_Job}" "dt_control_running th \<Longrightarrow> at \<noteq> Ended"
  shows "threads_inv (res_goes r at th)"
  using assms by (simp add: threads_inv_def in_place_def)

lemma inv_started [simp]: "threads_inv (count_started th) = threads_inv th"
  by (simp add: threads_inv_def)

lemma inv_controlled:
  assumes "threads_inv th" "control_step (th_control th) (th_control th')"
    and "dt_control_running th' \<Longrightarrow> th_kicker th' \<noteq> Kicker_Ended \<and> (\<forall>k. th_workers th' k \<noteq> Ended) \<and> (\<forall>r. th_res th' r \<noteq> Ended)"
    and "in_place (th_control th') (th_workers th') (th_res th')"
  shows "threads_inv th' \<and> refines_queues th th'"
  using assms control_step_inv by (auto simp: threads_inv_def refines_queues_def)

lemma not_ended: "threads_inv th \<Longrightarrow> dt_control_running th
   \<Longrightarrow> th_kicker th \<noteq> Kicker_Ended \<and> (\<forall>k. th_workers th k \<noteq> Ended) \<and> (\<forall>r. th_res th r \<noteq> Ended)"
  by (simp add: threads_inv_def)

lemma control_work_inv:
  assumes "control_work k th = Some th'" "k < ct_num_threads (th_control th)" "threads_inv th"
  shows "threads_inv th' \<and> refines_queues th th'"
proof (cases "th_workers th k")
  case At_Search
  have hand: "ct_hand (th_control th) k = Empty_Hand" using inv_worker_hand [OF assms(3,2)] At_Search by simp
  show ?thesis
  proof (cases "control_schedule_job k (th_control th)")
    case (Pair job c)
    show ?thesis
    proof (cases job)
      case None
      with Pair At_Search assms(1) have "th' = worker_goes k At_Wait th" by (simp add: control_work_def)
      then show ?thesis using assms(3) At_Search by (simp add: inv_worker_goes)
    next
      case (Some j)
      with Pair At_Search assms(1) have th': "th' = worker_goes k In_Job (th\<lparr>th_control := c\<rparr>)"
        by (simp add: control_work_def)
      have s: "control_schedule_job k (th_control th) = (Some j, c)" using Pair Some by simp
      have "ct_job (th_control th) k = None" using inv_has_job [OF assms(3,2)] At_Search
        by (simp add: has_job_def)
      with s assms(2) have step: "control_step (th_control th) c" by (intro control_step.schedule)
      have "ct_job c = (ct_job (th_control th))(k := Some j)" "ct_num_threads c = ct_num_threads (th_control th)"
        using s by (auto elim: control_schedule_Some)
      moreover have "ct_hand c = ct_hand (th_control th)" "ct_res_hand c = ct_res_hand (th_control th)"
        using places_kept(1,2) [of k "th_control th"] s by simp_all
      ultimately show ?thesis using step assms(3) not_ended [OF assms(3)] hand At_Search
        by (intro inv_controlled) (simp_all add: th' threads_inv_def in_place_def has_job_def)
    qed
  qed
next
  case In_Job
  with assms(1) have th': "th' = worker_goes k After_Job (th\<lparr>th_control := control_run_job_end k (th_control th)\<rparr>)"
    by (simp add: control_work_def)
  obtain j where j: "ct_job (th_control th) k = Some j" using inv_has_job [OF assms(3,2)] In_Job by (auto simp: has_job_def)
  have h: "ct_hand (th_control th) k = Empty_Hand" using inv_worker_hand [OF assms(3,2)] In_Job by simp
  have "ct_hand (control_run_job_end k (th_control th)) = (ct_hand (th_control th))(k := Holds (run_if_queued j) True)"
    "ct_res_hand (control_run_job_end k (th_control th)) = ct_res_hand (th_control th)"
    using run_end_fields(7) [OF j] by (simp_all add: hands_def)
  with control_step.run_end [OF assms(2) j h] assms(3) run_end_fields [OF j] not_ended [OF assms(3)] show ?thesis
    by (intro inv_controlled) (simp_all add: th' threads_inv_def in_place_def has_job_def)
next
  case After_Job
  let ?c = "control_run_job_free k (th_control th)"
  from After_Job assms(1) have th': "th' = worker_goes k (if ct_hand ?c k = Empty_Hand then At_Loop else After_Job) (th\<lparr>th_control := ?c\<rparr>)"
    by (simp add: control_work_def Let_def)
  have "ct_hand ?c j = ct_hand (th_control th) j" if "j \<noteq> k" for j by (subst hand_of_others) (simp add: that)
  with control_step.run_free [OF assms(2)] assms(3) not_ended [OF assms(3)] After_Job show ?thesis
    by (intro inv_controlled) (auto simp: th' threads_inv_def in_place_def has_job_def)
qed (use assms in \<open>auto simp: control_work_def intro!: inv_worker_goes split: if_splits\<close>)

lemma control_work_res_inv:
  assumes "control_work_res r th = Some th'" "r < DT_CTL_WORKER_RESERVED" "threads_inv th"
  shows "threads_inv th' \<and> refines_queues th th'"
proof (cases "th_res th r")
  case At_Search
  let ?c = "snd (control_run_job_res r (th_control th))"
  from At_Search have th': "th' = res_goes r (if fst (control_run_job_res r (th_control th)) then At_Wait else In_Job) (th\<lparr>th_control := ?c\<rparr>)"
    using assms(1) by (simp add: control_work_res_def split_beta)
  have "ct_res_hand (th_control th) r = Empty_Hand" using inv_res_hand [OF assms(3,2)] At_Search by simp
  note step = control_step.run_job_res [OF this]
  show ?thesis
  proof (cases "fst (control_run_job_res r (th_control th))")
    case True
    from res_hand_taken(1) [OF this] step assms(3) not_ended [OF assms(3)] At_Search True show ?thesis
      by (intro inv_controlled) (simp_all add: th' threads_inv_def in_place_def has_job_def)
  next
    case False
    from res_hand_taken(2) [OF this] obtain j where "ct_res_hand ?c = (ct_res_hand (th_control th))(r := Holds j False)" ..
    with step assms(3) not_ended [OF assms(3)] False show ?thesis
      by (intro inv_controlled) (simp_all add: th' threads_inv_def in_place_def has_job_def)
  qed
next
  case In_Job
  let ?c = "control_run_job_res_execute r (th_control th)"
  from In_Job assms(1) have th': "th' = res_goes r After_Job (th\<lparr>th_control := ?c\<rparr>)" by (simp add: control_work_res_def)
  have "ct_res_hand (th_control th) r \<noteq> Empty_Hand" using inv_res_hand [OF assms(3,2)] In_Job by simp
  from res_hand_taken(3) [OF this] control_step.run_res_execute [of "th_control th" r] assms(3) not_ended [OF assms(3)] show ?thesis
    by (intro inv_controlled) (auto simp: th' threads_inv_def in_place_def has_job_def)
next
  case After_Job
  let ?c = "control_run_job_res_free r (th_control th)"
  from After_Job assms(1) have th': "th' = res_goes r (if ct_res_hand ?c r = Empty_Hand then At_Loop else After_Job) (th\<lparr>th_control := ?c\<rparr>)"
    by (simp add: control_work_res_def Let_def)
  have "ct_res_hand ?c j = ct_res_hand (th_control th) j" if "j \<noteq> r" for j by (subst hand_of_others) (simp add: that)
  with control_step.run_res_free [OF assms(2)] assms(3) not_ended [OF assms(3)] After_Job show ?thesis
    by (intro inv_controlled) (auto simp: th' threads_inv_def in_place_def has_job_def)
qed (use assms in \<open>auto simp: control_work_res_def intro!: inv_res_goes split: if_splits\<close>)

lemma kicker_inv:
  assumes "control_worker_kicker th = Some th'" "threads_inv th"
  shows "threads_inv th' \<and> refines_queues th th'"
  using assms by (cases "th_kicker th") (auto simp: control_worker_kicker_def threads_inv_def in_place_def)

lemma own_step_inv: "own_step th th' \<Longrightarrow> threads_inv th \<Longrightarrow> threads_inv th' \<and> refines_queues th th'"
  by (erule own_stepE) (simp_all only: control_work_inv control_work_res_inv kicker_inv)

lemma threads_step_inv: "threads_step th th' \<Longrightarrow> threads_inv th \<Longrightarrow> threads_inv th' \<and> refines_queues th th'"
proof (erule threads_stepE)
  fix queue_id j running
  assume inv: "threads_inv th" and th': "th' = threads_add_job running queue_id j th"
    and j: "queue_id < DT_JOB_QUEUE_MAX" "jb_addr j \<notin># known_jobs (th_control th)"
  from control_step.add_job [OF j prod.collapse [symmetric], of running] inv
  show ?thesis by (intro inv_controlled) (simp_all add: th' threads_add_job_def threads_inv_def in_place_def has_job_def)
next
  fix i
  assume inv: "threads_inv th" and th': "th' = threads_add_free i th" and i: "i < length (ct_callers (th_control th))"
  from control_step.add_free [OF i] inv
  show ?thesis by (intro inv_controlled) (simp_all add: th' threads_add_free_def threads_inv_def in_place_def has_job_def)
next
  fix j res
  assume inv: "threads_inv th" and th': "th' = threads_add_job_res res j th" and j: "jb_addr j \<notin># known_jobs (th_control th)"
  from control_step.add_job_res [OF j, of res] inv
  show ?thesis by (intro inv_controlled) (simp_all add: th' threads_add_job_res_def threads_inv_def in_place_def has_job_def)
qed (use own_step_inv in \<open>auto simp: notice_workers_def quit_begins_def quit_ends_def dt_control_shutdown_def threads_inv_def
    in_place_def dt_control_running_def split: if_splits\<close>)

lemma threads_init_control: "threads_init th \<Longrightarrow> control_init (th_control th)"
  by (auto simp: threads_init_def dt_control_jobs_init_def control_init_def)

interpretation threads: step_system threads_init threads_step threads_inv
proof
  fix th
  assume "threads_init th"
  with threads_init_control [OF this] control_init_inv show "threads_inv th"
    by (auto simp: threads_init_def dt_control_jobs_init_def threads_inv_def in_place_def has_job_def)
qed (use threads_step_inv in blast)

subsection \<open>A run\<close>

datatype thread = Worker nat | Reserved nat | Kicker

fun thread_step :: "thread \<Rightarrow> control_threads \<Rightarrow> control_threads option" where
  "thread_step (Worker k) th = control_work k th"
| "thread_step (Reserved r) th = control_work_res r th"
| "thread_step Kicker th = control_worker_kicker th"

fun thread_exists :: "nat \<Rightarrow> thread \<Rightarrow> bool" where
  "thread_exists n (Worker k) = (k < n)"
| "thread_exists n (Reserved r) = (r < DT_CTL_WORKER_RESERVED)"
| "thread_exists n Kicker = True"

text \<open>The threads step in the order given, those that wait do not.\<close>

fun run_threads :: "thread list \<Rightarrow> control_threads \<Rightarrow> control_threads" where
  "run_threads [] th = th"
| "run_threads (t # ts) th = run_threads ts (case thread_step t th of None \<Rightarrow> th | Some th' \<Rightarrow> th')"

lemma work_num: "control_work k th = Some th' \<Longrightarrow> ct_num_threads (th_control th') = ct_num_threads (th_control th)"
  using slots_kept(1) [of k "th_control th"]
  by (cases "th_workers th k"; cases "control_schedule_job k (th_control th)"; cases "fst (control_schedule_job k (th_control th))")
    (auto simp: control_work_def Let_def)

lemma work_res_num: "control_work_res r th = Some th' \<Longrightarrow> ct_num_threads (th_control th') = ct_num_threads (th_control th)"
  by (cases "th_res th r") (auto simp: control_work_res_def split_beta Let_def)

lemma kicker_num: "control_worker_kicker th = Some th' \<Longrightarrow> ct_num_threads (th_control th') = ct_num_threads (th_control th)"
  by (cases "th_kicker th") (auto simp: control_worker_kicker_def)

lemma run_threads_own:
  "list_all (thread_exists (ct_num_threads (th_control th))) ts \<Longrightarrow> own_step\<^sup>*\<^sup>* th (run_threads ts th)"
proof (induction ts arbitrary: th)
  case (Cons t ts)
  show ?case
  proof (cases "thread_step t th")
    case (Some th')
    have "own_step th th'" using Some Cons.prems by (cases t) (auto intro: own_step.intros)
    moreover have "ct_num_threads (th_control th') = ct_num_threads (th_control th)"
      using Some by (cases t) (auto dest: work_num work_res_num kicker_num)
    ultimately show ?thesis using Cons Some by (simp add: converse_rtranclp_into_rtranclp)
  qed (use Cons in simp)
qed simp

lemma own_reachable: "threads_step\<^sup>*\<^sup>* th0 th \<Longrightarrow> own_step\<^sup>*\<^sup>* th th' \<Longrightarrow> threads_step\<^sup>*\<^sup>* th0 th'"
  by (rotate_tac, induction rule: rtranclp_induct) (auto intro: threads_step.own rtranclp.rtrancl_into_rtrancl)

text \<open>
  One worker, which finds no job and is about to wait when a job is queued: it misses the notice and goes to
  sleep.
\<close>

definition idle_threads :: control_threads where
  "idle_threads = run_threads [Worker 0, Worker 0, Worker 0] (dt_control_jobs_init 1 sample_control)"

definition lost_notice :: control_threads where
  "lost_notice = run_threads [Worker 0]
     (notice_workers (threads_add_job True DT_JOB_QUEUE_USER_BG (sample_job 1) idle_threads))"

lemma sample_threads_init: "threads_init (dt_control_jobs_init 1 sample_control)"
  using sample_control_init by (auto simp: threads_init_def)

lemma idle_threads_run: "threads_step\<^sup>*\<^sup>* (dt_control_jobs_init 1 sample_control) idle_threads"
  unfolding idle_threads_def
  by (rule own_reachable [OF rtranclp.rtrancl_refl run_threads_own]) (simp add: dt_control_jobs_init_def)

lemma pick_queue_none: "\<forall>i \<in> set is. \<not> schedulable c i \<Longrightarrow> pick_queue c is best = best"
  by (induction "is" arbitrary: best) auto

lemma no_job_scheduled: "ct_queues c = (\<lambda>_. []) \<Longrightarrow> control_schedule_job k c = (None, c)"
  by (simp only: control_schedule_job_def) (subst pick_queue_none; simp add: schedulable_def)

lemma idle_control: "th_control idle_threads = th_control (dt_control_jobs_init 1 sample_control)"
  by (simp add: idle_threads_def dt_control_jobs_init_def control_work_def sample_control_def dt_control_running_def
      no_job_scheduled worker_goes_def count_started_def)

lemma lost_notice_run: "threads_step\<^sup>*\<^sup>* (dt_control_jobs_init 1 sample_control) lost_notice"
proof -
  let ?th = "threads_add_job True DT_JOB_QUEUE_USER_BG (sample_job 1) idle_threads"
  have "known_jobs (th_control idle_threads) = {#}"
    by (simp add: idle_control dt_control_jobs_init_def sample_control_def known_jobs_def queued_jobs_def running_jobs_def
        disposed_jobs_def reserved_jobs_def slot_job_def held_jobs_def all_hands_def)
  then have "threads_step idle_threads ?th" by (intro threads_step.add) simp_all
  moreover have "threads_step ?th (notice_workers ?th)"
    by (intro threads_step.notice) (simp add: threads_add_job_def add_job_silent_def)
  ultimately have "threads_step\<^sup>*\<^sup>* (dt_control_jobs_init 1 sample_control) (notice_workers ?th)"
    using idle_threads_run by (meson rtranclp.rtrancl_into_rtrancl)
  then show ?thesis unfolding lost_notice_def
    by (rule own_reachable [OF _ run_threads_own])
      (simp add: notice_workers_def threads_add_job_def idle_control dt_control_jobs_init_def)
qed

text \<open>
  C33: The threads keep the discipline of the queues.  In every interleaving of workers, reserved workers,
  kicker, the threads that add jobs and those that close the program, the queues only go through the steps
  of the queue model, so that its properties hold, and a worker has a job in its slot exactly while it
  executes one.
\<close>

theorem threads_refine_queues:
  assumes "threads_init th0" "threads_step\<^sup>*\<^sup>* th0 th"
  shows "control_init (th_control th0) \<and> control_step\<^sup>*\<^sup>* (th_control th0) (th_control th)
    \<and> (\<forall>k<ct_num_threads (th_control th). (ct_job (th_control th) k \<noteq> None) = (th_workers th k = In_Job))"
proof -
  have "control_step\<^sup>*\<^sup>* (th_control th0) (th_control th)" using assms(2)
  proof (induction rule: rtranclp_induct)
    case (step y z)
    have "threads_inv y" by (rule threads.inv_reachable [OF assms(1) step.hyps(1)])
    with threads_step_inv [OF step.hyps(2)] step.IH show ?case
      by (metis refines_queues_def rtranclp.rtrancl_into_rtrancl)
  qed simp
  with threads.inv_reachable [OF assms] threads_init_control [OF assms(1)] show ?thesis by (simp add: threads_inv_def in_place_def has_job_def)
qed

theorem threads_refine_queues_witness:
  "control_step\<^sup>*\<^sup>* (th_control (dt_control_jobs_init 1 sample_control)) (th_control lost_notice)"
  using threads_refine_queues [OF sample_threads_init lost_notice_run] by blast

subsection \<open>No job waits for ever\<close>

text \<open>The steps of one worker and of the kicker.\<close>

definition kick_step :: "nat \<Rightarrow> control_threads \<Rightarrow> control_threads \<Rightarrow> bool" where
  "kick_step k th th' \<longleftrightarrow> control_work k th = Some th' \<or> control_worker_kicker th = Some th'"

text \<open>From a state of the threads the worker takes a job that is queued in \<open>c\<close>.\<close>

definition takes_job :: "nat \<Rightarrow> dt_control \<Rightarrow> control_threads \<Rightarrow> bool" where
  "takes_job k c th \<longleftrightarrow> (\<exists>th' j. (kick_step k)\<^sup>*\<^sup>* th th' \<and> th_workers th' k = In_Job
     \<and> ct_job (th_control th') k = Some j \<and> jb_addr j \<in># queued_jobs c)"

lemma takes_job_step: "kick_step k th th1 \<Longrightarrow> takes_job k c th1 \<Longrightarrow> takes_job k c th"
  unfolding takes_job_def by (blast intro: converse_rtranclp_into_rtranclp)

definition offers_job :: "dt_control \<Rightarrow> bool" where
  "offers_job c \<longleftrightarrow> list_ex (schedulable c) [0..<DT_JOB_QUEUE_MAX]"

lemma offered_job_scheduled:
  assumes "offers_job c"
  obtains j c' where "control_schedule_job k c = (Some j, c')" "jb_addr j \<in># queued_jobs c"
proof -
  from assms have "(\<exists>i \<in> set [0..<DT_JOB_QUEUE_MAX]. schedulable c i) \<or> (None :: nat option) \<noteq> None"
    by (auto simp: offers_job_def list_ex_iff)
  from pick_queue_max [OF this] obtain j c' where s: "control_schedule_job k c = (Some j, c')"
    by (auto simp: control_schedule_job_def Let_def)
  then obtain w where "w < DT_JOB_QUEUE_MAX" "ct_queues c w = j # ct_queues c' w" by (rule control_schedule_Some) blast
  then have "jb_addr j \<in># queued_jobs c"
    unfolding queued_jobs_def by (subst sum.remove [of _ w]) auto
  with s show thesis by (rule that)
qed

lemma takes_from_search:
  assumes "th_workers th k = At_Search" "offers_job (th_control th)"
  shows "takes_job k (th_control th) th"
proof -
  from assms(2) obtain j c' where j: "control_schedule_job k (th_control th) = (Some j, c')" "jb_addr j \<in># queued_jobs (th_control th)"
    by (rule offered_job_scheduled)
  let ?th = "worker_goes k In_Job (th\<lparr>th_control := c'\<rparr>)"
  have "kick_step k th ?th" using assms(1) j(1) by (simp add: kick_step_def control_work_def)
  moreover have "ct_job c' k = Some j" using j(1) by (auto elim: control_schedule_Some)
  ultimately show ?thesis using j(2) unfolding takes_job_def by (intro exI [of _ ?th] exI [of _ j]) auto
qed

lemma takes_from_loop:
  assumes "th_workers th k = At_Loop" "offers_job (th_control th)" "dt_control_running th"
  shows "takes_job k (th_control th) th"
proof (rule takes_job_step)
  show "kick_step k th (worker_goes k At_Search th)" using assms(1,3) by (simp add: kick_step_def control_work_def)
  from takes_from_search [of "worker_goes k At_Search th" k] assms(2)
  show "takes_job k (th_control th) (worker_goes k At_Search th)" by simp
qed

text \<open>The kicker wakes a worker that sleeps although there is a job.\<close>

lemma takes_from_sleep:
  assumes "th_workers th k = Asleep" "offers_job (th_control th)" "dt_control_running th" "th_kicker th \<noteq> Kicker_Ended"
  shows "takes_job k (th_control th) th"
proof -
  have kick: "takes_job k (th_control th1) th1"
    if "th_kicker th1 = Kicker_Sleeps" "th_workers th1 k = Asleep" "offers_job (th_control th1)" "dt_control_running th1" for th1
    using that takes_from_loop [of "(cond_broadcast th1)\<lparr>th_kicker := Kicker_At_Loop\<rparr>" k]
    by (intro takes_job_step [of k th1 "(cond_broadcast th1)\<lparr>th_kicker := Kicker_At_Loop\<rparr>"])
      (simp_all add: kick_step_def control_worker_kicker_def wake_def)
  have loop: "takes_job k (th_control th1) th1"
    if "th_kicker th1 = Kicker_At_Loop" "th_workers th1 k = Asleep" "offers_job (th_control th1)" "dt_control_running th1" for th1
    using that kick [of "th1\<lparr>th_kicker := Kicker_Sleeps\<rparr>"]
    by (intro takes_job_step [of k th1 "th1\<lparr>th_kicker := Kicker_Sleeps\<rparr>"])
      (simp_all add: kick_step_def control_worker_kicker_def)
  show ?thesis
  proof (cases "th_kicker th")
    case Kicker_Created
    with assms(1-3) loop [of "(count_started th)\<lparr>th_kicker := Kicker_At_Loop\<rparr>"] show ?thesis
      by (intro takes_job_step [of k th "(count_started th)\<lparr>th_kicker := Kicker_At_Loop\<rparr>"])
        (simp_all add: kick_step_def control_worker_kicker_def)
  qed (use assms kick loop in auto)
qed

lemma takes_after_job:
  assumes "th_workers th k = After_Job" "offers_job (th_control th)" "dt_control_running th"
  shows "takes_job k (th_control th) th"
proof -
  have step: "takes_job k (th_control th1) th1"
    if w: "th_workers th1 k = After_Job" and t: "takes_job k (th_control th2) th2"
      and th2: "th2 = worker_goes k (if ct_hand c k = Empty_Hand then At_Loop else After_Job) (th1\<lparr>th_control := c\<rparr>)"
      and c: "c = control_run_job_free k (th_control th1)" for th1 th2 c
  proof (rule takes_job_step)
    show "kick_step k th1 th2" using w by (simp add: kick_step_def control_work_def Let_def th2 c)
    have "queued_jobs (th_control th2) = queued_jobs (th_control th1)" by (simp add: queued_jobs_def th2 c)
    with t show "takes_job k (th_control th1) th2" by (simp only: takes_job_def)
  qed
  have offers: "offers_job (control_run_job_free k c)" if "offers_job c" for c
    using that by (simp add: offers_job_def list_ex_iff schedulable_def)
  have last: "takes_job k (th_control th1) th1"
    if "th_workers th1 k = After_Job" "offers_job (th_control th1)" "dt_control_running th1"
      "ct_hand (control_run_job_free k (th_control th1)) k = Empty_Hand" for th1
    using that offers by (intro step [OF _ takes_from_loop refl refl]) simp_all
  show ?thesis
  proof (cases "ct_hand (control_run_job_free k (th_control th)) k = Empty_Hand")
    case True
    then show ?thesis using assms last by blast
  next
    case False
    with assms offers show ?thesis by (intro step [OF _ last refl refl]) simp_all
  qed
qed

lemma takes_from_anywhere:
  assumes "threads_inv th" "k < ct_num_threads (th_control th)" "offers_job (th_control th)" "dt_control_running th"
  shows "takes_job k (th_control th) th"
proof (cases "th_workers th k")
  case Created
  with assms(3,4) takes_from_loop [of "worker_goes k At_Loop (count_started th)" k] show ?thesis
    by (intro takes_job_step [of k th "worker_goes k At_Loop (count_started th)"]) (simp_all add: kick_step_def control_work_def)
next
  case In_Job
  then obtain j where j: "ct_job (th_control th) k = Some j" using inv_has_job [OF assms(1,2)] by (auto simp: has_job_def)
  let ?th = "worker_goes k After_Job (th\<lparr>th_control := control_run_job_end k (th_control th)\<rparr>)"
  have "queued_jobs (th_control ?th) = queued_jobs (th_control th)" by (simp add: queued_jobs_def run_end_fields [OF j])
  moreover have "offers_job (th_control ?th)"
    using assms(3) by (auto simp: offers_job_def list_ex_iff schedulable_def run_end_fields [OF j])
  with assms(4) have "takes_job k (th_control ?th) ?th" by (intro takes_after_job) simp_all
  ultimately have "takes_job k (th_control th) ?th" by (simp only: takes_job_def)
  with In_Job show ?thesis by (intro takes_job_step [of k th ?th]) (simp_all add: kick_step_def control_work_def)
next
  case At_Wait
  with assms takes_from_sleep [of "worker_goes k Asleep th" k] show ?thesis
    by (intro takes_job_step [of k th "worker_goes k Asleep th"])
      (simp_all add: kick_step_def control_work_def threads_inv_def)
qed (use assms takes_from_loop takes_from_search takes_from_sleep takes_after_job in \<open>simp_all add: threads_inv_def\<close>)

text \<open>
  C34: A queued job is executed although the notice to the workers was lost.  From every reachable state of
  the running system in which a queue offers a job, any one worker and the kicker lead, without the help of
  other threads, to a state in which that worker executes a job that was waiting.
\<close>

theorem kicker_gets_job_executed:
  assumes "threads_init th0" "threads_step\<^sup>*\<^sup>* th0 th" "dt_control_running th" "k < ct_num_threads (th_control th)"
    and "w < DT_JOB_QUEUE_MAX" "schedulable (th_control th) w"
  shows "\<exists>th' j. (kick_step k)\<^sup>*\<^sup>* th th' \<and> th_workers th' k = In_Job \<and> ct_job (th_control th') k = Some j
    \<and> jb_addr j \<in># queued_jobs (th_control th)"
proof -
  have "offers_job (th_control th)" using assms(5,6) unfolding offers_job_def list_ex_iff by (intro bexI [of _ w]) auto
  from takes_from_anywhere [OF threads.inv_reachable [OF assms(1,2)] assms(4) this assms(3)]
  show ?thesis by (simp add: takes_job_def)
qed

text \<open>The job that was queued when its notice was lost.\<close>

theorem kicker_gets_job_executed_witness:
  "th_workers lost_notice 0 = Asleep \<and> th_notices lost_notice = 0
   \<and> (\<exists>th' j. (kick_step 0)\<^sup>*\<^sup>* lost_notice th' \<and> th_workers th' 0 = In_Job \<and> ct_job (th_control th') 0 = Some j
        \<and> jb_addr j \<in># queued_jobs (th_control lost_notice))"
proof -
  have at: "th_workers lost_notice 0 = Asleep" "th_notices lost_notice = 0" "dt_control_running lost_notice"
    "ct_num_threads (th_control lost_notice) = 1" "schedulable (th_control lost_notice) DT_JOB_QUEUE_USER_BG"
    by code_simp+
  from kicker_gets_job_executed [OF sample_threads_init lost_notice_run at(3) _ _ at(5), of 0] at(1,2,4)
  show ?thesis by simp
qed

subsection \<open>Closing the threads\<close>

text \<open>Where a thread of a system that no longer runs comes to rest.\<close>

definition at_rest :: "worker_at \<Rightarrow> worker_at \<Rightarrow> bool" where
  "at_rest from_at at \<longleftrightarrow> at \<in> {Asleep, Ended} \<and> (from_at \<notin> {At_Search, At_Wait, Asleep} \<longrightarrow> at = Ended)"

text \<open>What the steps of the workers alone leave as it is.\<close>

definition same_frame :: "control_threads \<Rightarrow> control_threads \<Rightarrow> bool" where
  "same_frame th th' \<longleftrightarrow> own_step\<^sup>*\<^sup>* th th' \<and> th_state th' = th_state th \<and> th_kicker th' = th_kicker th
     \<and> ct_num_threads (th_control th') = ct_num_threads (th_control th)"

lemma same_frame_refl [simp]: "same_frame th th"
  by (simp add: same_frame_def)

lemma same_frame_trans: "same_frame th1 th2 \<Longrightarrow> same_frame th2 th3 \<Longrightarrow> same_frame th1 th3"
  by (auto simp: same_frame_def)

lemma same_frame_running: "same_frame th th' \<Longrightarrow> dt_control_running th' = dt_control_running th"
  by (simp add: same_frame_def dt_control_running_def)

lemma same_frame_work:
  assumes "k < ct_num_threads (th_control th)" "control_work k th = Some th'" "th_state th' = th_state th"
    and "th_kicker th' = th_kicker th" "ct_num_threads (th_control th') = ct_num_threads (th_control th)"
  shows "same_frame th th'"
  using assms by (auto simp: same_frame_def intro: own_step.work)

lemma same_frame_res:
  assumes "r < DT_CTL_WORKER_RESERVED" "control_work_res r th = Some th'" "th_state th' = th_state th"
    and "th_kicker th' = th_kicker th" "ct_num_threads (th_control th') = ct_num_threads (th_control th)"
  shows "same_frame th th'"
  using assms by (auto simp: same_frame_def intro: own_step.work_res)

text \<open>One worker.\<close>

definition settled :: "nat \<Rightarrow> control_threads \<Rightarrow> worker_at \<Rightarrow> control_threads \<Rightarrow> bool" where
  "settled k th at th' \<longleftrightarrow> same_frame th th' \<and> th_res th' = th_res th \<and> th_workers th' = (th_workers th)(k := at)"

lemma settled_trans: "settled k th at th1 \<Longrightarrow> settled k th1 at' th2 \<Longrightarrow> settled k th at' th2"
  by (auto simp: settled_def intro: same_frame_trans)

lemma settle_loop:
  assumes "k < ct_num_threads (th_control th)" "\<not> dt_control_running th" "th_workers th k = At_Loop"
  shows "settled k th Ended (worker_goes k Ended th)"
proof -
  have "same_frame th (worker_goes k Ended th)" using assms by (intro same_frame_work [of k]) (simp_all add: control_work_def)
  then show ?thesis by (simp add: settled_def)
qed

lemma settle_worker:
  assumes k: "k < ct_num_threads (th_control th)" and r: "\<not> dt_control_running th"
  shows "\<exists>at th'. settled k th at th' \<and> at_rest (th_workers th k) at"
proof -
  have one: "settled k th at th1" if "control_work k th = Some th1" "th_workers th1 = (th_workers th)(k := at)"
    "th_res th1 = th_res th" "th_state th1 = th_state th" "th_kicker th1 = th_kicker th"
    "ct_num_threads (th_control th1) = ct_num_threads (th_control th)" "k < ct_num_threads (th_control th)" for th th1 at
    using that same_frame_work [of k th th1] by (simp add: settled_def)
  have via_loop: "\<exists>th'. settled k th Ended th'" if s: "settled k th At_Loop th1" for th1
  proof -
    from s have "settled k th1 Ended (worker_goes k Ended th1)"
      using k r same_frame_running [of th th1] by (intro settle_loop) (auto simp: settled_def same_frame_def)
    with s settled_trans show ?thesis by blast
  qed
  have via_wait: "\<exists>th'. settled k th Asleep th'" if s: "settled k th At_Wait th1" for th1
  proof -
    from s have "settled k th1 Asleep (worker_goes k Asleep th1)"
      using k by (intro one) (auto simp: settled_def same_frame_def control_work_def)
    with s settled_trans show ?thesis by blast
  qed
  have via_last: "\<exists>th'. settled k th Ended th'"
    if s: "settled k th After_Job th1" "ct_hand (control_run_job_free k (th_control th1)) k = Empty_Hand" for th1
  proof -
    let ?th2 = "worker_goes k At_Loop (th1\<lparr>th_control := control_run_job_free k (th_control th1)\<rparr>)"
    from s have "settled k th1 At_Loop ?th2"
      using k by (intro one) (auto simp: settled_def same_frame_def control_work_def Let_def)
    with s settled_trans via_loop show ?thesis by blast
  qed
  have via_after: "\<exists>th'. settled k th Ended th'" if s: "settled k th After_Job th1" for th1
  proof (cases "ct_hand (control_run_job_free k (th_control th1)) k = Empty_Hand")
    case True
    with s via_last show ?thesis by blast
  next
    case False
    let ?th2 = "worker_goes k After_Job (th1\<lparr>th_control := control_run_job_free k (th_control th1)\<rparr>)"
    from s False have "settled k th1 After_Job ?th2"
      using k by (intro one) (auto simp: settled_def same_frame_def control_work_def Let_def)
    with s settled_trans have "settled k th After_Job ?th2" by blast
    from via_last [OF this] show ?thesis by simp
  qed
  have via_job: "\<exists>th'. settled k th Ended th'" if s: "settled k th In_Job th1" for th1
  proof -
    let ?th2 = "worker_goes k After_Job (th1\<lparr>th_control := control_run_job_end k (th_control th1)\<rparr>)"
    from s have "settled k th1 After_Job ?th2"
      using k by (intro one) (auto simp: settled_def same_frame_def control_work_def)
    with s settled_trans via_after show ?thesis by blast
  qed
  have here: "settled k th (th_workers th k) th" by (simp add: settled_def)
  show ?thesis
  proof (cases "th_workers th k")
    case Created
    have "settled k th At_Loop (worker_goes k At_Loop (count_started th))"
      using k Created by (intro one) (simp_all add: control_work_def)
    with via_loop Created show ?thesis by (auto simp: at_rest_def)
  next
    case At_Search
    show ?thesis
    proof (cases "control_schedule_job k (th_control th)")
      case (Pair job c)
      then show ?thesis
      proof (cases job)
        case None
        with Pair At_Search k have "settled k th At_Wait (worker_goes k At_Wait th)"
          by (intro one) (simp_all add: control_work_def)
        with via_wait At_Search show ?thesis by (auto simp: at_rest_def)
      next
        case (Some j)
        have "ct_num_threads c = ct_num_threads (th_control th)" using Pair slots_kept(1) [of k "th_control th"] by simp
        with Some Pair At_Search k have "settled k th In_Job (worker_goes k In_Job (th\<lparr>th_control := c\<rparr>))"
          by (intro one) (simp_all add: control_work_def)
        with via_job At_Search show ?thesis by (auto simp: at_rest_def)
      qed
    qed
  next
    case At_Loop
    with here via_loop show ?thesis by (metis at_rest_def insertCI)
  next
    case In_Job
    with here via_job show ?thesis by (metis at_rest_def insertCI)
  next
    case After_Job
    with here via_after show ?thesis by (metis at_rest_def insertCI)
  next
    case At_Wait
    with here via_wait show ?thesis by (metis at_rest_def insertCI)
  qed (use here in \<open>auto simp: at_rest_def\<close>)
qed

text \<open>One reserved worker.\<close>

definition res_settled :: "nat \<Rightarrow> control_threads \<Rightarrow> worker_at \<Rightarrow> control_threads \<Rightarrow> bool" where
  "res_settled r th at th' \<longleftrightarrow> same_frame th th' \<and> th_workers th' = th_workers th \<and> th_res th' = (th_res th)(r := at)"

lemma res_settled_trans: "res_settled r th at th1 \<Longrightarrow> res_settled r th1 at' th2 \<Longrightarrow> res_settled r th at' th2"
  by (auto simp: res_settled_def intro: same_frame_trans)

lemma settle_res:
  assumes k: "r < DT_CTL_WORKER_RESERVED" and run: "\<not> dt_control_running th"
  shows "\<exists>at th'. res_settled r th at th' \<and> at_rest (th_res th r) at"
proof -
  have one: "res_settled r th at th1" if "control_work_res r th = Some th1" "th_res th1 = (th_res th)(r := at)"
    "th_workers th1 = th_workers th" "th_state th1 = th_state th" "th_kicker th1 = th_kicker th"
    "ct_num_threads (th_control th1) = ct_num_threads (th_control th)" for th th1 at
    using that same_frame_res [of r th th1] k by (simp add: res_settled_def)
  have via_loop: "\<exists>th'. res_settled r th Ended th'" if s: "res_settled r th At_Loop th1" for th1
  proof -
    from s have "res_settled r th1 Ended (res_goes r Ended th1)"
      using run same_frame_running [of th th1] by (intro one) (auto simp: res_settled_def same_frame_def control_work_res_def)
    with s res_settled_trans show ?thesis by blast
  qed
  have via_wait: "\<exists>th'. res_settled r th Asleep th'" if s: "res_settled r th At_Wait th1" for th1
  proof -
    from s have "res_settled r th1 Asleep (res_goes r Asleep th1)"
      by (intro one) (auto simp: res_settled_def same_frame_def control_work_res_def)
    with s res_settled_trans show ?thesis by blast
  qed
  have via_last: "\<exists>th'. res_settled r th Ended th'"
    if s: "res_settled r th After_Job th1" "ct_res_hand (control_run_job_res_free r (th_control th1)) r = Empty_Hand" for th1
  proof -
    let ?th2 = "res_goes r At_Loop (th1\<lparr>th_control := control_run_job_res_free r (th_control th1)\<rparr>)"
    from s have "res_settled r th1 At_Loop ?th2"
      by (intro one) (auto simp: res_settled_def same_frame_def control_work_res_def Let_def)
    with s res_settled_trans via_loop show ?thesis by blast
  qed
  have via_after: "\<exists>th'. res_settled r th Ended th'" if s: "res_settled r th After_Job th1" for th1
  proof (cases "ct_res_hand (control_run_job_res_free r (th_control th1)) r = Empty_Hand")
    case True
    with s via_last show ?thesis by blast
  next
    case False
    let ?th2 = "res_goes r After_Job (th1\<lparr>th_control := control_run_job_res_free r (th_control th1)\<rparr>)"
    from s False have "res_settled r th1 After_Job ?th2"
      by (intro one) (auto simp: res_settled_def same_frame_def control_work_res_def Let_def)
    with s res_settled_trans have "res_settled r th After_Job ?th2" by blast
    from via_last [OF this] show ?thesis by simp
  qed
  have via_job: "\<exists>th'. res_settled r th Ended th'" if s: "res_settled r th In_Job th1" for th1
  proof -
    let ?th2 = "res_goes r After_Job (th1\<lparr>th_control := control_run_job_res_execute r (th_control th1)\<rparr>)"
    from s have "res_settled r th1 After_Job ?th2"
      by (intro one) (auto simp: res_settled_def same_frame_def control_work_res_def)
    with s res_settled_trans via_after show ?thesis by blast
  qed
  have here: "res_settled r th (th_res th r) th" by (simp add: res_settled_def)
  show ?thesis
  proof (cases "th_res th r")
    case Created
    have "res_settled r th At_Loop (res_goes r At_Loop (count_started th))"
      using Created by (intro one) (simp_all add: control_work_res_def)
    with via_loop Created show ?thesis by (auto simp: at_rest_def)
  next
    case At_Search
    let ?c = "snd (control_run_job_res r (th_control th))"
    show ?thesis
    proof (cases "fst (control_run_job_res r (th_control th))")
      case True
      with At_Search have "res_settled r th At_Wait (res_goes r At_Wait (th\<lparr>th_control := ?c\<rparr>))"
        by (intro one) (simp_all add: control_work_res_def split_beta)
      with via_wait At_Search show ?thesis by (auto simp: at_rest_def)
    next
      case False
      with At_Search have "res_settled r th In_Job (res_goes r In_Job (th\<lparr>th_control := ?c\<rparr>))"
        by (intro one) (simp_all add: control_work_res_def split_beta)
      with via_job At_Search show ?thesis by (auto simp: at_rest_def)
    qed
  next
    case At_Loop
    with here via_loop show ?thesis by (metis at_rest_def insertCI)
  next
    case At_Wait
    with here via_wait show ?thesis by (metis at_rest_def insertCI)
  next
    case In_Job
    with here via_job show ?thesis by (metis at_rest_def insertCI)
  next
    case After_Job
    with here via_after show ?thesis by (metis at_rest_def insertCI)
  qed (use here in \<open>auto simp: at_rest_def\<close>)
qed

text \<open>All of them, one after the other.\<close>

lemma settle_workers:
  assumes "n \<le> ct_num_threads (th_control th)" "\<not> dt_control_running th"
  shows "\<exists>th'. same_frame th th' \<and> th_res th' = th_res th \<and> (\<forall>k<n. at_rest (th_workers th k) (th_workers th' k))
    \<and> (\<forall>k\<ge>n. th_workers th' k = th_workers th k)"
  using assms(1)
proof (induction n)
  case (Suc n)
  then obtain th1 where 1: "same_frame th th1" "th_res th1 = th_res th"
    "\<forall>k<n. at_rest (th_workers th k) (th_workers th1 k)" "\<forall>k\<ge>n. th_workers th1 k = th_workers th k" by auto
  have "n < ct_num_threads (th_control th1)" "\<not> dt_control_running th1"
    using Suc.prems 1(1) assms(2) same_frame_running [of th th1] by (auto simp: same_frame_def)
  from settle_worker [OF this] obtain at th2 where 2: "settled n th1 at th2" "at_rest (th_workers th1 n) at" by blast
  have "same_frame th th2" using 1(1) 2(1) same_frame_trans by (auto simp: settled_def)
  with 1 2 show ?case by (intro exI [of _ th2]) (auto simp: settled_def less_Suc_eq)
qed (intro exI [of _ th]; simp)

lemma settle_all_res:
  assumes "n \<le> DT_CTL_WORKER_RESERVED" "\<not> dt_control_running th"
  shows "\<exists>th'. same_frame th th' \<and> th_workers th' = th_workers th \<and> (\<forall>r<n. at_rest (th_res th r) (th_res th' r))
    \<and> (\<forall>r\<ge>n. th_res th' r = th_res th r)"
  using assms(1)
proof (induction n)
  case (Suc n)
  then obtain th1 where 1: "same_frame th th1" "th_workers th1 = th_workers th"
    "\<forall>r<n. at_rest (th_res th r) (th_res th1 r)" "\<forall>r\<ge>n. th_res th1 r = th_res th r" by auto
  have "n < DT_CTL_WORKER_RESERVED" "\<not> dt_control_running th1"
    using Suc.prems 1(1,4) assms(2) same_frame_running [of th th1] by (auto simp: same_frame_def)
  from settle_res [OF this] obtain at th2 where 2: "res_settled n th1 at th2" "at_rest (th_res th1 n) at" by blast
  have "same_frame th th2" using 1(1) 2(1) same_frame_trans by (auto simp: res_settled_def)
  with 1 2 show ?case by (intro exI [of _ th2]) (auto simp: res_settled_def less_Suc_eq)
qed (intro exI [of _ th]; simp)

lemma settle_all:
  assumes "\<not> dt_control_running th"
  shows "\<exists>th'. same_frame th th' \<and> (\<forall>k<ct_num_threads (th_control th). at_rest (th_workers th k) (th_workers th' k))
    \<and> (\<forall>r<DT_CTL_WORKER_RESERVED. at_rest (th_res th r) (th_res th' r))"
proof -
  from settle_workers [OF order_refl assms] obtain th1 where 1: "same_frame th th1" "th_res th1 = th_res th"
    "\<forall>k<ct_num_threads (th_control th). at_rest (th_workers th k) (th_workers th1 k)" by blast
  have "\<not> dt_control_running th1" using 1 assms same_frame_running [of th th1] by auto
  from settle_all_res [OF order_refl this] obtain th2 where 2: "same_frame th1 th2" "th_workers th2 = th_workers th1"
    "\<forall>r<DT_CTL_WORKER_RESERVED. at_rest (th_res th1 r) (th_res th2 r)" by blast
  with 1 same_frame_trans show ?thesis by (intro exI [of _ th2]) auto
qed

lemma all_joined_iff: "all_joined th \<longleftrightarrow> th_kicker th = Kicker_Ended
    \<and> (\<forall>k<ct_num_threads (th_control th). th_workers th k = Ended) \<and> (\<forall>r<DT_CTL_WORKER_RESERVED. th_res th r = Ended)"
  by (auto simp: all_joined_def list_all_iff)

definition workers_ended :: "control_threads \<Rightarrow> bool" where
  "workers_ended th \<longleftrightarrow> (\<forall>k<ct_num_threads (th_control th). th_workers th k = Ended)
     \<and> (\<forall>r<DT_CTL_WORKER_RESERVED. th_res th r = Ended)"

text \<open>When the workers have ended the kicker ends.\<close>

lemma kicker_ends:
  assumes "\<not> dt_control_running th" "workers_ended th"
  shows "\<exists>th'. own_step\<^sup>*\<^sup>* th th' \<and> all_joined th'"
proof -
  have loop: "\<exists>th'. own_step\<^sup>*\<^sup>* th1 th' \<and> all_joined th'"
    if "th_kicker th1 = Kicker_At_Loop" "\<not> dt_control_running th1" "workers_ended th1" for th1
  proof -
    have "own_step th1 (th1\<lparr>th_kicker := Kicker_Ended\<rparr>)" using that by (intro own_step.kick) (simp add: control_worker_kicker_def)
    with that(3) show ?thesis by (intro exI [of _ "th1\<lparr>th_kicker := Kicker_Ended\<rparr>"]) (auto simp: all_joined_iff workers_ended_def)
  qed
  have via: "\<exists>th'. own_step\<^sup>*\<^sup>* th th' \<and> all_joined th'"
    if "control_worker_kicker th = Some th1" "th_kicker th1 = Kicker_At_Loop" "\<not> dt_control_running th1" "workers_ended th1" for th1
    using loop [OF that(2-4)] own_step.kick [OF that(1)] by (blast intro: converse_rtranclp_into_rtranclp)
  show ?thesis
  proof (cases "th_kicker th")
    case Kicker_Created
    with assms show ?thesis
      by (intro via [of "(count_started th)\<lparr>th_kicker := Kicker_At_Loop\<rparr>"]) (simp_all add: control_worker_kicker_def workers_ended_def)
  next
    case Kicker_At_Loop
    then show ?thesis using loop assms by blast
  next
    case Kicker_Sleeps
    with assms show ?thesis
      by (intro via [of "(cond_broadcast th)\<lparr>th_kicker := Kicker_At_Loop\<rparr>"]) (simp_all add: control_worker_kicker_def workers_ended_def)
  next
    case Kicker_Ended
    with assms(2) show ?thesis by (auto simp: all_joined_iff workers_ended_def)
  qed
qed

definition about_to_sleep :: "worker_at \<Rightarrow> bool" where
  "about_to_sleep at \<longleftrightarrow> at \<in> {At_Search, At_Wait, Asleep}"

lemma settle_to_end:
  assumes "\<not> dt_control_running th"
    and "\<forall>k<ct_num_threads (th_control th). \<not> about_to_sleep (th_workers th k)"
    and "\<forall>r<DT_CTL_WORKER_RESERVED. \<not> about_to_sleep (th_res th r)"
  shows "\<exists>th'. own_step\<^sup>*\<^sup>* th th' \<and> all_joined th'"
proof -
  from settle_all [OF assms(1)] obtain th1 where 1: "same_frame th th1"
    "\<forall>k<ct_num_threads (th_control th). at_rest (th_workers th k) (th_workers th1 k)"
    "\<forall>r<DT_CTL_WORKER_RESERVED. at_rest (th_res th r) (th_res th1 r)" by blast
  then have "workers_ended th1" using assms(2,3) by (simp add: workers_ended_def at_rest_def about_to_sleep_def same_frame_def)
  moreover have "\<not> dt_control_running th1" using 1(1) assms(1) by (simp add: same_frame_running)
  ultimately obtain th2 where "own_step\<^sup>*\<^sup>* th1 th2" "all_joined th2" using kicker_ends by blast
  with 1(1) show ?thesis unfolding same_frame_def by (meson rtranclp_trans)
qed

text \<open>A broadcast after all have settled wakes those who went to sleep too late.\<close>

lemma woken_end:
  assumes "\<not> dt_control_running th1" "th_workers th2 = (\<lambda>k. wake (th_workers th1 k))" "th_res th2 = (\<lambda>r. wake (th_res th1 r))"
    and "th_state th2 = th_state th1" "ct_num_threads (th_control th2) = ct_num_threads (th_control th1)"
    and "\<forall>k<ct_num_threads (th_control th1). at_rest (f k) (th_workers th1 k)" "\<forall>r<DT_CTL_WORKER_RESERVED. at_rest (g r) (th_res th1 r)"
  shows "\<exists>th'. own_step\<^sup>*\<^sup>* th2 th' \<and> all_joined th'"
proof -
  have "\<not> about_to_sleep (wake at)" if "at_rest h at" for h at
    using that by (auto simp: at_rest_def about_to_sleep_def wake_def)
  with assms show ?thesis by (intro settle_to_end) (auto simp: dt_control_running_def)
qed

text \<open>The threads' own steps and the notices that are due.\<close>

inductive closing_step :: "control_threads \<Rightarrow> control_threads \<Rightarrow> bool" where
  closing_own: "own_step th th' \<Longrightarrow> closing_step th th'"
| closing_notice: "0 < th_notices th \<Longrightarrow> closing_step th (notice_workers th)"

inductive_cases closing_stepE: "closing_step th th'"

lemma own_closing: "own_step\<^sup>*\<^sup>* th th' \<Longrightarrow> closing_step\<^sup>*\<^sup>* th th'"
  by (induction rule: rtranclp_induct) (auto intro: closing_own rtranclp.rtrancl_into_rtrancl)

text \<open>A kicker that still sleeps, or a notice that is due, wakes them.\<close>

lemma own_notices: "own_step th th' \<Longrightarrow> th_notices th' = th_notices th"
proof (erule own_stepE)
  fix k
  assume "control_work k th = Some th'"
  then show ?thesis
    by (cases "th_workers th k"; cases "control_schedule_job k (th_control th)"; cases "fst (control_schedule_job k (th_control th))")
      (auto simp: control_work_def Let_def worker_goes_def count_started_def)
next
  fix r
  assume "control_work_res r th = Some th'"
  then show ?thesis
    by (cases "th_res th r") (auto simp: control_work_res_def split_beta Let_def res_goes_def count_started_def)
next
  assume "control_worker_kicker th = Some th'"
  then show ?thesis by (cases "th_kicker th") (auto simp: control_worker_kicker_def count_started_def cond_broadcast_def)
qed

lemma own_notices_steps: "own_step\<^sup>*\<^sup>* th th' \<Longrightarrow> th_notices th' = th_notices th"
  by (induction rule: rtranclp_induct) (auto dest: own_notices)

lemma closing_rescues:
  assumes "\<not> dt_control_running th" "th_kicker th = Kicker_Sleeps \<or> 0 < th_notices th"
  shows "\<exists>th'. closing_step\<^sup>*\<^sup>* th th' \<and> all_joined th'"
proof -
  from settle_all [OF assms(1)] obtain th1 where 1: "same_frame th th1"
    "\<forall>k<ct_num_threads (th_control th). at_rest (th_workers th k) (th_workers th1 k)"
    "\<forall>r<DT_CTL_WORKER_RESERVED. at_rest (th_res th r) (th_res th1 r)" by blast
  have r: "\<not> dt_control_running th1" using 1(1) assms(1) by (simp add: same_frame_running)
  have n: "ct_num_threads (th_control th1) = ct_num_threads (th_control th)" "th_kicker th1 = th_kicker th"
    "th_notices th1 = th_notices th" using 1(1) by (auto simp: same_frame_def dest: own_notices_steps)
  have first: "closing_step\<^sup>*\<^sup>* th th1" using 1(1) by (simp add: same_frame_def own_closing)
  have rest: "\<exists>th'. closing_step\<^sup>*\<^sup>* th th' \<and> all_joined th'"
    if "closing_step th1 th2" "\<exists>th'. own_step\<^sup>*\<^sup>* th2 th' \<and> all_joined th'" for th2
    using that first own_closing by (meson rtranclp.rtrancl_into_rtrancl rtranclp_trans)
  show ?thesis
  proof (cases "th_kicker th = Kicker_Sleeps")
    case True
    let ?th2 = "(cond_broadcast th1)\<lparr>th_kicker := Kicker_At_Loop\<rparr>"
    have "own_step th1 ?th2" using n(2) True by (intro own_step.kick) (simp add: control_worker_kicker_def)
    then show ?thesis using 1(2,3) r n(1)
      by (intro rest [of ?th2] closing_own woken_end [of th1 _ "th_workers th" "th_res th"]) (auto simp: cond_broadcast_def)
  next
    case False
    then have "closing_step th1 (notice_workers th1)" using assms(2) n(3) by (intro closing_notice) simp
    then show ?thesis using 1(2,3) r n(1)
      by (intro rest [of "notice_workers th1"] woken_end [of th1 _ "th_workers th" "th_res th"]) (auto simp: cond_broadcast_def notice_workers_def)
  qed
qed

text \<open>A thread that goes to sleep after the last broadcast stays asleep.\<close>

definition late :: "worker_at \<Rightarrow> bool" where
  "late at \<longleftrightarrow> at = At_Wait \<or> at = Asleep"

lemma late_simps [simp]: "late At_Wait" "late Asleep" "\<not> late Created" "\<not> late At_Loop" "\<not> late At_Search"
    "\<not> late In_Job" "\<not> late After_Job" "\<not> late Ended" "late (wake at) \<longleftrightarrow> at = At_Wait"
  by (auto simp: late_def wake_def)

definition stays_late :: "control_threads \<Rightarrow> control_threads \<Rightarrow> bool" where
  "stays_late th th' \<longleftrightarrow> th_state th' = th_state th \<and> th_kicker th' \<noteq> Kicker_Sleeps
     \<and> ct_num_threads (th_control th') = ct_num_threads (th_control th)
     \<and> (\<forall>k. late (th_workers th k) \<longrightarrow> late (th_workers th' k)) \<and> (\<forall>r. late (th_res th r) \<longrightarrow> late (th_res th' r))"

lemma late_worker:
  assumes "control_work k th = Some th'" "th_kicker th \<noteq> Kicker_Sleeps"
  shows "stays_late th th'"
proof (cases "th_workers th k")
  case At_Search
  obtain j c where "control_schedule_job k (th_control th) = (j, c)" by fastforce
  moreover from this have "ct_num_threads c = ct_num_threads (th_control th)" using slots_kept(1) [of k "th_control th"] by simp
  ultimately show ?thesis using assms At_Search by (cases j) (auto simp: control_work_def stays_late_def)
qed (use assms in \<open>auto simp: control_work_def stays_late_def Let_def\<close>)

lemma late_res: "control_work_res r th = Some th' \<Longrightarrow> th_kicker th \<noteq> Kicker_Sleeps \<Longrightarrow> stays_late th th'"
  by (cases "th_res th r") (auto simp: control_work_res_def stays_late_def split_beta Let_def)

lemma late_own: "own_step th th' \<Longrightarrow> \<not> dt_control_running th \<Longrightarrow> th_kicker th \<noteq> Kicker_Sleeps \<Longrightarrow> stays_late th th'"
proof (erule own_stepE)
  assume "control_worker_kicker th = Some th'" "\<not> dt_control_running th" "th_kicker th \<noteq> Kicker_Sleeps"
  then show "stays_late th th'" by (cases "th_kicker th") (auto simp: control_worker_kicker_def stays_late_def)
qed (use late_worker late_res in blast)+

lemma late_steps:
  assumes "closing_step\<^sup>*\<^sup>* th th'" "\<not> dt_control_running th" "th_kicker th \<noteq> Kicker_Sleeps" "th_notices th = 0"
  shows "stays_late th th' \<and> th_notices th' = 0"
  using assms(1)
proof (induction rule: rtranclp_induct)
  case base
  show ?case using assms(3,4) by (simp add: stays_late_def)
next
  case (step y z)
  then have y: "\<not> dt_control_running y" "th_kicker y \<noteq> Kicker_Sleeps" "th_notices y = 0"
    using assms(2) by (simp_all add: stays_late_def dt_control_running_def)
  from step.hyps(2) have own: "own_step y z" using y(3) by (auto elim: closing_stepE)
  from late_own [OF own y(1,2)] own_notices [OF own] step.IH y(3) show ?case by (auto simp: stays_late_def)
qed

text \<open>
  C35: When closing the program ends, and when it hangs.  In every reachable state after the program was told
  to quit, with no thread just looking for a job, the threads can all be joined after the broadcast of the
  shutdown, by their own steps and the notices that are due, exactly when no worker is between its search
  and its wait, or the kicker still sleeps or a notice is due that will wake it.  Otherwise the worker sleeps
  through: nothing wakes it unless another job is added after the shutdown.
\<close>

theorem shutdown_ends_iff:
  assumes "threads_init th0" "threads_step\<^sup>*\<^sup>* th0 th" "th_state th = DT_CONTROL_STATE_CLEANUP"
    and "dt_control_shutdown th = (cleanup, th1)"
    and "\<forall>k<ct_num_threads (th_control th). th_workers th k \<noteq> At_Search" "\<forall>r<DT_CTL_WORKER_RESERVED. th_res th r \<noteq> At_Search"
  shows "cleanup \<and> ((\<exists>th2. closing_step\<^sup>*\<^sup>* th1 th2 \<and> all_joined th2) \<longleftrightarrow> th_kicker th = Kicker_Sleeps \<or> 0 < th_notices th
    \<or> (\<forall>k<ct_num_threads (th_control th). th_workers th k \<noteq> At_Wait) \<and> (\<forall>r<DT_CTL_WORKER_RESERVED. th_res th r \<noteq> At_Wait))"
proof -
  have th1: "cleanup" "th_control th1 = th_control th" "th_kicker th1 = th_kicker th" "\<not> dt_control_running th1"
    "th_workers th1 k = wake (th_workers th k)" "th_res th1 k = wake (th_res th k)" "th_notices th1 = th_notices th" for k
    using assms(3,4) by (auto simp: dt_control_shutdown_def dt_control_running_def cond_broadcast_def)
  show ?thesis
  proof (cases "th_kicker th = Kicker_Sleeps \<or> 0 < th_notices th")
    case True
    then have "\<exists>th2. closing_step\<^sup>*\<^sup>* th1 th2 \<and> all_joined th2" using closing_rescues [OF th1(4)] th1(3,7) by simp
    with True th1(1) show ?thesis by blast
  next
    case kicker: False
    show ?thesis
    proof (cases "(\<forall>k<ct_num_threads (th_control th). th_workers th k \<noteq> At_Wait) \<and> (\<forall>r<DT_CTL_WORKER_RESERVED. th_res th r \<noteq> At_Wait)")
      case True
      with assms(5,6) have "\<exists>th2. own_step\<^sup>*\<^sup>* th1 th2 \<and> all_joined th2"
        by (intro settle_to_end [OF th1(4)]) (auto simp: th1 about_to_sleep_def wake_def)
      with True th1(1) own_closing show ?thesis by blast
    next
      case False
      have "\<not> all_joined th2" if "closing_step\<^sup>*\<^sup>* th1 th2" for th2
      proof -
        from late_steps [OF that th1(4)] kicker have "stays_late th1 th2" by (simp add: th1)
        with False show ?thesis by (fastforce simp: stays_late_def th1 all_joined_iff)
      qed
      with False kicker th1(1) show ?thesis by blast
    qed
  qed
qed

text \<open>The worker is about to wait when the program is closed, and the kicker has just left its sleep.\<close>

definition closing_threads :: control_threads where
  "closing_threads = quit_ends (the (quit_begins (run_threads [Reserved 0, Reserved 1, Reserved 2, Kicker] idle_threads)))"

lemma closing_threads_run: "threads_step\<^sup>*\<^sup>* (dt_control_jobs_init 1 sample_control) closing_threads"
proof -
  let ?th = "run_threads [Reserved 0, Reserved 1, Reserved 2, Kicker] idle_threads"
  have "threads_step\<^sup>*\<^sup>* (dt_control_jobs_init 1 sample_control) ?th"
    by (rule own_reachable [OF idle_threads_run run_threads_own]) (simp add: DT_CTL_WORKER_RESERVED_def)
  moreover have run: "dt_control_running ?th" "\<not> th_quitting ?th" by code_simp+
  then have "threads_step ?th (the (quit_begins ?th))" by (intro threads_step.quit) (simp add: quit_begins_def)
  moreover have "threads_step (the (quit_begins ?th)) closing_threads"
    unfolding closing_threads_def using run by (intro threads_step.quit_done) (simp_all add: quit_begins_def)
  ultimately show ?thesis by (meson rtranclp.rtrancl_into_rtrancl)
qed

theorem shutdown_ends_iff_witness:
  "fst (dt_control_shutdown closing_threads)
   \<and> \<not> (\<exists>th. closing_step\<^sup>*\<^sup>* (snd (dt_control_shutdown closing_threads)) th \<and> all_joined th)"
proof -
  have at: "th_state closing_threads = DT_CONTROL_STATE_CLEANUP" "ct_num_threads (th_control closing_threads) = 1"
    "th_workers closing_threads 0 = At_Wait" "th_kicker closing_threads = Kicker_At_Loop"
    "th_notices closing_threads = 0"
    "list_all (\<lambda>r. th_res closing_threads r = At_Loop) [0..<DT_CTL_WORKER_RESERVED]" by code_simp+
  have "\<forall>k<ct_num_threads (th_control closing_threads). th_workers closing_threads k \<noteq> At_Search"
    "\<forall>r<DT_CTL_WORKER_RESERVED. th_res closing_threads r \<noteq> At_Search"
    using at(2,3,6) by (auto simp: list_all_iff)
  from shutdown_ends_iff [OF sample_threads_init closing_threads_run at(1) prod.collapse [symmetric] this] at(2,3,4,5)
  show ?thesis by auto
qed

end
