(* ===== verification/Collect.thy ===== *)
theory Collect
  imports Catalog
begin

text \<open>
  The manifest and the image state a request carries: \<open>dt_agent_capabilities_collect\<close> of
  \<open>agent_capabilities.c\<close> and the collectors of \<open>agent_state.c\<close>, which read the catalog, the history
  stack, the preview pipe's back buffer or, failing that, an export into memory.  GdkPixbuf, the
  Base64 encoder of GLib, \<open>malloc\<close> and the export pipeline are fields of a \<open>collect_env\<close> argument.
  Sizes and indices are \<open>int\<close>s and \<open>nat\<close>s: an image whose \<open>width * height\<close> leaves the range of
  \<open>gint\<close> has no defined meaning in C.
\<close>

subsection \<open>The manifest\<close>

definition agent_capabilities_error :: "string \<Rightarrow> gerror" where
  "agent_capabilities_error msg =
     \<lparr>gerr_domain = ''dt-agent-capabilities-error'', gerr_code = 1, gerr_message = msg\<rparr>"

definition capability_of_descriptor :: "dt_agent_action_descriptor \<Rightarrow> dt_agent_capability" where
  "capability_of_descriptor descriptor = zero_capability
     \<lparr>cap_module_id := ad_module_id descriptor,
      cap_module_label := ad_module_label descriptor,
      cap_capability_id := ad_capability_id descriptor,
      cap_label := ad_label descriptor,
      cap_kind := ad_kind_name descriptor,
      cap_target_type := ad_target_type descriptor,
      cap_action_path := ad_action_path descriptor,
      cap_supported_modes := ad_supported_modes descriptor,
      cap_min_number := ad_min_number descriptor,
      cap_max_number := ad_max_number descriptor,
      cap_default_number := ad_default_number descriptor,
      cap_step_number := ad_step_number descriptor,
      cap_choices := copy_choices (ad_choices descriptor),
      cap_has_default_choice_value := ad_has_default_choice_value descriptor,
      cap_default_choice_value := ad_default_choice_value descriptor,
      cap_has_default_bool := ad_has_default_bool descriptor,
      cap_default_bool := ad_default_bool descriptor\<rparr>"

text \<open>The array is emptied before the descriptors are collected, so a failure leaves it empty.\<close>

definition dt_agent_capabilities_collect ::
  "env \<Rightarrow> world \<Rightarrow> dt_develop option \<Rightarrow> dt_agent_capability list option \<Rightarrow> gerror option
     \<Rightarrow> bool \<times> dt_agent_capability list option \<times> gerror option" where
  "dt_agent_capabilities_collect env wl dev capabilities error =
     (if dev = None \<or> capabilities = None
      then (False, capabilities, g_set_error error (agent_capabilities_error ''missing agent capability manifest''))
      else case dt_agent_catalog_collect_descriptors env wl dev of
          Inl e \<Rightarrow> (False, Some [], g_set_error error e)
        | Inr descriptors \<Rightarrow> (True, Some (map capability_of_descriptor descriptors), error))"

subsection \<open>The darkroom as the state collectors see it\<close>

record dt_image =
  im_id :: int
  im_filename :: string
  im_camera_maker :: string
  im_camera_model :: string
  im_width :: int
  im_height :: int
  im_exif_exposure :: flt
  im_exif_aperture :: flt
  im_exif_iso :: flt
  im_exif_focal_length :: flt

record dt_dev_history_item =
  dh_enabled :: bool
  dh_op_name :: string
  dh_iop_order :: int
  dh_multi_priority :: int
  dh_multi_name :: string
  dh_num :: int

text \<open>The back buffer: blue, green, red and an unused byte per pixel.\<close>

record dt_dev_pixelpipe =
  pp_backbuf :: "8 word list option"
  pp_backbuf_width :: int
  pp_backbuf_height :: int

record develop_state =
  dv_modules :: dt_develop
  dv_image_storage :: dt_image
  dv_history_end :: int
  dv_history :: "dt_dev_history_item option list"
  dv_preview_pipe :: "dt_dev_pixelpipe option"

record GdkPixbuf =
  pb_width :: int
  pb_height :: int
  pb_rowstride :: int
  pb_n_channels :: int
  pb_pixels :: "8 word list option"

record dt_agent_memory_format =
  mf_max_width :: int
  mf_max_height :: int
  mf_width :: int
  mf_height :: int
  mf_buf :: "flt list option"

text \<open>
  \<open>ce_export id history_end format write_image\<close> runs the export with the callback \<open>write_image\<close>,
  which is given the pixels, and returns whether it failed and the format it filled.
\<close>

record collect_env =
  ce_new_from_data :: "8 word list \<Rightarrow> int \<Rightarrow> int \<Rightarrow> int \<Rightarrow> GdkPixbuf option"
  ce_scale_simple :: "GdkPixbuf \<Rightarrow> int \<Rightarrow> int \<Rightarrow> GdkPixbuf option"
  ce_save_jpeg :: "GdkPixbuf \<Rightarrow> string option"
  ce_base64_encode :: "string \<Rightarrow> string"
  ce_malloc :: "nat \<Rightarrow> bool"
  ce_export :: "int \<Rightarrow> int \<Rightarrow> dt_agent_memory_format
     \<Rightarrow> (flt list \<Rightarrow> dt_agent_memory_format \<Rightarrow> bool \<times> dt_agent_memory_format)
     \<Rightarrow> bool \<times> dt_agent_memory_format"

subsection \<open>Metadata, controls and history\<close>

text \<open>\<open>s[0] ? g_strdup (s) : NULL\<close> for an array inside a struct.\<close>

definition null_if_empty :: "string \<Rightarrow> cstr" where
  "null_if_empty s = (if s = [] then None else Some s)"

definition collect_metadata :: "develop_state \<Rightarrow> dt_agent_image_state \<Rightarrow> dt_agent_image_state" where
  "collect_metadata dev state =
     (let image = dv_image_storage dev
      in state\<lparr>st_metadata := (st_metadata state)
        \<lparr>md_has_image_id := 0 < im_id image,
         md_image_id := im_id image,
         md_image_name := null_if_empty (im_filename image),
         md_camera_maker := null_if_empty (im_camera_maker image),
         md_camera_model := null_if_empty (im_camera_model image),
         md_width := im_width image,
         md_height := im_height image,
         md_exif_exposure_seconds := im_exif_exposure image,
         md_exif_aperture := im_exif_aperture image,
         md_exif_iso := im_exif_iso image,
         md_exif_focal_length := im_exif_focal_length image\<rparr>\<rparr>)"

definition control_copy_choices ::
  "dt_agent_action_descriptor \<Rightarrow> dt_agent_image_control \<Rightarrow> dt_agent_image_control" where
  "control_copy_choices descriptor control =
     (case ad_choices descriptor of
        None \<Rightarrow> control
      | Some options \<Rightarrow> control\<lparr>ctl_choices := Some (map dt_agent_choice_option_copy options)\<rparr>)"

definition control_static :: "dt_agent_action_descriptor \<Rightarrow> dt_agent_image_control" where
  "control_static descriptor = control_copy_choices descriptor (zero_control
     \<lparr>ctl_module_id := ad_module_id descriptor,
      ctl_module_label := ad_module_label descriptor,
      ctl_setting_id := ad_setting_id descriptor,
      ctl_capability_id := ad_capability_id descriptor,
      ctl_label := ad_label descriptor,
      ctl_kind := ad_kind_name descriptor,
      ctl_action_path := ad_action_path descriptor,
      ctl_supported_modes := ad_supported_modes descriptor,
      ctl_min_number := ad_min_number descriptor,
      ctl_max_number := ad_max_number descriptor,
      ctl_default_number := ad_default_number descriptor,
      ctl_step_number := ad_step_number descriptor,
      ctl_has_default_choice_value := ad_has_default_choice_value descriptor,
      ctl_default_choice_value := ad_default_choice_value descriptor,
      ctl_has_default_bool := ad_has_default_bool descriptor,
      ctl_default_bool := ad_default_bool descriptor\<rparr>)"

text \<open>A reader that fails leaves the zeroed current value in place.\<close>

definition control_of_descriptor ::
  "env \<Rightarrow> world \<Rightarrow> dt_agent_action_descriptor \<Rightarrow> dt_agent_image_control" where
  "control_of_descriptor env wl descriptor =
     (let control = control_static descriptor
      in case ad_operation_kind descriptor of
           DT_AGENT_OPERATION_SET_FLOAT \<Rightarrow>
             (case fst (dt_agent_catalog_read_current_number env wl descriptor None) of
                Some v \<Rightarrow> control\<lparr>ctl_has_current_number := True, ctl_current_number := v\<rparr>
              | None \<Rightarrow> control\<lparr>ctl_has_current_number := False\<rparr>)
         | DT_AGENT_OPERATION_SET_CHOICE \<Rightarrow>
             (case fst (dt_agent_catalog_read_current_choice wl descriptor None) of
                Some (v, vid) \<Rightarrow> control\<lparr>ctl_has_current_choice_value := True,
                  ctl_current_choice_value := v, ctl_current_choice_id := vid\<rparr>
              | None \<Rightarrow> control\<lparr>ctl_has_current_choice_value := False\<rparr>)
         | DT_AGENT_OPERATION_SET_BOOL \<Rightarrow>
             (case fst (dt_agent_catalog_read_current_bool wl descriptor None) of
                Some v \<Rightarrow> control\<lparr>ctl_has_current_bool := True, ctl_current_bool := v\<rparr>
              | None \<Rightarrow> control\<lparr>ctl_has_current_bool := False\<rparr>)
         | DT_AGENT_OPERATION_UNKNOWN \<Rightarrow> control)"

definition collect_controls ::
  "env \<Rightarrow> world \<Rightarrow> develop_state \<Rightarrow> dt_agent_image_state \<Rightarrow> dt_agent_image_state" where
  "collect_controls env wl dev state =
     (case dt_agent_catalog_collect_descriptors env wl (Some (dv_modules dev)) of
        Inl _ \<Rightarrow> state
      | Inr descriptors \<Rightarrow> state\<lparr>st_controls :=
          Some (garray (st_controls state) @ map (control_of_descriptor env wl) descriptors)\<rparr>)"

definition history_item :: "dt_dev_history_item \<Rightarrow> dt_agent_history_item" where
  "history_item h = \<lparr>hi_num = dh_num h, hi_module = null_if_empty (dh_op_name h),
     hi_enabled = dh_enabled h, hi_multi_priority = dh_multi_priority h,
     hi_instance_name = null_if_empty (dh_multi_name h), hi_iop_order = dh_iop_order h\<rparr>"

text \<open>The loop over the history list, from \<open>index\<close> on; items without data are skipped but counted.\<close>

fun history_items :: "int \<Rightarrow> int \<Rightarrow> dt_dev_history_item option list \<Rightarrow> dt_agent_history_item list" where
  "history_items index history_end [] = []"
| "history_items index history_end (x # xs) =
     (if history_end \<le> index then []
      else (case x of None \<Rightarrow> [] | Some h \<Rightarrow> [history_item h]) @ history_items (index + 1) history_end xs)"

definition collect_history :: "develop_state \<Rightarrow> dt_agent_image_state \<Rightarrow> dt_agent_image_state" where
  "collect_history dev state = state
     \<lparr>st_history_position := dv_history_end dev,
      st_history_count := int (length (dv_history dev)),
      st_history := Some (garray (st_history state)
        @ history_items 0 (dv_history_end dev) (dv_history dev))\<rparr>"

subsection \<open>Histograms\<close>

text \<open>\<open>CLAMP ((gint) lrintf (v * 255.0f), 0, 255)\<close>.\<close>

definition unit_bin :: "flt \<Rightarrow> nat" where
  "unit_bin v = nat (CLAMPi (to_gint (lrint (fmul round32 v (Fin 255)))) 0 255)"

definition luma_of :: "flt \<Rightarrow> flt \<Rightarrow> flt \<Rightarrow> flt" where
  "luma_of red green blue =
     fadd round32 (fadd round32 (fmul round32 (round32 (2126 / 10000)) red)
                                (fmul round32 (round32 (7152 / 10000)) green))
                  (fmul round32 (round32 (722 / 10000)) blue)"

record pixel_bins =
  bin_red :: nat
  bin_green :: nat
  bin_blue :: nat
  bin_luma :: nat

definition bump :: "nat \<Rightarrow> 32 word list \<Rightarrow> 32 word list" where
  "bump b h = h[b := h ! b + 1]"

definition count_pixel :: "pixel_bins \<Rightarrow> dt_agent_histogram \<Rightarrow> dt_agent_histogram" where
  "count_pixel b h = h\<lparr>hg_red := bump (bin_red b) (hg_red h), hg_green := bump (bin_green b) (hg_green h),
     hg_blue := bump (bin_blue b) (hg_blue h), hg_luma := bump (bin_luma b) (hg_luma h)\<rparr>"

definition buffer_bins :: "flt list \<Rightarrow> nat \<Rightarrow> pixel_bins" where
  "buffer_bins buf i =
     (let red = CLAMPS (buf ! (4 * i + 0)) (Fin 0) (Fin 1);
          green = CLAMPS (buf ! (4 * i + 1)) (Fin 0) (Fin 1);
          blue = CLAMPS (buf ! (4 * i + 2)) (Fin 0) (Fin 1);
          luma = CLAMPS (luma_of red green blue) (Fin 0) (Fin 1)
      in \<lparr>bin_red = unit_bin red, bin_green = unit_bin green, bin_blue = unit_bin blue,
          bin_luma = unit_bin luma\<rparr>)"

definition histogram_on :: "dt_agent_histogram \<Rightarrow> dt_agent_histogram" where
  "histogram_on h = h\<lparr>hg_available := True, hg_bin_count := 256\<rparr>"

definition collect_histogram_from_buffer ::
  "flt list option \<Rightarrow> int \<Rightarrow> int \<Rightarrow> dt_agent_image_state \<Rightarrow> dt_agent_image_state" where
  "collect_histogram_from_buffer buf width height state =
     (case buf of
        None \<Rightarrow> state
      | Some b \<Rightarrow>
          if width \<le> 0 \<or> height \<le> 0 then state
          else state\<lparr>st_histogram := fold (\<lambda>i. count_pixel (buffer_bins b i)) [0..<nat (width * height)]
                 (histogram_on (st_histogram state))\<rparr>)"

definition pixel_bins_at :: "8 word list \<Rightarrow> nat \<Rightarrow> pixel_bins" where
  "pixel_bins_at pixels a =
     (let red = unat (pixels ! a); green = unat (pixels ! (a + 1)); blue = unat (pixels ! (a + 2));
          luma = CLAMPS (fdiv round32 (luma_of (Fin (of_nat red)) (Fin (of_nat green)) (Fin (of_nat blue)))
                          (Fin 255)) (Fin 0) (Fin 1)
      in \<lparr>bin_red = red, bin_green = green, bin_blue = blue, bin_luma = unit_bin luma\<rparr>)"

definition collect_histogram_from_pixbuf ::
  "GdkPixbuf option \<Rightarrow> dt_agent_image_state \<Rightarrow> dt_agent_image_state" where
  "collect_histogram_from_pixbuf pixbuf state =
     (case pixbuf of
        None \<Rightarrow> state
      | Some pb \<Rightarrow>
          (case pb_pixels pb of
             None \<Rightarrow> state
           | Some pixels \<Rightarrow>
               if pb_width pb \<le> 0 \<or> pb_height pb \<le> 0 \<or> pb_n_channels pb < 3 \<or> pb_rowstride pb \<le> 0
               then state
               else state\<lparr>st_histogram :=
                 fold (\<lambda>y. fold (\<lambda>x. count_pixel (pixel_bins_at pixels
                           (y * nat (pb_rowstride pb) + x * nat (pb_n_channels pb))))
                         [0..<nat (pb_width pb)])
                   [0..<nat (pb_height pb)] (histogram_on (st_histogram state))\<rparr>))"

subsection \<open>The rendered preview\<close>

definition collect_preview_from_pixbuf ::
  "collect_env \<Rightarrow> develop_state \<Rightarrow> GdkPixbuf option \<Rightarrow> dt_agent_image_state \<Rightarrow> dt_agent_image_state" where
  "collect_preview_from_pixbuf ce dev pixbuf state =
     (case pixbuf of
        None \<Rightarrow> state
      | Some pb \<Rightarrow>
          if \<not> md_has_image_id (st_metadata state) then state
          else case ce_save_jpeg ce pb of
              None \<Rightarrow> state
            | Some jpeg_data \<Rightarrow> state\<lparr>st_preview := (st_preview state)
                \<lparr>pv_available := True,
                 pv_preview_id := Some (''preview-'' @ show_int (md_image_id (st_metadata state))
                   @ ''-history-'' @ show_int (dv_history_end dev)),
                 pv_mime_type := Some ''image/jpeg'',
                 pv_width := pb_width pb,
                 pv_height := pb_height pb,
                 pv_base64_data := Some (ce_base64_encode ce jpeg_data)\<rparr>\<rparr>)"

definition backbuf_pixels :: "8 word list \<Rightarrow> nat \<Rightarrow> 8 word list" where
  "backbuf_pixels source n =
     concat (map (\<lambda>i. [source ! (4 * i + 2), source ! (4 * i + 1), source ! (4 * i)]) [0..<n])"

definition preview_max_dim :: int where "preview_max_dim = 1000"

definition preview_target :: "int \<Rightarrow> int \<Rightarrow> int \<times> int" where
  "preview_target width height =
     (let factor = MINf (fdiv round64 (Fin (of_int preview_max_dim)) (Fin (of_int width)))
                        (fdiv round64 (Fin (of_int preview_max_dim)) (Fin (of_int height)))
      in (CLAMPi (to_gint (lrint (fmul round64 (Fin (of_int width)) factor))) 1 preview_max_dim,
          CLAMPi (to_gint (lrint (fmul round64 (Fin (of_int height)) factor))) 1 preview_max_dim))"

definition snapshot_from_preview_pipe ::
  "collect_env \<Rightarrow> develop_state \<Rightarrow> dt_agent_image_state \<Rightarrow> bool \<times> dt_agent_image_state" where
  "snapshot_from_preview_pipe ce dev state =
     (case dv_preview_pipe dev of
        None \<Rightarrow> (False, state)
      | Some pipe \<Rightarrow>
          if \<not> md_has_image_id (st_metadata state) then (False, state)
          else case pp_backbuf pipe of
              None \<Rightarrow> (False, state)
            | Some source \<Rightarrow>
                let width = pp_backbuf_width pipe; height = pp_backbuf_height pipe
                in if width \<le> 0 \<or> height \<le> 0 then (False, state)
                   else case ce_new_from_data ce (backbuf_pixels source (nat (width * height)))
                               width height (width * 3) of
                       None \<Rightarrow> (False, state)
                     | Some pixbuf \<Rightarrow>
                         let (target_width, target_height) = preview_target width height;
                             scaled = (if preview_max_dim < width \<or> preview_max_dim < height
                                       then ce_scale_simple ce pixbuf target_width target_height
                                       else Some pixbuf)
                         in if scaled = None then (False, state)
                            else let state = collect_histogram_from_pixbuf scaled
                                               (collect_preview_from_pixbuf ce dev scaled state)
                                 in (pv_available (st_preview state), state))"

definition memory_write_image ::
  "collect_env \<Rightarrow> flt list \<Rightarrow> dt_agent_memory_format \<Rightarrow> bool \<times> dt_agent_memory_format" where
  "memory_write_image ce pixels format =
     (let n = nat (4 * mf_width format * mf_height format)
      in if \<not> ce_malloc ce (4 * n) then (True, format\<lparr>mf_buf := None\<rparr>)
         else (False, format\<lparr>mf_buf := Some (take n pixels)\<rparr>))"

definition export_pixels :: "flt list \<Rightarrow> nat \<Rightarrow> 8 word list" where
  "export_pixels buf n =
     concat (map (\<lambda>i. map (\<lambda>k. word_of_nat (unit_bin (CLAMPS (buf ! (4 * i + k)) (Fin 0) (Fin 1)))) [0..<3])
       [0..<n])"

definition snapshot_from_export_fallback ::
  "collect_env \<Rightarrow> develop_state \<Rightarrow> dt_agent_image_state \<Rightarrow> dt_agent_image_state" where
  "snapshot_from_export_fallback ce dev state =
     (if \<not> md_has_image_id (st_metadata state) then state
      else
        let (failed, memory) = ce_export ce (md_image_id (st_metadata state)) (dv_history_end dev)
              \<lparr>mf_max_width = 1000, mf_max_height = 1000, mf_width = 0, mf_height = 0, mf_buf = None\<rparr>
              (memory_write_image ce)
        in if failed then state
           else
             let width = mf_width memory; height = mf_height memory;
                 state = collect_histogram_from_buffer (mf_buf memory) width height state
             in case mf_buf memory of
                  None \<Rightarrow> state
                | Some buf \<Rightarrow>
                    if width \<le> 0 \<or> height \<le> 0 then state
                    else collect_preview_from_pixbuf ce dev
                           (ce_new_from_data ce (export_pixels buf (nat (width * height)))
                              width height (width * 3)) state)"

definition collect_render_snapshot ::
  "collect_env \<Rightarrow> develop_state \<Rightarrow> dt_agent_image_state \<Rightarrow> dt_agent_image_state" where
  "collect_render_snapshot ce dev state =
     (let (got, state) = snapshot_from_preview_pipe ce dev state
      in if got then state else snapshot_from_export_fallback ce dev state)"

definition agent_state_error :: "string \<Rightarrow> gerror" where
  "agent_state_error msg =
     \<lparr>gerr_domain = ''dt-agent-state-error'', gerr_code = 1, gerr_message = msg\<rparr>"

definition dt_agent_image_state_collect_from_dev ::
  "collect_env \<Rightarrow> env \<Rightarrow> world \<Rightarrow> develop_state option \<Rightarrow> dt_agent_image_state option \<Rightarrow> gerror option
     \<Rightarrow> bool \<times> dt_agent_image_state option \<times> gerror option" where
  "dt_agent_image_state_collect_from_dev ce env wl dev state error =
     (case (dev, state) of
        (Some d, Some st) \<Rightarrow>
          let st = dt_agent_image_state_clear st;
              st = dt_agent_image_state_init;
              st = collect_metadata d st;
              st = collect_controls env wl d st;
              st = collect_history d st;
              st = collect_render_snapshot ce d st
          in (True, Some st, error)
      | _ \<Rightarrow> (False, state, g_set_error error (agent_state_error ''missing darkroom state'')))"

subsection \<open>Histograms count pixels\<close>

lemma unit_bin_less [simp]: "unit_bin v < 256"
  using CLAMPi_range [of 0 255 "to_gint (lrint (fmul round32 v (Fin 255)))"]
  by (simp add: unit_bin_def nat_less_iff)

definition wf_bins :: "pixel_bins \<Rightarrow> bool" where
  "wf_bins b \<longleftrightarrow> bin_red b < 256 \<and> bin_green b < 256 \<and> bin_blue b < 256 \<and> bin_luma b < 256"

lemma byte_less [simp]: "unat (w :: 8 word) < 256"
proof -
  have "unat w < 2 ^ LENGTH(8)" by (rule unsigned_less)
  then show ?thesis by simp
qed

lemma wf_buffer_bins [simp]: "wf_bins (buffer_bins b i)"
  by (simp add: wf_bins_def buffer_bins_def Let_def)

lemma wf_pixel_bins [simp]: "wf_bins (pixel_bins_at p a)"
  by (simp add: wf_bins_def pixel_bins_at_def Let_def)

lemma bump_length [simp]: "length (bump b h) = length h"
  by (simp add: bump_def)

lemma bump_nth: "v < length h \<Longrightarrow> bump b h ! v = h ! v + (if b = v then 1 else 0)"
  by (auto simp: bump_def nth_list_update)

text \<open>The histogram \<open>h\<close> counts the pixels of \<open>bs\<close> in every channel, modulo \<open>2 ^ 32\<close>.\<close>

definition channel_counts :: "nat list \<Rightarrow> 32 word list \<Rightarrow> bool" where
  "channel_counts xs h \<longleftrightarrow> length h = 256 \<and> (\<forall>v<256. h ! v = of_nat (count_list xs v))"

definition counts :: "pixel_bins list \<Rightarrow> dt_agent_histogram \<Rightarrow> bool" where
  "counts bs h \<longleftrightarrow> channel_counts (map bin_red bs) (hg_red h) \<and> channel_counts (map bin_green bs) (hg_green h)
     \<and> channel_counts (map bin_blue bs) (hg_blue h) \<and> channel_counts (map bin_luma bs) (hg_luma h)"

lemma channel_counts_bump: "channel_counts xs h \<Longrightarrow> channel_counts (xs @ [b]) (bump b h)"
  by (simp add: channel_counts_def bump_nth)

lemma channel_counts_empty [simp]: "channel_counts [] (replicate 256 0)"
  by (simp add: channel_counts_def)

lemma counts_pixel: "counts bs h \<Longrightarrow> counts (bs @ [b]) (count_pixel b h)"
  by (simp add: counts_def count_pixel_def channel_counts_bump)

lemma counts_fold: "counts bs h \<Longrightarrow> counts (bs @ cs) (fold count_pixel cs h)"
proof (induction cs arbitrary: bs h)
  case (Cons c cs)
  from Cons.IH [OF counts_pixel [OF Cons.prems]] show ?case by simp
qed simp

lemma counts_zero [simp]: "counts [] zero_histogram"
  by (simp add: counts_def zero_histogram_def)

lemma counts_histogram_on [simp]: "counts bs (histogram_on h) = counts bs h"
  by (simp add: counts_def histogram_on_def)

lemma channel_total:
  assumes "channel_counts xs h" "\<forall>x \<in> set xs. x < 256"
  shows "sum_list h = of_nat (length xs)"
proof -
  have "sum_list h = (\<Sum>v<256. of_nat (count_list xs v))"
    using assms(1) by (simp add: channel_counts_def sum_list_sum_nth atLeast0LessThan)
  also have "\<dots> = of_nat (\<Sum>v<256. count_list xs v)" by simp
  also have "(\<Sum>v<256. count_list xs v) = (\<Sum>v \<in> set xs. count_list xs v)"
    using assms(2) by (intro sum.mono_neutral_right) (auto simp: count_list_0_iff)
  also have "\<dots> = length xs" by (rule sum_count_set) simp_all
  finally show ?thesis .
qed

lemma counts_totals:
  assumes "counts bs h" "\<forall>b \<in> set bs. wf_bins b"
  shows "\<forall>c \<in> {hg_red h, hg_green h, hg_blue h, hg_luma h}. length c = 256 \<and> sum_list c = of_nat (length bs)"
  using assms channel_total [of "map bin_red bs" "hg_red h"] channel_total [of "map bin_green bs" "hg_green h"]
    channel_total [of "map bin_blue bs" "hg_blue h"] channel_total [of "map bin_luma bs" "hg_luma h"]
  by (auto simp: counts_def wf_bins_def channel_counts_def)

subsection \<open>What the collectors do to the image state\<close>

lemma fold_map': "fold (\<lambda>i. f (g i)) xs s = fold f (map g xs) s"
  by (simp add: fold_map comp_def)

lemma fold_nested:
  "fold (\<lambda>y. fold (\<lambda>x. f (g y x)) (xs y)) ys s = fold f (concat (map (\<lambda>y. map (g y) (xs y)) ys)) s"
  by (induction ys arbitrary: s) (simp_all add: fold_map')

definition buffer_pixels :: "flt list \<Rightarrow> int \<Rightarrow> int \<Rightarrow> pixel_bins list" where
  "buffer_pixels b width height = map (buffer_bins b) [0..<nat (width * height)]"

lemma buffer_histogram:
  assumes "0 < width" "0 < height"
  shows "collect_histogram_from_buffer (Some b) width height state = state\<lparr>st_histogram :=
    fold count_pixel (buffer_pixels b width height) (histogram_on (st_histogram state))\<rparr>"
  using assms by (simp add: collect_histogram_from_buffer_def fold_map' buffer_pixels_def)

lemma pixbuf_histogram:
  assumes "pb_pixels pb = Some px" "0 < pb_width pb" "0 < pb_height pb" "3 \<le> pb_n_channels pb" "0 < pb_rowstride pb"
  obtains bs where "length bs = nat (pb_width pb * pb_height pb)" "\<forall>b \<in> set bs. wf_bins b"
    "collect_histogram_from_pixbuf (Some pb) state = state\<lparr>st_histogram :=
       fold count_pixel bs (histogram_on (st_histogram state))\<rparr>"
proof -
  let ?row = "\<lambda>y. map (\<lambda>x. pixel_bins_at px (y * nat (pb_rowstride pb) + x * nat (pb_n_channels pb)))
    [0..<nat (pb_width pb)]"
  let ?bs = "concat (map ?row [0..<nat (pb_height pb)])"
  have "length ?bs = nat (pb_height pb) * nat (pb_width pb)"
    by (simp add: length_concat comp_def sum_list_triv)
  moreover have "nat (pb_width pb * pb_height pb) = nat (pb_height pb) * nat (pb_width pb)"
    using assms by (simp add: nat_mult_distrib mult.commute)
  ultimately have "length ?bs = nat (pb_width pb * pb_height pb)" by simp
  moreover have "\<forall>b \<in> set ?bs. wf_bins b" by auto
  moreover have "collect_histogram_from_pixbuf (Some pb) state = state\<lparr>st_histogram :=
       fold count_pixel ?bs (histogram_on (st_histogram state))\<rparr>"
    using assms fold_nested [of count_pixel
        "\<lambda>y x. pixel_bins_at px (y * nat (pb_rowstride pb) + x * nat (pb_n_channels pb))"
        "\<lambda>_. [0..<nat (pb_width pb)]"]
    by (simp add: collect_histogram_from_pixbuf_def)
  ultimately show thesis by (rule that)
qed

lemma preview_target_range:
  "preview_target w h = (tw, th) \<Longrightarrow> 1 \<le> tw \<and> tw \<le> 1000 \<and> 1 \<le> th \<and> th \<le> 1000"
  using CLAMPi_range [of 1 1000] by (auto simp: preview_target_def preview_max_dim_def Let_def)

text \<open>What GdkPixbuf documents: the sizes of new and scaled pixbufs, and that packed RGB pixels are kept.\<close>

definition gdk_documented :: "collect_env \<Rightarrow> bool" where
  "gdk_documented ce \<longleftrightarrow>
     (\<forall>px w h pb. ce_new_from_data ce px w h (w * 3) = Some pb \<longrightarrow>
        pb_width pb = w \<and> pb_height pb = h \<and> pb_n_channels pb = 3 \<and> pb_rowstride pb = w * 3
        \<and> pb_pixels pb = Some px)
     \<and> (\<forall>pb w h pb'. ce_scale_simple ce pb w h = Some pb' \<longrightarrow>
        pb_width pb' = w \<and> pb_height pb' = h \<and> pb_n_channels pb' = pb_n_channels pb
        \<and> 0 < pb_rowstride pb' \<and> pb_pixels pb' \<noteq> None)"

definition histogram_totals :: "dt_agent_histogram \<Rightarrow> nat \<Rightarrow> bool" where
  "histogram_totals h n \<longleftrightarrow> hg_available h \<and> hg_bin_count h = 256
     \<and> (\<forall>c \<in> {hg_red h, hg_green h, hg_blue h, hg_luma h}. length c = 256 \<and> sum_list c = of_nat n)"

lemma fold_count_available [simp]:
  "hg_available (fold count_pixel bs h) = hg_available h" "hg_bin_count (fold count_pixel bs h) = hg_bin_count h"
  by (induction bs arbitrary: h) (simp_all add: count_pixel_def)

text \<open>The histogram counts \<open>n\<close> pixels, or none yet.\<close>

definition counts_pixels :: "nat \<Rightarrow> dt_agent_histogram \<Rightarrow> bool" where
  "counts_pixels n h \<longleftrightarrow> (\<exists>bs. length bs = n \<and> (\<forall>b \<in> set bs. wf_bins b) \<and> counts bs h)"

lemma counts_pixels_zero [simp]: "counts_pixels 0 zero_histogram"
  by (simp add: counts_pixels_def)

lemma counts_pixels_on: "counts_pixels n h \<Longrightarrow> counts_pixels n (histogram_on h)"
  by (simp add: counts_pixels_def counts_def histogram_on_def)

lemma counts_pixels_fold:
  assumes "counts_pixels n h" "\<forall>b \<in> set bs. wf_bins b"
  shows "counts_pixels (n + length bs) (fold count_pixel bs (histogram_on h))"
proof -
  from counts_pixels_on [OF assms(1)] obtain cs where
    "length cs = n" "\<forall>b \<in> set cs. wf_bins b" "counts cs (histogram_on h)" by (auto simp: counts_pixels_def)
  with assms(2) counts_fold [OF this(3), of bs] show ?thesis
    unfolding counts_pixels_def by (intro exI [of _ "cs @ bs"]) auto
qed

lemma counts_pixels_totals:
  assumes "counts_pixels n h" "hg_available h" "hg_bin_count h = 256"
  shows "histogram_totals h n"
  using assms counts_totals by (auto simp: counts_pixels_def histogram_totals_def)

subsection \<open>The picture of the back buffer\<close>

text \<open>The pixbuf the preview pipe's back buffer gives, scaled down if it is too large.\<close>

definition pipe_pixbuf :: "collect_env \<Rightarrow> develop_state \<Rightarrow> GdkPixbuf option" where
  "pipe_pixbuf ce dev =
     (case dv_preview_pipe dev of
        None \<Rightarrow> None
      | Some pipe \<Rightarrow>
          (case pp_backbuf pipe of
             None \<Rightarrow> None
           | Some source \<Rightarrow>
               let width = pp_backbuf_width pipe; height = pp_backbuf_height pipe
               in if width \<le> 0 \<or> height \<le> 0 then None
                  else case ce_new_from_data ce (backbuf_pixels source (nat (width * height)))
                              width height (width * 3) of
                      None \<Rightarrow> None
                    | Some pixbuf \<Rightarrow>
                        if preview_max_dim < width \<or> preview_max_dim < height
                        then ce_scale_simple ce pixbuf (fst (preview_target width height))
                               (snd (preview_target width height))
                        else Some pixbuf))"

lemma snapshot_from_pipe_pixbuf:
  "snapshot_from_preview_pipe ce dev state =
     (if \<not> md_has_image_id (st_metadata state) then (False, state)
      else case pipe_pixbuf ce dev of
          None \<Rightarrow> (False, state)
        | Some pb \<Rightarrow>
            let st = collect_histogram_from_pixbuf (Some pb) (collect_preview_from_pixbuf ce dev (Some pb) state)
            in (pv_available (st_preview st), st))"
  by (auto simp: snapshot_from_preview_pipe_def pipe_pixbuf_def Let_def split: option.splits prod.splits)

lemma pipe_pixbuf_shape:
  assumes gdk: "gdk_documented ce" and "pipe_pixbuf ce dev = Some sc"
  shows "0 < pb_width sc \<and> 0 < pb_height sc \<and> pb_width sc \<le> 1000 \<and> pb_height sc \<le> 1000
    \<and> pb_n_channels sc = 3 \<and> 0 < pb_rowstride sc \<and> pb_pixels sc \<noteq> None"
proof -
  from assms(2) obtain pipe source pb where p: "dv_preview_pipe dev = Some pipe" "pp_backbuf pipe = Some source"
    "0 < pp_backbuf_width pipe" "0 < pp_backbuf_height pipe"
    and pb: "ce_new_from_data ce (backbuf_pixels source (nat (pp_backbuf_width pipe * pp_backbuf_height pipe)))
      (pp_backbuf_width pipe) (pp_backbuf_height pipe) (pp_backbuf_width pipe * 3) = Some pb"
    by (auto simp: pipe_pixbuf_def Let_def split: option.splits if_splits)
  let ?w = "pp_backbuf_width pipe" and ?h = "pp_backbuf_height pipe"
  obtain tw th where t: "preview_target ?w ?h = (tw, th)" by force
  from gdk pb have new: "pb_width pb = ?w" "pb_height pb = ?h" "pb_n_channels pb = 3" "pb_rowstride pb = ?w * 3"
    "pb_pixels pb \<noteq> None" unfolding gdk_documented_def by blast+
  show ?thesis
  proof (cases "preview_max_dim < ?w \<or> preview_max_dim < ?h")
    case True
    with assms(2) p pb t have "ce_scale_simple ce pb tw th = Some sc" by (simp add: pipe_pixbuf_def)
    with gdk have "pb_width sc = tw \<and> pb_height sc = th \<and> pb_n_channels sc = pb_n_channels pb
        \<and> 0 < pb_rowstride sc \<and> pb_pixels sc \<noteq> None" unfolding gdk_documented_def by blast
    with preview_target_range [OF t] new(3) show ?thesis by simp
  next
    case False
    with assms(2) p pb have "sc = pb" by (auto simp: pipe_pixbuf_def)
    with new p(3,4) False show ?thesis by (simp add: preview_max_dim_def)
  qed
qed

text \<open>
  The pixels the histogram has counted before the export is tried: those of the back buffer, if it
  gave a picture that could not be encoded.
\<close>

definition pixels_counted_before :: "collect_env \<Rightarrow> develop_state \<Rightarrow> nat" where
  "pixels_counted_before ce dev =
     (case pipe_pixbuf ce dev of
        None \<Rightarrow> 0
      | Some pb \<Rightarrow> if ce_save_jpeg ce pb = None then nat (pb_width pb * pb_height pb) else 0)"

lemma collect_histogram_pixbuf_counts:
  assumes "gdk_documented ce" "pipe_pixbuf ce dev = Some pb" "counts_pixels n (st_histogram state)"
  shows "histogram_totals (st_histogram (collect_histogram_from_pixbuf (Some pb) state))
           (n + nat (pb_width pb * pb_height pb))
     \<and> counts_pixels (n + nat (pb_width pb * pb_height pb))
         (st_histogram (collect_histogram_from_pixbuf (Some pb) state))
     \<and> st_preview (collect_histogram_from_pixbuf (Some pb) state) = st_preview state"
proof -
  from pipe_pixbuf_shape [OF assms(1,2)] obtain px where px: "pb_pixels pb = Some px" by auto
  with pipe_pixbuf_shape [OF assms(1,2)] obtain bs where bs: "length bs = nat (pb_width pb * pb_height pb)"
    "\<forall>b \<in> set bs. wf_bins b" "collect_histogram_from_pixbuf (Some pb) state = state\<lparr>st_histogram :=
       fold count_pixel bs (histogram_on (st_histogram state))\<rparr>"
    using pixbuf_histogram [of pb px state] by auto
  from counts_pixels_fold [OF assms(3) bs(2)]
  have c: "counts_pixels (n + nat (pb_width pb * pb_height pb))
      (fold count_pixel bs (histogram_on (st_histogram state)))" by (simp add: bs(1))
  then show ?thesis unfolding bs(3)
    using counts_pixels_totals [OF c] by (simp add: histogram_on_def)
qed

text \<open>The export honours the maximal size it is given.\<close>

definition export_bounded :: "collect_env \<Rightarrow> bool" where
  "export_bounded ce \<longleftrightarrow> (\<forall>image_id he fmt fmt'. ce_export ce image_id he fmt (memory_write_image ce) = (False, fmt') \<longrightarrow>
     mf_width fmt' \<le> mf_max_width fmt \<and> mf_height fmt' \<le> mf_max_height fmt)"

text \<open>
  What is claimed of a preview: its size, the histogram beside it (\<open>before\<close> pixels were counted
  already), and whose preview it is.
\<close>

definition preview_ok :: "nat \<Rightarrow> develop_state \<Rightarrow> dt_agent_image_state \<Rightarrow> bool" where
  "preview_ok before dev st \<longleftrightarrow>
     (let p = st_preview st
      in 1 \<le> pv_width p \<and> pv_width p \<le> 1000 \<and> 1 \<le> pv_height p \<and> pv_height p \<le> 1000
         \<and> histogram_totals (st_histogram st) (before + nat (pv_width p * pv_height p))
         \<and> 0 < im_id (dv_image_storage dev)
         \<and> pv_preview_id p = Some (''preview-'' @ show_int (im_id (dv_image_storage dev))
              @ ''-history-'' @ show_int (dv_history_end dev)))"

lemma export_result:
  assumes gdk: "gdk_documented ce" and ex: "export_bounded ce"
    and fresh: "counts_pixels n (st_histogram state)" "\<not> pv_available (st_preview state)"
    and md: "md_image_id (st_metadata state) = im_id (dv_image_storage dev)"
      "md_has_image_id (st_metadata state) = (0 < im_id (dv_image_storage dev))"
    and pv: "pv_available (st_preview (snapshot_from_export_fallback ce dev state))"
  shows "preview_ok n dev (snapshot_from_export_fallback ce dev state)"
proof -
  let ?fmt = "\<lparr>mf_max_width = 1000, mf_max_height = 1000, mf_width = 0, mf_height = 0, mf_buf = None\<rparr>"
  obtain failed m where m: "ce_export ce (md_image_id (st_metadata state)) (dv_history_end dev) ?fmt
      (memory_write_image ce) = (failed, m)" by force
  have f: "md_has_image_id (st_metadata state)" "\<not> failed"
    using pv fresh m by (auto simp: snapshot_from_export_fallback_def split: if_splits)
  from m f(2) have "ce_export ce (md_image_id (st_metadata state)) (dv_history_end dev) ?fmt
      (memory_write_image ce) = (False, m)" by simp
  with ex have dims: "mf_width m \<le> 1000" "mf_height m \<le> 1000" unfolding export_bounded_def by force+
  have h0: "pv_available (st_preview (collect_histogram_from_buffer b w h state)) = pv_available (st_preview state)"
    for b w h by (simp add: collect_histogram_from_buffer_def split: option.splits)
  obtain buf where buf: "mf_buf m = Some buf" "0 < mf_width m" "0 < mf_height m"
    using pv fresh m f h0 by (auto simp: snapshot_from_export_fallback_def Let_def split: option.splits if_splits)
  let ?w = "mf_width m" and ?h = "mf_height m"
  let ?px = "export_pixels buf (nat (?w * ?h))"
  let ?st = "state\<lparr>st_histogram := fold count_pixel (buffer_pixels buf ?w ?h) (histogram_on (st_histogram state))\<rparr>"
  have res: "snapshot_from_export_fallback ce dev state
      = collect_preview_from_pixbuf ce dev (ce_new_from_data ce ?px ?w ?h (?w * 3)) ?st"
    using m f buf by (simp add: snapshot_from_export_fallback_def Let_def buffer_histogram)
  from pv fresh obtain pb where pb: "ce_new_from_data ce ?px ?w ?h (?w * 3) = Some pb"
    unfolding res by (auto simp: collect_preview_from_pixbuf_def split: option.splits)
  with gdk have size: "pb_width pb = ?w" "pb_height pb = ?h" unfolding gdk_documented_def by blast+
  from pv fresh f pb obtain jp where jp: "ce_save_jpeg ce pb = Some jp"
    unfolding res by (auto simp: collect_preview_from_pixbuf_def split: option.splits)
  have "counts_pixels (n + length (buffer_pixels buf ?w ?h))
      (fold count_pixel (buffer_pixels buf ?w ?h) (histogram_on (st_histogram state)))"
    by (rule counts_pixels_fold [OF fresh(1)]) (simp add: buffer_pixels_def)
  from counts_pixels_totals [OF this] have tot: "histogram_totals (st_histogram ?st) (n + nat (?w * ?h))"
    by (simp add: buffer_pixels_def histogram_on_def)
  with f md jp pb size dims buf show ?thesis
    unfolding res preview_ok_def Let_def by (simp add: collect_preview_from_pixbuf_def)
qed

text \<open>The state before the rendering is looked at.\<close>

definition collected_base :: "env \<Rightarrow> world \<Rightarrow> develop_state \<Rightarrow> dt_agent_image_state" where
  "collected_base env wl dev =
     collect_history dev (collect_controls env wl dev (collect_metadata dev dt_agent_image_state_init))"

lemma collected_base_fields:
  "st_histogram (collected_base env wl dev) = zero_histogram"
  "st_preview (collected_base env wl dev) = zero_preview"
  "md_image_id (st_metadata (collected_base env wl dev)) = im_id (dv_image_storage dev)"
  "md_has_image_id (st_metadata (collected_base env wl dev)) = (0 < im_id (dv_image_storage dev))"
  "st_history_position (collected_base env wl dev) = dv_history_end dev"
  "st_history_count (collected_base env wl dev) = int (length (dv_history dev))"
  "st_history (collected_base env wl dev) = Some (history_items 0 (dv_history_end dev) (dv_history dev))"
  by (simp_all add: collected_base_def collect_history_def collect_controls_def collect_metadata_def
      dt_agent_image_state_init_def zero_image_state_def Let_def
      dt_agent_catalog_collect_descriptors_def)

lemma collected_base_controls:
  assumes "dt_agent_catalog_collect_descriptors env wl (Some (dv_modules dev)) = Inr ds"
  shows "st_controls (collected_base env wl dev) = Some (map (control_of_descriptor env wl) ds)"
  using assms by (simp add: collected_base_def collect_history_def collect_controls_def collect_metadata_def
      dt_agent_image_state_init_def zero_image_state_def Let_def)

lemma collect_from_dev_Some:
  "dt_agent_image_state_collect_from_dev ce env wl (Some dev) (Some st) error
     = (True, Some (collect_render_snapshot ce dev (collected_base env wl dev)), error)"
  by (simp add: dt_agent_image_state_collect_from_dev_def collected_base_def Let_def)

text \<open>Rendering touches the preview and the histogram only.\<close>

definition same_data :: "dt_agent_image_state \<Rightarrow> dt_agent_image_state \<Rightarrow> bool" where
  "same_data a b \<longleftrightarrow> st_metadata a = st_metadata b \<and> st_controls a = st_controls b \<and> st_history a = st_history b
     \<and> st_history_position a = st_history_position b \<and> st_history_count a = st_history_count b"

lemma same_data_collectors [simp]:
  "same_data (collect_histogram_from_buffer b w h st) st"
  "same_data (collect_histogram_from_pixbuf pb st) st"
  "same_data (collect_preview_from_pixbuf ce dev pb st) st" "same_data st st"
  by (simp_all add: same_data_def collect_histogram_from_buffer_def collect_histogram_from_pixbuf_def
      collect_preview_from_pixbuf_def split: option.splits)

lemma same_data_trans: "same_data a b \<Longrightarrow> same_data b c \<Longrightarrow> same_data a c"
  by (simp add: same_data_def)

lemma render_same_data [simp]: "same_data (collect_render_snapshot ce dev st) st"
proof -
  have pipe: "same_data (snd (snapshot_from_preview_pipe ce dev st)) st" for st
    by (auto simp: snapshot_from_preview_pipe_def Let_def split: option.splits prod.splits
        intro: same_data_trans [OF same_data_collectors(2)])
  have export: "same_data (snapshot_from_export_fallback ce dev st) st" for st
    by (auto simp: snapshot_from_export_fallback_def Let_def split: option.splits prod.splits
        intro: same_data_trans [OF same_data_collectors(3)])
  show ?thesis
    using pipe [of st]
    by (auto simp: collect_render_snapshot_def Let_def intro: same_data_trans [OF export] split: prod.splits)
qed

subsection \<open>Properties\<close>

text \<open>
  C32: A preview that is sent has at most 1000 by 1000 pixels, belongs to an image of the library and
  carries its image and history position in its id.  The histogram beside it counts its pixels: the
  bins of each channel sum up to width times height, and to more only if the JPEG encoder refused the
  picture of the back buffer and the preview is that of an export, in which case the pixels of both
  are counted.  Assumed of the surroundings are the documented sizes of GdkPixbuf's pictures and that
  an export keeps to the maximal size it is given; the encoder may fail at any time.
\<close>

theorem preview_with_histogram:
  assumes "gdk_documented ce" "export_bounded ce"
    and "dt_agent_image_state_collect_from_dev ce env wl (Some dev) (Some st0) error = (ok, Some st, error')"
    and "pv_available (st_preview st)"
  shows "preview_ok (pixels_counted_before ce dev) dev st"
proof -
  let ?b = "collected_base env wl dev"
  have st: "st = collect_render_snapshot ce dev ?b" using assms(3) by (simp add: collect_from_dev_Some)
  have fresh: "counts_pixels 0 (st_histogram ?b)" "\<not> pv_available (st_preview ?b)"
    by (simp_all add: collected_base_fields zero_preview_def)
  note md = collected_base_fields(3,4) [of env wl dev]
  have no_pipe: "preview_ok 0 dev st" if "snapshot_from_preview_pipe ce dev ?b = (False, ?b)"
  proof -
    have "st = snapshot_from_export_fallback ce dev ?b" using that by (simp add: st collect_render_snapshot_def)
    with export_result [OF assms(1,2) fresh md] assms(4) show ?thesis by simp
  qed
  have image: "md_has_image_id (st_metadata ?b)"
  proof (rule ccontr)
    assume "\<not> md_has_image_id (st_metadata ?b)"
    then have "st = ?b"
      by (simp add: st collect_render_snapshot_def snapshot_from_pipe_pixbuf snapshot_from_export_fallback_def)
    with fresh assms(4) show False by simp
  qed
  show ?thesis
  proof (cases "pipe_pixbuf ce dev")
    case None
    then have "snapshot_from_preview_pipe ce dev ?b = (False, ?b)" by (simp add: snapshot_from_pipe_pixbuf)
    then have "preview_ok 0 dev st" by (rule no_pipe)
    moreover have "pixels_counted_before ce dev = 0" using None by (simp add: pixels_counted_before_def)
    ultimately show ?thesis by simp
  next
    case (Some pb)
    note shape = pipe_pixbuf_shape [OF assms(1) Some]
    let ?p = "collect_preview_from_pixbuf ce dev (Some pb) ?b"
    let ?s = "collect_histogram_from_pixbuf (Some pb) ?p"
    have hist: "st_histogram ?p = st_histogram ?b" by (simp add: collect_preview_from_pixbuf_def split: option.splits)
    note counted = collect_histogram_pixbuf_counts [OF assms(1) Some fresh(1) [folded hist]]
    have run: "snapshot_from_preview_pipe ce dev ?b = (pv_available (st_preview ?p), ?s)"
      using image Some counted by (simp add: snapshot_from_pipe_pixbuf Let_def)
    show ?thesis
    proof (cases "ce_save_jpeg ce pb")
      case None
      then have p: "?p = ?b" by (simp add: collect_preview_from_pixbuf_def)
      with run fresh have s: "st = snapshot_from_export_fallback ce dev ?s"
        by (simp add: st collect_render_snapshot_def)
      have keep: "st_metadata ?s = st_metadata ?b"
        using same_data_collectors(2) [of "Some pb" ?p] p by (simp add: same_data_def)
      from counted p fresh have c: "counts_pixels (nat (pb_width pb * pb_height pb)) (st_histogram ?s)"
        "\<not> pv_available (st_preview ?s)" by simp_all
      from export_result [OF assms(1,2) c, of dev] md keep assms(4) s
      show ?thesis by (simp add: pixels_counted_before_def Some None)
    next
      case (Some jp)
      then have p: "pv_available (st_preview ?p)" "pv_width (st_preview ?p) = pb_width pb"
        "pv_height (st_preview ?p) = pb_height pb" "pv_preview_id (st_preview ?p) =
           Some (''preview-'' @ show_int (im_id (dv_image_storage dev)) @ ''-history-'' @ show_int (dv_history_end dev))"
        using image md by (simp_all add: collect_preview_from_pixbuf_def)
      with run have "st = ?s" by (simp add: st collect_render_snapshot_def)
      with counted p shape image md Some \<open>pipe_pixbuf ce dev = Some pb\<close> show ?thesis
        by (simp add: preview_ok_def pixels_counted_before_def)
    qed
  qed
qed

text \<open>The manifest entry and the control of one descriptor agree, and the control knows its current value.\<close>

definition entry_matches :: "dt_agent_capability \<Rightarrow> dt_agent_image_control \<Rightarrow> bool" where
  "entry_matches cap ctl \<longleftrightarrow>
     cap_module_id cap = ctl_module_id ctl \<and> cap_capability_id cap = ctl_capability_id ctl
     \<and> cap_capability_id cap = Some (build_capability_id (ctl_setting_id ctl))
     \<and> cap_kind cap = ctl_kind ctl \<and> cap_action_path cap = ctl_action_path ctl
     \<and> cap_supported_modes cap = ctl_supported_modes ctl \<and> cap_choices cap = ctl_choices ctl
     \<and> cap_min_number cap = ctl_min_number ctl \<and> cap_max_number cap = ctl_max_number ctl
     \<and> cap_step_number cap = ctl_step_number ctl \<and> cap_default_number cap = ctl_default_number ctl
     \<and> (ctl_kind ctl = Some ''set-choice'' \<longrightarrow> ctl_has_current_choice_value ctl
         \<and> (ctl_current_choice_id ctl \<noteq> None \<longrightarrow> (\<exists>opt \<in> set (garray (ctl_choices ctl)).
               opt_choice_id opt = ctl_current_choice_id ctl
               \<and> opt_choice_value opt = ctl_current_choice_value ctl)))
     \<and> (ctl_kind ctl = Some ''set-bool'' \<longrightarrow> ctl_has_current_bool ctl)"

lemma choice_id_option:
  "choice_id_for_value choices v = Some i \<Longrightarrow>
     \<exists>opt \<in> set (garray choices). opt_choice_id opt = Some i \<and> opt_choice_value opt = v"
  by (cases choices) (auto simp: choice_id_for_value_def find_Some_iff split: option.splits)

lemma control_static_simps:
  "ctl_setting_id (control_static d) = ad_setting_id d" "ctl_choices (control_static d) = ad_choices d"
  "ctl_module_id (control_static d) = ad_module_id d" "ctl_capability_id (control_static d) = ad_capability_id d"
  "ctl_kind (control_static d) = ad_kind_name d" "ctl_action_path (control_static d) = ad_action_path d"
  "ctl_supported_modes (control_static d) = ad_supported_modes d"
  "ctl_min_number (control_static d) = ad_min_number d" "ctl_max_number (control_static d) = ad_max_number d"
  "ctl_step_number (control_static d) = ad_step_number d"
  "ctl_default_number (control_static d) = ad_default_number d"
  by (simp_all add: control_static_def control_copy_choices_def zero_control_def map_idI
      dt_agent_choice_option_copy_id split: option.splits)

lemma control_setting_id: "ctl_setting_id (control_of_descriptor env wl d) = ad_setting_id d"
  by (simp add: control_of_descriptor_def Let_def control_static_simps
      split: dt_agent_operation_kind_t.splits option.splits)

lemma entry_matches_descriptor:
  assumes "wf_descriptor d"
  shows "entry_matches (capability_of_descriptor d) (control_of_descriptor env wl d)"
proof (cases "ad_operation_kind d")
  case DT_AGENT_OPERATION_SET_CHOICE
  with assms obtain h where h: "ad_widget d = Some h" "ad_kind_name d = Some ''set-choice''"
    "ad_capability_id d = Some (build_capability_id (ad_setting_id d))"
    by (auto simp: wf_descriptor_def)
  let ?v = "dt_bauhaus_combobox_get_data wl h"
  from choice_id_option [of "ad_choices d" ?v] DT_AGENT_OPERATION_SET_CHOICE h show ?thesis
    by (auto simp: entry_matches_def capability_of_descriptor_def zero_capability_def control_of_descriptor_def
        dt_agent_catalog_read_current_choice_def Let_def control_static_simps copy_choices_id)
next
  case DT_AGENT_OPERATION_SET_BOOL
  with assms obtain h where h: "ad_widget d = Some h" "ad_kind_name d = Some ''set-bool''"
    "ad_capability_id d = Some (build_capability_id (ad_setting_id d))"
    by (auto simp: wf_descriptor_def)
  with DT_AGENT_OPERATION_SET_BOOL show ?thesis
    by (auto simp: entry_matches_def capability_of_descriptor_def zero_capability_def control_of_descriptor_def
        dt_agent_catalog_read_current_bool_def Let_def control_static_simps copy_choices_id)
next
  case DT_AGENT_OPERATION_SET_FLOAT
  with assms have "ad_kind_name d = Some ''set-float''"
    "ad_capability_id d = Some (build_capability_id (ad_setting_id d))" by (auto simp: wf_descriptor_def)
  with DT_AGENT_OPERATION_SET_FLOAT show ?thesis
    by (auto simp: entry_matches_def capability_of_descriptor_def zero_capability_def control_of_descriptor_def
        Let_def control_static_simps copy_choices_id split: option.splits)
next
  case DT_AGENT_OPERATION_UNKNOWN
  with assms show ?thesis by (simp add: wf_descriptor_def)
qed

text \<open>A darkroom with one active history item and a back buffer of one pixel, for the witnesses.\<close>

definition sample_develop :: develop_state where
  "sample_develop = \<lparr>dv_modules = the (wd_develop sample_world),
     dv_image_storage = \<lparr>im_id = 42, im_filename = ''a.raw'', im_camera_maker = [], im_camera_model = ''X'',
       im_width = 6000, im_height = 4000, im_exif_exposure = Fin (1 / 64), im_exif_aperture = Fin 8,
       im_exif_iso = Fin 100, im_exif_focal_length = Fin 35\<rparr>,
     dv_history_end = 1,
     dv_history = [Some \<lparr>dh_enabled = True, dh_op_name = ''exposure'', dh_iop_order = 5, dh_multi_priority = 0,
       dh_multi_name = [], dh_num = 0\<rparr>, None],
     dv_preview_pipe = Some \<lparr>pp_backbuf = Some [10, 20, 30, 0], pp_backbuf_width = 1, pp_backbuf_height = 1\<rparr>\<rparr>"

definition sample_collect_env :: "string option \<Rightarrow> collect_env" where
  "sample_collect_env jpeg = \<lparr>
     ce_new_from_data = (\<lambda>px w h rowstride. Some \<lparr>pb_width = w, pb_height = h, pb_rowstride = rowstride,
       pb_n_channels = 3, pb_pixels = Some px\<rparr>),
     ce_scale_simple = (\<lambda>pb w h. Some \<lparr>pb_width = w, pb_height = h, pb_rowstride = 1,
       pb_n_channels = pb_n_channels pb, pb_pixels = Some []\<rparr>),
     ce_save_jpeg = (\<lambda>pb. jpeg), ce_base64_encode = (\<lambda>s. s), ce_malloc = (\<lambda>n. True),
     ce_export = (\<lambda>image_id he fmt write_image.
       write_image [Fin 1, Fin 0, Fin (1 / 2), Fin 0] (fmt\<lparr>mf_width := min 1 (mf_max_width fmt), mf_height := min 1 (mf_max_height fmt)\<rparr>))\<rparr>"

lemma sample_collect_env_documented:
  "gdk_documented (sample_collect_env j)" "export_bounded (sample_collect_env j)"
  by (auto simp: gdk_documented_def export_bounded_def sample_collect_env_def memory_write_image_def
      Let_def split: if_splits)

theorem preview_with_histogram_witness:
  "\<exists>st. preview_ok 0 sample_develop st \<and> pv_available (st_preview st)"
proof -
  let ?ce = "sample_collect_env (Some ''jpeg'')"
  let ?b = "collected_base sample_env sample_world sample_develop"
  let ?st = "collect_render_snapshot ?ce sample_develop ?b"
  have "pv_available (st_preview ?st)"
    using collected_base_fields(2,3,4) [of sample_env sample_world sample_develop]
    by (simp add: collect_render_snapshot_def snapshot_from_preview_pipe_def sample_develop_def Let_def
        sample_collect_env_def collect_preview_from_pixbuf_def collect_histogram_from_pixbuf_def
        preview_max_dim_def split: prod.splits)
  with preview_with_histogram [OF sample_collect_env_documented collect_from_dev_Some this]
  show ?thesis by (intro exI [of _ ?st])
      (simp add: pixels_counted_before_def sample_collect_env_def split: option.splits)
qed

text \<open>
  The manifest and the image state of a request describe the same controls in the same order:
  entry by entry the ids, paths, kinds, modes, ranges and choices agree, the setting ids are pairwise
  different, and every choice and switch has its current value, which a reported choice id names.
\<close>

theorem manifest_matches_controls:
  assumes "dt_agent_capabilities_collect env wl (Some (dv_modules dev)) (Some cs) e1 = (ok1, Some caps, e1')"
    and "dt_agent_image_state_collect_from_dev ce env wl (Some dev) (Some st0) e2 = (ok2, Some st, e2')"
  shows "ok1 \<and> ok2 \<and> (\<exists>controls. st_controls st = Some controls \<and> list_all2 entry_matches caps controls
    \<and> distinct (map ctl_setting_id controls))"
proof -
  obtain ds where ds: "dt_agent_catalog_collect_descriptors env wl (Some (dv_modules dev)) = Inr ds"
    by (simp add: dt_agent_catalog_collect_descriptors_def)
  from collect_descriptors_ok [OF ds] have wf: "list_all wf_descriptor ds" "distinct (map ad_setting_id ds)" by auto
  from assms(1) ds have caps: "ok1" "caps = map capability_of_descriptor ds"
    by (simp_all add: dt_agent_capabilities_collect_def)
  from assms(2) have st: "ok2" "st = collect_render_snapshot ce dev (collected_base env wl dev)"
    by (simp_all add: collect_from_dev_Some)
  have "st_controls st = Some (map (control_of_descriptor env wl) ds)"
    using render_same_data [of ce dev "collected_base env wl dev"] collected_base_controls [OF ds]
    by (simp add: st same_data_def)
  moreover have "list_all2 entry_matches caps (map (control_of_descriptor env wl) ds)"
    using wf(1) by (auto simp: caps list_all2_map1 list_all2_map2 list_all2_same list_all_iff
        intro: entry_matches_descriptor)
  moreover have "distinct (map ctl_setting_id (map (control_of_descriptor env wl) ds))"
    using wf(2) by (simp add: comp_def control_setting_id)
  ultimately show ?thesis using caps(1) st(1) by blast
qed

theorem manifest_matches_controls_witness:
  "\<exists>caps controls. list_all2 entry_matches caps controls \<and> distinct (map ctl_setting_id controls)"
proof -
  obtain caps where
    "dt_agent_capabilities_collect sample_env sample_world (Some (dv_modules sample_develop)) (Some []) None
       = (True, Some caps, None)"
    by (simp add: dt_agent_capabilities_collect_def dt_agent_catalog_collect_descriptors_def)
  from manifest_matches_controls [OF this collect_from_dev_Some [of "sample_collect_env None" _ _ _ zero_image_state None]]
  show ?thesis by blast
qed

lemma history_items_prefix:
  "history_items k e xs = map history_item (List.map_filter (\<lambda>x. x) (take (nat (e - k)) xs))"
proof (induction k e xs rule: history_items.induct)
  case (2 k e x xs)
  show ?case
  proof (cases "e \<le> k")
    case False
    then have "nat (e - k) = Suc (nat (e - (k + 1)))" by simp
    with 2 False show ?thesis by (simp add: map_filter_simps split: option.splits)
  qed (simp add: map_filter_simps)
qed (simp add: map_filter_simps)

text \<open>
  Collecting the state succeeds whatever the state held before, and reports the active part of the
  history, the items before the history position that have data, with the position and the length
  of the whole stack.
\<close>

theorem collected_history_active:
  assumes "dt_agent_image_state_collect_from_dev ce env wl (Some dev) (Some st0) error = (ok, Some st, error')"
  shows "ok \<and> error' = error
    \<and> st_history st = Some (map history_item (List.map_filter (\<lambda>x. x) (take (nat (dv_history_end dev)) (dv_history dev))))
    \<and> st_history_position st = dv_history_end dev \<and> st_history_count st = int (length (dv_history dev))"
  using assms render_same_data [of ce dev "collected_base env wl dev"]
  by (auto simp: collect_from_dev_Some same_data_def collected_base_fields history_items_prefix)

theorem collected_history_active_witness:
  "\<exists>st :: dt_agent_image_state. map hi_num (garray (st_history st)) = [0] \<and> st_history_position st = 1 \<and> st_history_count st = 2"
proof -
  obtain st where "dt_agent_image_state_collect_from_dev (sample_collect_env None) sample_env sample_world
      (Some sample_develop) (Some zero_image_state) None = (True, Some st, None)"
    by (simp add: collect_from_dev_Some)
  from collected_history_active [OF this] have "map hi_num (garray (st_history st)) = [0]
      \<and> st_history_position st = 1 \<and> st_history_count st = 2"
    by (simp add: sample_develop_def history_item_def map_filter_simps)
  then show ?thesis by (intro exI [of _ st])
qed

text \<open>
  If the preview cannot be encoded, the histogram counts two renderings: in a concrete darkroom
  with a back buffer of one pixel and an export of one pixel each channel sums up to two, and no
  preview is sent that would say so.
\<close>

theorem histogram_counted_twice:
  "\<exists>st. dt_agent_image_state_collect_from_dev (sample_collect_env None) sample_env sample_world
           (Some sample_develop) (Some dt_agent_image_state_init) None = (True, Some st, None)
      \<and> hg_available (st_histogram st) \<and> sum_list (hg_red (st_histogram st)) = 2 \<and> \<not> pv_available (st_preview st)"
proof -
  let ?ce = "sample_collect_env None"
  let ?b = "collected_base sample_env sample_world sample_develop"
  let ?st = "collect_render_snapshot ?ce sample_develop ?b"
  let ?h = "count_pixel (buffer_bins [Fin 1, Fin 0, Fin (1 / 2), Fin 0] 0)
    (histogram_on (count_pixel (pixel_bins_at [30, 20, 10] 0) (histogram_on zero_histogram)))"
  have st: "st_histogram ?st = ?h \<and> \<not> pv_available (st_preview ?st)"
    using collected_base_fields(1,2,3,4) [of sample_env sample_world sample_develop]
    by (simp add: collect_render_snapshot_def snapshot_from_preview_pipe_def sample_develop_def Let_def
        sample_collect_env_def collect_preview_from_pixbuf_def collect_histogram_from_pixbuf_def
        preview_max_dim_def snapshot_from_export_fallback_def memory_write_image_def
        collect_histogram_from_buffer_def backbuf_pixels_def zero_preview_def split: prod.splits)
  have "counts [pixel_bins_at [30, 20, 10] 0, buffer_bins [Fin 1, Fin 0, Fin (1 / 2), Fin 0] 0] ?h"
    using counts_pixel [of "[]" "histogram_on zero_histogram" "pixel_bins_at [30, 20, 10] 0"]
      counts_pixel [of "[pixel_bins_at [30, 20, 10] 0]" "histogram_on (count_pixel (pixel_bins_at [30, 20, 10] 0)
        (histogram_on zero_histogram))" "buffer_bins [Fin 1, Fin 0, Fin (1 / 2), Fin 0] 0"] by simp
  from counts_totals [OF this] st have "sum_list (hg_red (st_histogram ?st)) = 2 \<and> hg_available (st_histogram ?st)"
    by (simp add: count_pixel_def histogram_on_def)
  with st show ?thesis by (intro exI [of _ ?st]) (simp add: collect_from_dev_Some)
qed

end
