(* ===== verification/Execute.thy ===== *)
theory Execute
  imports Catalog "HOL-Library.Multiset"
begin

text \<open>
  Executing the operations of a response, \<open>agent_execute.c\<close> (and the wrapper of
  \<open>agent_actions.c\<close>): ordering the white balance operations, validating the whole batch, applying
  the operations one after the other and keeping the report.  The world, the report and the error
  location are passed along and returned.
\<close>

subsection \<open>Reports\<close>

datatype dt_agent_execution_status_t =
    DT_AGENT_EXECUTION_STATUS_UNKNOWN
  | DT_AGENT_EXECUTION_STATUS_APPLIED
  | DT_AGENT_EXECUTION_STATUS_BLOCKED
  | DT_AGENT_EXECUTION_STATUS_FAILED

record dt_agent_execution_result =
  er_operation_id :: cstr
  er_action_path :: cstr
  er_status :: dt_agent_execution_status_t
  er_message :: cstr
  er_has_value_before :: bool
  er_value_before :: flt
  er_has_value_after :: bool
  er_value_after :: flt

record dt_agent_execution_report =
  rep_results :: "dt_agent_execution_result list option"
  rep_applied_count :: nat
  rep_blocked_count :: nat
  rep_failed_count :: nat

definition dt_agent_execution_report_init :: dt_agent_execution_report where
  "dt_agent_execution_report_init =
     \<lparr>rep_results = Some [], rep_applied_count = 0, rep_blocked_count = 0, rep_failed_count = 0\<rparr>"

definition dt_agent_execution_report_clear ::
  "dt_agent_execution_report \<Rightarrow> dt_agent_execution_report" where
  "dt_agent_execution_report_clear report =
     \<lparr>rep_results = None, rep_applied_count = 0, rep_blocked_count = 0, rep_failed_count = 0\<rparr>"

fun dt_agent_execution_status_to_string :: "dt_agent_execution_status_t \<Rightarrow> string" where
  "dt_agent_execution_status_to_string DT_AGENT_EXECUTION_STATUS_APPLIED = ''applied''"
| "dt_agent_execution_status_to_string DT_AGENT_EXECUTION_STATUS_BLOCKED = ''blocked''"
| "dt_agent_execution_status_to_string DT_AGENT_EXECUTION_STATUS_FAILED = ''failed''"
| "dt_agent_execution_status_to_string DT_AGENT_EXECUTION_STATUS_UNKNOWN = ''unknown''"

definition agent_execute_error :: "string \<Rightarrow> gerror" where
  "agent_execute_error msg =
     \<lparr>gerr_domain = ''dt-agent-execute-error'', gerr_code = 1, gerr_message = msg\<rparr>"

definition execution_result_new :: "dt_agent_chat_operation \<Rightarrow> dt_agent_execution_result" where
  "execution_result_new operation =
     \<lparr>er_operation_id = op_operation_id operation, er_action_path = op_action_path operation,
      er_status = DT_AGENT_EXECUTION_STATUS_UNKNOWN, er_message = None,
      er_has_value_before = False, er_value_before = Fin 0, er_has_value_after = False,
      er_value_after = Fin 0\<rparr>"

definition read_descriptor_float_value ::
  "env \<Rightarrow> world \<Rightarrow> dt_agent_action_descriptor \<Rightarrow> gerror option \<Rightarrow> flt \<times> gerror option" where
  "read_descriptor_float_value env wl descriptor error =
     (case dt_agent_catalog_read_current_number env wl descriptor error of
        (Some v, error) \<Rightarrow> (v, error)
      | (None, error) \<Rightarrow> (NaN, error))"

text \<open>
  The outcome of an operation: its return value, the report and the operation's result entry, the
  error location and the world.  The entry is in the report's array already while it is filled in;
  the model appends it when it is complete.
\<close>

type_synonym op_outcome =
  "bool \<times> dt_agent_execution_report \<times> dt_agent_execution_result \<times> gerror option \<times> world"

definition execution_result_set_blocked ::
  "dt_agent_execution_report \<Rightarrow> dt_agent_execution_result \<Rightarrow> gerror option \<Rightarrow> string \<Rightarrow> world
     \<Rightarrow> op_outcome" where
  "execution_result_set_blocked report result error msg wl =
     (False,
      report\<lparr>rep_blocked_count := rep_blocked_count report + 1\<rparr>,
      result\<lparr>er_message := Some msg, er_status := DT_AGENT_EXECUTION_STATUS_BLOCKED\<rparr>,
      g_set_error error (agent_execute_error msg), wl)"

definition execution_result_set_failed ::
  "dt_agent_execution_report \<Rightarrow> dt_agent_execution_result \<Rightarrow> gerror option \<Rightarrow> world \<Rightarrow> op_outcome" where
  "execution_result_set_failed report result error wl =
     (False,
      report\<lparr>rep_failed_count := rep_failed_count report + 1\<rparr>,
      result\<lparr>er_status := DT_AGENT_EXECUTION_STATUS_FAILED,
             er_message := Some (case error of Some e \<Rightarrow> gerr_message e
                                             | None \<Rightarrow> ''operation failed'')\<rparr>,
      error, wl)"

subsection \<open>The order of execution\<close>

definition is_white_balance_action_path :: "cstr \<Rightarrow> bool" where
  "is_white_balance_action_path path =
     (case path of None \<Rightarrow> False | Some p \<Rightarrow> has_prefix p ''iop/temperature/'')"

definition G_MAXINT :: int where
  "G_MAXINT = 2 ^ 31 - 1"

definition white_balance_operation_rank :: "dt_agent_chat_operation \<Rightarrow> int" where
  "white_balance_operation_rank operation =
     (if \<not> is_white_balance_action_path (op_action_path operation) then G_MAXINT
      else
        let path = str_or (op_action_path operation) [];
            leaf = (case after_last CHR ''/'' path of Some l \<Rightarrow> l | None \<Rightarrow> path)
        in case op_kind operation of
             DT_AGENT_OPERATION_SET_BOOL \<Rightarrow> 0
           | DT_AGENT_OPERATION_SET_CHOICE \<Rightarrow> 1
           | DT_AGENT_OPERATION_SET_FLOAT \<Rightarrow>
               if leaf = ''finetune'' then 2
               else if leaf = ''temperature'' then 3
               else if leaf = ''tint'' then 4
               else if leaf = ''red'' then 5
               else if leaf = ''green'' then 6
               else if leaf = ''blue'' then 7
               else if leaf = ''emerald'' then 8
               else if leaf = ''yellow'' \<or> leaf = ''various'' then 9
               else 10
           | DT_AGENT_OPERATION_UNKNOWN \<Rightarrow> 11)"

record ordered_operation =
  oo_operation :: dt_agent_chat_operation
  oo_original_index :: nat

definition ordered_white_balance_operation_compare ::
  "ordered_operation \<Rightarrow> ordered_operation \<Rightarrow> int" where
  "ordered_white_balance_operation_compare left right =
     (let left_rank = white_balance_operation_rank (oo_operation left);
          right_rank = white_balance_operation_rank (oo_operation right)
      in if left_rank \<noteq> right_rank then (if left_rank < right_rank then - 1 else 1)
         else if oo_original_index left \<noteq> oo_original_index right
         then (if oo_original_index left < oo_original_index right then - 1 else 1)
         else 0)"

text \<open>
  \<open>g_array_sort\<close>, as insertion by the comparison function.  What GLib documents, a permutation that
  is sorted by the comparison, determines the result for the comparison above (see \<open>sort_contract\<close>
  below), so the algorithm is immaterial.
\<close>

fun insert_by :: "('a \<Rightarrow> 'a \<Rightarrow> int) \<Rightarrow> 'a \<Rightarrow> 'a list \<Rightarrow> 'a list" where
  "insert_by cmp x [] = [x]"
| "insert_by cmp x (y # ys) = (if cmp x y \<le> 0 then x # y # ys else y # insert_by cmp x ys)"

definition g_array_sort :: "('a \<Rightarrow> 'a \<Rightarrow> int) \<Rightarrow> 'a list \<Rightarrow> 'a list" where
  "g_array_sort cmp xs = foldr (insert_by cmp) xs []"

definition wb_operation :: "dt_agent_chat_operation \<Rightarrow> bool" where
  "wb_operation operation = is_white_balance_action_path (op_action_path operation)"

definition wb_positions :: "dt_agent_chat_operation list \<Rightarrow> nat list" where
  "wb_positions operations = filter (\<lambda>i. wb_operation (operations ! i)) [0..<length operations]"

definition wb_items :: "dt_agent_chat_operation list \<Rightarrow> ordered_operation list" where
  "wb_items operations =
     map (\<lambda>i. \<lparr>oo_operation = operations ! i, oo_original_index = i\<rparr>) (wb_positions operations)"

text \<open>The sorted white balance operations are written to the positions they came from.\<close>

fun place :: "'a list \<Rightarrow> nat list \<Rightarrow> 'a list \<Rightarrow> 'a list" where
  "place xs (p # ps) (v # vs) = place (xs[p := v]) ps vs"
| "place xs _ _ = xs"

definition ordered_operations_for_execution ::
  "dt_agent_chat_operation list \<Rightarrow> dt_agent_chat_operation list" where
  "ordered_operations_for_execution operations =
     (let items = wb_items operations
      in if length items < 2 then operations
         else place operations (wb_positions operations)
                (map oo_operation (g_array_sort ordered_white_balance_operation_compare items)))"

subsection \<open>Validation\<close>

definition choice_option_for_value ::
  "dt_agent_action_descriptor \<Rightarrow> int \<Rightarrow> dt_agent_choice_option option" where
  "choice_option_for_value descriptor requested =
     (case ad_choices descriptor of
        None \<Rightarrow> None | Some os \<Rightarrow> find (\<lambda>opt. opt_choice_value opt = requested) os)"

text \<open>None: valid; otherwise the error.\<close>

definition validate_white_balance_operation ::
  "world \<Rightarrow> dt_agent_chat_operation \<Rightarrow> dt_agent_action_descriptor \<Rightarrow> gerror option" where
  "validate_white_balance_operation wl operation descriptor =
     (if \<not> is_white_balance_action_path (ad_action_path descriptor) then None
      else case wd_develop wl of
        None \<Rightarrow> None
      | Some dev \<Rightarrow>
          if \<not> dev_chroma_adaptation dev then None
          else case op_kind operation of
            DT_AGENT_OPERATION_SET_FLOAT \<Rightarrow> Some (agent_execute_error
              ''white-balance numeric adjustments conflict with active chromatic adaptation; set white balance to camera reference or as shot to reference, or disable chromatic adaptation, then retry'')
          | DT_AGENT_OPERATION_SET_BOOL \<Rightarrow>
              if op_has_bool_value operation \<and> \<not> op_bool_value operation
              then Some (agent_execute_error
                ''disabling white balance conflicts with active chromatic adaptation; keep white balance enabled or disable chromatic adaptation, then retry'')
              else None
          | DT_AGENT_OPERATION_SET_CHOICE \<Rightarrow>
              if \<not> op_has_choice_value operation then None
              else if op_choice_value operation = 3 \<or> op_choice_value operation = 4 then None
              else Some (agent_execute_error (''white-balance choice ''
                @ quoted (case choice_option_for_value descriptor (op_choice_value operation) of
                            Some opt \<Rightarrow> str_or (opt_label opt) ''unknown''
                          | None \<Rightarrow> ''unknown'')
                @ '' conflicts with active chromatic adaptation; use camera reference or as shot to reference, or disable chromatic adaptation, then retry''))
          | DT_AGENT_OPERATION_UNKNOWN \<Rightarrow> None)"

definition find_operation_descriptor ::
  "env \<Rightarrow> world \<Rightarrow> dt_agent_chat_operation \<Rightarrow> dt_agent_action_descriptor result" where
  "find_operation_descriptor env wl operation =
     dt_agent_catalog_find_descriptor env wl (wd_develop wl) (op_action_path operation)
       (op_setting_id operation)"

definition unsupported_mode :: "dt_agent_action_descriptor \<Rightarrow> gerror" where
  "unsupported_mode descriptor = agent_execute_error
     (''unsupported value mode for action path: '' @ str_or (ad_action_path descriptor) ''unknown'')"

text \<open>
  Each validator returns its verdict and \<open>*error\<close>, which is NULL before.  A number that cannot be
  read is refused without an error.
\<close>

definition validate_float_operation ::
  "env \<Rightarrow> world \<Rightarrow> dt_agent_chat_operation \<Rightarrow> bool \<times> gerror option" where
  "validate_float_operation env wl operation =
     (case find_operation_descriptor env wl operation of
        Inl e \<Rightarrow> (False, Some e)
      | Inr descriptor \<Rightarrow>
          (case validate_white_balance_operation wl operation descriptor of
             Some e \<Rightarrow> (False, Some e)
           | None \<Rightarrow>
               (case read_descriptor_float_value env wl descriptor None of
                  (value_before, error) \<Rightarrow>
                    if isnan_flt value_before then (False, error)
                    else if op_value_mode operation = DT_AGENT_VALUE_MODE_DELTA
                    then (if dt_agent_catalog_supports_mode descriptor DT_AGENT_VALUE_MODE_DELTA
                          then (True, error)
                          else (False, g_set_error error (unsupported_mode descriptor)))
                    else if op_value_mode operation = DT_AGENT_VALUE_MODE_SET
                    then (if dt_agent_catalog_supports_mode descriptor DT_AGENT_VALUE_MODE_SET
                          then (True, error)
                          else (False, g_set_error error (unsupported_mode descriptor)))
                    else (False, g_set_error error
                            (agent_execute_error ''unsupported numeric value mode'')))))"

definition validate_choice_operation ::
  "env \<Rightarrow> world \<Rightarrow> dt_agent_chat_operation \<Rightarrow> bool \<times> gerror option" where
  "validate_choice_operation env wl operation =
     (case find_operation_descriptor env wl operation of
        Inl e \<Rightarrow> (False, Some e)
      | Inr descriptor \<Rightarrow>
          (case validate_white_balance_operation wl operation descriptor of
             Some e \<Rightarrow> (False, Some e)
           | None \<Rightarrow>
               if op_value_mode operation \<noteq> DT_AGENT_VALUE_MODE_SET \<or> \<not> op_has_choice_value operation
               then (False, Some (agent_execute_error ''unsupported choice value mode''))
               else case choice_option_for_value descriptor (op_choice_value operation) of
                 None \<Rightarrow> (False, Some (agent_execute_error
                   (''unsupported choice value for action path: ''
                    @ str_or (ad_action_path descriptor) ''unknown'')))
               | Some opt \<Rightarrow>
                   if nonempty (op_choice_id operation) \<and> op_choice_id operation \<noteq> opt_choice_id opt
                   then (False, Some (agent_execute_error (''choice id mismatch for action path: ''
                           @ str_or (ad_action_path descriptor) ''unknown'')))
                   else (True, None)))"

definition validate_bool_operation ::
  "env \<Rightarrow> world \<Rightarrow> dt_agent_chat_operation \<Rightarrow> bool \<times> gerror option" where
  "validate_bool_operation env wl operation =
     (case find_operation_descriptor env wl operation of
        Inl e \<Rightarrow> (False, Some e)
      | Inr descriptor \<Rightarrow>
          (case validate_white_balance_operation wl operation descriptor of
             Some e \<Rightarrow> (False, Some e)
           | None \<Rightarrow>
               if op_value_mode operation \<noteq> DT_AGENT_VALUE_MODE_SET \<or> \<not> op_has_bool_value operation
               then (False, Some (agent_execute_error ''unsupported bool value mode''))
               else (True, None)))"

definition validate_operation ::
  "env \<Rightarrow> world \<Rightarrow> dt_agent_chat_operation \<Rightarrow> bool \<times> gerror option" where
  "validate_operation env wl operation =
     (if op_status operation \<noteq> Some ''planned''
      then (False, Some (agent_execute_error
              (''unsupported operation status: '' @ str_or (op_status operation) ''unknown'')))
      else if op_target_type operation \<noteq> Some ''darktable-action''
      then (False, Some (agent_execute_error
              (''unsupported target type: '' @ str_or (op_target_type operation) ''unknown'')))
      else case op_kind operation of
        DT_AGENT_OPERATION_SET_FLOAT \<Rightarrow> validate_float_operation env wl operation
      | DT_AGENT_OPERATION_SET_CHOICE \<Rightarrow> validate_choice_operation env wl operation
      | DT_AGENT_OPERATION_SET_BOOL \<Rightarrow> validate_bool_operation env wl operation
      | DT_AGENT_OPERATION_UNKNOWN \<Rightarrow> (False, Some (agent_execute_error
          (''unsupported operation kind: '' @ str_or (op_kind_name operation) ''unknown''))))"

text \<open>
  The validation loop from index \<open>i\<close> on: the index of the first operation refused (None for
  \<open>G_MAXUINT\<close>) and the validation error, which can be NULL even then.
\<close>

fun validate_batch ::
  "env \<Rightarrow> world \<Rightarrow> nat \<Rightarrow> dt_agent_chat_operation list \<Rightarrow> nat option \<times> gerror option" where
  "validate_batch env wl i [] = (None, None)"
| "validate_batch env wl i (operation # operations) =
     (case validate_operation env wl operation of
        (True, _) \<Rightarrow> validate_batch env wl (Suc i) operations
      | (False, error) \<Rightarrow> (Some i, error))"

subsection \<open>Execution\<close>

definition unsupported_path :: "dt_agent_chat_operation \<Rightarrow> string" where
  "unsupported_path operation =
     ''unsupported action path: '' @ str_or (op_action_path operation) ''unknown''"

definition mode_message :: "dt_agent_action_descriptor \<Rightarrow> string" where
  "mode_message descriptor =
     ''unsupported value mode for action path: '' @ str_or (ad_action_path descriptor) ''(null)''"

text \<open>The write at the end of \<open>_execute_set_float_operation\<close>.\<close>

definition write_float_operation ::
  "env \<Rightarrow> dt_agent_action_descriptor \<Rightarrow> flt \<Rightarrow> dt_agent_execution_report
     \<Rightarrow> dt_agent_execution_result \<Rightarrow> gerror option \<Rightarrow> world \<Rightarrow> op_outcome" where
  "write_float_operation env descriptor target report result error wl =
     (case dt_agent_catalog_write_number env descriptor target error wl of
        (None, error, wl) \<Rightarrow> execution_result_set_failed report result error wl
      | (Some applied, error, wl) \<Rightarrow>
          (True, report, result\<lparr>er_has_value_after := True, er_value_after := applied\<rparr>, error, wl))"

definition execute_set_float_operation ::
  "env \<Rightarrow> dt_agent_chat_operation \<Rightarrow> dt_agent_execution_report \<Rightarrow> dt_agent_execution_result
     \<Rightarrow> gerror option \<Rightarrow> world \<Rightarrow> op_outcome" where
  "execute_set_float_operation env operation report result error wl =
     (case find_operation_descriptor env wl operation of
        Inl e \<Rightarrow> execution_result_set_blocked report result (g_set_error error e)
                   (unsupported_path operation) wl
      | Inr descriptor \<Rightarrow>
          (case read_descriptor_float_value env wl descriptor error of
             (value_before, error) \<Rightarrow>
               let result = result\<lparr>er_has_value_before := True, er_value_before := value_before\<rparr> in
               if isnan_flt value_before then execution_result_set_failed report result error wl
               else if op_value_mode operation = DT_AGENT_VALUE_MODE_DELTA
               then (if dt_agent_catalog_supports_mode descriptor DT_AGENT_VALUE_MODE_DELTA
                     then write_float_operation env descriptor
                            (fadd round64 value_before (op_number operation)) report result error wl
                     else execution_result_set_blocked report result error (mode_message descriptor) wl)
               else if op_value_mode operation = DT_AGENT_VALUE_MODE_SET
               then (if dt_agent_catalog_supports_mode descriptor DT_AGENT_VALUE_MODE_SET
                     then write_float_operation env descriptor (op_number operation) report result error wl
                     else execution_result_set_blocked report result error (mode_message descriptor) wl)
               else execution_result_set_blocked report result error
                      ''unsupported numeric value mode'' wl))"

definition execute_set_choice_operation ::
  "env \<Rightarrow> dt_agent_chat_operation \<Rightarrow> dt_agent_execution_report \<Rightarrow> dt_agent_execution_result
     \<Rightarrow> gerror option \<Rightarrow> world \<Rightarrow> op_outcome" where
  "execute_set_choice_operation env operation report result error wl =
     (case find_operation_descriptor env wl operation of
        Inl e \<Rightarrow> execution_result_set_blocked report result (g_set_error error e)
                   (unsupported_path operation) wl
      | Inr descriptor \<Rightarrow>
          if op_value_mode operation \<noteq> DT_AGENT_VALUE_MODE_SET \<or> \<not> op_has_choice_value operation
          then execution_result_set_blocked report result error ''unsupported choice value mode'' wl
          else
            (case dt_agent_catalog_write_choice env descriptor (op_choice_value operation) error wl of
               (None, error, wl) \<Rightarrow> execution_result_set_failed report result error wl
             | (Some applied, error, wl) \<Rightarrow>
                 (True, report,
                  result\<lparr>er_message := Some (''applied choice '' @ show_int applied)\<rparr>, error, wl)))"

definition execute_set_bool_operation ::
  "env \<Rightarrow> dt_agent_chat_operation \<Rightarrow> dt_agent_execution_report \<Rightarrow> dt_agent_execution_result
     \<Rightarrow> gerror option \<Rightarrow> world \<Rightarrow> op_outcome" where
  "execute_set_bool_operation env operation report result error wl =
     (case find_operation_descriptor env wl operation of
        Inl e \<Rightarrow> execution_result_set_blocked report result (g_set_error error e)
                   (unsupported_path operation) wl
      | Inr descriptor \<Rightarrow>
          if op_value_mode operation \<noteq> DT_AGENT_VALUE_MODE_SET \<or> \<not> op_has_bool_value operation
          then execution_result_set_blocked report result error ''unsupported bool value mode'' wl
          else
            (case dt_agent_catalog_write_bool env descriptor (op_bool_value operation) error wl of
               (None, error, wl) \<Rightarrow> execution_result_set_failed report result error wl
             | (Some applied, error, wl) \<Rightarrow>
                 (True, report,
                  result\<lparr>er_message := Some (if applied then ''applied on'' else ''applied off'')\<rparr>,
                  error, wl)))"

definition add_result ::
  "dt_agent_execution_result \<Rightarrow> dt_agent_execution_report \<Rightarrow> dt_agent_execution_report" where
  "add_result result report = report\<lparr>rep_results := Some (garray (rep_results report) @ [result])\<rparr>"

definition execute_operation_outcome ::
  "env \<Rightarrow> dt_agent_chat_operation \<Rightarrow> dt_agent_execution_report \<Rightarrow> gerror option \<Rightarrow> world
     \<Rightarrow> op_outcome" where
  "execute_operation_outcome env operation report error wl =
     (let result = execution_result_new operation in
      if op_status operation \<noteq> Some ''planned''
      then execution_result_set_blocked report result error
             (''unsupported operation status: '' @ str_or (op_status operation) ''unknown'') wl
      else if op_target_type operation \<noteq> Some ''darktable-action''
      then execution_result_set_blocked report result error
             (''unsupported target type: '' @ str_or (op_target_type operation) ''unknown'') wl
      else case op_kind operation of
        DT_AGENT_OPERATION_SET_FLOAT \<Rightarrow> execute_set_float_operation env operation report result error wl
      | DT_AGENT_OPERATION_SET_CHOICE \<Rightarrow> execute_set_choice_operation env operation report result error wl
      | DT_AGENT_OPERATION_SET_BOOL \<Rightarrow> execute_set_bool_operation env operation report result error wl
      | DT_AGENT_OPERATION_UNKNOWN \<Rightarrow> execution_result_set_blocked report result error
          (''unsupported operation kind: '' @ str_or (op_kind_name operation) ''unknown'') wl)"

definition execute_operation ::
  "env \<Rightarrow> dt_agent_chat_operation \<Rightarrow> dt_agent_execution_report \<Rightarrow> gerror option \<Rightarrow> world
     \<Rightarrow> bool \<times> dt_agent_execution_report \<times> gerror option \<times> world" where
  "execute_operation env operation report error wl =
     (case execute_operation_outcome env operation report error wl of
        (ok, report, result, error, wl) \<Rightarrow>
          if ok
          then let result = result\<lparr>er_status := DT_AGENT_EXECUTION_STATUS_APPLIED,
                                  er_message := Some (str_or (er_message result) ''applied'')\<rparr>
               in (True,
                   add_result result (report\<lparr>rep_applied_count := rep_applied_count report + 1\<rparr>),
                   error, wl)
          else (False, add_result result report, error, wl))"

text \<open>An operation that is not attempted.\<close>

definition block_operation ::
  "string \<Rightarrow> dt_agent_chat_operation \<Rightarrow> dt_agent_execution_report \<Rightarrow> dt_agent_execution_report" where
  "block_operation msg operation report =
     (let result = (execution_result_new operation)
            \<lparr>er_status := DT_AGENT_EXECUTION_STATUS_BLOCKED, er_message := Some msg\<rparr>;
          report = add_result result report
      in report\<lparr>rep_blocked_count := rep_blocked_count report + 1\<rparr>)"

text \<open>The report of a batch that did not pass validation.\<close>

fun block_batch ::
  "nat \<Rightarrow> nat option \<Rightarrow> gerror \<Rightarrow> dt_agent_chat_operation list \<Rightarrow> dt_agent_execution_report
     \<Rightarrow> dt_agent_execution_report" where
  "block_batch i failed e [] report = report"
| "block_batch i failed e (operation # operations) report =
     block_batch (Suc i) failed e operations
       (block_operation
          (case failed of
             Some n \<Rightarrow> if i = n then gerr_message e
                       else if i < n then ''blocked by batch validation failure''
                       else ''blocked by a previous operation failure''
           | None \<Rightarrow> ''blocked by batch validation failure'')
          operation report)"

text \<open>The execution loop, with its flag \<open>all_ok\<close> and the first error.\<close>

fun execute_batch ::
  "env \<Rightarrow> dt_agent_chat_operation list \<Rightarrow> bool \<Rightarrow> gerror option \<Rightarrow> dt_agent_execution_report \<Rightarrow> world
     \<Rightarrow> bool \<times> gerror option \<times> dt_agent_execution_report \<times> world" where
  "execute_batch env [] all_ok first_error report wl = (all_ok, first_error, report, wl)"
| "execute_batch env (operation # operations) all_ok first_error report wl =
     (if all_ok
      then (case execute_operation env operation report None wl of
              (True, report, _, wl) \<Rightarrow> execute_batch env operations True first_error report wl
            | (False, report, error, wl) \<Rightarrow>
                execute_batch env operations False
                  (case error of Some e \<Rightarrow> Some e | None \<Rightarrow> first_error) report wl)
      else execute_batch env operations False first_error
             (block_operation ''blocked by a previous operation failure'' operation report) wl)"

text \<open>
  The whole function: result, report, \<open>*error\<close> and world.  A NULL response or report is None.
\<close>

definition dt_agent_execute_response ::
  "env \<Rightarrow> dt_agent_chat_response option \<Rightarrow> dt_agent_execution_report option \<Rightarrow> gerror option
     \<Rightarrow> world \<Rightarrow> bool \<times> dt_agent_execution_report option \<times> gerror option \<times> world" where
  "dt_agent_execute_response env response report error wl =
     (case (response, report) of
        (Some r, Some rep) \<Rightarrow>
          if rep_results rep = None
          then (False, report,
                g_set_error error (agent_execute_error ''missing execution inputs''), wl)
          else (case resp_operations r of
            None \<Rightarrow> (False, report,
              g_set_error error (agent_execute_error ''chat response is missing operations''), wl)
          | Some operations \<Rightarrow>
              if \<not> wd_view_darkroom wl
              then (False, report,
                    g_set_error error (agent_execute_error ''agent edits require darkroom view''), wl)
              else
                let ordered = ordered_operations_for_execution operations in
                case validate_batch env wl 0 ordered of
                  (failed, Some e) \<Rightarrow>
                    (False, Some (block_batch 0 failed e ordered rep), g_set_error error e, wl)
                | (failed, None) \<Rightarrow>
                    (case execute_batch env ordered True None rep wl of
                       (all_ok, first_error, rep, wl) \<Rightarrow>
                         (all_ok, Some rep,
                          if all_ok then error
                          else case first_error of Some e \<Rightarrow> g_set_error error e | None \<Rightarrow> error,
                          wl)))
      | _ \<Rightarrow> (False, report,
              g_set_error error (agent_execute_error ''missing execution inputs''), wl))"

definition dt_agent_actions_apply_response ::
  "env \<Rightarrow> dt_agent_chat_response option \<Rightarrow> gerror option \<Rightarrow> world \<Rightarrow> bool \<times> gerror option \<times> world" where
  "dt_agent_actions_apply_response env response error wl =
     (case dt_agent_execute_response env response (Some dt_agent_execution_report_init) error wl of
        (ok, report, error, wl) \<Rightarrow> (ok, error, wl))"

subsection \<open>Sorting by a comparison function\<close>

locale sort_contract =
  fixes sort_by :: "('a \<Rightarrow> 'a \<Rightarrow> int) \<Rightarrow> 'a list \<Rightarrow> 'a list"
    and total_cmp :: "('a \<Rightarrow> 'a \<Rightarrow> int) \<Rightarrow> 'a list \<Rightarrow> bool"
  assumes sort_perm: "mset (sort_by cmp xs) = mset xs"
    and sort_sorted: "total_cmp cmp xs \<Longrightarrow> sorted_wrt (\<lambda>x y. cmp x y \<le> 0) (sort_by cmp xs)"
begin

lemma sort_set: "set (sort_by cmp xs) = set xs"
  by (rule mset_eq_setD) (rule sort_perm)

lemma sort_length: "length (sort_by cmp xs) = length xs"
  by (rule mset_eq_length) (rule sort_perm)

text \<open>Where only equal elements compare as not greater both ways, the result is determined.\<close>

lemma sort_unique:
  assumes tot: "total_cmp cmp xs" and ys: "mset ys = mset xs" "sorted_wrt (\<lambda>x y. cmp x y \<le> 0) ys"
    and anti: "\<And>x y. x \<in> set xs \<Longrightarrow> y \<in> set xs \<Longrightarrow> cmp x y \<le> 0 \<Longrightarrow> cmp y x \<le> 0 \<Longrightarrow> x = y"
  shows "ys = sort_by cmp xs"
proof -
  have uniq: "ys = zs" if "mset ys = mset zs" "sorted_wrt (\<lambda>x y. cmp x y \<le> 0) ys"
    "sorted_wrt (\<lambda>x y. cmp x y \<le> 0) zs" "set ys \<subseteq> set xs" for ys zs
    using that
  proof (induction ys arbitrary: zs)
    case (Cons y ys)
    then obtain z zs' where zs: "zs = z # zs'" by (cases zs) auto
    have sets: "insert y (set ys) = insert z (set zs')"
      using mset_eq_setD [OF Cons.prems(1)] by (simp add: zs)
    have "y = z"
    proof (rule ccontr)
      assume ne: "y \<noteq> z"
      have "y \<in> insert z (set zs')" by (simp flip: sets)
      with ne have y: "y \<in> set zs'" by simp
      have "z \<in> insert y (set ys)" by (simp add: sets)
      with ne have z: "z \<in> set ys" by simp
      have "cmp y z \<le> 0" using Cons.prems(2) z by simp
      moreover have "cmp z y \<le> 0" using Cons.prems(3) y by (simp add: zs)
      moreover have "y \<in> set xs" "z \<in> set xs" using Cons.prems(4) z by auto
      ultimately show False using anti [of y z] ne by simp
    qed
    moreover have "ys = zs'"
      by (rule Cons.IH) (use Cons.prems zs \<open>y = z\<close> in simp_all)
    ultimately show ?case by (simp add: zs)
  qed simp
  have "set ys \<subseteq> set xs" using mset_eq_setD [OF ys(1)] by simp
  then show ?thesis
    using uniq [of ys "sort_by cmp xs"] ys sort_perm sort_sorted [OF tot] by simp
qed

end

definition total_preorder :: "('a \<Rightarrow> 'a \<Rightarrow> int) \<Rightarrow> 'a list \<Rightarrow> bool" where
  "total_preorder cmp xs \<longleftrightarrow>
     (\<forall>x \<in> set xs. \<forall>y \<in> set xs. cmp x y \<le> 0 \<or> cmp y x \<le> 0)
     \<and> (\<forall>x \<in> set xs. \<forall>y \<in> set xs. \<forall>z \<in> set xs. cmp x y \<le> 0 \<longrightarrow> cmp y z \<le> 0 \<longrightarrow> cmp x z \<le> 0)"

lemma total_preorder_subset: "total_preorder cmp xs \<Longrightarrow> set ys \<subseteq> set xs \<Longrightarrow> total_preorder cmp ys"
  unfolding total_preorder_def by (meson subsetD)

lemma insert_by_mset [simp]: "mset (insert_by cmp x xs) = add_mset x (mset xs)"
  by (induction xs) auto

lemma insert_by_set: "set (insert_by cmp x xs) = insert x (set xs)"
  by (induction xs) auto

lemma insert_by_sorted:
  "sorted_wrt (\<lambda>x y. cmp x y \<le> 0) xs \<Longrightarrow> total_preorder cmp (x # xs)
     \<Longrightarrow> sorted_wrt (\<lambda>x y. cmp x y \<le> 0) (insert_by cmp x xs)"
proof (induction xs)
  case (Cons y ys)
  have tot: "total_preorder cmp (x # ys)"
    by (rule total_preorder_subset [OF Cons.prems(2)]) auto
  show ?case
  proof (cases "cmp x y \<le> 0")
    case True
    have "cmp x z \<le> 0" if "z \<in> set ys" for z
    proof -
      have "cmp y z \<le> 0" using Cons.prems(1) that by simp
      with True that Cons.prems(2) show ?thesis
        unfolding total_preorder_def by (meson list.set_intros)
    qed
    with True Cons.prems(1) show ?thesis by simp
  next
    case False
    then have "cmp y x \<le> 0"
      using Cons.prems(2) unfolding total_preorder_def by (meson list.set_intros)
    with False Cons tot show ?thesis by (auto simp: insert_by_set)
  qed
qed simp

lemma g_array_sort_mset: "mset (g_array_sort cmp xs) = mset xs"
  by (induction xs) (simp_all add: g_array_sort_def)

lemma g_array_sort_sorted:
  "total_preorder cmp xs \<Longrightarrow> sorted_wrt (\<lambda>x y. cmp x y \<le> 0) (g_array_sort cmp xs)"
proof (induction xs)
  case (Cons x xs)
  have s: "set (g_array_sort cmp xs) = set xs"
    using g_array_sort_mset [of cmp xs] by (rule mset_eq_setD)
  have t1: "total_preorder cmp xs"
    by (rule total_preorder_subset [OF Cons.prems]) auto
  have "total_preorder cmp (x # g_array_sort cmp xs)"
    by (rule total_preorder_subset [OF Cons.prems]) (simp add: s)
  with insert_by_sorted [OF Cons.IH [OF t1]] show ?case by (simp add: g_array_sort_def)
qed (simp add: g_array_sort_def)

interpretation array_sort: sort_contract g_array_sort total_preorder
  by unfold_locales (simp_all add: g_array_sort_mset g_array_sort_sorted)

subsection \<open>What the ordering does\<close>

lemma wb_compare_le:
  "ordered_white_balance_operation_compare x y \<le> 0
     \<longleftrightarrow> white_balance_operation_rank (oo_operation x) < white_balance_operation_rank (oo_operation y)
       \<or> white_balance_operation_rank (oo_operation x) = white_balance_operation_rank (oo_operation y)
         \<and> oo_original_index x \<le> oo_original_index y"
  by (auto simp: ordered_white_balance_operation_compare_def Let_def)

lemma wb_compare_total: "total_preorder ordered_white_balance_operation_compare xs"
  by (auto simp: total_preorder_def wb_compare_le)

lemma place_length [simp]: "length (place xs ps vs) = length xs"
  by (induction xs ps vs rule: place.induct) auto

lemma place_other: "i \<notin> set ps \<Longrightarrow> place xs ps vs ! i = xs ! i"
  by (induction xs ps vs rule: place.induct) auto

lemma place_values:
  "distinct ps \<Longrightarrow> length ps = length vs \<Longrightarrow> \<forall>p \<in> set ps. p < length xs
     \<Longrightarrow> map ((!) (place xs ps vs)) ps = vs"
proof (induction xs ps vs rule: place.induct)
  case (1 xs p ps v vs)
  then have "place (xs[p := v]) ps vs ! p = v" by (simp add: place_other)
  with 1 show ?case by simp
qed auto

lemma filter_as_positions: "filter P xs = map ((!) xs) (filter (\<lambda>i. P (xs ! i)) [0..<length xs])"
proof -
  have "filter P (map ((!) xs) [0..<length xs]) = map ((!) xs) (filter (P \<circ> (!) xs) [0..<length xs])"
    by (rule filter_map)
  then show ?thesis by (simp add: map_nth o_def)
qed

lemma wb_positions_props:
  "distinct (wb_positions ops)" "\<forall>p \<in> set (wb_positions ops). p < length ops"
  "i \<in> set (wb_positions ops) \<longleftrightarrow> i < length ops \<and> wb_operation (ops ! i)"
  by (auto simp: wb_positions_def)

lemma wb_items_operations: "map oo_operation (wb_items ops) = filter wb_operation ops"
  by (simp add: wb_items_def wb_positions_def o_def filter_as_positions [of wb_operation ops])

lemma wb_items_length [simp]: "length (wb_items ops) = length (wb_positions ops)"
  by (simp add: wb_items_def)

lemma wb_items_index: "map oo_original_index (wb_items ops) = wb_positions ops"
  by (simp add: wb_items_def o_def)

abbreviation sorted_items :: "dt_agent_chat_operation list \<Rightarrow> ordered_operation list" where
  "sorted_items ops \<equiv> g_array_sort ordered_white_balance_operation_compare (wb_items ops)"

text \<open>
  Leaving the array alone below two white balance operations is the general case, too.
\<close>

lemma short_sort: "length xs < 2 \<Longrightarrow> g_array_sort cmp xs = xs"
  by (cases xs; cases "tl xs") (auto simp: g_array_sort_def)

lemma place_same: "place xs ps (map ((!) xs) ps) = xs"
  by (induction ps) auto

lemma ordered_operations_place:
  "ordered_operations_for_execution ops
     = place ops (wb_positions ops) (map oo_operation (sorted_items ops))"
proof (cases "length (wb_items ops) < 2")
  case True
  have "map oo_operation (wb_items ops) = map ((!) ops) (wb_positions ops)"
    by (simp add: wb_items_def o_def)
  with True show ?thesis
    by (simp add: ordered_operations_for_execution_def Let_def short_sort place_same)
qed (simp add: ordered_operations_for_execution_def Let_def)

lemma ordered_nth_other:
  "i < length ops \<Longrightarrow> \<not> wb_operation (ops ! i) \<Longrightarrow> ordered_operations_for_execution ops ! i = ops ! i"
  by (simp add: ordered_operations_place place_other wb_positions_props)

lemma ordered_at_positions:
  "map ((!) (ordered_operations_for_execution ops)) (wb_positions ops) = map oo_operation (sorted_items ops)"
  unfolding ordered_operations_place
  by (rule place_values) (auto simp: wb_positions_props array_sort.sort_length)

lemma sorted_items_wb: "x \<in> set (sorted_items ops) \<Longrightarrow> wb_operation (oo_operation x)"
  using arg_cong [OF wb_items_operations [of ops], of set]
  by (auto simp: array_sort.sort_set)

lemma ordered_wb_iff:
  assumes "i < length ops"
  shows "wb_operation (ordered_operations_for_execution ops ! i) \<longleftrightarrow> wb_operation (ops ! i)"
proof (cases "wb_operation (ops ! i)")
  case True
  with assms have "i \<in> set (wb_positions ops)" by (simp add: wb_positions_props)
  then have "ordered_operations_for_execution ops ! i
      \<in> set (map ((!) (ordered_operations_for_execution ops)) (wb_positions ops))" by simp
  then show ?thesis
    unfolding ordered_at_positions using True by (auto dest: sorted_items_wb)
next
  case False
  with assms show ?thesis by (simp add: ordered_nth_other)
qed

lemma ordered_length [simp]: "length (ordered_operations_for_execution ops) = length ops"
  by (simp add: ordered_operations_place)

lemma ordered_wb_filter:
  "filter wb_operation (ordered_operations_for_execution ops) = map oo_operation (sorted_items ops)"
proof -
  have "filter (\<lambda>i. wb_operation (ordered_operations_for_execution ops ! i)) [0..<length ops]
      = wb_positions ops"
    unfolding wb_positions_def by (rule filter_cong) (auto simp: ordered_wb_iff)
  then show ?thesis
    by (simp add: filter_as_positions [of wb_operation] ordered_at_positions)
qed

lemma ordered_other_filter:
  "filter (\<lambda>x. \<not> wb_operation x) (ordered_operations_for_execution ops)
     = filter (\<lambda>x. \<not> wb_operation x) ops"
proof -
  have "filter (\<lambda>i. \<not> wb_operation (ordered_operations_for_execution ops ! i)) [0..<length ops]
      = filter (\<lambda>i. \<not> wb_operation (ops ! i)) [0..<length ops]"
    by (rule filter_cong) (auto simp: ordered_wb_iff)
  then show ?thesis
    by (simp add: filter_as_positions [of "\<lambda>x. \<not> wb_operation x"] ordered_nth_other)
qed

lemma mset_filter_split: "mset xs = mset (filter P xs) + mset (filter (\<lambda>x. \<not> P x) xs)"
  by (induction xs) auto

lemma ordered_mset: "mset (ordered_operations_for_execution ops) = mset ops"
proof -
  have "mset (map oo_operation (sorted_items ops)) = mset (filter wb_operation ops)"
    unfolding wb_items_operations [symmetric] mset_map array_sort.sort_perm ..
  then have wb: "mset (filter wb_operation (ordered_operations_for_execution ops)) = mset (filter wb_operation ops)"
    by (simp only: ordered_wb_filter)
  show ?thesis
    by (subst (1 2) mset_filter_split [of _ wb_operation]) (simp only: wb ordered_other_filter)
qed

text \<open>Operations of the same rank keep their order: both lists are the one sorted by index.\<close>

lemma sorted_items_stable:
  "filter (\<lambda>x. white_balance_operation_rank (oo_operation x) = r) (sorted_items ops)
     = filter (\<lambda>x. white_balance_operation_rank (oo_operation x) = r) (wb_items ops)"
    (is "filter ?P _ = _")
proof -
  have idx: "distinct (map oo_original_index (wb_items ops))"
    by (simp add: wb_items_index wb_positions_props)
  have srt: "sorted_wrt (\<lambda>x y. ordered_white_balance_operation_compare x y \<le> 0) (filter ?P (sorted_items ops))"
    by (rule sorted_wrt_filter) (rule array_sort.sort_sorted [OF wb_compare_total])
  have perm: "mset (filter ?P (sorted_items ops)) = mset (filter ?P (wb_items ops))"
    by (simp add: array_sort.sort_perm mset_filter)
  have asc: "sorted_wrt (\<lambda>x y. oo_original_index x < oo_original_index y) (wb_items ops)"
    by (simp add: wb_items_def sorted_wrt_map wb_positions_def sorted_wrt_filter)
  have srt': "sorted_wrt (\<lambda>x y. ordered_white_balance_operation_compare x y \<le> 0) (filter ?P (wb_items ops))"
    by (rule sorted_wrt_mono_rel [OF _ sorted_wrt_filter [OF asc]]) (auto simp: wb_compare_le)
  have anti: "x = y" if "x \<in> set (filter ?P (wb_items ops))" "y \<in> set (filter ?P (wb_items ops))"
    "ordered_white_balance_operation_compare x y \<le> 0" "ordered_white_balance_operation_compare y x \<le> 0" for x y
  proof -
    from that have "oo_original_index x = oo_original_index y" by (auto simp: wb_compare_le)
    with that(1,2) idx show ?thesis by (auto simp: distinct_map dest: inj_onD)
  qed
  have "filter ?P (sorted_items ops) = g_array_sort ordered_white_balance_operation_compare (filter ?P (wb_items ops))"
    using array_sort.sort_unique [OF wb_compare_total perm srt] anti by blast
  also have "\<dots> = filter ?P (wb_items ops)"
    using array_sort.sort_unique [OF wb_compare_total refl srt'] anti by metis
  finally show ?thesis .
qed

text \<open>
  C9: reordering for execution touches only white balance.  The executed operations are a
  permutation of the response's; every other operation keeps its exact position; the white balance
  operations come in the order of their ranks (switch, preset, then the numeric controls), and
  operations of the same rank keep their relative order.
\<close>

theorem ordered_operations_correct:
  shows "mset (ordered_operations_for_execution ops) = mset ops
    \<and> (\<forall>i < length ops. \<not> wb_operation (ops ! i) \<longrightarrow> ordered_operations_for_execution ops ! i = ops ! i)
    \<and> sorted (map white_balance_operation_rank (filter wb_operation (ordered_operations_for_execution ops)))
    \<and> (\<forall>r. filter (\<lambda>x. wb_operation x \<and> white_balance_operation_rank x = r) (ordered_operations_for_execution ops)
          = filter (\<lambda>x. wb_operation x \<and> white_balance_operation_rank x = r) ops)"
proof -
  have "sorted_wrt (\<lambda>x y. white_balance_operation_rank (oo_operation x) \<le> white_balance_operation_rank (oo_operation y))
          (sorted_items ops)"
    by (rule sorted_wrt_mono_rel [OF _ array_sort.sort_sorted [OF wb_compare_total]])
       (auto simp: wb_compare_le)
  then have "sorted (map white_balance_operation_rank (filter wb_operation (ordered_operations_for_execution ops)))"
    by (simp add: ordered_wb_filter sorted_wrt_map)
  moreover have "filter (\<lambda>x. wb_operation x \<and> white_balance_operation_rank x = r) (ordered_operations_for_execution ops)
      = filter (\<lambda>x. wb_operation x \<and> white_balance_operation_rank x = r) ops" for r
  proof -
    have "filter (\<lambda>x. white_balance_operation_rank x = r) (map oo_operation (sorted_items ops))
        = filter (\<lambda>x. white_balance_operation_rank x = r) (map oo_operation (wb_items ops))"
      using arg_cong [OF sorted_items_stable, of "map oo_operation"]
      by (simp add: filter_map o_def)
    then show ?thesis
      unfolding ordered_wb_filter [symmetric] wb_items_operations
      by (simp add: conj_commute)
  qed
  ultimately show ?thesis by (simp add: ordered_mset ordered_nth_other)
qed

definition sample_op :: "string \<Rightarrow> string \<Rightarrow> dt_agent_operation_kind_t \<Rightarrow> dt_agent_chat_operation" where
  "sample_op opid path k = zero_operation
     \<lparr>op_operation_id := Some opid, op_kind := k,
      op_kind_name := Some (dt_agent_operation_kind_to_string k), op_status := Some ''planned'',
      op_target_type := Some ''darktable-action'', op_action_path := Some path,
      op_value_mode := DT_AGENT_VALUE_MODE_SET,
      op_has_choice_value := (k = DT_AGENT_OPERATION_SET_CHOICE),
      op_has_bool_value := (k = DT_AGENT_OPERATION_SET_BOOL)\<rparr>"

lemma ordered_operations_correct_witness:
  "let ops = [sample_op ''a'' ''iop/temperature/tint'' DT_AGENT_OPERATION_SET_FLOAT,
              sample_op ''b'' ''iop/exposure/exposure'' DT_AGENT_OPERATION_SET_FLOAT,
              sample_op ''c'' ''iop/temperature/settings'' DT_AGENT_OPERATION_SET_CHOICE]
   in ordered_operations_for_execution ops \<noteq> ops
      \<and> ordered_operations_for_execution ops ! 1 = ops ! 1"
proof -
  let ?ops = "[sample_op ''a'' ''iop/temperature/tint'' DT_AGENT_OPERATION_SET_FLOAT,
              sample_op ''b'' ''iop/exposure/exposure'' DT_AGENT_OPERATION_SET_FLOAT,
              sample_op ''c'' ''iop/temperature/settings'' DT_AGENT_OPERATION_SET_CHOICE]"
  have "op_operation_id (ordered_operations_for_execution ?ops ! 0) = Some ''c''"
    by code_simp
  moreover have "op_operation_id (?ops ! 0) = Some ''a''" by code_simp
  ultimately have "ordered_operations_for_execution ?ops \<noteq> ?ops" by auto
  moreover have "\<not> wb_operation (?ops ! 1)" by code_simp
  then have "ordered_operations_for_execution ?ops ! 1 = ?ops ! 1"
    using ordered_operations_correct [of ?ops] by simp
  ultimately show ?thesis by (simp add: Let_def)
qed

subsection \<open>What happens to a batch\<close>

definition results_of :: "dt_agent_execution_report \<Rightarrow> dt_agent_execution_result list" where
  "results_of report = garray (rep_results report)"

definition count_status :: "dt_agent_execution_status_t \<Rightarrow> dt_agent_execution_report \<Rightarrow> nat" where
  "count_status s report = length (filter (\<lambda>r. er_status r = s) (results_of report))"

text \<open>The counters of a report count its results.\<close>

definition report_accounts :: "dt_agent_execution_report \<Rightarrow> bool" where
  "report_accounts report \<longleftrightarrow>
     rep_results report \<noteq> None
     \<and> rep_applied_count report = count_status DT_AGENT_EXECUTION_STATUS_APPLIED report
     \<and> rep_blocked_count report = count_status DT_AGENT_EXECUTION_STATUS_BLOCKED report
     \<and> rep_failed_count report = count_status DT_AGENT_EXECUTION_STATUS_FAILED report"

text \<open>What an operation's outcome says of the report it was given and of its own result.\<close>

definition outcome_ok ::
  "dt_agent_chat_operation \<Rightarrow> dt_agent_execution_report \<Rightarrow> op_outcome \<Rightarrow> bool" where
  "outcome_ok operation report out \<longleftrightarrow>
     (case out of (ok, report', result, error, wl) \<Rightarrow>
        er_operation_id result = op_operation_id operation
        \<and> er_action_path result = op_action_path operation
        \<and> (if ok then report' = report
           else er_status result = DT_AGENT_EXECUTION_STATUS_BLOCKED
                \<and> report' = report\<lparr>rep_blocked_count := rep_blocked_count report + 1\<rparr>
              \<or> er_status result = DT_AGENT_EXECUTION_STATUS_FAILED
                \<and> report' = report\<lparr>rep_failed_count := rep_failed_count report + 1\<rparr>))"

definition result_for :: "dt_agent_chat_operation \<Rightarrow> dt_agent_execution_result \<Rightarrow> bool" where
  "result_for operation result \<longleftrightarrow>
     er_operation_id result = op_operation_id operation \<and> er_action_path result = op_action_path operation"

lemma result_for_new [simp]: "result_for operation (execution_result_new operation)"
  by (simp add: result_for_def execution_result_new_def)

lemma outcome_blocked:
  "result_for operation result
     \<Longrightarrow> outcome_ok operation report (execution_result_set_blocked report result error msg wl)"
  by (simp add: outcome_ok_def execution_result_set_blocked_def result_for_def)

lemma outcome_failed:
  "result_for operation result
     \<Longrightarrow> outcome_ok operation report (execution_result_set_failed report result error wl)"
  by (simp add: outcome_ok_def execution_result_set_failed_def result_for_def)

lemma outcome_applied:
  "result_for operation result \<Longrightarrow> outcome_ok operation report (True, report, result, error, wl)"
  by (simp add: outcome_ok_def result_for_def)

lemma result_for_updates [simp]:
  "result_for operation (result\<lparr>er_message := m\<rparr>) \<longleftrightarrow> result_for operation result"
  "result_for operation (result\<lparr>er_has_value_before := b, er_value_before := v\<rparr>) \<longleftrightarrow> result_for operation result"
  "result_for operation (result\<lparr>er_has_value_after := b, er_value_after := v\<rparr>) \<longleftrightarrow> result_for operation result"
  by (simp_all add: result_for_def)

lemmas outcome_intros = outcome_blocked outcome_failed outcome_applied

lemma outcome_write_float:
  "result_for operation result
     \<Longrightarrow> outcome_ok operation report (write_float_operation env d target report result error wl)"
  by (auto simp: write_float_operation_def split: prod.splits option.splits intro!: outcome_intros)

lemma outcome_float:
  "result_for operation result
     \<Longrightarrow> outcome_ok operation report (execute_set_float_operation env operation report result error wl)"
  by (auto simp: execute_set_float_operation_def Let_def split: prod.splits sum.splits
      intro!: outcome_intros outcome_write_float)

lemma outcome_choice:
  "result_for operation result
     \<Longrightarrow> outcome_ok operation report (execute_set_choice_operation env operation report result error wl)"
  by (auto simp: execute_set_choice_operation_def split: prod.splits sum.splits option.splits
      intro!: outcome_intros)

lemma outcome_bool:
  "result_for operation result
     \<Longrightarrow> outcome_ok operation report (execute_set_bool_operation env operation report result error wl)"
  by (auto simp: execute_set_bool_operation_def split: prod.splits sum.splits option.splits
      intro!: outcome_intros)

lemma execute_operation_outcome_ok:
  "outcome_ok operation report (execute_operation_outcome env operation report error wl)"
  by (auto simp: execute_operation_outcome_def Let_def split: dt_agent_operation_kind_t.splits
      intro!: outcome_blocked outcome_float outcome_choice outcome_bool)

text \<open>A report that grew by the results of some operations, in their order.\<close>

definition extends ::
  "dt_agent_execution_report \<Rightarrow> dt_agent_chat_operation list \<Rightarrow> dt_agent_execution_status_t list
     \<Rightarrow> dt_agent_execution_report \<Rightarrow> bool" where
  "extends report operations statuses report' \<longleftrightarrow>
     (report_accounts report \<longrightarrow> report_accounts report')
     \<and> (\<exists>rs. results_of report' = results_of report @ rs
          \<and> map er_operation_id rs = map op_operation_id operations
          \<and> map er_action_path rs = map op_action_path operations
          \<and> map er_status rs = statuses)"

lemma extends_refl: "extends report [] [] report"
  by (simp add: extends_def)

lemma extends_trans:
  "extends r xs ss r' \<Longrightarrow> extends r' ys ts r'' \<Longrightarrow> extends r (xs @ ys) (ss @ ts) r''"
  by (auto simp: extends_def)

lemma extends_Cons:
  "extends r [x] [s] r' \<Longrightarrow> extends r' ys ts r'' \<Longrightarrow> extends r (x # ys) (s # ts) r''"
  using extends_trans [of r "[x]" "[s]" r' ys ts r''] by simp

lemma extends_block:
  "extends report [operation] [DT_AGENT_EXECUTION_STATUS_BLOCKED] (block_operation msg operation report)"
  by (auto simp: extends_def block_operation_def add_result_def report_accounts_def count_status_def
      results_of_def execution_result_new_def Let_def)

lemma extends_execute:
  assumes "execute_operation env operation report error wl = (ok, report', error', wl')"
  shows "\<exists>s. extends report [operation] [s] report'
     \<and> (if ok then s = DT_AGENT_EXECUTION_STATUS_APPLIED
        else s = DT_AGENT_EXECUTION_STATUS_BLOCKED \<or> s = DT_AGENT_EXECUTION_STATUS_FAILED)"
proof -
  obtain k rep res e w where o: "execute_operation_outcome env operation report error wl = (k, rep, res, e, w)"
    by (metis prod.exhaust)
  from execute_operation_outcome_ok [of operation report env error wl]
  have "outcome_ok operation report (k, rep, res, e, w)" by (simp only: o)
  with assms o show ?thesis
    by (cases k)
       (auto simp: execute_operation_def outcome_ok_def extends_def add_result_def report_accounts_def
          count_status_def results_of_def Let_def)
qed

lemma block_batch_extends:
  "extends report operations (replicate (length operations) DT_AGENT_EXECUTION_STATUS_BLOCKED)
     (block_batch i failed e operations report)"
  by (induction i failed e operations report rule: block_batch.induct)
     (auto simp: extends_refl intro: extends_Cons extends_block)

lemma execute_batch_after_failure:
  "execute_batch env operations False fe report wl = (ok, fe', report', wl')
     \<Longrightarrow> \<not> ok \<and> fe' = fe \<and> wl' = wl
       \<and> extends report operations (replicate (length operations) DT_AGENT_EXECUTION_STATUS_BLOCKED) report'"
proof (induction operations arbitrary: report)
  case (Cons x xs)
  from Cons.prems have "execute_batch env xs False fe (block_operation
      ''blocked by a previous operation failure'' x report) wl = (ok, fe', report', wl')" by simp
  from Cons.IH [OF this]
  have IH: "\<not> ok \<and> fe' = fe \<and> wl' = wl \<and> extends (block_operation
      ''blocked by a previous operation failure'' x report) xs
      (replicate (length xs) DT_AGENT_EXECUTION_STATUS_BLOCKED) report'" .
  then show ?case by (auto intro: extends_Cons extends_block)
qed (auto simp: extends_refl)

text \<open>Statuses of a run: applied up to the first failure, blocked after it.\<close>

definition run_statuses :: "bool \<Rightarrow> nat \<Rightarrow> dt_agent_execution_status_t list \<Rightarrow> bool" where
  "run_statuses ok n ss \<longleftrightarrow>
     (\<exists>k. if ok then k = n \<and> ss = replicate k DT_AGENT_EXECUTION_STATUS_APPLIED
          else k < n \<and> (\<exists>s \<in> {DT_AGENT_EXECUTION_STATUS_BLOCKED, DT_AGENT_EXECUTION_STATUS_FAILED}.
            ss = replicate k DT_AGENT_EXECUTION_STATUS_APPLIED
                 @ s # replicate (n - k - 1) DT_AGENT_EXECUTION_STATUS_BLOCKED))"

lemma run_statuses_Cons:
  "run_statuses ok n ss \<Longrightarrow> run_statuses ok (Suc n) (DT_AGENT_EXECUTION_STATUS_APPLIED # ss)"
proof (cases ok)
  case False
  assume "run_statuses ok n ss"
  with False obtain k s where "k < n" "s \<in> {DT_AGENT_EXECUTION_STATUS_BLOCKED, DT_AGENT_EXECUTION_STATUS_FAILED}"
    "ss = replicate k DT_AGENT_EXECUTION_STATUS_APPLIED @ s # replicate (n - k - 1) DT_AGENT_EXECUTION_STATUS_BLOCKED"
    by (auto simp: run_statuses_def)
  with False show ?thesis
    by (auto simp: run_statuses_def intro!: exI [of _ "Suc k"])
qed (auto simp: run_statuses_def)

lemma execute_batch_extends:
  "execute_batch env operations True fe report wl = (ok, fe', report', wl')
     \<Longrightarrow> \<exists>ss. extends report operations ss report' \<and> run_statuses ok (length operations) ss"
proof (induction operations arbitrary: report wl)
  case (Cons x xs)
  obtain k rep e w where x: "execute_operation env x report None wl = (k, rep, e, w)"
    by (metis prod.exhaust)
  from extends_execute [OF x] obtain s where s: "extends report [x] [s] rep"
    "if k then s = DT_AGENT_EXECUTION_STATUS_APPLIED
     else s = DT_AGENT_EXECUTION_STATUS_BLOCKED \<or> s = DT_AGENT_EXECUTION_STATUS_FAILED" by blast
  show ?case
  proof (cases k)
    case True
    with Cons.prems x have "execute_batch env xs True fe rep w = (ok, fe', report', wl')" by simp
    from Cons.IH [OF this] obtain ss where "extends rep xs ss report'" "run_statuses ok (length xs) ss"
      by blast
    with s True show ?thesis by (auto intro!: extends_Cons run_statuses_Cons)
  next
    case False
    with Cons.prems x have "execute_batch env xs False (case e of Some e \<Rightarrow> Some e | None \<Rightarrow> fe) rep w
        = (ok, fe', report', wl')" by simp
    from execute_batch_after_failure [OF this] s False
    have "\<not> ok" "extends report (x # xs) (s # replicate (length xs) DT_AGENT_EXECUTION_STATUS_BLOCKED) report'"
      by (auto intro: extends_Cons)
    moreover have "run_statuses False (length (x # xs)) (s # replicate (length xs) DT_AGENT_EXECUTION_STATUS_BLOCKED)"
      using s(2) False by (auto simp: run_statuses_def intro!: exI [of _ 0])
    ultimately show ?thesis by auto
  qed
qed (auto simp: extends_refl run_statuses_def)

lemma validate_batch_first:
  assumes "validate_batch env wl i operations = (failed, error)"
  shows "if list_all (\<lambda>operation. fst (validate_operation env wl operation)) operations
         then failed = None \<and> error = None
         else \<exists>operation \<in> set operations. validate_operation env wl operation = (False, error)"
  using assms
  by (induction env wl i operations rule: validate_batch.induct) (auto split: prod.splits bool.splits)

text \<open>
  The one way an operation is refused without an error: a number that is not a slider's and cannot
  be read.
\<close>

lemma validate_operation_error:
  assumes v: "validate_operation env wl operation = (False, None)"
  shows "\<exists>d. find_operation_descriptor env wl operation = Inr d
             \<and> ad_binding d \<noteq> DT_AGENT_DESCRIPTOR_BINDING_WIDGET"
proof -
  from v obtain d where d: "find_operation_descriptor env wl operation = Inr d"
    and nan: "read_descriptor_float_value env wl d None = (NaN, None)"
    by (auto simp: validate_operation_def validate_float_operation_def validate_choice_operation_def
        validate_bool_operation_def g_set_error_def isnan_flt_def
        split: if_splits dt_agent_operation_kind_t.splits sum.splits option.splits prod.splits)
  have "reads_finite wl d"
    using d found_reads_finite by (simp add: find_operation_descriptor_def)
  then have "ad_binding d \<noteq> DT_AGENT_DESCRIPTOR_BINDING_WIDGET"
    using nan
    by (auto simp: reads_finite_def read_descriptor_float_value_def isfinite_flt_def
        dt_agent_catalog_read_current_number_def g_set_error_def Let_def
        split: if_splits option.splits prod.splits)
  with d show ?thesis by blast
qed

text \<open>
  C2: a batch is all or nothing as far as validation goes.  If any operation of the response does
  not validate, and every refused operation that names a control names one bound to a widget, no operation
  is applied: the call fails with an error, the world (widgets, parameters, everything) is exactly as before
  and the count of applied operations has not moved.  The proviso excludes levels handles and colour zone
  bands, whose reading can fail without an error: then the operations before the refused one are applied
  (\<open>execute_batch_not_atomic\<close>).
\<close>

theorem execute_batch_atomic:
  assumes exec: "dt_agent_execute_response env (Some r) (Some report) error wl = (ok, report', error', wl')"
    and ops: "resp_operations r = Some operations" "operation \<in> set operations"
    and bad: "\<not> fst (validate_operation env wl operation)"
    and bound: "\<And>oper d. oper \<in> set operations \<Longrightarrow> \<not> fst (validate_operation env wl oper)
                  \<Longrightarrow> find_operation_descriptor env wl oper = Inr d
                  \<Longrightarrow> ad_binding d = DT_AGENT_DESCRIPTOR_BINDING_WIDGET"
  shows "\<not> ok \<and> wl' = wl \<and> error' \<noteq> None
         \<and> rep_applied_count (the report') = rep_applied_count report"
proof -
  have blocked: "rep_applied_count (block_batch i f e xs rep) = rep_applied_count rep" for i f e xs rep
    by (induction i f e xs rep rule: block_batch.induct) (simp_all add: block_operation_def add_result_def Let_def)
  have set: "set (ordered_operations_for_execution operations) = set operations"
    by (rule mset_eq_setD) (rule ordered_mset)
  obtain f e where v: "validate_batch env wl 0 (ordered_operations_for_execution operations) = (f, e)"
    by fastforce
  have "\<not> list_all (\<lambda>oper. fst (validate_operation env wl oper)) (ordered_operations_for_execution operations)"
    using bad ops(2) set by (auto simp: list_all_iff)
  with validate_batch_first [OF v] obtain oper where
    oper: "oper \<in> set operations" "validate_operation env wl oper = (False, e)" by (auto simp: set)
  have "e \<noteq> None"
  proof
    assume "e = None"
    with oper(2) obtain d where "find_operation_descriptor env wl oper = Inr d"
      "ad_binding d \<noteq> DT_AGENT_DESCRIPTOR_BINDING_WIDGET"
      using validate_operation_error [of env wl oper] by auto
    with bound [OF oper(1)] oper(2) show False by simp
  qed
  then obtain err where e: "e = Some err" by blast
  show ?thesis
    using exec ops(1) v e blocked
    by (auto simp: dt_agent_execute_response_def Let_def g_set_error_def split: if_splits option.splits)
qed

definition sample_batch :: "dt_agent_chat_operation list" where
  "sample_batch =
     [(sample_op ''a'' ''iop/exposure/enable'' DT_AGENT_OPERATION_SET_BOOL)
        \<lparr>op_setting_id := Some ''setting.iop.exposure.enable.instance.0'', op_bool_value := False\<rparr>,
      (sample_op ''b'' ''iop/exposure/mode'' DT_AGENT_OPERATION_SET_CHOICE)
        \<lparr>op_setting_id := Some ''setting.iop.exposure.mode.instance.0'', op_choice_value := 7\<rparr>]"

lemma sample_bindings: "list_all (\<lambda>d. ad_binding d = DT_AGENT_DESCRIPTOR_BINDING_WIDGET) sample_descriptors"
  by code_simp

lemma execute_batch_atomic_witness:
  "fst (dt_agent_execute_response sample_env
     (Some (dt_agent_chat_response_init\<lparr>resp_operations := Some sample_batch\<rparr>))
     (Some dt_agent_execution_report_init) None sample_world) = False"
proof -
  obtain ok rep e w where x: "dt_agent_execute_response sample_env
     (Some (dt_agent_chat_response_init\<lparr>resp_operations := Some sample_batch\<rparr>))
     (Some dt_agent_execution_report_init) None sample_world = (ok, rep, e, w)" by (metis prod.exhaust)
  have bad: "\<not> fst (validate_operation sample_env sample_world (sample_batch ! 1))" by code_simp
  have bound: "ad_binding d = DT_AGENT_DESCRIPTOR_BINDING_WIDGET"
    if "find_operation_descriptor sample_env sample_world oper = Inr d" for oper d
  proof -
    from that find_descriptor_ok have "d \<in> set sample_descriptors"
      unfolding find_operation_descriptor_def using sample_collect by fastforce
    with sample_bindings show ?thesis by (simp add: list_all_iff)
  qed
  have "sample_batch ! 1 \<in> set sample_batch" by (simp add: sample_batch_def)
  from execute_batch_atomic [OF x _ this bad] bound x show ?thesis by simp
qed

text \<open>
  What a result says of the world before and after its operation.  Applied: the control was found, and the
  write of the requested value to it succeeded and led from the one world to the other; a number was read
  before, and is reported with the value written, a choice or a switch is reported with the value it has.
  Failed: the number could not be read, or the write did not succeed.  Blocked: nothing was written.
\<close>

definition requested_number :: "dt_agent_chat_operation \<Rightarrow> flt \<Rightarrow> flt" where
  "requested_number operation before = (if op_value_mode operation = DT_AGENT_VALUE_MODE_DELTA
     then fadd round64 before (op_number operation) else op_number operation)"

fun result_true ::
  "env \<Rightarrow> dt_agent_chat_operation \<Rightarrow> dt_agent_action_descriptor \<Rightarrow> dt_agent_execution_result
     \<Rightarrow> world \<Rightarrow> world \<Rightarrow> bool" where
  "result_true env operation d r w w' \<longleftrightarrow>
     (case op_kind operation of
        DT_AGENT_OPERATION_SET_FLOAT \<Rightarrow>
          er_has_value_before r \<and> er_value_before r = fst (read_descriptor_float_value env w d None)
          \<and> er_value_before r \<noteq> NaN \<and> er_has_value_after r
          \<and> (\<exists>e e'. dt_agent_catalog_write_number env d (requested_number operation (er_value_before r)) e w
                    = (Some (er_value_after r), e', w'))
      | DT_AGENT_OPERATION_SET_CHOICE \<Rightarrow>
          (\<exists>v e e'. dt_agent_catalog_write_choice env d (op_choice_value operation) e w = (Some v, e', w')
             \<and> er_message r = Some (''applied choice '' @ show_int v))
      | DT_AGENT_OPERATION_SET_BOOL \<Rightarrow>
          (\<exists>v e e'. dt_agent_catalog_write_bool env d (op_bool_value operation) e w = (Some v, e', w')
             \<and> er_message r = Some (if v then ''applied on'' else ''applied off''))
      | DT_AGENT_OPERATION_UNKNOWN \<Rightarrow> False)"

fun failure_true ::
  "env \<Rightarrow> dt_agent_chat_operation \<Rightarrow> dt_agent_action_descriptor \<Rightarrow> world \<Rightarrow> world \<Rightarrow> bool" where
  "failure_true env operation d w w' \<longleftrightarrow>
     (case op_kind operation of
        DT_AGENT_OPERATION_SET_FLOAT \<Rightarrow>
          fst (read_descriptor_float_value env w d None) = NaN \<and> w' = w
          \<or> (\<exists>e e'. dt_agent_catalog_write_number env d
                     (requested_number operation (fst (read_descriptor_float_value env w d None))) e w = (None, e', w'))
      | DT_AGENT_OPERATION_SET_CHOICE \<Rightarrow>
          (\<exists>e e'. dt_agent_catalog_write_choice env d (op_choice_value operation) e w = (None, e', w'))
      | DT_AGENT_OPERATION_SET_BOOL \<Rightarrow>
          (\<exists>e e'. dt_agent_catalog_write_bool env d (op_bool_value operation) e w = (None, e', w'))
      | DT_AGENT_OPERATION_UNKNOWN \<Rightarrow> False)"

definition truth :: "env \<Rightarrow> dt_agent_chat_operation \<Rightarrow> dt_agent_execution_result \<Rightarrow> world \<Rightarrow> world \<Rightarrow> bool" where
  "truth env operation r w w' \<longleftrightarrow>
     (case er_status r of
        DT_AGENT_EXECUTION_STATUS_APPLIED \<Rightarrow>
          \<exists>d. find_operation_descriptor env w operation = Inr d \<and> result_true env operation d r w w'
      | DT_AGENT_EXECUTION_STATUS_FAILED \<Rightarrow>
          \<exists>d. find_operation_descriptor env w operation = Inr d \<and> failure_true env operation d w w'
      | DT_AGENT_EXECUTION_STATUS_BLOCKED \<Rightarrow> w' = w
      | DT_AGENT_EXECUTION_STATUS_UNKNOWN \<Rightarrow> False)"

text \<open>The results in turn, from the world before the first operation to that after the last.\<close>

fun truthful ::
  "env \<Rightarrow> world \<Rightarrow> dt_agent_chat_operation list \<Rightarrow> dt_agent_execution_result list \<Rightarrow> world \<Rightarrow> bool" where
  "truthful env w (operation # operations) (r # rs) w' \<longleftrightarrow>
     (\<exists>w1. truth env operation r w w1 \<and> truthful env w1 operations rs w')"
| "truthful env w operations rs w' \<longleftrightarrow> operations = [] \<and> rs = [] \<and> w' = w"

lemma truthful_blocked:
  "length rs = length operations \<Longrightarrow> \<forall>r \<in> set rs. er_status r = DT_AGENT_EXECUTION_STATUS_BLOCKED
     \<Longrightarrow> truthful env w operations rs w"
  by (induction operations rs rule: list_induct2') (auto simp: truth_def)

text \<open>The outcome of one operation, before the status of an applied one is set.\<close>

definition outcome_true :: "env \<Rightarrow> dt_agent_chat_operation \<Rightarrow> world \<Rightarrow> op_outcome \<Rightarrow> bool" where
  "outcome_true env operation w out \<longleftrightarrow>
     (case out of (ok, report, r, error, w') \<Rightarrow>
        if ok then \<exists>d. find_operation_descriptor env w operation = Inr d \<and> result_true env operation d r w w'
        else truth env operation r w w')"

lemma true_blocked: "outcome_true env operation w (execution_result_set_blocked report r error msg w)"
  by (simp add: outcome_true_def execution_result_set_blocked_def truth_def)

lemma true_failed:
  "find_operation_descriptor env w operation = Inr d \<Longrightarrow> failure_true env operation d w w'
     \<Longrightarrow> outcome_true env operation w (execution_result_set_failed report r error w')"
  by (auto simp: outcome_true_def execution_result_set_failed_def truth_def simp del: failure_true.simps)

lemma true_float:
  assumes "op_kind operation = DT_AGENT_OPERATION_SET_FLOAT"
  shows "outcome_true env operation w (execute_set_float_operation env operation report r None w)"
proof (cases "find_operation_descriptor env w operation")
  case (Inr d)
  obtain before e where b: "read_descriptor_float_value env w d None = (before, e)" by fastforce
  let ?r = "r\<lparr>er_has_value_before := True, er_value_before := before\<rparr>"
  have written: "outcome_true env operation w (write_float_operation env d (requested_number operation before) report ?r e w)"
    if "before \<noteq> NaN"
  proof -
    obtain a e1 w1 where x: "dt_agent_catalog_write_number env d (requested_number operation before) e w = (a, e1, w1)"
      by (metis prod.exhaust)
    show ?thesis
    proof (cases a)
      case None
      with x assms b have "failure_true env operation d w w1" by auto
      with true_failed [OF Inr] x None show ?thesis by (simp add: write_float_operation_def del: failure_true.simps)
    next
      case (Some v)
      with x assms b Inr that show ?thesis by (auto simp: write_float_operation_def outcome_true_def)
    qed
  qed
  show ?thesis
  proof (cases "before = NaN")
    case True
    with assms b have "failure_true env operation d w w" by simp
    with true_failed [OF Inr] True show ?thesis
      by (simp add: execute_set_float_operation_def Inr b Let_def isnan_flt_def del: failure_true.simps)
  next
    case False
    with written show ?thesis
      by (auto simp: execute_set_float_operation_def Inr b Let_def isnan_flt_def requested_number_def true_blocked)
  qed
qed (simp add: execute_set_float_operation_def true_blocked)

lemma true_choice:
  assumes "op_kind operation = DT_AGENT_OPERATION_SET_CHOICE"
  shows "outcome_true env operation w (execute_set_choice_operation env operation report r None w)"
proof (cases "find_operation_descriptor env w operation")
  case (Inr d)
  obtain a e1 w1 where x: "dt_agent_catalog_write_choice env d (op_choice_value operation) None w = (a, e1, w1)"
    by (metis prod.exhaust)
  show ?thesis
  proof (cases a)
    case None
    with x assms have "failure_true env operation d w w1" by auto
    with true_failed [OF Inr] x None show ?thesis
      by (simp add: execute_set_choice_operation_def Inr true_blocked del: failure_true.simps)
  next
    case (Some v)
    with x assms Inr show ?thesis
      by (simp add: execute_set_choice_operation_def true_blocked) (auto simp: outcome_true_def)
  qed
qed (simp add: execute_set_choice_operation_def true_blocked)

lemma true_bool:
  assumes "op_kind operation = DT_AGENT_OPERATION_SET_BOOL"
  shows "outcome_true env operation w (execute_set_bool_operation env operation report r None w)"
proof (cases "find_operation_descriptor env w operation")
  case (Inr d)
  obtain a e1 w1 where x: "dt_agent_catalog_write_bool env d (op_bool_value operation) None w = (a, e1, w1)"
    by (metis prod.exhaust)
  show ?thesis
  proof (cases a)
    case None
    with x assms have "failure_true env operation d w w1" by auto
    with true_failed [OF Inr] x None show ?thesis
      by (simp add: execute_set_bool_operation_def Inr true_blocked del: failure_true.simps)
  next
    case (Some v)
    let ?r = "r\<lparr>er_message := Some (if v then ''applied on'' else ''applied off'')\<rparr>"
    have "\<exists>v' e e'. dt_agent_catalog_write_bool env d (op_bool_value operation) e w = (Some v', e', w1)
        \<and> er_message ?r = Some (if v' then ''applied on'' else ''applied off'')"
      using x Some by (intro exI [of _ v] exI [of _ None] exI [of _ e1]) simp
    with assms have "result_true env operation d ?r w w1" by (simp only: result_true.simps) simp
    with Inr have "outcome_true env operation w (True, report, ?r, e1, w1)"
      by (auto simp: outcome_true_def simp del: result_true.simps)
    with x Some Inr show ?thesis by (simp add: execute_set_bool_operation_def true_blocked)
  qed
qed (simp add: execute_set_bool_operation_def true_blocked)

lemma execute_operation_true:
  assumes "execute_operation env operation report None w = (ok, report', error, w')"
  shows "\<exists>r. results_of report' = results_of report @ [r] \<and> truth env operation r w w'
     \<and> (ok \<longleftrightarrow> er_status r = DT_AGENT_EXECUTION_STATUS_APPLIED)"
proof -
  obtain k rep res e w1 where o: "execute_operation_outcome env operation report None w = (k, rep, res, e, w1)"
    by (metis prod.exhaust)
  have "outcome_true env operation w (execute_operation_outcome env operation report None w)"
    by (simp add: execute_operation_outcome_def Let_def true_blocked true_float true_choice true_bool
        split: dt_agent_operation_kind_t.split)
  then have t: "outcome_true env operation w (k, rep, res, e, w1)" by (simp only: o)
  have ok: "outcome_ok operation report (k, rep, res, e, w1)"
    using execute_operation_outcome_ok [of operation report env None w] by (simp only: o)
  show ?thesis
  proof (cases k)
    case True
    let ?r = "res\<lparr>er_status := DT_AGENT_EXECUTION_STATUS_APPLIED, er_message := Some (str_or (er_message res) ''applied'')\<rparr>"
    from True t obtain d where d: "find_operation_descriptor env w operation = Inr d" "result_true env operation d res w w1"
      by (auto simp: outcome_true_def simp del: result_true.simps)
    have "result_true env operation d ?r w w1"
    proof (cases "op_kind operation")
      case DT_AGENT_OPERATION_SET_BOOL
      with d(2) obtain v where "er_message res = Some (if v then ''applied on'' else ''applied off'')" by auto
      then have "er_message ?r = er_message res" by (simp add: str_or_def)
      with d(2) DT_AGENT_OPERATION_SET_BOOL show ?thesis by simp
    next
      case DT_AGENT_OPERATION_SET_CHOICE
      with d(2) obtain v where "er_message res = Some (''applied choice '' @ show_int v)" by auto
      then have "er_message ?r = er_message res" by (simp add: str_or_def)
      with d(2) DT_AGENT_OPERATION_SET_CHOICE show ?thesis by simp
    next
      case DT_AGENT_OPERATION_SET_FLOAT
      with d(2) show ?thesis by simp (elim conjE, simp)
    qed (use d(2) in simp_all)
    with d(1) have "truth env operation ?r w w1"
      by (auto simp: truth_def simp del: result_true.simps)
    moreover have "results_of report' = results_of report @ [?r]" "w' = w1" "ok"
      using assms ok True by (auto simp: execute_operation_def o add_result_def results_of_def outcome_ok_def)
    ultimately show ?thesis by (intro exI [of _ ?r]) simp
  next
    case False
    then have "results_of report' = results_of report @ [res]" "w' = w1" "\<not> ok" "er_status res \<noteq> DT_AGENT_EXECUTION_STATUS_APPLIED"
      using assms ok by (auto simp: execute_operation_def o add_result_def results_of_def outcome_ok_def)
    with t False show ?thesis by (intro exI [of _ res]) (simp add: outcome_true_def)
  qed
qed

lemma extends_blocked_results:
  assumes "extends report operations (replicate (length operations) DT_AGENT_EXECUTION_STATUS_BLOCKED) report'"
  shows "\<exists>rs. results_of report' = results_of report @ rs \<and> truthful env w operations rs w"
proof -
  from assms obtain rs where rs: "results_of report' = results_of report @ rs"
    "map er_operation_id rs = map op_operation_id operations"
    "map er_status rs = replicate (length operations) DT_AGENT_EXECUTION_STATUS_BLOCKED"
    by (auto simp: extends_def)
  have "length rs = length operations" using map_eq_imp_length_eq [OF rs(2)] .
  moreover have "\<forall>r \<in> set rs. er_status r = DT_AGENT_EXECUTION_STATUS_BLOCKED"
    using arg_cong [OF rs(3), of set] by (auto split: if_splits)
  ultimately show ?thesis using rs(1) truthful_blocked by blast
qed

lemma execute_batch_true:
  "execute_batch env operations True fe report w = (ok, fe', report', w')
     \<Longrightarrow> \<exists>rs. results_of report' = results_of report @ rs \<and> truthful env w operations rs w'"
proof (induction operations arbitrary: report w)
  case (Cons x xs)
  obtain k rep e w1 where x: "execute_operation env x report None w = (k, rep, e, w1)"
    by (metis prod.exhaust)
  from execute_operation_true [OF x] obtain r where r: "results_of rep = results_of report @ [r]" "truth env x r w w1"
    by blast
  have "\<exists>rs. results_of report' = results_of rep @ rs \<and> truthful env w1 xs rs w'"
  proof (cases k)
    case True
    with Cons.prems x have "execute_batch env xs True fe rep w1 = (ok, fe', report', w')" by simp
    from Cons.IH [OF this] show ?thesis .
  next
    case False
    with Cons.prems x have "execute_batch env xs False (case e of Some e \<Rightarrow> Some e | None \<Rightarrow> fe) rep w1
        = (ok, fe', report', w')" by simp
    from execute_batch_after_failure [OF this] have "w' = w1"
      "extends rep xs (replicate (length xs) DT_AGENT_EXECUTION_STATUS_BLOCKED) report'" by simp_all
    with extends_blocked_results show ?thesis by blast
  qed
  then obtain rs where "results_of report' = results_of rep @ rs" "truthful env w1 xs rs w'" by blast
  with r show ?case by (intro exI [of _ "r # rs"]) auto
qed simp

text \<open>
  C3: the report of an execution is complete and truthful.  Starting from an initialised report in
  the darkroom view, there is one result per operation, in execution order and with its id and path;
  the three counters count the results; the statuses are those of a run that stops at the first
  failure: with a result of TRUE everything is applied, otherwise a (possibly empty) prefix is
  applied, one operation is blocked or failed, and everything after it is blocked; and each result is
  true of its operation: an applied one wrote the requested value to its control with success and
  reports the value the control has, a failed one could not read or write it, a blocked one wrote nothing,
  and these writes one after the other lead from the world before to the world after.
\<close>

theorem execute_response_report:
  assumes exec: "dt_agent_execute_response env (Some r) (Some dt_agent_execution_report_init) error wl
                   = (ok, report', error', wl')"
    and ops: "resp_operations r = Some operations" and view: "wd_view_darkroom wl"
  shows "\<exists>rep. report' = Some rep \<and> report_accounts rep
     \<and> map er_operation_id (results_of rep)
         = map op_operation_id (ordered_operations_for_execution operations)
     \<and> map er_action_path (results_of rep)
         = map op_action_path (ordered_operations_for_execution operations)
     \<and> run_statuses ok (length operations) (map er_status (results_of rep))
     \<and> truthful env wl (ordered_operations_for_execution operations) (results_of rep) wl'"
proof -
  let ?ord = "ordered_operations_for_execution operations"
  have init: "report_accounts dt_agent_execution_report_init" "results_of dt_agent_execution_report_init = []"
    by (simp_all add: report_accounts_def dt_agent_execution_report_init_def count_status_def results_of_def)
  obtain f e where v: "validate_batch env wl 0 ?ord = (f, e)" by fastforce
  have "\<exists>rep ss. report' = Some rep \<and> extends dt_agent_execution_report_init ?ord ss rep
          \<and> run_statuses ok (length operations) ss \<and> truthful env wl ?ord (results_of rep) wl'"
  proof (cases e)
    case (Some err)
    with exec ops view v have r: "\<not> ok" "wl' = wl"
      "report' = Some (block_batch 0 f err ?ord dt_agent_execution_report_init)"
      by (auto simp: dt_agent_execute_response_def dt_agent_execution_report_init_def Let_def)
    have "?ord \<noteq> []" using v Some by auto
    then have "run_statuses False (length operations)
        (replicate (length ?ord) DT_AGENT_EXECUTION_STATUS_BLOCKED)"
      using ordered_length [of operations]
      by (cases "length operations") (auto simp: run_statuses_def intro!: exI [of _ 0] simp del: ordered_length)
    with r block_batch_extends [of dt_agent_execution_report_init ?ord 0 f err]
      extends_blocked_results [OF block_batch_extends [of dt_agent_execution_report_init ?ord 0 f err], of env wl] init(2) show ?thesis
      by auto
  next
    case None
    obtain k fe rep w where x: "execute_batch env ?ord True None dt_agent_execution_report_init wl
        = (k, fe, rep, w)" by (metis prod.exhaust)
    with exec ops view v None have r: "ok = k" "report' = Some rep" "wl' = w"
      by (auto simp: dt_agent_execute_response_def dt_agent_execution_report_init_def Let_def
          split: if_splits)
    from execute_batch_extends [OF x] execute_batch_true [OF x] r init(2) show ?thesis by auto
  qed
  then show ?thesis using init by (auto simp: extends_def)
qed

lemma execute_response_report_witness:
  "\<exists>rep. report_accounts rep \<and> length (results_of rep) = 2"
proof -
  obtain ok rep e w where x: "dt_agent_execute_response sample_env
     (Some (dt_agent_chat_response_init\<lparr>resp_operations := Some sample_batch\<rparr>))
     (Some dt_agent_execution_report_init) None sample_world = (ok, rep, e, w)" by (metis prod.exhaust)
  have "wd_view_darkroom sample_world" by (simp add: sample_world_def)
  from execute_response_report [OF x _ this, of sample_batch] obtain rep' where
    rep: "report_accounts rep'" "map er_operation_id (results_of rep')
      = map op_operation_id (ordered_operations_for_execution sample_batch)" by auto
  from arg_cong [OF rep(2), of length] rep(1) show ?thesis
    by (auto simp: sample_batch_def)
qed

end
