(* ===== verification/Client.thy ===== *)
theory Client
  imports Protocol_Serialize
begin

text \<open>
  The data of \<open>agent_client.c\<close>: the request handle shared between the darkroom and the background
  job, its reference count and cancellation flags, endpoints, the cancel message, results and
  progress reports, and the parser of progress payloads.  The stream they arrive on is in
  \<open>Client_Stream\<close>, the job that owns everything in \<open>Client_Job\<close>.
\<close>

subsection \<open>Handles, results and progress reports\<close>

text \<open>A handle that has been freed is None wherever a handle is an option.\<close>

record dt_agent_client_request =
  rq_refcount :: int
  rq_cancel_requested :: int
  rq_cancel_notified :: int
  rq_request_id :: cstr
  rq_app_session_id :: cstr
  rq_image_session_id :: cstr
  rq_conversation_id :: cstr
  rq_turn_id :: cstr
  rq_endpoint :: cstr

record dt_agent_client_result =
  cr_http_status :: int
  cr_endpoint :: cstr
  cr_transport_error :: cstr
  cr_cancelled :: bool
  cr_has_response :: bool
  cr_response :: dt_agent_chat_response

record dt_agent_client_progress =
  pg_http_status :: int
  pg_endpoint :: cstr
  pg_transport_error :: cstr
  pg_cancelled :: bool
  pg_found :: bool
  pg_has_response :: bool
  pg_status :: cstr
  pg_message :: cstr
  pg_last_tool_name :: cstr
  pg_tool_calls_used :: nat
  pg_tool_calls_max :: nat
  pg_applied_operation_count :: nat
  pg_requires_render_callback :: bool
  pg_response :: dt_agent_chat_response

definition zero_result :: dt_agent_client_result where
  "zero_result = \<lparr>cr_http_status = 0, cr_endpoint = None, cr_transport_error = None,
     cr_cancelled = False, cr_has_response = False, cr_response = zero_response\<rparr>"

definition zero_progress :: dt_agent_client_progress where
  "zero_progress = \<lparr>pg_http_status = 0, pg_endpoint = None, pg_transport_error = None,
     pg_cancelled = False, pg_found = False, pg_has_response = False, pg_status = None,
     pg_message = None, pg_last_tool_name = None, pg_tool_calls_used = 0, pg_tool_calls_max = 0,
     pg_applied_operation_count = 0, pg_requires_render_callback = False,
     pg_response = zero_response\<rparr>"

text \<open>Both clear functions free what the struct owns and zero it.\<close>

definition dt_agent_client_result_clear :: "dt_agent_client_result \<Rightarrow> dt_agent_client_result" where
  "dt_agent_client_result_clear r = zero_result"

definition dt_agent_client_progress_clear :: "dt_agent_client_progress \<Rightarrow> dt_agent_client_progress" where
  "dt_agent_client_progress_clear p = zero_progress"

definition agent_client_error :: "int \<Rightarrow> string \<Rightarrow> gerror" where
  "agent_client_error code msg =
     \<lparr>gerr_domain = ''dt-agent-client-error'', gerr_code = code, gerr_message = msg\<rparr>"

subsection \<open>Reference counting and cancellation\<close>

definition request_ref :: "dt_agent_client_request \<Rightarrow> dt_agent_client_request" where
  "request_ref request = request\<lparr>rq_refcount := rq_refcount request + 1\<rparr>"

text \<open>None: the last reference is gone and the handle is freed.\<close>

definition dt_agent_client_request_unref ::
  "dt_agent_client_request \<Rightarrow> dt_agent_client_request option" where
  "dt_agent_client_request_unref request =
     (let request = request\<lparr>rq_refcount := rq_refcount request - 1\<rparr>
      in if rq_refcount request = 0 then None else Some request)"

definition request_cancelled :: "dt_agent_client_request option \<Rightarrow> bool" where
  "request_cancelled request =
     (case request of None \<Rightarrow> False | Some r \<Rightarrow> rq_cancel_requested r \<noteq> 0)"

text \<open>The transfer callback: a non-zero value aborts the transfer.\<close>

definition progress_callback :: "dt_agent_client_request option \<Rightarrow> int" where
  "progress_callback clientp = (if request_cancelled clientp then 1 else 0)"

record cancel_delivery =
  cd_request_id :: cstr
  cd_app_session_id :: cstr
  cd_image_session_id :: cstr
  cd_conversation_id :: cstr
  cd_turn_id :: cstr
  cd_reason :: cstr
  cd_endpoint :: cstr

text \<open>
  Cancelling: the handle afterwards and what the cancel thread started is given, if one is started.
\<close>

definition dt_agent_client_request_cancel ::
  "dt_agent_client_request \<Rightarrow> cstr \<Rightarrow> dt_agent_client_request \<times> cancel_delivery option" where
  "dt_agent_client_request_cancel request reason =
     (let request = request\<lparr>rq_cancel_requested := 1\<rparr>
      in if rq_cancel_notified request = 0
         then (request\<lparr>rq_cancel_notified := 1\<rparr>,
               Some \<lparr>cd_request_id = rq_request_id request,
                     cd_app_session_id = rq_app_session_id request,
                     cd_image_session_id = rq_image_session_id request,
                     cd_conversation_id = rq_conversation_id request,
                     cd_turn_id = rq_turn_id request,
                     cd_reason = reason,
                     cd_endpoint = rq_endpoint request\<rparr>)
         else (request, None))"

subsection \<open>Endpoints\<close>

definition DT_AGENT_CHAT_DEFAULT_ENDPOINT :: string where
  "DT_AGENT_CHAT_DEFAULT_ENDPOINT = ''http://127.0.0.1:8001/v1/chat''"

definition endpoint_or_default :: "cstr \<Rightarrow> string" where
  "endpoint_or_default endpoint =
     (if nonempty endpoint then the endpoint else DT_AGENT_CHAT_DEFAULT_ENDPOINT)"

definition cancel_endpoint_from_chat_endpoint :: "cstr \<Rightarrow> string" where
  "cancel_endpoint_from_chat_endpoint endpoint =
     (let e = endpoint_or_default endpoint
      in if has_suffix e ''/'' then e @ ''cancel'' else e @ ''/cancel'')"

definition stream_endpoint_from_chat_endpoint :: "cstr \<Rightarrow> string" where
  "stream_endpoint_from_chat_endpoint endpoint =
     (let e = endpoint_or_default endpoint
      in if has_suffix e ''/'' then e @ ''stream'' else e @ ''/stream'')"

text \<open>
  \<open>env_endpoint\<close> is the environment variable \<open>DARKTABLE_AGENT_SERVER_URL\<close>, \<open>configured\<close> the
  setting \<open>plugins/ai/agent/server_url\<close>.
\<close>

definition dt_agent_client_dup_endpoint :: "cstr \<Rightarrow> cstr \<Rightarrow> string" where
  "dt_agent_client_dup_endpoint env_endpoint configured =
     (if nonempty env_endpoint then the env_endpoint
      else if nonempty configured then the configured
      else DT_AGENT_CHAT_DEFAULT_ENDPOINT)"

subsection \<open>The cancel message\<close>

definition cancel_payload_tree :: "cancel_delivery \<Rightarrow> json" where
  "cancel_payload_tree delivery =
     JObject ([(''requestId'', JString (str_or (cd_request_id delivery) '''')),
               (''session'', JObject
                  [(''appSessionId'', JString (str_or (cd_app_session_id delivery) '''')),
                   (''imageSessionId'', JString (str_or (cd_image_session_id delivery) '''')),
                   (''conversationId'', JString (str_or (cd_conversation_id delivery) '''')),
                   (''turnId'', JString (str_or (cd_turn_id delivery) ''''))])]
              @ (if nonempty (cd_reason delivery)
                 then [(''reason'', js_str (cd_reason delivery))] else []))"

definition serialize_cancel_payload ::
  "json_printer \<Rightarrow> cancel_delivery \<Rightarrow> gerror option \<Rightarrow> cstr \<times> gerror option" where
  "serialize_cancel_payload to_data delivery error =
     (case to_data (cancel_payload_tree delivery) of
        Some payload \<Rightarrow> (Some payload, error)
      | None \<Rightarrow> (None, g_set_error error
          \<lparr>gerr_domain = ''dt-agent-client-cancel'', gerr_code = 1,
           gerr_message = ''failed to serialize cancel request''\<rparr>))"

text \<open>The request the cancel thread posts, if it posts one: the URL and the body.\<close>

definition cancel_request_thread ::
  "json_printer \<Rightarrow> bool \<Rightarrow> cancel_delivery \<Rightarrow> (string \<times> string) option" where
  "cancel_request_thread to_data have_curl delivery =
     (case serialize_cancel_payload to_data delivery None of
        (None, _) \<Rightarrow> None
      | (Some payload, _) \<Rightarrow>
          if have_curl
          then Some (cancel_endpoint_from_chat_endpoint (cd_endpoint delivery), payload) else None)"

subsection \<open>Progress payloads\<close>

text \<open>
  The response a progress report is turned into, so that the response parser can read its
  operations.
\<close>

definition progress_response_tree :: "dt_agent_client_request \<Rightarrow> json option \<Rightarrow> json_object" where
  "progress_response_tree request operations_node =
     [(''schemaVersion'', JString DT_AGENT_CHAT_SCHEMA_VERSION),
      (''requestId'', JString (str_or (rq_request_id request) ''progress'')),
      (''session'', JObject
         [(''appSessionId'', JString (str_or (rq_app_session_id request) ''app'')),
          (''imageSessionId'', JString (str_or (rq_image_session_id request) ''image'')),
          (''conversationId'', JString (str_or (rq_conversation_id request) ''conversation'')),
          (''turnId'', JString (str_or (rq_turn_id request) ''turn''))]),
      (''status'', JString ''ok''),
      (''assistantMessage'', JObject
         [(''role'', JString ''assistant''), (''text'', JString ''Live progress update.'')]),
      (''refinement'', JObject
         [(''mode'', JString ''multi-turn''), (''enabled'', JBool True),
          (''passIndex'', JInt 1), (''maxPasses'', JInt 1),
          (''continueRefining'', JBool False), (''stopReason'', JString ''continue'')]),
      (''plan'', JObject
         [(''planId'', JString ''live-progress''),
          (''baseImageRevisionId'', JString ''live-progress''),
          (''operations'', case operations_node of
                             Some (JArray xs) \<Rightarrow> JArray xs | _ \<Rightarrow> JArray [])]),
      (''operationResults'', JArray []),
      (''error'', JNull)]"

definition build_progress_response_json ::
  "json_printer \<Rightarrow> dt_agent_client_request \<Rightarrow> json option \<Rightarrow> gerror option
     \<Rightarrow> cstr \<times> gerror option" where
  "build_progress_response_json to_data request operations_node error =
     (case to_data (JObject (progress_response_tree request operations_node)) of
        Some data \<Rightarrow> (Some data, error)
      | None \<Rightarrow> (None, g_set_error error
          (agent_client_error 1 ''failed to build progress response payload'')))"

text \<open>The optional members: a member of another type is ignored.\<close>

definition member_bool :: "json_object \<Rightarrow> string \<Rightarrow> bool \<Rightarrow> bool" where
  "member_bool obj m old =
     (case json_object_get_member obj m of Some (JBool b) \<Rightarrow> b | _ \<Rightarrow> old)"

definition member_string :: "json_object \<Rightarrow> string \<Rightarrow> cstr \<Rightarrow> cstr" where
  "member_string obj m old =
     (case json_object_get_member obj m of Some (JString s) \<Rightarrow> Some s | _ \<Rightarrow> old)"

text \<open>\<open>(guint)MAX(0, json_node_get_int (node))\<close>.\<close>

definition member_count :: "json_object \<Rightarrow> string \<Rightarrow> nat \<Rightarrow> nat" where
  "member_count obj m old =
     (case json_object_get_member obj m of Some (JInt i) \<Rightarrow> to_guint (max 0 i) | _ \<Rightarrow> old)"

definition parse_progress_members ::
  "json_object \<Rightarrow> dt_agent_client_progress \<Rightarrow> dt_agent_client_progress" where
  "parse_progress_members obj progress = progress
     \<lparr>pg_found := member_bool obj ''found'' (pg_found progress),
      pg_status := member_string obj ''status'' (pg_status progress),
      pg_message := member_string obj ''message'' (pg_message progress),
      pg_last_tool_name := member_string obj ''lastToolName'' (pg_last_tool_name progress),
      pg_tool_calls_used := member_count obj ''toolCallsUsed'' (pg_tool_calls_used progress),
      pg_tool_calls_max := member_count obj ''maxToolCalls'' (pg_tool_calls_max progress),
      pg_applied_operation_count :=
        member_count obj ''appliedOperationCount'' (pg_applied_operation_count progress),
      pg_requires_render_callback :=
        member_bool obj ''requiresRenderCallback'' (pg_requires_render_callback progress)\<rparr>"

text \<open>The response of a report that was found.\<close>

definition parse_progress_response ::
  "json_loader \<Rightarrow> json_printer \<Rightarrow> dt_agent_client_request \<Rightarrow> json option
     \<Rightarrow> dt_agent_client_progress \<Rightarrow> gerror option
     \<Rightarrow> bool \<times> dt_agent_client_progress \<times> gerror option" where
  "parse_progress_response load to_data request operations_node progress error =
     (case build_progress_response_json to_data request operations_node error of
        (None, error) \<Rightarrow> (False, progress, error)
      | (response_json, error) \<Rightarrow>
          (case dt_agent_chat_response_parse_data load response_json (- 1)
                  (Some (pg_response progress)) error of
             (ok, response, error) \<Rightarrow>
               let progress = progress\<lparr>pg_has_response := ok, pg_response := the response\<rparr>
               in if \<not> ok then (False, progress, error)
                  else (True,
                    (case resp_operations (pg_response progress) of
                       Some operations \<Rightarrow>
                         if pg_applied_operation_count progress = 0
                         then progress\<lparr>pg_applied_operation_count := length operations\<rparr>
                         else progress
                     | None \<Rightarrow> progress), error)))"

text \<open>The rest of the function, once the operations are known to be an array or absent.\<close>

definition finish_progress ::
  "json_loader \<Rightarrow> json_printer \<Rightarrow> dt_agent_client_request \<Rightarrow> json option
     \<Rightarrow> dt_agent_client_progress \<Rightarrow> gerror option
     \<Rightarrow> bool \<times> dt_agent_client_progress \<times> gerror option" where
  "finish_progress load to_data request operations_node progress error =
     (case (if pg_found progress
            then parse_progress_response load to_data request operations_node progress error
            else (True, progress, error)) of
        (False, progress, error) \<Rightarrow> (False, progress, error)
      | (True, progress, error) \<Rightarrow>
          (True, if pg_status progress = Some ''cancelled''
                 then progress\<lparr>pg_cancelled := True\<rparr> else progress, error))"

text \<open>Result, \<open>*progress\<close> and \<open>*error\<close>.\<close>

definition parse_progress_payload ::
  "json_loader \<Rightarrow> json_printer \<Rightarrow> dt_agent_client_request \<Rightarrow> string \<Rightarrow> int
     \<Rightarrow> dt_agent_client_progress \<Rightarrow> gerror option
     \<Rightarrow> bool \<times> dt_agent_client_progress \<times> gerror option" where
  "parse_progress_payload load to_data request data len progress error =
     (case load data len of
        Inl e \<Rightarrow> (False, progress, g_set_error error e)
      | Inr (Some (JObject obj)) \<Rightarrow>
          (let progress = parse_progress_members obj progress;
               operations_node = json_object_get_member obj ''operations''
           in case operations_node of
                None \<Rightarrow> finish_progress load to_data request operations_node progress error
              | Some (JArray xs) \<Rightarrow>
                  finish_progress load to_data request operations_node progress error
              | _ \<Rightarrow> (False, progress, g_set_error error
                  (agent_client_error 1 ''progress response operations must be an array'')))
      | Inr _ \<Rightarrow> (False, progress, g_set_error error
          (agent_client_error 1 ''progress response root must be an object'')))"

subsection \<open>What a progress report contains\<close>

lemma parse_response_object_cong:
  assumes "\<And>m. m \<in> {''schemaVersion'', ''requestId'', ''session'', ''status'', ''assistantMessage'',
                   ''refinement'', ''plan'', ''error''}
             \<Longrightarrow> json_object_get_member obj m = json_object_get_member obj' m"
  shows "parse_response_object obj = parse_response_object obj'"
proof -
  have has: "json_object_has_member obj m = json_object_has_member obj' m"
    if "json_object_get_member obj m = json_object_get_member obj' m" for m
    using that by (simp add: has_member_None_iff)
  note same = assms has
  have req: "require_string_member obj m = require_string_member obj' m"
    if "m \<in> {''schemaVersion'', ''requestId'', ''status''}" for m
    using that by (auto simp: require_string_member_def same)
  have "parse_session obj = parse_session obj'"
    "parse_message obj ''assistantMessage'' = parse_message obj' ''assistantMessage''"
    "parse_error obj = parse_error obj'"
    "parse_refinement obj ''refinement'' b = parse_refinement obj' ''refinement'' b"
    "parse_plan obj r = parse_plan obj' r" for b r
    by (simp_all add: parse_session_def parse_message_def parse_error_def parse_refinement_def
        parse_plan_def same)
  with req show ?thesis
    by (simp add: parse_response_object_def parse_response_head_def cong: option.case_cong if_cong)
qed

text \<open>The response a report with the operations \<open>ops\<close> is read as.\<close>

definition progress_response ::
  "dt_agent_client_request \<Rightarrow> dt_agent_chat_operation list \<Rightarrow> dt_agent_chat_response" where
  "progress_response request ops = dt_agent_chat_response_init
     \<lparr>resp_schema_version := Some DT_AGENT_CHAT_SCHEMA_VERSION,
      resp_request_id := Some (str_or (rq_request_id request) ''progress''),
      resp_app_session_id := Some (str_or (rq_app_session_id request) ''app''),
      resp_image_session_id := Some (str_or (rq_image_session_id request) ''image''),
      resp_conversation_id := Some (str_or (rq_conversation_id request) ''conversation''),
      resp_turn_id := Some (str_or (rq_turn_id request) ''turn''),
      resp_plan_id := Some ''live-progress'',
      resp_base_image_revision_id := Some ''live-progress'',
      resp_status := Some ''ok'',
      resp_message_role := Some ''assistant'',
      resp_message_text := Some ''Live progress update.'',
      resp_operations := Some ops,
      resp_refinement_mode := DT_AGENT_REFINEMENT_MODE_MULTI,
      resp_refinement_enabled := True,
      resp_refinement_pass_index := 1,
      resp_refinement_max_passes := 1,
      resp_refinement_stop_reason := Some ''continue''\<rparr>"

definition request_ids_ok :: "dt_agent_client_request \<Rightarrow> bool" where
  "request_ids_ok request \<longleftrightarrow>
     list_all (\<lambda>s. s \<noteq> Some []) [rq_request_id request, rq_app_session_id request,
       rq_image_session_id request, rq_conversation_id request, rq_turn_id request]"

lemma str_or_nonempty: "s \<noteq> Some [] \<Longrightarrow> d \<noteq> [] \<Longrightarrow> str_or s d \<noteq> []"
  by (cases s) simp_all

lemma progress_response_wf:
  assumes "request_ids_ok request" "list_all wf_operation ops"
  shows "wf_response (progress_response request ops)"
proof -
  have "nonempty (Some (str_or s d))" if "s \<noteq> Some []" "d \<noteq> []" for s d
    using str_or_nonempty [OF that] by (cases "str_or s d") simp_all
  with assms show ?thesis
    by (simp add: wf_response_def progress_response_def request_ids_ok_def
        DT_AGENT_CHAT_SCHEMA_VERSION_def dt_agent_chat_response_init_def zero_response_def)
qed

lemma progress_response_parsed:
  assumes "request_ids_ok request" "list_all wf_operation ops"
  shows "parse_response_object (progress_response_tree request
             (Some (JArray (map (\<lambda>oper. JObject (operation_object oper)) ops))))
           = Inr (progress_response request ops)"
proof -
  have "parse_response_object (progress_response_tree request
             (Some (JArray (map (\<lambda>oper. JObject (operation_object oper)) ops))))
      = parse_response_object (response_object (progress_response request ops))"
    by (rule parse_response_object_cong)
      (auto simp: progress_response_tree_def response_object_def progress_response_def
        dt_agent_chat_response_init_def zero_response_def)
  also have "\<dots> = Inr (progress_response request ops)"
    by (rule parse_response_object_complete [OF progress_response_wf [OF assms]])
  finally show ?thesis .
qed

text \<open>
  A progress report carries the server's operations to the darkroom unchanged: when the report
  says that the request was found and lists well-formed operations, and the JSON library reads back
  the response the client builds from them, the payload is accepted, the response has exactly these
  operations and the session of the request, and a missing (or zero) count of applied operations is
  replaced by their number.
\<close>

theorem progress_payload_operations:
  assumes "load data len = Inr (Some (JObject obj))"
    and "json_object_get_member obj ''found'' = Some (JBool True)"
    and "json_object_get_member obj ''operations''
           = Some (JArray (map (\<lambda>oper. JObject (operation_object oper)) ops))"
    and "list_all wf_operation ops" "request_ids_ok request"
    and "to_data (JObject tree) = Some text" "load text (- 1) = Inr (Some (JObject tree))"
    and "tree = progress_response_tree request
           (Some (JArray (map (\<lambda>oper. JObject (operation_object oper)) ops)))"
  shows "\<exists>p. parse_progress_payload load to_data request data len zero_progress error = (True, p, error)
           \<and> pg_has_response p
           \<and> resp_operations (pg_response p) = Some ops
           \<and> resp_request_id (pg_response p) = Some (str_or (rq_request_id request) ''progress'')
           \<and> resp_turn_id (pg_response p) = Some (str_or (rq_turn_id request) ''turn'')
           \<and> pg_applied_operation_count p
               = (let n = member_count obj ''appliedOperationCount'' 0
                  in if n = 0 then length ops else n)"
  using assms progress_response_parsed [OF assms(5,4)]
  by (auto simp: parse_progress_payload_def Let_def finish_progress_def parse_progress_response_def
      build_progress_response_json_def parse_progress_members_def member_bool_def zero_progress_def
      dt_agent_chat_response_parse_data_def progress_response_def)

definition sample_handle :: dt_agent_client_request where
  "sample_handle = \<lparr>rq_refcount = 1, rq_cancel_requested = 0, rq_cancel_notified = 0,
     rq_request_id = Some ''r-1'', rq_app_session_id = Some ''app'', rq_image_session_id = Some ''img'',
     rq_conversation_id = Some ''conv'', rq_turn_id = Some ''turn-1'', rq_endpoint = None\<rparr>"

lemma progress_payload_operations_witness:
  "\<exists>p. parse_progress_payload
         (\<lambda>text len. Inr (Some (JObject (if len = - 1 then progress_response_tree sample_handle (Some (JArray []))
                                  else [(''found'', JBool True), (''operations'', JArray [])]))))
         (\<lambda>t. Some ''{}'') sample_handle ''{}'' 2 zero_progress None = (True, p, None)
       \<and> pg_has_response p \<and> resp_operations (pg_response p) = Some []"
  using progress_payload_operations [where ops = "[]" and request = sample_handle
      and obj = "[(''found'', JBool True), (''operations'', JArray [])]"
      and load = "\<lambda>text len. Inr (Some (JObject (if len = - 1
             then progress_response_tree sample_handle (Some (JArray []))
             else [(''found'', JBool True), (''operations'', JArray [])])))"
      and to_data = "\<lambda>t. Some ''{}''" and data = "''{}''" and len = 2 and error = None]
  by (auto simp: request_ids_ok_def sample_handle_def)

text \<open>
  A progress payload that is refused leaves an error, keeps an error that was there, and never
  a response: nothing of it can be applied.
\<close>

theorem progress_payload_failure:
  assumes "parse_progress_payload load to_data request data len progress error = (False, p, error')"
    and "\<not> pg_has_response progress"
  shows "\<not> pg_has_response p \<and> error' \<noteq> None \<and> (error \<noteq> None \<longrightarrow> error' = error)"
  using assms
  by (auto simp: parse_progress_payload_def Let_def finish_progress_def parse_progress_response_def
      build_progress_response_json_def parse_progress_members_def g_set_error_def
      dt_agent_chat_response_parse_data_def
      split: sum.splits option.splits json.splits if_splits prod.splits bool.splits)

lemma progress_payload_failure_witness:
  "parse_progress_payload (\<lambda>text len. Inr (Some JNull)) (\<lambda>t. None) sample_handle ''{}'' 2 zero_progress None
     = (False, zero_progress, Some (agent_client_error 1 ''progress response root must be an object''))
   \<and> \<not> pg_has_response zero_progress"
proof -
  have x: "parse_progress_payload (\<lambda>text len. Inr (Some JNull)) (\<lambda>t. None) sample_handle ''{}'' 2 zero_progress None
     = (False, zero_progress, Some (agent_client_error 1 ''progress response root must be an object''))"
    by (simp add: parse_progress_payload_def g_set_error_def)
  have "\<not> pg_has_response zero_progress" by (simp add: zero_progress_def)
  with x progress_payload_failure [OF x] show ?thesis by simp
qed

end
