(* ===== verification/Client_Stream.thy ===== *)
theory Client_Stream
  imports Client
begin

text \<open>
  The server-sent-event stream of \<open>agent_client.c\<close>: \<open>_write_sse_response\<close> receives the bytes in
  chunks of any size, cuts them into lines, collects the fields of an event and dispatches it at an
  empty line.  The parser is refined to an event semantics (cut into lines, group into events,
  handle each event), and shown not to depend on the chunks.
\<close>

subsection \<open>The parser\<close>

text \<open>
  \<open>sp_result\<close> is the result of the final delivery, \<open>sp_progress\<close> the progress deliveries handed to
  the main context so far, oldest first.
\<close>

record dt_agent_client_sse_parser =
  sp_line_buffer :: string
  sp_data_buffer :: string
  sp_event_name :: cstr
  sp_result :: dt_agent_client_result
  sp_progress :: "dt_agent_client_progress list"

text \<open>What the parser reads of its job, and the JSON library.\<close>

record stream_env =
  se_load :: json_loader
  se_print :: json_printer
  se_has_progress_callback :: bool
  se_handle :: dt_agent_client_request

definition sse_parser_reset_event ::
  "dt_agent_client_sse_parser \<Rightarrow> dt_agent_client_sse_parser" where
  "sse_parser_reset_event parser = parser\<lparr>sp_event_name := None, sp_data_buffer := []\<rparr>"

definition error_message :: "gerror option \<Rightarrow> string \<Rightarrow> string" where
  "error_message error fallback =
     (case error of Some e \<Rightarrow> gerr_message e | None \<Rightarrow> fallback)"

text \<open>The delivery of a progress event.\<close>

definition progress_delivery :: "stream_env \<Rightarrow> string \<Rightarrow> dt_agent_client_progress" where
  "progress_delivery env payload =
     (case parse_progress_payload (se_load env) (se_print env) (se_handle env) payload (- 1)
             (zero_progress\<lparr>pg_endpoint :=
                Some (stream_endpoint_from_chat_endpoint (rq_endpoint (se_handle env)))\<rparr>) None of
        (True, progress, _) \<Rightarrow> progress
      | (False, progress, failure) \<Rightarrow>
          progress\<lparr>pg_transport_error :=
            Some (error_message failure ''failed to parse stream progress event'')\<rparr>)"

text \<open>What a final (or error) event does to the result.\<close>

definition final_result :: "stream_env \<Rightarrow> string \<Rightarrow> dt_agent_client_result \<Rightarrow> dt_agent_client_result" where
  "final_result env payload result =
     (if cr_has_response result then result
      else case dt_agent_chat_response_parse_data (se_load env) (Some payload) (- 1)
                  (Some (cr_response result)) None of
        (ok, response, failure) \<Rightarrow>
          let result = result\<lparr>cr_has_response := ok, cr_response := the response\<rparr>
          in if \<not> ok \<and> cr_transport_error result = None
             then result\<lparr>cr_transport_error :=
                    Some (error_message failure ''failed to parse streamed final response'')\<rparr>
             else result)"

definition sse_dispatch_current_event ::
  "stream_env \<Rightarrow> dt_agent_client_sse_parser \<Rightarrow> dt_agent_client_sse_parser" where
  "sse_dispatch_current_event env parser =
     (if sp_data_buffer parser = [] then parser
      else
        let event_name = str_or (sp_event_name parser) ''message'';
            payload = g_strchomp (sp_data_buffer parser)
        in if event_name = ''progress''
           then (if se_has_progress_callback env
                 then parser\<lparr>sp_progress := sp_progress parser @ [progress_delivery env payload]\<rparr>
                 else parser)
           else if event_name = ''final'' \<or> event_name = ''error''
           then parser\<lparr>sp_result := final_result env payload (sp_result parser)\<rparr>
           else parser)"

text \<open>One complete line, without its newline: the body of the loop.\<close>

definition sse_line :: "stream_env \<Rightarrow> string \<Rightarrow> dt_agent_client_sse_parser \<Rightarrow> dt_agent_client_sse_parser" where
  "sse_line env text parser =
     (let line = g_strchomp text
      in if line = [] then sse_parser_reset_event (sse_dispatch_current_event env parser)
         else if has_prefix line '':'' then parser
         else if has_prefix line ''event:''
         then parser\<lparr>sp_event_name := Some (g_strstrip (drop 6 line))\<rparr>
         else if has_prefix line ''data:''
         then parser\<lparr>sp_data_buffer :=
                (if sp_data_buffer parser = [] then [] else sp_data_buffer parser @ [CHR 0x0A])
                @ g_strstrip (drop 5 line)\<rparr>
         else parser)"

text \<open>
  \<open>strchr (str, '\n')\<close> on the line buffer: the line and what follows it.  The search ends at a NUL.
\<close>

fun next_line :: "string \<Rightarrow> (string \<times> string) option" where
  "next_line [] = None"
| "next_line (c # cs) =
     (if c = CHR 0x0A then Some ([], cs)
      else if c = CHR 0x00 then None
      else map_option (apfst (Cons c)) (next_line cs))"

lemma next_line_length: "next_line s = Some (line, rest) \<Longrightarrow> length rest < length s"
proof (induction s arbitrary: line)
  case (Cons c cs)
  then show ?case by (auto split: if_splits dest: less_SucI)
qed simp

lemma sse_dispatch_line_buffer [simp]:
  "sp_line_buffer (sse_dispatch_current_event env parser) = sp_line_buffer parser"
  by (simp add: sse_dispatch_current_event_def Let_def)

lemma sse_line_buffer [simp]: "sp_line_buffer (sse_line env text parser) = sp_line_buffer parser"
  by (simp add: sse_line_def Let_def sse_parser_reset_event_def)

text \<open>The loop of \<open>_write_sse_response\<close>.\<close>

function sse_drain :: "stream_env \<Rightarrow> dt_agent_client_sse_parser \<Rightarrow> dt_agent_client_sse_parser" where
  "sse_drain env parser =
     (case next_line (sp_line_buffer parser) of
        None \<Rightarrow> parser
      | Some (line, rest) \<Rightarrow> sse_drain env (sse_line env line (parser\<lparr>sp_line_buffer := rest\<rparr>)))"
  by auto
termination
  by (relation "measure (\<lambda>(env, parser). length (sp_line_buffer parser))") (auto dest: next_line_length)

declare sse_drain.simps [simp del]

definition write_sse_response ::
  "stream_env \<Rightarrow> string \<Rightarrow> dt_agent_client_sse_parser \<Rightarrow> dt_agent_client_sse_parser" where
  "write_sse_response env bytes parser =
     (if bytes = [] then parser
      else sse_drain env (parser\<lparr>sp_line_buffer := sp_line_buffer parser @ bytes\<rparr>))"

text \<open>The parser \<open>_chat_job_run\<close> starts with.\<close>

definition sse_parser_init :: "dt_agent_client_result \<Rightarrow> dt_agent_client_sse_parser" where
  "sse_parser_init result = \<lparr>sp_line_buffer = [], sp_data_buffer = [], sp_event_name = None,
     sp_result = result, sp_progress = []\<rparr>"

definition sse_parser_clear :: "dt_agent_client_sse_parser \<Rightarrow> dt_agent_client_sse_parser" where
  "sse_parser_clear parser = parser\<lparr>sp_line_buffer := [], sp_data_buffer := [], sp_event_name := None\<rparr>"

subsection \<open>Input in chunks\<close>

text \<open>
  The contract of a consumer of bytes: it has nothing left to do between two chunks, and two chunks
  are as good as one.
\<close>

locale chunk_consumer =
  fixes feed :: "'b list \<Rightarrow> 's \<Rightarrow> 's"
    and ready :: "'s \<Rightarrow> bool"
  assumes feed_nil: "feed [] s = s"
    and feed_ready: "ready s \<Longrightarrow> ready (feed xs s)"
    and feed_append: "ready s \<Longrightarrow> feed ys (feed xs s) = feed (xs @ ys) s"
begin

lemma feed_chunks: "ready s \<Longrightarrow> fold feed chunks s = feed (concat chunks) s"
proof (induction chunks arbitrary: s)
  case (Cons c cs)
  then have "fold feed (c # cs) s = feed (concat cs) (feed c s)" by (simp add: feed_ready)
  with Cons.prems show ?case by (simp add: feed_append)
qed (simp add: feed_nil)

lemma same_bytes:
  "ready s \<Longrightarrow> concat chunks = concat chunks' \<Longrightarrow> fold feed chunks s = fold feed chunks' s"
  by (simp add: feed_chunks)

end

definition drained :: "dt_agent_client_sse_parser \<Rightarrow> bool" where
  "drained parser \<longleftrightarrow> next_line (sp_line_buffer parser) = None"

lemma next_line_append:
  "next_line xs = Some (line, rest) \<Longrightarrow> next_line (xs @ ys) = Some (line, rest @ ys)"
proof (induction xs arbitrary: line)
  case (Cons c cs)
  then show ?case by (auto split: if_splits)
qed simp

lemma sse_dispatch_update:
  "sse_dispatch_current_event env (parser\<lparr>sp_line_buffer := b\<rparr>)
     = (sse_dispatch_current_event env parser)\<lparr>sp_line_buffer := b\<rparr>"
  by (simp add: sse_dispatch_current_event_def Let_def)

lemma sse_line_update:
  "sse_line env text (parser\<lparr>sp_line_buffer := b\<rparr>) = (sse_line env text parser)\<lparr>sp_line_buffer := b\<rparr>"
  by (simp add: sse_line_def Let_def sse_parser_reset_event_def sse_dispatch_update)

lemma sse_drain_drained: "drained (sse_drain env parser)"
proof (induction env parser rule: sse_drain.induct)
  case (1 env parser)
  then show ?case
    by (subst sse_drain.simps) (auto simp: drained_def split: option.splits)
qed

lemma sse_drain_id: "drained parser \<Longrightarrow> sse_drain env parser = parser"
  by (subst sse_drain.simps) (simp add: drained_def)

lemma sse_drain_append:
  "sse_drain env ((sse_drain env parser)\<lparr>sp_line_buffer := sp_line_buffer (sse_drain env parser) @ ys\<rparr>)
     = sse_drain env (parser\<lparr>sp_line_buffer := sp_line_buffer parser @ ys\<rparr>)"
proof (induction env parser rule: sse_drain.induct)
  case (1 env parser)
  show ?case
  proof (cases "next_line (sp_line_buffer parser)")
    case None
    then show ?thesis by (simp add: sse_drain_id drained_def)
  next
    case (Some lr)
    obtain line rest where lr: "lr = (line, rest)" by fastforce
    let ?next = "sse_line env line (parser\<lparr>sp_line_buffer := rest\<rparr>)"
    have "sse_drain env parser = sse_drain env ?next"
      by (subst sse_drain.simps) (simp add: Some lr)
    moreover have "sse_drain env (parser\<lparr>sp_line_buffer := sp_line_buffer parser @ ys\<rparr>)
        = sse_drain env (?next\<lparr>sp_line_buffer := sp_line_buffer ?next @ ys\<rparr>)"
      by (subst sse_drain.simps) (simp add: Some lr next_line_append sse_line_update)
    ultimately show ?thesis using 1 [OF Some lr [symmetric]] by simp
  qed
qed

interpretation sse: chunk_consumer "write_sse_response env" drained
proof
  fix s xs ys
  show "write_sse_response env [] s = s" by (simp add: write_sse_response_def)
  assume "drained s"
  then show "drained (write_sse_response env xs s)"
    by (simp add: write_sse_response_def sse_drain_drained)
  show "write_sse_response env ys (write_sse_response env xs s) = write_sse_response env (xs @ ys) s"
    using sse_drain_append [of env "s\<lparr>sp_line_buffer := sp_line_buffer s @ xs\<rparr>" ys]
    by (auto simp: write_sse_response_def)
qed

lemma sse_init_drained [simp]: "drained (sse_parser_init result)"
  by (simp add: drained_def sse_parser_init_def)

text \<open>
  the client's view of the stream does not depend on how the network cuts it: two sequences of
  chunks with the same bytes (also in the middle of a line, of a field name or of a character) leave
  the parser in the same state, with the same result and the same progress deliveries.
\<close>

theorem sse_chunks_equivalent:
  assumes "concat chunks = concat chunks'" and "drained parser"
  shows "fold (write_sse_response env) chunks parser = fold (write_sse_response env) chunks' parser"
  by (rule sse.same_bytes [OF assms(2,1)])

text \<open>An environment in which every text is the response \<open>sample_response\<close>.\<close>

definition sample_stream_env :: stream_env where
  "sample_stream_env = \<lparr>se_load = (\<lambda>text len. Inr (Some (JObject (response_object sample_response)))),
     se_print = (\<lambda>t. Some ''{}''), se_has_progress_callback = True, se_handle = sample_handle\<rparr>"

lemma sse_chunks_equivalent_witness:
  "fold (write_sse_response sample_stream_env) [''data: '', ''x'', [CHR 0x0A]] (sse_parser_init zero_result)
     = fold (write_sse_response sample_stream_env) [''da'', ''ta: x'' @ [CHR 0x0A]]
         (sse_parser_init zero_result)"
  by (rule sse_chunks_equivalent) simp_all

subsection \<open>The events of a stream\<close>

text \<open>
  The abstract view: a stream is a sequence of lines, the lines make up events (name and payload),
  and each event is handled on its own.
\<close>

type_synonym stream_outcome = "dt_agent_client_result \<times> dt_agent_client_progress list"

definition handle_event :: "stream_env \<Rightarrow> string \<times> string \<Rightarrow> stream_outcome \<Rightarrow> stream_outcome" where
  "handle_event env ev out =
     (case (ev, out) of ((name, payload), (result, progress)) \<Rightarrow>
        if name = ''progress''
        then (result, if se_has_progress_callback env
                      then progress @ [progress_delivery env payload] else progress)
        else if name = ''final'' \<or> name = ''error''
        then (final_result env payload result, progress)
        else (result, progress))"

text \<open>The lines of a text and what is left after the last newline.\<close>

function stream_lines :: "string \<Rightarrow> string list" where
  "stream_lines s =
     (case next_line s of None \<Rightarrow> [] | Some (line, rest) \<Rightarrow> line # stream_lines rest)"
  by auto
termination by (relation "measure length") (auto dest: next_line_length)

declare stream_lines.simps [simp del]

text \<open>The events that the lines complete, given the name and the data collected so far.\<close>

fun line_events :: "cstr \<Rightarrow> string \<Rightarrow> string list \<Rightarrow> (string \<times> string) list" where
  "line_events name data [] = []"
| "line_events name data (text # lines) =
     (let line = g_strchomp text
      in if line = []
         then (if data = [] then [] else [(str_or name ''message'', g_strchomp data)])
              @ line_events None [] lines
         else if has_prefix line '':'' then line_events name data lines
         else if has_prefix line ''event:''
         then line_events (Some (g_strstrip (drop 6 line))) data lines
         else if has_prefix line ''data:''
         then line_events name ((if data = [] then [] else data @ [CHR 0x0A])
                                @ g_strstrip (drop 5 line)) lines
         else line_events name data lines)"

definition stream_events :: "string \<Rightarrow> (string \<times> string) list" where
  "stream_events s = line_events None [] (stream_lines s)"

definition outcome :: "dt_agent_client_sse_parser \<Rightarrow> stream_outcome" where
  "outcome parser = (sp_result parser, sp_progress parser)"

lemma sse_drain_fold:
  "outcome (sse_drain env parser) = outcome (fold (sse_line env) (stream_lines (sp_line_buffer parser)) parser)"
proof (induction env parser rule: sse_drain.induct)
  case (1 env parser)
  have upd: "outcome (fold (sse_line env) ls (p\<lparr>sp_line_buffer := b\<rparr>)) = outcome (fold (sse_line env) ls p)"
    for ls p b
    by (induction ls arbitrary: p) (simp_all add: outcome_def sse_line_update)
  show ?case
  proof (cases "next_line (sp_line_buffer parser)")
    case None
    then show ?thesis by (subst sse_drain.simps, subst stream_lines.simps) simp
  next
    case (Some lr)
    obtain line rest where lr: "lr = (line, rest)" by fastforce
    have "outcome (sse_drain env parser)
        = outcome (fold (sse_line env) (stream_lines rest)
            (sse_line env line (parser\<lparr>sp_line_buffer := rest\<rparr>)))"
      by (subst sse_drain.simps) (use 1 [OF Some lr [symmetric]] in \<open>simp add: Some lr\<close>)
    also have "\<dots> = outcome (fold (sse_line env) (stream_lines rest) (sse_line env line parser))"
      by (simp add: sse_line_update upd)
    finally show ?thesis by (subst stream_lines.simps) (simp add: Some lr)
  qed
qed

lemma dispatch_outcome:
  "outcome (sse_parser_reset_event (sse_dispatch_current_event env parser))
     = fold (handle_event env)
         (if sp_data_buffer parser = [] then []
          else [(str_or (sp_event_name parser) ''message'', g_strchomp (sp_data_buffer parser))])
         (outcome parser)"
  by (simp add: outcome_def sse_parser_reset_event_def sse_dispatch_current_event_def Let_def
      handle_event_def)

lemma reset_fields [simp]:
  "sp_event_name (sse_parser_reset_event parser) = None"
  "sp_data_buffer (sse_parser_reset_event parser) = []"
  by (simp_all add: sse_parser_reset_event_def)

lemma fold_lines_events:
  "outcome (fold (sse_line env) lines parser)
     = fold (handle_event env) (line_events (sp_event_name parser) (sp_data_buffer parser) lines)
         (outcome parser)"
proof (induction lines arbitrary: parser)
  case (Cons t lines)
  let ?line = "g_strchomp t"
  consider (blank) "?line = []" | (comment) "?line \<noteq> []" "has_prefix ?line '':''"
    | (event) "?line \<noteq> []" "\<not> has_prefix ?line '':''" "has_prefix ?line ''event:''"
    | (data) "?line \<noteq> []" "\<not> has_prefix ?line '':''" "\<not> has_prefix ?line ''event:''"
        "has_prefix ?line ''data:''"
    | (other) "?line \<noteq> []" "\<not> has_prefix ?line '':''" "\<not> has_prefix ?line ''event:''"
        "\<not> has_prefix ?line ''data:''" by blast
  then show ?case
  proof cases
    case blank
    then show ?thesis
      using Cons.IH [of "sse_line env t parser"] by (simp add: sse_line_def dispatch_outcome)
  qed (use Cons.IH [of "sse_line env t parser"] in \<open>simp_all add: sse_line_def Let_def outcome_def\<close>)
qed (simp add: outcome_def)

lemma write_sse_events:
  "outcome (write_sse_response env bytes (sse_parser_init result))
     = fold (handle_event env) (stream_events bytes) (result, [])"
proof -
  have empty: "stream_lines [] = []" by (subst stream_lines.simps) simp
  show ?thesis
    by (simp add: write_sse_response_def sse_drain_fold fold_lines_events empty stream_events_def)
      (simp add: sse_parser_init_def outcome_def)
qed

text \<open>
  C28: the byte machine implements the event semantics: whatever the chunks, after a stream the
  result and the progress deliveries are those of handling, one after the other, the events of the
  stream as a whole.
\<close>

theorem sse_refines_events:
  "outcome (fold (write_sse_response env) chunks (sse_parser_init result))
     = fold (handle_event env) (stream_events (concat chunks)) (result, [])"
  by (simp add: sse.feed_chunks write_sse_events)

subsection \<open>Round trip with the server's encoding\<close>

text \<open>\<open>_format_sse\<close> of the server: \<open>event: \<dots>\<close>, \<open>data: \<dots>\<close>, an empty line.\<close>

definition encode_event :: "string \<times> string \<Rightarrow> string" where
  "encode_event ev =
     ''event: '' @ fst ev @ [CHR 0x0A] @ ''data: '' @ snd ev @ [CHR 0x0A] @ [CHR 0x0A]"

definition plain_text :: "string \<Rightarrow> bool" where
  "plain_text s \<longleftrightarrow> s \<noteq> [] \<and> CHR 0x0A \<notin> set s \<and> CHR 0x00 \<notin> set s
     \<and> \<not> g_ascii_isspace (hd s) \<and> \<not> g_ascii_isspace (last s)"

definition plain_event :: "string \<times> string \<Rightarrow> bool" where
  "plain_event ev \<longleftrightarrow> plain_text (fst ev) \<and> plain_text (snd ev)"

lemma next_line_plain:
  "CHR 0x0A \<notin> set s \<Longrightarrow> CHR 0x00 \<notin> set s \<Longrightarrow> next_line (s @ CHR 0x0A # rest) = Some (s, rest)"
  by (induction s) auto

lemma chomp_plain: "s \<noteq> [] \<Longrightarrow> \<not> g_ascii_isspace (last s) \<Longrightarrow> g_strchomp s = s"
  by (cases s rule: rev_cases) (auto simp: g_strchomp_def)

lemma strip_plain: "plain_text s \<Longrightarrow> g_strstrip s = s"
  by (cases s) (auto simp: g_strstrip_def plain_text_def chomp_plain)

lemma strip_space_plain: "plain_text s \<Longrightarrow> g_strstrip (CHR '' '' # s) = s"
  using strip_plain [of s] by (simp add: g_strstrip_def g_ascii_isspace_def)

lemma stream_lines_encode:
  assumes "plain_event ev"
  shows "stream_lines (encode_event ev @ rest)
           = (''event: '' @ fst ev) # (''data: '' @ snd ev) # [] # stream_lines rest"
proof -
  have 1: "next_line (encode_event ev @ rest)
      = Some (''event: '' @ fst ev, ''data: '' @ snd ev @ CHR 0x0A # CHR 0x0A # rest)"
    using next_line_plain [of "''event: '' @ fst ev"] assms
    by (simp add: encode_event_def plain_event_def plain_text_def)
  have 2: "next_line (''data: '' @ snd ev @ CHR 0x0A # CHR 0x0A # rest)
      = Some (''data: '' @ snd ev, CHR 0x0A # rest)"
    using next_line_plain [of "''data: '' @ snd ev"] assms
    by (simp add: plain_event_def plain_text_def)
  have 3: "next_line (CHR 0x0A # rest) = Some ([], rest)" by simp
  show ?thesis
    by (subst stream_lines.simps, simp only: 1 option.case prod.case)
      (subst stream_lines.simps, simp only: 2 option.case prod.case,
       subst stream_lines.simps, simp only: 3 option.case prod.case)
qed

lemma line_events_encode:
  assumes "plain_event ev"
  shows "line_events None [] ((''event: '' @ fst ev) # (''data: '' @ snd ev) # [] # lines)
           = ev # line_events None [] lines"
proof -
  from assms have p: "plain_text (fst ev)" "plain_text (snd ev)" by (simp_all add: plain_event_def)
  then have ne: "fst ev \<noteq> []" "snd ev \<noteq> []" and
    last: "\<not> g_ascii_isspace (last (fst ev))" "\<not> g_ascii_isspace (last (snd ev))"
    by (simp_all add: plain_text_def)
  have "g_strchomp (''event: '' @ fst ev) = ''event: '' @ fst ev"
    "g_strchomp (''data: '' @ snd ev) = ''data: '' @ snd ev"
    by (rule chomp_plain; use ne last in simp)+
  then show ?thesis
    using p ne last strip_space_plain [OF p(1)] strip_space_plain [OF p(2)]
    by (simp add: has_prefix_def chomp_plain g_strchomp_def [of "[]"])
qed

lemma stream_events_encode:
  "list_all plain_event evs \<Longrightarrow> stream_events (concat (map encode_event evs)) = evs"
proof (induction evs)
  case Nil
  then show ?case by (simp add: stream_events_def) (subst stream_lines.simps, simp)
next
  case (Cons ev evs)
  then show ?case
    using line_events_encode [of ev] by (simp add: stream_events_def stream_lines_encode)
qed

text \<open>
  what the server sends is what the client handles: when the stream is the server's encoding of
  a list of events (names and one-line payloads without surrounding blanks), cut into chunks in any
  way, the client handles exactly these events, in this order, and nothing else.
\<close>

theorem sse_roundtrip:
  assumes "list_all plain_event evs" and "concat chunks = concat (map encode_event evs)"
  shows "outcome (fold (write_sse_response env) chunks (sse_parser_init result))
           = fold (handle_event env) evs (result, [])"
  using assms by (simp add: sse.feed_chunks write_sse_events stream_events_encode)

lemma sse_roundtrip_witness:
  "cr_has_response (fst (outcome (fold (write_sse_response sample_stream_env)
     (map (\<lambda>c. [c]) (encode_event (''final'', ''{}''))) (sse_parser_init zero_result))))"
proof -
  have "list_all plain_event [(''final'', ''{}'')]"
    by (simp add: plain_event_def plain_text_def g_ascii_isspace_def)
  from sse_roundtrip [OF this, of "map (\<lambda>c. [c]) (encode_event (''final'', ''{}''))" sample_stream_env zero_result]
  show ?thesis
    by (simp add: handle_event_def final_result_def sample_stream_env_def zero_result_def
        dt_agent_chat_response_parse_data_def parse_response_object_complete sample_response_wf)
qed

lemma handle_event_keeps:
  "cr_has_response (fst out) \<Longrightarrow> fst (handle_event env ev out) = fst out"
  by (cases ev; cases out) (auto simp: handle_event_def final_result_def)

lemma handle_events_keep:
  "cr_has_response (fst out) \<Longrightarrow> fst (fold (handle_event env) evs out) = fst out"
  by (induction evs arbitrary: out) (simp_all add: handle_event_keeps)

text \<open>
  the first final response wins: once the parser holds a response, nothing that follows on the
  stream (further final or error events, garbage) changes the result that will be delivered.
\<close>

theorem sse_first_response_kept:
  assumes "cr_has_response (sp_result parser)" and "drained parser"
  shows "sp_result (fold (write_sse_response env) chunks parser) = sp_result parser"
proof -
  have keep: "sp_result (fold (sse_line env) ls p) = sp_result p" if "cr_has_response (sp_result p)" for ls p
    using fold_lines_events [of env ls p] handle_events_keep [of "outcome p" env] that
    by (simp add: outcome_def prod_eq_iff)
  have "sp_result (write_sse_response env bytes parser) = sp_result parser" for bytes
    using assms(1) keep sse_drain_fold [of env "parser\<lparr>sp_line_buffer := sp_line_buffer parser @ bytes\<rparr>"]
    by (simp add: write_sse_response_def outcome_def)
  then show ?thesis using sse.feed_chunks [OF assms(2)] by simp
qed

lemma sse_first_response_kept_witness:
  "sp_result (fold (write_sse_response sample_stream_env) [encode_event (''error'', ''{}'')]
       (sse_parser_init (zero_result\<lparr>cr_has_response := True\<rparr>)))
     = zero_result\<lparr>cr_has_response := True\<rparr>"
  using sse_first_response_kept [of "sse_parser_init (zero_result\<lparr>cr_has_response := True\<rparr>)"
      sample_stream_env "[encode_event (''error'', ''{}'')]"]
  by (simp add: sse_parser_init_def drained_def)

end
