(* ===== verification/Client_Job.thy ===== *)
theory Client_Job
  imports Client_Stream Step_System
begin

text \<open>
  The life of a chat request in \<open>agent_client.c\<close>: \<open>dt_agent_client_chat_async\<close> creates the handle and
  the job, \<open>_chat_job_run\<close> runs on a worker thread, deliveries are made by the main loop and the
  darkroom may cancel and release the handle at any time.  The interleavings are a step relation on
  the state of one request (requests share nothing); its invariants are the reference counting, the
  delivery and the cancellation discipline.
\<close>

subsection \<open>The job\<close>

datatype curl_code = CURLE_OK | CURLE_ABORTED_BY_CALLBACK | CURLE_FAILED int

text \<open>The parts of a job that do not change, the JSON library and \<open>curl_easy_strerror\<close>.\<close>

record job_env =
  je_load :: json_loader
  je_print :: json_printer
  je_strerror :: "curl_code \<Rightarrow> string"
  je_request :: dt_agent_chat_request
  je_has_progress_callback :: bool

definition job_stream_env :: "job_env \<Rightarrow> dt_agent_client_request \<Rightarrow> stream_env" where
  "job_stream_env env handle = \<lparr>se_load = je_load env, se_print = je_print env,
     se_has_progress_callback = je_has_progress_callback env, se_handle = handle\<rparr>"

text \<open>
  The timeout: the environment variable if it is set (read by \<open>g_ascii_strtoll\<close>), otherwise the
  setting; anything that is not positive becomes the default.
\<close>

definition DT_AGENT_CLIENT_DEFAULT_TIMEOUT_SECONDS :: int where
  "DT_AGENT_CLIENT_DEFAULT_TIMEOUT_SECONDS = 600"

definition chat_timeout_seconds :: "(string \<Rightarrow> int) \<Rightarrow> cstr \<Rightarrow> int \<Rightarrow> int" where
  "chat_timeout_seconds strtoll env_timeout conf_timeout =
     (let configured = (if nonempty env_timeout then strtoll (the env_timeout) else conf_timeout)
      in if 0 < configured then configured else DT_AGENT_CLIENT_DEFAULT_TIMEOUT_SECONDS)"

text \<open>
  \<open>_chat_job_run\<close> up to the transfer: a result that is delivered at once, or the parser the
  transfer starts with and the body that is posted.
\<close>

definition job_result_init :: "dt_agent_client_request \<Rightarrow> dt_agent_client_result" where
  "job_result_init handle =
     zero_result\<lparr>cr_endpoint := Some (stream_endpoint_from_chat_endpoint (rq_endpoint handle))\<rparr>"

definition chat_job_begin ::
  "job_env \<Rightarrow> bool \<Rightarrow> dt_agent_client_request
     \<Rightarrow> dt_agent_client_result + (dt_agent_client_sse_parser \<times> string)" where
  "chat_job_begin env have_curl handle =
     (let result = job_result_init handle
      in if request_cancelled (Some handle)
         then Inl (result\<lparr>cr_cancelled := True, cr_transport_error := Some ''chat request canceled''\<rparr>)
         else case dt_agent_chat_request_serialize (je_print env) (Some (je_request env)) None of
           (None, error) \<Rightarrow>
             Inl (result\<lparr>cr_transport_error :=
                    Some (error_message error ''failed to serialize chat request'')\<rparr>)
         | (Some payload, _) \<Rightarrow>
             if \<not> have_curl
             then Inl (result\<lparr>cr_transport_error := Some ''failed to initialize network client''\<rparr>)
             else Inr (sse_parser_init result, payload))"

text \<open>After the transfer, which ended with \<open>code\<close> and the given HTTP status.\<close>

definition chat_job_end ::
  "job_env \<Rightarrow> dt_agent_client_request \<Rightarrow> curl_code \<Rightarrow> int \<Rightarrow> dt_agent_client_sse_parser
     \<Rightarrow> dt_agent_client_sse_parser" where
  "chat_job_end env handle code http_status parser =
     (let parser = parser\<lparr>sp_result := (sp_result parser)\<lparr>cr_http_status := http_status\<rparr>\<rparr>
      in if code \<noteq> CURLE_OK
         then if code = CURLE_ABORTED_BY_CALLBACK \<and> request_cancelled (Some handle)
              then parser\<lparr>sp_result := (sp_result parser)
                     \<lparr>cr_cancelled := True, cr_transport_error := Some ''chat request canceled''\<rparr>\<rparr>
              else parser\<lparr>sp_result := (sp_result parser)
                     \<lparr>cr_transport_error :=
                        Some (''chat request failed: '' @ je_strerror env code)\<rparr>\<rparr>
         else
           let parser = (if sp_data_buffer parser = [] then parser
                         else sse_dispatch_current_event (job_stream_env env handle) parser);
               result = sp_result parser
           in if \<not> cr_has_response result \<and> cr_transport_error result = None
              then parser\<lparr>sp_result := result
                     \<lparr>cr_transport_error := Some ''chat stream ended without a final response''\<rparr>\<rparr>
              else parser)"

subsection \<open>Creating a request\<close>

datatype main_event = Progress dt_agent_client_progress | Final dt_agent_client_result

text \<open>\<open>Job_Done\<close>: the job has run but is not disposed of yet.  \<open>Job_Dropped\<close>: it never ran.\<close>

datatype job_phase =
    Job_Queued
  | Job_Running dt_agent_client_sse_parser
  | Job_Done
  | Job_Disposed
  | Job_Dropped

text \<open>
  The state of a request: the handle (None once it is freed), whether the darkroom still holds its
  reference, the job, the sources attached to the main context, what the callbacks have been given
  so far, the number of calls of the destroy function and the cancel threads that were started.
\<close>

record chat_call =
  cc_handle :: "dt_agent_client_request option"
  cc_ui_ref :: bool
  cc_job :: job_phase
  cc_main :: "main_event list"
  cc_delivered :: "main_event list"
  cc_destroyed :: nat
  cc_cancel_threads :: "cancel_delivery list"

definition new_handle :: "dt_agent_chat_request \<Rightarrow> string \<Rightarrow> dt_agent_client_request" where
  "new_handle request endpoint = \<lparr>rq_refcount = 1, rq_cancel_requested = 0, rq_cancel_notified = 0,
     rq_request_id = req_request_id request, rq_app_session_id = req_app_session_id request,
     rq_image_session_id = req_image_session_id request,
     rq_conversation_id = req_conversation_id request, rq_turn_id = req_turn_id request,
     rq_endpoint = Some endpoint\<rparr>"

text \<open>
  The call that is started with the job's copy of the request, or the error and how often the
  destroy function was called.
\<close>

definition dt_agent_client_chat_async ::
  "cstr \<Rightarrow> cstr \<Rightarrow> bool \<Rightarrow> dt_agent_chat_request option
     \<Rightarrow> (gerror \<times> nat) + (chat_call \<times> dt_agent_chat_request)" where
  "dt_agent_client_chat_async env_endpoint configured have_job request =
     (case request of
        None \<Rightarrow> Inl (agent_client_error 1 ''missing agent chat request'', 1)
      | Some r \<Rightarrow>
          let handle = request_ref (new_handle r (dt_agent_client_dup_endpoint env_endpoint configured));
              job_request = dt_agent_chat_request_copy r
          in if \<not> have_job
             then Inl (agent_client_error 2 ''darktable background jobs are not ready yet'', 0)
             else Inr (\<lparr>cc_handle = Some handle, cc_ui_ref = True, cc_job = Job_Queued, cc_main = [],
                        cc_delivered = [], cc_destroyed = 0, cc_cancel_threads = []\<rparr>, job_request))"

subsection \<open>Steps\<close>

text \<open>What the darkroom does with a handle it holds.\<close>

inductive ui_step :: "chat_call \<Rightarrow> chat_call \<Rightarrow> bool" where
  ui_cancel: "cc_ui_ref s \<Longrightarrow> cc_handle s = Some h
     \<Longrightarrow> dt_agent_client_request_cancel h reason = (h', delivery)
     \<Longrightarrow> ui_step s (s\<lparr>cc_handle := Some h',
                     cc_cancel_threads := cc_cancel_threads s @ (case delivery of None \<Rightarrow> [] | Some d \<Rightarrow> [d])\<rparr>)"
| ui_unref: "cc_ui_ref s \<Longrightarrow> cc_handle s = Some h
     \<Longrightarrow> ui_step s (s\<lparr>cc_ui_ref := False, cc_handle := dt_agent_client_request_unref h\<rparr>)"

definition new_progress ::
  "dt_agent_client_sse_parser \<Rightarrow> dt_agent_client_sse_parser \<Rightarrow> main_event list" where
  "new_progress old new = map Progress (drop (length (sp_progress old)) (sp_progress new))"

text \<open>
  The worker thread.  libcurl reports \<open>CURLE_ABORTED_BY_CALLBACK\<close> only after the transfer callback
  asked for it.  Disposing of the job releases its reference (\<open>_job_destroy\<close>).
\<close>

inductive job_step :: "job_env \<Rightarrow> chat_call \<Rightarrow> chat_call \<Rightarrow> bool" for env where
  job_refuse: "cc_job s = Job_Queued \<Longrightarrow> cc_handle s = Some h
     \<Longrightarrow> chat_job_begin env have_curl h = Inl result
     \<Longrightarrow> job_step env s (s\<lparr>cc_job := Job_Done, cc_main := cc_main s @ [Final result]\<rparr>)"
| job_start: "cc_job s = Job_Queued \<Longrightarrow> cc_handle s = Some h
     \<Longrightarrow> chat_job_begin env have_curl h = Inr (parser, payload)
     \<Longrightarrow> job_step env s (s\<lparr>cc_job := Job_Running parser\<rparr>)"
| job_receive: "cc_job s = Job_Running parser \<Longrightarrow> cc_handle s = Some h
     \<Longrightarrow> parser' = write_sse_response (job_stream_env env h) bytes parser
     \<Longrightarrow> job_step env s (s\<lparr>cc_job := Job_Running parser',
                          cc_main := cc_main s @ new_progress parser parser'\<rparr>)"
| job_end: "cc_job s = Job_Running parser \<Longrightarrow> cc_handle s = Some h
     \<Longrightarrow> code \<noteq> CURLE_ABORTED_BY_CALLBACK \<or> progress_callback (Some h) \<noteq> 0
     \<Longrightarrow> parser' = chat_job_end env h code http_status parser
     \<Longrightarrow> job_step env s (s\<lparr>cc_job := Job_Done,
            cc_main := cc_main s @ new_progress parser parser' @ [Final (sp_result parser')]\<rparr>)"
| job_dispose: "cc_job s = Job_Done \<Longrightarrow> cc_handle s = Some h
     \<Longrightarrow> job_step env s (s\<lparr>cc_job := Job_Disposed, cc_handle := dt_agent_client_request_unref h\<rparr>)"

text \<open>The job is taken from the queue without being run, when darktable shuts down.\<close>

inductive queue_step :: "chat_call \<Rightarrow> chat_call \<Rightarrow> bool" where
  queue_drop: "cc_job s = Job_Queued \<Longrightarrow> cc_handle s = Some h
     \<Longrightarrow> queue_step s (s\<lparr>cc_job := Job_Dropped, cc_handle := dt_agent_client_request_unref h\<rparr>)"

text \<open>The main loop runs the sources of its context in the order they were attached.\<close>

inductive main_step :: "chat_call \<Rightarrow> chat_call \<Rightarrow> bool" where
  deliver_stream_progress: "cc_main s = Progress p # rest
     \<Longrightarrow> main_step s (s\<lparr>cc_main := rest, cc_delivered := cc_delivered s @ [Progress p]\<rparr>)"
| deliver_result: "cc_main s = Final r # rest
     \<Longrightarrow> main_step s (s\<lparr>cc_main := rest, cc_delivered := cc_delivered s @ [Final r],
                      cc_destroyed := cc_destroyed s + 1\<rparr>)"

definition chat_step :: "job_env \<Rightarrow> chat_call \<Rightarrow> chat_call \<Rightarrow> bool" where
  "chat_step env s s' \<longleftrightarrow> ui_step s s' \<or> job_step env s s' \<or> queue_step s s' \<or> main_step s s'"

definition chat_init :: "job_env \<Rightarrow> chat_call \<Rightarrow> bool" where
  "chat_init env s \<longleftrightarrow> (\<exists>env_endpoint configured request.
     dt_agent_client_chat_async env_endpoint configured True (Some request) = Inr (s, je_request env))"

inductive_cases ui_stepE: "ui_step s s'"
inductive_cases job_stepE: "job_step env s s'"
inductive_cases queue_stepE: "queue_step s s'"
inductive_cases main_stepE: "main_step s s'"

subsection \<open>What the stream leaves alone\<close>

lemma final_result_cancelled [simp]: "cr_cancelled (final_result env payload r) = cr_cancelled r"
  by (auto simp: final_result_def Let_def split: prod.splits)

lemma handle_event_outcome:
  "cr_cancelled (fst (handle_event env ev out)) = cr_cancelled (fst out)
   \<and> (\<exists>new. snd (handle_event env ev out) = snd out @ new)"
  by (cases ev; cases out) (auto simp: handle_event_def)

lemma handle_events_outcome:
  "cr_cancelled (fst (fold (handle_event env) evs out)) = cr_cancelled (fst out)
   \<and> (\<exists>new. snd (fold (handle_event env) evs out) = snd out @ new)"
proof (induction evs arbitrary: out)
  case (Cons ev evs)
  from Cons.IH [of "handle_event env ev out"] handle_event_outcome [of env ev out]
  obtain new new' where
    "snd (fold (handle_event env) evs (handle_event env ev out)) = (snd out @ new) @ new'"
    "cr_cancelled (fst (fold (handle_event env) evs (handle_event env ev out))) = cr_cancelled (fst out)"
    by auto
  then show ?case by simp
qed simp

lemma write_sse_outcome:
  "cr_cancelled (sp_result (write_sse_response env bytes parser)) = cr_cancelled (sp_result parser)"
  "\<exists>new. sp_progress (write_sse_response env bytes parser) = sp_progress parser @ new"
proof -
  let ?p = "parser\<lparr>sp_line_buffer := sp_line_buffer parser @ bytes\<rparr>"
  have "\<exists>evs. outcome (sse_drain env ?p) = fold (handle_event env) evs (outcome parser)"
    using sse_drain_fold [of env ?p] fold_lines_events [of env "stream_lines (sp_line_buffer ?p)" ?p]
    by (auto simp: outcome_def)
  then obtain evs where "outcome (sse_drain env ?p) = fold (handle_event env) evs (outcome parser)" ..
  with handle_events_outcome [of env evs "outcome parser"]
  show "cr_cancelled (sp_result (write_sse_response env bytes parser)) = cr_cancelled (sp_result parser)"
    "\<exists>new. sp_progress (write_sse_response env bytes parser) = sp_progress parser @ new"
    by (auto simp: write_sse_response_def outcome_def prod_eq_iff)
qed

lemma chat_job_end_outcome:
  "\<exists>new. sp_progress (chat_job_end env h code st parser) = sp_progress parser @ new"
  by (auto simp: chat_job_end_def Let_def sse_dispatch_current_event_def)

definition result_conclusive :: "dt_agent_client_result \<Rightarrow> bool" where
  "result_conclusive r \<longleftrightarrow> cr_has_response r \<or> cr_transport_error r \<noteq> None"

lemma chat_job_end_conclusive: "result_conclusive (sp_result (chat_job_end env h code st parser))"
  by (auto simp: result_conclusive_def chat_job_end_def Let_def)

lemma chat_job_end_cancelled:
  "\<not> cr_cancelled (sp_result parser) \<Longrightarrow> cr_cancelled (sp_result (chat_job_end env h code st parser))
     \<Longrightarrow> request_cancelled (Some h)"
  by (auto simp: chat_job_end_def Let_def sse_dispatch_current_event_def split: if_splits)

lemma chat_job_begin_refused:
  "chat_job_begin env have_curl h = Inl r
     \<Longrightarrow> result_conclusive r \<and> (cr_cancelled r \<longrightarrow> request_cancelled (Some h))"
  by (auto simp: chat_job_begin_def result_conclusive_def Let_def job_result_init_def zero_result_def
      split: if_splits prod.splits option.splits)

lemma chat_job_begin_started:
  "chat_job_begin env have_curl h = Inr (parser, payload)
     \<Longrightarrow> sp_progress parser = [] \<and> \<not> cr_cancelled (sp_result parser)"
  by (auto simp: chat_job_begin_def Let_def job_result_init_def zero_result_def sse_parser_init_def
      split: if_splits prod.splits option.splits)

lemma new_progress_eq:
  "\<exists>new. sp_progress parser' = sp_progress parser @ new
     \<Longrightarrow> map Progress (sp_progress parser) @ new_progress parser parser' = map Progress (sp_progress parser')"
  by (auto simp: new_progress_def)

subsection \<open>The invariant\<close>

definition job_alive :: "job_phase \<Rightarrow> bool" where
  "job_alive phase \<longleftrightarrow> phase \<noteq> Job_Disposed \<and> phase \<noteq> Job_Dropped"

text \<open>One reference for the darkroom, one for the job, and the handle lives as long as either.\<close>

definition refs_ok :: "chat_call \<Rightarrow> bool" where
  "refs_ok s \<longleftrightarrow> (case cc_handle s of
     None \<Rightarrow> \<not> cc_ui_ref s \<and> \<not> job_alive (cc_job s)
   | Some h \<Rightarrow> rq_refcount h = of_bool (cc_ui_ref s) + of_bool (job_alive (cc_job s))
               \<and> (cc_ui_ref s \<or> job_alive (cc_job s)))"

definition cancel_ok :: "chat_call \<Rightarrow> bool" where
  "cancel_ok s \<longleftrightarrow> length (cc_cancel_threads s) \<le> 1
     \<and> (\<forall>h. cc_handle s = Some h
          \<longrightarrow> (rq_cancel_notified h = 0 \<longleftrightarrow> cc_cancel_threads s = [])
            \<and> (request_cancelled (Some h) \<longleftrightarrow> cc_cancel_threads s \<noteq> []))"

definition is_final :: "main_event \<Rightarrow> bool" where
  "is_final ev \<longleftrightarrow> (case ev of Final _ \<Rightarrow> True | Progress _ \<Rightarrow> False)"

lemma is_final_simps [simp]: "is_final (Final r)" "\<not> is_final (Progress p)"
  by (simp_all add: is_final_def)

text \<open>All deliveries, made and pending, in order.\<close>

abbreviation all_events :: "chat_call \<Rightarrow> main_event list" where
  "all_events s \<equiv> cc_delivered s @ cc_main s"

text \<open>The deliveries that fit a phase of the job; \<open>c\<close>: a cancel thread was started.\<close>

definition phase_events :: "job_phase \<Rightarrow> main_event list \<Rightarrow> bool \<Rightarrow> bool" where
  "phase_events phase evs c \<longleftrightarrow>
     (case phase of
        Job_Queued \<Rightarrow> evs = []
      | Job_Dropped \<Rightarrow> evs = []
      | Job_Running parser \<Rightarrow> evs = map Progress (sp_progress parser) \<and> \<not> cr_cancelled (sp_result parser)
      | _ \<Rightarrow> \<exists>ps r. evs = map Progress ps @ [Final r] \<and> result_conclusive r
              \<and> (cr_cancelled r \<longrightarrow> c))"

definition events_ok :: "chat_call \<Rightarrow> bool" where
  "events_ok s \<longleftrightarrow> phase_events (cc_job s) (all_events s) (cc_cancel_threads s \<noteq> [])
     \<and> cc_destroyed s = length (filter is_final (cc_delivered s))"

lemma phase_events_simps [simp]:
  "phase_events Job_Queued evs c \<longleftrightarrow> evs = []"
  "phase_events Job_Dropped evs c \<longleftrightarrow> evs = []"
  "phase_events (Job_Running parser) evs c
     \<longleftrightarrow> evs = map Progress (sp_progress parser) \<and> \<not> cr_cancelled (sp_result parser)"
  "phase_events Job_Done evs c \<longleftrightarrow> (\<exists>ps r. evs = map Progress ps @ [Final r] \<and> result_conclusive r
     \<and> (cr_cancelled r \<longrightarrow> c))"
  "phase_events Job_Disposed evs c \<longleftrightarrow> (\<exists>ps r. evs = map Progress ps @ [Final r] \<and> result_conclusive r
     \<and> (cr_cancelled r \<longrightarrow> c))"
  by (simp_all add: phase_events_def)

lemma phase_events_mono: "phase_events phase evs c \<Longrightarrow> (c \<Longrightarrow> c') \<Longrightarrow> phase_events phase evs c'"
  by (cases phase) auto

definition chat_inv :: "chat_call \<Rightarrow> bool" where
  "chat_inv s \<longleftrightarrow> refs_ok s \<and> cancel_ok s \<and> events_ok s"

lemma unref_simps [simp]:
  "dt_agent_client_request_unref h
     = (if rq_refcount h = 1 then None else Some (h\<lparr>rq_refcount := rq_refcount h - 1\<rparr>))"
  by (simp add: dt_agent_client_request_unref_def Let_def)

lemma chat_inv_init: "chat_init env s \<Longrightarrow> chat_inv s"
  by (auto simp: chat_init_def dt_agent_client_chat_async_def Let_def chat_inv_def refs_ok_def
      cancel_ok_def events_ok_def new_handle_def request_ref_def job_alive_def request_cancelled_def)

lemma ui_step_inv: "ui_step s s' \<Longrightarrow> chat_inv s \<Longrightarrow> chat_inv s'"
proof (induction rule: ui_step.induct)
  case (ui_cancel s h reason h' delivery)
  then show ?case
    by (auto simp: chat_inv_def refs_ok_def cancel_ok_def events_ok_def request_cancelled_def
        dt_agent_client_request_cancel_def Let_def split: if_splits elim: phase_events_mono)
next
  case (ui_unref s h)
  then show ?case
    by (auto simp: chat_inv_def refs_ok_def cancel_ok_def events_ok_def request_cancelled_def
        split: if_splits)
qed

lemma job_step_inv: "job_step env s s' \<Longrightarrow> chat_inv s \<Longrightarrow> chat_inv s'"
proof (induction rule: job_step.induct)
  case (job_refuse s h have_curl result)
  with chat_job_begin_refused [of env have_curl h result] show ?case
    by (auto simp: chat_inv_def refs_ok_def cancel_ok_def events_ok_def job_alive_def
        intro!: exI [of _ "[]"])
next
  case (job_start s h have_curl parser payload)
  with chat_job_begin_started [of env have_curl h parser payload] show ?case
    by (auto simp: chat_inv_def refs_ok_def cancel_ok_def events_ok_def job_alive_def)
next
  case (job_receive s parser h parser' bytes)
  with write_sse_outcome [of "job_stream_env env h" bytes parser]
    new_progress_eq [of parser' parser] show ?case
    by (auto simp: chat_inv_def refs_ok_def cancel_ok_def events_ok_def job_alive_def
        simp flip: append_assoc)
next
  case (job_end s parser h code parser' http_status)
  from chat_job_end_outcome [of env h code http_status parser]
  have "map Progress (sp_progress parser) @ new_progress parser parser' = map Progress (sp_progress parser')"
    using job_end.hyps by (intro new_progress_eq) simp
  moreover have "all_events s = map Progress (sp_progress parser)"
    using job_end by (simp add: chat_inv_def events_ok_def)
  ultimately have "all_events s @ new_progress parser parser' @ [Final (sp_result parser')]
      = map Progress (sp_progress parser') @ [Final (sp_result parser')]" by simp
  moreover have "cr_cancelled (sp_result parser') \<longrightarrow> cc_cancel_threads s \<noteq> []"
    using job_end chat_job_end_cancelled [of parser env h code http_status]
    by (auto simp: chat_inv_def events_ok_def cancel_ok_def)
  ultimately show ?case
    using job_end chat_job_end_conclusive [of env h code http_status parser]
    by (auto simp: chat_inv_def refs_ok_def cancel_ok_def events_ok_def job_alive_def)
next
  case (job_dispose s h)
  then show ?case
    by (auto simp: chat_inv_def refs_ok_def cancel_ok_def events_ok_def job_alive_def
        request_cancelled_def)
qed

lemma queue_step_inv: "queue_step s s' \<Longrightarrow> chat_inv s \<Longrightarrow> chat_inv s'"
  by (auto elim!: queue_stepE simp: chat_inv_def refs_ok_def cancel_ok_def events_ok_def job_alive_def
      request_cancelled_def)

lemma main_step_inv: "main_step s s' \<Longrightarrow> chat_inv s \<Longrightarrow> chat_inv s'"
  by (induction rule: main_step.induct) (simp_all add: chat_inv_def refs_ok_def cancel_ok_def events_ok_def cong: option.case_cong)

interpretation chat: step_system "chat_init env" "chat_step env" chat_inv
  by unfold_locales
    (auto simp: chat_step_def intro: chat_inv_init ui_step_inv job_step_inv queue_step_inv main_step_inv)

lemmas chat_inv_defs = chat_inv_def refs_ok_def cancel_ok_def events_ok_def

subsection \<open>Ownership of the handle\<close>

text \<open>
  No use after free and no leak.  In every interleaving of the darkroom, the worker and the main
  loop, the handle is freed exactly when the darkroom has released it and the job is gone; until then
  its count is the number of the two that still hold it.
\<close>

theorem request_handle_lifetime:
  assumes "chat_init env s0" "(chat_step env)\<^sup>*\<^sup>* s0 s"
  shows "(cc_handle s = None \<longleftrightarrow> \<not> cc_ui_ref s \<and> \<not> job_alive (cc_job s))
         \<and> (\<forall>h. cc_handle s = Some h
              \<longrightarrow> rq_refcount h = of_bool (cc_ui_ref s) + of_bool (job_alive (cc_job s)))"
  using chat.inv_reachable [OF assms] by (auto simp: chat_inv_defs split: option.splits)

text \<open>A call, and the run in which the darkroom cancels and releases it at once.\<close>

definition sample_job_env :: job_env where
  "sample_job_env = \<lparr>je_load = (\<lambda>text len. Inr (Some (JObject (response_object sample_response)))),
     je_print = (\<lambda>t. Some ''{}''), je_strerror = (\<lambda>c. ''error''),
     je_request = dt_agent_chat_request_copy sample_request, je_has_progress_callback = True\<rparr>"

definition sample_call :: chat_call where
  "sample_call = fst (projr (dt_agent_client_chat_async None None True (Some sample_request)))"

lemma sample_call_init: "chat_init sample_job_env sample_call"
  by (auto simp: chat_init_def sample_call_def sample_job_env_def dt_agent_client_chat_async_def Let_def
      intro!: exI [of _ None] exI [of _ sample_request])

lemma sample_call_fields:
  "cc_ui_ref sample_call" "cc_job sample_call = Job_Queued" "cc_cancel_threads sample_call = []"
  "cc_handle sample_call = Some (request_ref (new_handle sample_request DT_AGENT_CHAT_DEFAULT_ENDPOINT))"
  by (simp_all add: sample_call_def dt_agent_client_chat_async_def dt_agent_client_dup_endpoint_def Let_def)

definition cancelled_handle :: dt_agent_client_request where
  "cancelled_handle = (request_ref (new_handle sample_request DT_AGENT_CHAT_DEFAULT_ENDPOINT))
     \<lparr>rq_cancel_requested := 1, rq_cancel_notified := 1\<rparr>"

definition cancelled_call :: chat_call where
  "cancelled_call = sample_call\<lparr>cc_handle := Some cancelled_handle,
     cc_cancel_threads := [the (snd (dt_agent_client_request_cancel
        (request_ref (new_handle sample_request DT_AGENT_CHAT_DEFAULT_ENDPOINT)) None))]\<rparr>"

lemma sample_cancel: "chat_step sample_job_env sample_call cancelled_call"
proof -
  have "dt_agent_client_request_cancel (request_ref (new_handle sample_request DT_AGENT_CHAT_DEFAULT_ENDPOINT)) None
      = (cancelled_handle, Some (the (snd (dt_agent_client_request_cancel
          (request_ref (new_handle sample_request DT_AGENT_CHAT_DEFAULT_ENDPOINT)) None))))"
    by (simp add: dt_agent_client_request_cancel_def cancelled_handle_def request_ref_def new_handle_def)
  from ui_cancel [OF sample_call_fields(1,4) this] show ?thesis
    by (simp add: chat_step_def cancelled_call_def sample_call_fields)
qed

lemma request_handle_lifetime_witness:
  "cc_handle cancelled_call \<noteq> None \<and> rq_refcount (the (cc_handle cancelled_call)) = 2"
  using request_handle_lifetime [OF sample_call_init r_into_rtranclp [of "chat_step sample_job_env", OF sample_cancel]]
  by (simp add: cancelled_call_def sample_call_fields job_alive_def)

subsection \<open>Deliveries\<close>

text \<open>
  C27: at most one result, last, and once.  In every interleaving the deliveries made and pending are
  progress reports followed by at most one result; the destroy function has been called as often as
  a result was delivered; a result has a response or an error message; it says that it was cancelled
  only if the darkroom cancelled it; and at most one cancel request is sent.
\<close>

theorem delivery_discipline:
  assumes "chat_init env s0" "(chat_step env)\<^sup>*\<^sup>* s0 s"
  shows "\<exists>ps rs. cc_delivered s @ cc_main s = map Progress ps @ map Final rs \<and> length rs \<le> 1
           \<and> cc_destroyed s = length (filter is_final (cc_delivered s))
           \<and> (\<forall>r \<in> set rs. result_conclusive r \<and> (cr_cancelled r \<longrightarrow> cc_cancel_threads s \<noteq> []))
           \<and> length (cc_cancel_threads s) \<le> 1"
proof -
  from chat.inv_reachable [OF assms] have i: "phase_events (cc_job s) (all_events s) (cc_cancel_threads s \<noteq> [])"
    "cc_destroyed s = length (filter is_final (cc_delivered s))" "length (cc_cancel_threads s) \<le> 1"
    by (auto simp: chat_inv_defs)
  have "\<exists>ps rs. all_events s = map Progress ps @ map Final rs \<and> length rs \<le> 1
          \<and> (\<forall>r \<in> set rs. result_conclusive r \<and> (cr_cancelled r \<longrightarrow> cc_cancel_threads s \<noteq> []))"
  proof (cases "cc_job s")
    case Job_Done
    with i(1) obtain ps r where "all_events s = map Progress ps @ [Final r]" "result_conclusive r"
      "cr_cancelled r \<longrightarrow> cc_cancel_threads s \<noteq> []" by auto
    then show ?thesis by (intro exI [of _ ps] exI [of _ "[r]"]) simp
  next
    case Job_Disposed
    with i(1) obtain ps r where "all_events s = map Progress ps @ [Final r]" "result_conclusive r"
      "cr_cancelled r \<longrightarrow> cc_cancel_threads s \<noteq> []" by auto
    then show ?thesis by (intro exI [of _ ps] exI [of _ "[r]"]) simp
  next
    case (Job_Running parser)
    with i(1) show ?thesis by (intro exI [of _ "sp_progress parser"] exI [of _ "[]"]) simp
  qed (use i(1) in \<open>auto intro!: exI [of _ "[]"]\<close>)
  with i(2,3) show ?thesis by blast
qed

lemma delivery_discipline_witness:
  "length (cc_cancel_threads cancelled_call) \<le> 1 \<and> cc_destroyed cancelled_call = 0"
  using delivery_discipline [OF sample_call_init r_into_rtranclp [of "chat_step sample_job_env", OF sample_cancel]]
  by (auto simp: cancelled_call_def sample_call_def dt_agent_client_chat_async_def Let_def)

text \<open>The main loop can always catch up.\<close>

lemma main_drain:
  "main_step\<^sup>*\<^sup>* s (s\<lparr>cc_main := [], cc_delivered := cc_delivered s @ cc_main s,
      cc_destroyed := cc_destroyed s + length (filter is_final (cc_main s))\<rparr>)"
proof (induction "cc_main s" arbitrary: s)
  case Nil
  then have s: "s\<lparr>cc_main := [], cc_delivered := cc_delivered s @ cc_main s,
      cc_destroyed := cc_destroyed s + length (filter is_final (cc_main s))\<rparr> = s" by (cases s) simp
  show ?case unfolding s by simp
next
  case (Cons ev rest)
  let ?s = "s\<lparr>cc_main := rest, cc_delivered := cc_delivered s @ [ev],
      cc_destroyed := cc_destroyed s + of_bool (is_final ev)\<rparr>"
  have "main_step s ?s"
    using deliver_stream_progress [of s _ rest] deliver_result [of s _ rest] Cons.hyps(2) [symmetric]
    by (cases ev) auto
  moreover have "main_step\<^sup>*\<^sup>* ?s (?s\<lparr>cc_main := [], cc_delivered := cc_delivered ?s @ cc_main ?s,
      cc_destroyed := cc_destroyed ?s + length (filter is_final (cc_main ?s))\<rparr>)"
    using Cons.hyps(1) [of ?s] by simp
  ultimately show ?case
    using Cons.hyps(2) [symmetric] by (auto intro: converse_rtranclp_into_rtranclp)
qed

definition background_step :: "job_env \<Rightarrow> chat_call \<Rightarrow> chat_call \<Rightarrow> bool" where
  "background_step env s s' \<longleftrightarrow> job_step env s s' \<or> main_step s s'"

lemma job_finishes:
  assumes "chat_inv s" "cc_job s \<noteq> Job_Dropped"
  shows "\<exists>s'. (job_step env)\<^sup>*\<^sup>* s s' \<and> cc_job s' = Job_Disposed"
proof -
  have handle: "\<exists>h. cc_handle t = Some h" if "chat_inv t" "job_alive (cc_job t)" for t
    using that by (auto simp: chat_inv_defs split: option.splits)
  have finished: "\<exists>t'. (job_step env)\<^sup>*\<^sup>* t t' \<and> cc_job t' = Job_Disposed"
    if "chat_inv t" "cc_job t = Job_Done" for t
  proof -
    from handle [OF that(1)] that(2) obtain h where "cc_handle t = Some h" by (auto simp: job_alive_def)
    then have "job_step env t (t\<lparr>cc_job := Job_Disposed, cc_handle := dt_agent_client_request_unref h\<rparr>)"
      by (rule job_dispose [OF that(2)])
    then show ?thesis by (intro exI conjI, rule r_into_rtranclp) simp
  qed
  have running: "\<exists>t'. (job_step env)\<^sup>*\<^sup>* t t' \<and> cc_job t' = Job_Disposed"
    if t: "chat_inv t" "cc_job t = Job_Running parser" for t parser
  proof -
    from handle [OF t(1)] t(2) obtain h where h: "cc_handle t = Some h" by (auto simp: job_alive_def)
    from job_end [OF t(2) h, of CURLE_OK, OF _ refl] obtain t' where
      "job_step env t t'" "cc_job t' = Job_Done" by fastforce
    with finished [of t'] t(1) job_step_inv show ?thesis by (meson converse_rtranclp_into_rtranclp)
  qed
  show ?thesis
  proof (cases "cc_job s")
    case Job_Queued
    with handle [OF assms(1)] obtain h where h: "cc_handle s = Some h" by (auto simp: job_alive_def)
    show ?thesis
    proof (cases "chat_job_begin env True h")
      case (Inl r)
      from job_refuse [OF Job_Queued h Inl] obtain t where "job_step env s t" "cc_job t = Job_Done"
        by fastforce
      with finished [of t] assms(1) job_step_inv show ?thesis by (meson converse_rtranclp_into_rtranclp)
    next
      case (Inr x)
      then obtain parser payload where "chat_job_begin env True h = Inr (parser, payload)"
        by (cases x) auto
      from job_start [OF Job_Queued h this] obtain t where
        "job_step env s t" "cc_job t = Job_Running parser" by fastforce
      with running [of t] assms(1) job_step_inv show ?thesis by (meson converse_rtranclp_into_rtranclp)
    qed
  qed (use assms finished running in auto)
qed

text \<open>
  every request that is not dropped from the queue can be answered, from every reachable state
  and without the darkroom doing anything: the worker and the main loop can always go on to a state
  in which exactly one result has been delivered, the user data destroyed exactly once and the job
  disposed of.
\<close>

theorem request_can_be_answered:
  assumes "chat_init env s0" "(chat_step env)\<^sup>*\<^sup>* s0 s" "cc_job s \<noteq> Job_Dropped"
  shows "\<exists>s' ps r. (background_step env)\<^sup>*\<^sup>* s s' \<and> cc_job s' = Job_Disposed \<and> cc_main s' = []
           \<and> cc_delivered s' = map Progress ps @ [Final r] \<and> cc_destroyed s' = 1
           \<and> cc_ui_ref s' = cc_ui_ref s"
proof -
  have inv: "chat_inv s" by (rule chat.inv_reachable [OF assms(1,2)])
  from job_finishes [OF this assms(3)] obtain t where
    t: "(job_step env)\<^sup>*\<^sup>* s t" "cc_job t = Job_Disposed" by blast
  let ?s' = "t\<lparr>cc_main := [], cc_delivered := all_events t,
      cc_destroyed := cc_destroyed t + length (filter is_final (cc_main t))\<rparr>"
  have "(background_step env)\<^sup>*\<^sup>* s ?s'"
    by (rule rtranclp_trans [of _ s t])
      (rule mono_rtranclp [rule_format, OF _ t(1)] mono_rtranclp [rule_format, OF _ main_drain],
       simp add: background_step_def)+
  moreover have "chat_inv t" using t(1) inv
    by (induction rule: rtranclp_induct) (auto intro: job_step_inv)
  then obtain ps r where ev: "all_events t = map Progress ps @ [Final r]"
    and d: "cc_destroyed t = length (filter is_final (cc_delivered t))"
    using t(2) by (auto simp: chat_inv_defs)
  have "cc_destroyed t + length (filter is_final (cc_main t)) = length (filter is_final (all_events t))"
    by (simp add: d)
  then have "cc_destroyed t + length (filter is_final (cc_main t)) = 1"
    unfolding ev by (simp add: filter_empty_conv)
  moreover have "cc_ui_ref t = cc_ui_ref s" using t(1)
    by (induction rule: rtranclp_induct) (auto elim!: job_stepE)
  ultimately show ?thesis
    using t(2) ev by (intro exI [of _ ?s'] exI [of _ ps] exI [of _ r]) simp
qed

lemma request_can_be_answered_witness:
  "\<exists>s'. (background_step sample_job_env)\<^sup>*\<^sup>* cancelled_call s' \<and> cc_destroyed s' = 1"
  using request_can_be_answered [OF sample_call_init r_into_rtranclp [of "chat_step sample_job_env", OF sample_cancel]]
  by (auto simp: cancelled_call_def sample_call_fields)

subsection \<open>Cancelling before the job starts\<close>

definition never_sent :: "chat_call \<Rightarrow> bool" where
  "never_sent s \<longleftrightarrow>
     (case cc_job s of
        Job_Queued \<Rightarrow> all_events s = [] \<and> request_cancelled (cc_handle s)
      | Job_Running _ \<Rightarrow> False
      | Job_Dropped \<Rightarrow> all_events s = []
      | _ \<Rightarrow> \<exists>r. all_events s = [Final r] \<and> cr_cancelled r \<and> \<not> cr_has_response r)"

definition cancelled_in_queue :: "chat_call \<Rightarrow> bool" where
  "cancelled_in_queue s \<longleftrightarrow>
     cc_job s = Job_Queued \<and> all_events s = [] \<and> request_cancelled (cc_handle s)"

lemma cancelled_begin:
  "request_cancelled (Some h) \<Longrightarrow> chat_job_begin env have_curl h
     = Inl ((job_result_init h)\<lparr>cr_cancelled := True, cr_transport_error := Some ''chat request canceled''\<rparr>)"
  by (simp add: chat_job_begin_def Let_def)

lemma never_sent_step: "chat_inv s \<Longrightarrow> never_sent s \<Longrightarrow> chat_step env s s' \<Longrightarrow> never_sent s'"
  unfolding chat_step_def
proof (elim disjE)
  assume "ui_step s s'" "never_sent s" "chat_inv s"
  then show ?thesis
    by (auto elim!: ui_stepE simp: never_sent_def request_cancelled_def chat_inv_def refs_ok_def
        job_alive_def dt_agent_client_request_cancel_def Let_def split: job_phase.splits if_splits)
next
  assume "job_step env s s'" "never_sent s"
  then show ?thesis
    by (auto elim!: job_stepE simp: never_sent_def cancelled_begin job_result_init_def zero_result_def)
next
  assume "queue_step s s'" "never_sent s"
  then show ?thesis by (auto elim!: queue_stepE simp: never_sent_def)
next
  assume "main_step s s'" "never_sent s"
  then show ?thesis
    by (induction rule: main_step.induct) (simp_all add: never_sent_def cong: job_phase.case_cong)
qed

interpretation unsent: step_system "\<lambda>s. chat_inv s \<and> cancelled_in_queue s" "chat_step env"
  "\<lambda>s. chat_inv s \<and> never_sent s"
proof
  fix s s'
  assume "chat_inv s \<and> cancelled_in_queue s"
  then show "chat_inv s \<and> never_sent s" by (simp add: cancelled_in_queue_def never_sent_def)
next
  fix s s'
  assume "chat_inv s \<and> never_sent s" "chat_step env s s'"
  then show "chat_inv s' \<and> never_sent s'" using never_sent_step chat.inv_step by blast
qed

text \<open>
  a request that is cancelled while it waits in the queue is never sent: whatever happens
  afterwards, the darkroom gets no progress and no response, and the one result it can get says that
  the request was cancelled.
\<close>

theorem cancelled_in_queue_never_sent:
  assumes "chat_init env s0" "(chat_step env)\<^sup>*\<^sup>* s0 s"
    and "cancelled_in_queue s" "(chat_step env)\<^sup>*\<^sup>* s s'"
  shows "(\<forall>parser. cc_job s' \<noteq> Job_Running parser)
         \<and> (\<forall>ev \<in> set (cc_delivered s' @ cc_main s').
               \<exists>r. ev = Final r \<and> cr_cancelled r \<and> \<not> cr_has_response r)"
proof -
  have "never_sent s'"
    using unsent.inv_reachable [OF _ assms(4)] chat.inv_reachable [OF assms(1,2)] assms(3) by blast
  then consider "cc_job s' = Job_Queued \<or> cc_job s' = Job_Dropped" "all_events s' = []"
    | r where "cc_job s' = Job_Done \<or> cc_job s' = Job_Disposed" "all_events s' = [Final r]"
        "cr_cancelled r" "\<not> cr_has_response r"
    by (auto simp: never_sent_def split: job_phase.splits)
  then show ?thesis by cases auto
qed

lemma cancelled_in_queue_never_sent_witness:
  "cancelled_in_queue cancelled_call \<and> cc_job cancelled_call \<noteq> Job_Running (sse_parser_init zero_result)"
proof -
  have "cancelled_in_queue cancelled_call"
    by (simp add: cancelled_in_queue_def cancelled_call_def sample_call_fields request_cancelled_def
        cancelled_handle_def) (simp add: sample_call_def dt_agent_client_chat_async_def Let_def)
  with cancelled_in_queue_never_sent [OF sample_call_init
      r_into_rtranclp [of "chat_step sample_job_env", OF sample_cancel] this rtranclp.rtrancl_refl]
  show ?thesis by blast
qed

subsection \<open>From the server's stream to the result\<close>

definition concludes :: "string \<times> string \<Rightarrow> bool" where
  "concludes ev \<longleftrightarrow> fst ev = ''final'' \<or> fst ev = ''error''"

lemma handle_other_events:
  "list_all (\<lambda>ev. \<not> concludes ev) evs \<Longrightarrow> fst (fold (handle_event env) evs out) = fst out"
proof (induction evs arbitrary: out)
  case (Cons ev evs)
  then have "fst (handle_event env ev out) = fst out"
    by (cases ev; cases out) (simp add: handle_event_def concludes_def)
  with Cons show ?case by simp
qed simp

lemma chat_job_end_ok:
  assumes "cr_has_response (sp_result parser)"
  shows "sp_result (chat_job_end env h CURLE_OK st parser) = (sp_result parser)\<lparr>cr_http_status := st\<rparr>"
  using assms
  by (auto simp: chat_job_end_def Let_def sse_dispatch_current_event_def final_result_def)

text \<open>
  what the server answers is what the darkroom gets.  When the transfer carries the server's
  encoding of any events that are not final, then a final event with a payload that is a response,
  and then anything at all, in chunks of any size, and ends well, the job's result is that response,
  with the HTTP status, no error and not cancelled.
\<close>

theorem job_delivers_server_response:
  assumes start: "chat_job_begin env have_curl handle = Inr (parser, payload)"
    and events: "list_all plain_event (evs @ (name, answer) # rest)"
      "list_all (\<lambda>ev. \<not> concludes ev) evs" "concludes (name, answer)"
    and bytes: "concat chunks = concat (map encode_event (evs @ (name, answer) # rest))"
    and answer: "dt_agent_chat_response_parse_data (je_load env) (Some answer) (- 1)
                   (Some zero_response) None = (True, Some response, e)"
  shows "sp_result (chat_job_end env handle CURLE_OK status
           (fold (write_sse_response (job_stream_env env handle)) chunks parser))
         = (job_result_init handle)\<lparr>cr_http_status := status, cr_has_response := True,
              cr_response := response\<rparr>"
proof -
  let ?env = "job_stream_env env handle" and ?init = "job_result_init handle"
  from start have parser: "parser = sse_parser_init ?init"
    by (auto simp: chat_job_begin_def Let_def split: if_splits prod.splits option.splits)
  let ?p = "fold (write_sse_response ?env) chunks parser"
  let ?r = "?init\<lparr>cr_has_response := True, cr_response := response\<rparr>"
  have "outcome ?p = fold (handle_event ?env) (evs @ (name, answer) # rest) (?init, [])"
    using events(1) bytes
    by (simp only: parser sse.feed_chunks sse_init_drained write_sse_events stream_events_encode)
  moreover obtain ps where first: "fold (handle_event ?env) evs (?init, []) = (?init, ps)"
    using handle_other_events [OF events(2), of ?env "(?init, [])"] by (metis fst_conv prod.collapse)
  moreover have "handle_event ?env (name, answer) (?init, ps) = (?r, ps)"
    using events(3) answer
    by (auto simp: handle_event_def concludes_def final_result_def job_result_init_def zero_result_def
        job_stream_env_def)
  ultimately have "outcome ?p = fold (handle_event ?env) rest (?r, ps)" by simp
  then have "sp_result ?p = ?r"
    using handle_events_keep [of "(?r, ps)" ?env rest] by (simp add: outcome_def prod_eq_iff)
  then show ?thesis by (simp add: chat_job_end_ok)
qed

lemma job_delivers_server_response_witness:
  "sp_result (chat_job_end sample_job_env sample_handle CURLE_OK 200
       (fold (write_sse_response (job_stream_env sample_job_env sample_handle))
         [encode_event (''accepted'', ''1''), encode_event (''final'', ''{}'')]
         (sse_parser_init (job_result_init sample_handle))))
     = (job_result_init sample_handle)\<lparr>cr_http_status := 200, cr_has_response := True,
          cr_response := sample_response\<rparr>"
proof (rule job_delivers_server_response [where evs = "[(''accepted'', ''1'')]" and rest = "[]"])
  have "\<not> request_incomplete (dt_agent_chat_request_copy sample_request)" by code_simp
  then show "chat_job_begin sample_job_env True sample_handle
      = Inr (sse_parser_init (job_result_init sample_handle), ''{}'')"
    by (simp add: chat_job_begin_def Let_def dt_agent_chat_request_serialize_def sample_job_env_def
        sample_handle_def request_cancelled_def)
  show "dt_agent_chat_response_parse_data (je_load sample_job_env) (Some ''{}'') (- 1)
      (Some zero_response) None = (True, Some sample_response, None)"
    by (simp add: sample_job_env_def dt_agent_chat_response_parse_data_def
        parse_response_object_complete sample_response_wf)
qed (simp_all add: plain_event_def plain_text_def g_ascii_isspace_def concludes_def)

end
