(* ===== verification/Chat_State.thy ===== *)
theory Chat_State
  imports Collect Execute Client_Job "HOL-Library.AList"
begin

text \<open>
  The chat window of \<open>views/darkroom.c\<close>, part one: the state of the window and the sessions it keeps
  per image, saving and loading a session, switching images, the labels, the refinement status, the
  cancellation of the active request and the handlers of the check boxes and buttons.

  The widgets of the window (created in \<open>gui_init\<close>) are fields that hold what the widget shows; the
  signals that the code blocks while it sets a widget do not run.  \<open>darktable.develop\<close> and the view's
  \<open>dev\<close> are the same object.  The image and its history are a function \<open>cx_develop\<close> of the \<open>world\<close>, on
  which the operations work.  A request handle is an index into \<open>cw_requests\<close>, which holds, for every
  request that was started, the state of its client call, the job's copy of the request and the
  submission that is passed to the callbacks.
\<close>

subsection \<open>State\<close>

record dt_agent_chat_submission =
  sub_request_id :: cstr
  sub_prompt_text :: cstr
  sub_goal_text :: cstr
  sub_conversation_id :: cstr
  sub_image_session_id :: cstr
  sub_base_image_revision_id :: cstr
  sub_has_image_id :: bool
  sub_image_id :: int
  sub_autorun :: bool
  sub_refinement_enabled :: bool
  sub_fast_mode_enabled :: bool
  sub_refinement_pass_index :: nat
  sub_refinement_max_passes :: nat
  sub_exposure_before :: flt

record dt_agent_chat_session =
  cs_image_session_id :: cstr
  cs_conversation_id :: cstr
  cs_transcript :: cstr
  cs_status_text :: cstr
  cs_error_text :: cstr
  cs_refinement_goal_text :: cstr
  cs_refinement_stop_reason :: cstr
  cs_is_loading :: bool
  cs_last_refinement_pass_index :: nat
  cs_last_refinement_max_passes :: nat
  cs_last_continue_refining :: bool
  cs_last_refinement_enabled :: bool
  cs_last_fast_mode_enabled :: bool
  cs_pending_mid_turn_render :: bool

datatype main_source = Autorun_Timer | Quit_Timer nat

text \<open>
  The widgets: the text of the conversation and of the entry, the two labels, the spinner (whether it
  is visible and whether it turns), the sensitivity of the buttons and what the options show.
\<close>

record chat_widgets =
  wg_conversation :: string
  wg_entry :: string
  wg_status :: string
  wg_error :: string
  wg_error_visible :: bool
  wg_spinner_visible :: bool
  wg_spinner :: bool
  wg_entry_sensitive :: bool
  wg_send_sensitive :: bool
  wg_cancel_sensitive :: bool
  wg_new_chat_sensitive :: bool
  wg_multi_turn_sensitive :: bool
  wg_turn_limit_sensitive :: bool
  wg_fast_mode_sensitive :: bool
  wg_multi_turn_active :: bool
  wg_turn_limit :: int
  wg_fast_mode_active :: bool

record agent_chat =
  ac_widgets :: chat_widgets
  ac_app_session_id :: cstr
  ac_image_session_id :: cstr
  ac_conversation_id :: cstr
  ac_active_request_id :: cstr
  ac_image_sessions :: "(int \<times> dt_agent_chat_session) list"
  ac_active_request :: "nat option"
  ac_current_image_id :: int
  ac_autorun_message :: cstr
  ac_test_report_path :: cstr
  ac_autorun_source :: "main_source option"
  ac_max_refinement_passes :: nat
  ac_active_request_live_applied_count :: nat
  ac_active_request_refinement_pass_index :: nat
  ac_active_request_refinement_max_passes :: nat
  ac_active_request_tool_calls_used :: nat
  ac_active_request_tool_calls_max :: nat
  ac_multi_turn_enabled :: bool
  ac_fast_mode_enabled :: bool
  ac_active_request_canceling :: bool
  ac_is_loading :: bool
  ac_autorun_sent :: bool
  ac_exit_after_autorun :: bool

datatype key_value = KString string | KInt int | KBool bool | KDouble flt

type_synonym key_file = "(string \<times> key_value) list"

record dt_agent_chat_render_delivery =
  rd_image_session_id :: cstr
  rd_turn_id :: cstr
  rd_jpeg_bytes :: string
  rd_endpoint :: string

text \<open>
  What leaves the window besides requests: settings and test reports that are written, previews
  that are posted, the order to quit; and the batches of operations given to the executor, oldest first.
\<close>

datatype chat_effect =
    Conf_Set string key_value
  | Test_Report string key_file
  | Render_Post dt_agent_chat_render_delivery
  | Executed "dt_agent_chat_operation list"
  | Quit

record chat_world =
  cw_world :: world
  cw_chat :: agent_chat
  cw_requests :: "(chat_call \<times> dt_agent_chat_request \<times> dt_agent_chat_submission) list"
  cw_uuids :: nat
  cw_effects :: "chat_effect list"

text \<open>
  \<open>cx_have_job n\<close>: a job can be created for the request that would be the \<open>n\<close>th.  \<open>cx_exposure\<close> is
  \<open>dt_action_process\<close> on the exposure slider with \<open>DT_READ_ACTION_ONLY\<close>.
\<close>

record chat_env =
  cx_env :: env
  cx_collect :: collect_env
  cx_develop :: "world \<Rightarrow> develop_state"
  cx_preview_valid :: "world \<Rightarrow> bool"
  cx_exposure :: "world \<Rightarrow> flt"
  cx_uuid :: "nat \<Rightarrow> string"
  cx_getenv :: "string \<Rightarrow> cstr"
  cx_conf_endpoint :: cstr
  cx_have_job :: "nat \<Rightarrow> bool"
  cx_strtoull :: "string \<Rightarrow> nat"
  cx_base64_decode :: "string \<Rightarrow> string option"

definition chat_upd :: "(agent_chat \<Rightarrow> agent_chat) \<Rightarrow> chat_world \<Rightarrow> chat_world" where
  "chat_upd f w = w\<lparr>cw_chat := f (cw_chat w)\<rparr>"

definition add_effect :: "chat_effect \<Rightarrow> chat_world \<Rightarrow> chat_world" where
  "add_effect e w = w\<lparr>cw_effects := cw_effects w @ [e]\<rparr>"

definition g_uuid_string_random :: "chat_env \<Rightarrow> chat_world \<Rightarrow> string \<times> chat_world" where
  "g_uuid_string_random cx w = (cx_uuid cx (cw_uuids w), w\<lparr>cw_uuids := cw_uuids w + 1\<rparr>)"

definition NO_IMGID :: int where "NO_IMGID = 0"

definition chat_current_image_id :: "chat_env \<Rightarrow> chat_world \<Rightarrow> int" where
  "chat_current_image_id cx w =
     (let image_id = im_id (dv_image_storage (cx_develop cx (cw_world w)))
      in if 0 < image_id then image_id else NO_IMGID)"

subsection \<open>Sessions\<close>

definition lookup_session :: "int \<Rightarrow> agent_chat \<Rightarrow> dt_agent_chat_session option" where
  "lookup_session image_id c = map_of (ac_image_sessions c) image_id"

text \<open>Assignments through a session pointer; the session of an image is found by its key.\<close>

definition session_upd ::
  "int \<Rightarrow> (dt_agent_chat_session \<Rightarrow> dt_agent_chat_session) \<Rightarrow> agent_chat \<Rightarrow> agent_chat" where
  "session_upd image_id f c =
     (case lookup_session image_id c of
        None \<Rightarrow> c
      | Some s \<Rightarrow> c\<lparr>ac_image_sessions := AList.update image_id (f s) (ac_image_sessions c)\<rparr>)"

definition chat_default_transcript :: string where
  "chat_default_transcript =
     ''assistant: ready for this image. ask for an edit or describe the look you want.''"

definition ready_status :: string where "ready_status = ''ready to call the local agent server''"

definition zero_session :: dt_agent_chat_session where
  "zero_session = \<lparr>cs_image_session_id = None, cs_conversation_id = None, cs_transcript = None,
     cs_status_text = None, cs_error_text = None, cs_refinement_goal_text = None,
     cs_refinement_stop_reason = None, cs_is_loading = False, cs_last_refinement_pass_index = 0,
     cs_last_refinement_max_passes = 0, cs_last_continue_refining = False,
     cs_last_refinement_enabled = False, cs_last_fast_mode_enabled = False,
     cs_pending_mid_turn_render = False\<rparr>"

definition lookup_or_create_session :: "chat_env \<Rightarrow> int \<Rightarrow> chat_world \<Rightarrow> chat_world" where
  "lookup_or_create_session cx image_id w =
     (case lookup_session image_id (cw_chat w) of
        Some s \<Rightarrow> w
      | None \<Rightarrow>
          let (image_session_id, w) = g_uuid_string_random cx w;
              (conversation_id, w) = g_uuid_string_random cx w;
              c = cw_chat w;
              session = zero_session
                \<lparr>cs_image_session_id := Some image_session_id,
                 cs_conversation_id := Some conversation_id,
                 cs_transcript := Some chat_default_transcript,
                 cs_status_text := Some ready_status,
                 cs_last_refinement_enabled := ac_multi_turn_enabled c,
                 cs_last_refinement_pass_index := 1,
                 cs_last_refinement_max_passes := ac_max_refinement_passes c,
                 cs_last_fast_mode_enabled := ac_fast_mode_enabled c\<rparr>
          in w\<lparr>cw_chat := c\<lparr>ac_image_sessions := AList.update image_id session (ac_image_sessions c)\<rparr>\<rparr>)"

definition chat_max_refinement_passes :: "agent_chat \<Rightarrow> nat" where
  "chat_max_refinement_passes c =
     (if ac_max_refinement_passes c = 0 then DT_AGENT_CHAT_DEFAULT_MAX_REFINEMENT_TURNS
      else ac_max_refinement_passes c)"

definition sync_current_session :: "agent_chat \<Rightarrow> agent_chat" where
  "sync_current_session c =
     (if ac_conversation_id c = None \<or> ac_image_session_id c = None then c
      else session_upd (ac_current_image_id c) (\<lambda>s. s
        \<lparr>cs_image_session_id := ac_image_session_id c,
         cs_conversation_id := ac_conversation_id c,
         cs_transcript := Some (wg_conversation (ac_widgets c)),
         cs_status_text := Some (wg_status (ac_widgets c)),
         cs_error_text := Some (wg_error (ac_widgets c)),
         cs_is_loading := ac_is_loading c,
         cs_last_refinement_enabled := ac_multi_turn_enabled c,
         cs_last_refinement_max_passes := chat_max_refinement_passes c,
         cs_last_fast_mode_enabled := ac_fast_mode_enabled c\<rparr>) c)"

definition widgets_upd :: "(chat_widgets \<Rightarrow> chat_widgets) \<Rightarrow> agent_chat \<Rightarrow> agent_chat" where
  "widgets_upd f c = c\<lparr>ac_widgets := f (ac_widgets c)\<rparr>"

definition update_sensitivity :: "agent_chat \<Rightarrow> agent_chat" where
  "update_sensitivity c =
     (let sensitive = (\<not> ac_is_loading c)
      in widgets_upd (\<lambda>g. g
        \<lparr>wg_entry_sensitive := sensitive,
         wg_send_sensitive := sensitive,
         wg_cancel_sensitive := ac_active_request c \<noteq> None,
         wg_new_chat_sensitive := sensitive,
         wg_multi_turn_sensitive := sensitive,
         wg_turn_limit_sensitive := sensitive \<and> ac_multi_turn_enabled c,
         wg_fast_mode_sensitive := sensitive\<rparr>) c)"

definition replace_transcript :: "cstr \<Rightarrow> agent_chat \<Rightarrow> agent_chat" where
  "replace_transcript txt = widgets_upd (\<lambda>g. g\<lparr>wg_conversation := str_or txt []\<rparr>)"

definition load_session :: "dt_agent_chat_session \<Rightarrow> agent_chat \<Rightarrow> agent_chat" where
  "load_session s c =
     (let c = c\<lparr>ac_image_session_id := cs_image_session_id s, ac_conversation_id := cs_conversation_id s\<rparr>;
          c = replace_transcript (cs_transcript s) c;
          c = widgets_upd (\<lambda>g. g
                \<lparr>wg_status := str_or (cs_status_text s) ready_status,
                 wg_error := str_or (cs_error_text s) [],
                 wg_error_visible := nonempty (cs_error_text s)\<rparr>) c;
          c = c\<lparr>ac_is_loading := cs_is_loading s\<rparr>;
          c = widgets_upd (\<lambda>g. g\<lparr>wg_spinner_visible := cs_is_loading s, wg_spinner := cs_is_loading s\<rparr>) c;
          c = c\<lparr>ac_multi_turn_enabled := cs_last_refinement_enabled s,
                ac_max_refinement_passes := max 1 (cs_last_refinement_max_passes s),
                ac_fast_mode_enabled := cs_last_fast_mode_enabled s\<rparr>;
          c = widgets_upd (\<lambda>g. g
                \<lparr>wg_multi_turn_active := ac_multi_turn_enabled c,
                 wg_turn_limit := min (int (ac_max_refinement_passes c)) G_MAXINT,
                 wg_fast_mode_active := ac_fast_mode_enabled c\<rparr>) c
      in update_sensitivity c)"

definition switch_to_image_session :: "chat_env \<Rightarrow> int \<Rightarrow> bool \<Rightarrow> chat_world \<Rightarrow> chat_world" where
  "switch_to_image_session cx image_id force_new_chat w =
     (let c = cw_chat w;
          w = (if ac_current_image_id c \<noteq> 0 \<or> ac_conversation_id c \<noteq> None \<or> ac_image_session_id c \<noteq> None
               then chat_upd sync_current_session w else w);
          w = lookup_or_create_session cx image_id w;
          w = (if force_new_chat
               then let (conversation_id, w) = g_uuid_string_random cx w
                    in chat_upd (\<lambda>c. session_upd image_id (\<lambda>s. s
                      \<lparr>cs_conversation_id := Some conversation_id,
                       cs_transcript := Some chat_default_transcript,
                       cs_status_text := Some ''started a new chat for this image'',
                       cs_error_text := None,
                       cs_refinement_goal_text := None,
                       cs_refinement_stop_reason := None,
                       cs_last_refinement_pass_index := 1,
                       cs_last_refinement_max_passes := chat_max_refinement_passes c,
                       cs_last_continue_refining := False,
                       cs_last_refinement_enabled := ac_multi_turn_enabled c,
                       cs_last_fast_mode_enabled := ac_fast_mode_enabled c\<rparr>) c) w
               else w);
          w = chat_upd (\<lambda>c. c\<lparr>ac_current_image_id := image_id\<rparr>) w
      in case lookup_session image_id (cw_chat w) of
           None \<Rightarrow> w
         | Some s \<Rightarrow> chat_upd (load_session s) w)"

subsection \<open>Labels, messages and the session behind them\<close>

definition session_set_status :: "cstr \<Rightarrow> dt_agent_chat_session \<Rightarrow> dt_agent_chat_session" where
  "session_set_status status s = s\<lparr>cs_status_text := Some (str_or status [])\<rparr>"

definition session_set_error :: "cstr \<Rightarrow> dt_agent_chat_session \<Rightarrow> dt_agent_chat_session" where
  "session_set_error err s = s\<lparr>cs_error_text := Some (str_or err [])\<rparr>"

definition message_line :: "string \<Rightarrow> cstr \<Rightarrow> string" where
  "message_line speaker message = speaker @ '': '' @ str_or message []"

text \<open>The messages of a transcript are separated by an empty line.\<close>

definition newlines :: string where "newlines = [char_of (10 :: nat), char_of (10 :: nat)]"

definition append_line :: "string \<Rightarrow> string \<Rightarrow> string" where
  "append_line transcript line = (if transcript \<noteq> [] then transcript @ newlines @ line else line)"

definition session_append_message ::
  "string \<Rightarrow> cstr \<Rightarrow> dt_agent_chat_session \<Rightarrow> dt_agent_chat_session" where
  "session_append_message speaker message s =
     s\<lparr>cs_transcript := Some (append_line (str_or (cs_transcript s) []) (message_line speaker message))\<rparr>"

definition append_message :: "string \<Rightarrow> cstr \<Rightarrow> agent_chat \<Rightarrow> agent_chat" where
  "append_message speaker message c =
     sync_current_session (widgets_upd (\<lambda>g. g
       \<lparr>wg_conversation := append_line (wg_conversation g) (message_line speaker message)\<rparr>) c)"

definition set_status :: "cstr \<Rightarrow> agent_chat \<Rightarrow> agent_chat" where
  "set_status status c = sync_current_session (widgets_upd (\<lambda>g. g\<lparr>wg_status := str_or status []\<rparr>) c)"

definition set_error :: "cstr \<Rightarrow> agent_chat \<Rightarrow> agent_chat" where
  "set_error err c = sync_current_session (widgets_upd (\<lambda>g. g
     \<lparr>wg_error := str_or err [], wg_error_visible := nonempty err\<rparr>) c)"

definition set_loading :: "bool \<Rightarrow> agent_chat \<Rightarrow> agent_chat" where
  "set_loading is_loading c =
     update_sensitivity (widgets_upd (\<lambda>g. g\<lparr>wg_spinner_visible := is_loading, wg_spinner := is_loading\<rparr>)
       (c\<lparr>ac_is_loading := is_loading\<rparr>))"

definition update_refinement_status :: "nat \<Rightarrow> nat \<Rightarrow> agent_chat \<Rightarrow> agent_chat" where
  "update_refinement_status pass_index max_passes c =
     (let c = c\<lparr>ac_active_request_refinement_pass_index := pass_index,
                ac_active_request_refinement_max_passes := max_passes\<rparr>
      in if ac_active_request_canceling c then set_status (Some ''Canceling request...'') c
         else if ac_multi_turn_enabled c
         then let max_tool_calls = (if 0 < ac_active_request_tool_calls_max c
                                    then ac_active_request_tool_calls_max c else max 1 max_passes);
                  used_tool_calls = min (ac_active_request_tool_calls_used c) max_tool_calls
              in set_status (Some (''Live edits | tool calls '' @ show_nat used_tool_calls @ ''/''
                   @ show_nat max_tool_calls @ '' | edits applied ''
                   @ show_nat (ac_active_request_live_applied_count c))) c
         else set_status (Some ''Sending request...'') c)"

definition handle_transport_error :: "cstr \<Rightarrow> agent_chat \<Rightarrow> agent_chat" where
  "handle_transport_error msg c =
     (let c = set_error (Some (str_or msg ''agent request failed'')) c;
          c = set_status (Some ''Request failed'') c
      in append_message ''assistant'' (Some (str_or msg ''failed to contact the agent server'')) c)"

subsection \<open>The active request\<close>

text \<open>The client call behind a handle.\<close>

definition call_upd :: "nat \<Rightarrow> (chat_call \<Rightarrow> chat_call) \<Rightarrow> chat_world \<Rightarrow> chat_world" where
  "call_upd i f w =
     (if i < length (cw_requests w)
      then w\<lparr>cw_requests := (cw_requests w)[i := apfst f (cw_requests w ! i)]\<rparr> else w)"

definition call_cancel :: "cstr \<Rightarrow> chat_call \<Rightarrow> chat_call" where
  "call_cancel reason s =
     (case cc_handle s of
        None \<Rightarrow> s
      | Some h \<Rightarrow>
          let (h, delivery) = dt_agent_client_request_cancel h reason
          in s\<lparr>cc_handle := Some h,
               cc_cancel_threads := cc_cancel_threads s @ (case delivery of None \<Rightarrow> [] | Some d \<Rightarrow> [d])\<rparr>)"

definition call_unref :: "chat_call \<Rightarrow> chat_call" where
  "call_unref s =
     (case cc_handle s of
        None \<Rightarrow> s
      | Some h \<Rightarrow> s\<lparr>cc_ui_ref := False, cc_handle := dt_agent_client_request_unref h\<rparr>)"

definition drop_active_request_handle :: "chat_world \<Rightarrow> chat_world" where
  "drop_active_request_handle w =
     (case ac_active_request (cw_chat w) of
        None \<Rightarrow> w
      | Some i \<Rightarrow> chat_upd (\<lambda>c. c\<lparr>ac_active_request := None\<rparr>) (call_upd i call_unref w))"

definition submission_matches_active_request :: "agent_chat \<Rightarrow> dt_agent_chat_submission \<Rightarrow> bool" where
  "submission_matches_active_request c submission \<longleftrightarrow>
     ac_active_request_id c \<noteq> None \<and> ac_active_request_id c = sub_request_id submission"

definition set_active_request :: "nat \<Rightarrow> cstr \<Rightarrow> chat_world \<Rightarrow> chat_world" where
  "set_active_request request request_id w =
     chat_upd (\<lambda>c. c
       \<lparr>ac_active_request_id := request_id,
        ac_active_request := Some request,
        ac_active_request_canceling := False,
        ac_active_request_live_applied_count := 0,
        ac_active_request_tool_calls_used := 0,
        ac_active_request_tool_calls_max := 0\<rparr>) (drop_active_request_handle w)"

definition clear_active_request :: "bool \<Rightarrow> chat_world \<Rightarrow> chat_world" where
  "clear_active_request clear_request_id w =
     chat_upd (\<lambda>c.
       (if clear_request_id
        then c\<lparr>ac_active_request_id := None, ac_active_request_canceling := False\<rparr> else c)
       \<lparr>ac_active_request_live_applied_count := 0,
        ac_active_request_refinement_pass_index := 0,
        ac_active_request_refinement_max_passes := 0,
        ac_active_request_tool_calls_used := 0,
        ac_active_request_tool_calls_max := 0\<rparr>) (drop_active_request_handle w)"

definition cancel_active_request :: "cstr \<Rightarrow> cstr \<Rightarrow> chat_world \<Rightarrow> chat_world" where
  "cancel_active_request status_text stop_reason w =
     (let w = chat_upd (\<lambda>c. session_upd (ac_current_image_id c) (\<lambda>s.
                let s = s\<lparr>cs_is_loading := False\<rparr>;
                    s = (if stop_reason = None then s else s\<lparr>cs_refinement_stop_reason := stop_reason\<rparr>)
                in if status_text = None then s else session_set_status status_text s) c) w;
          w = (case ac_active_request (cw_chat w) of
                 None \<Rightarrow> w
               | Some i \<Rightarrow>
                   chat_upd (\<lambda>c. c\<lparr>ac_active_request_canceling := True\<rparr>)
                     (drop_active_request_handle (call_upd i (call_cancel stop_reason) w)));
          w = (if ac_is_loading (cw_chat w)
               then chat_upd (\<lambda>c.
                 let c = set_loading False (set_error None c)
                 in if status_text = None then c else set_status status_text c) w
               else w)
      in chat_upd update_sensitivity w)"

subsection \<open>Options, buttons and image changes\<close>

definition multi_turn_toggled :: "bool \<Rightarrow> chat_world \<Rightarrow> chat_world" where
  "multi_turn_toggled active w =
     (let w = chat_upd (\<lambda>c. c\<lparr>ac_multi_turn_enabled := active\<rparr>) w;
          w = add_effect (Conf_Set ''plugins/darkroom/agent_chat/multi_turn_enabled'' (KBool active)) w
      in chat_upd (\<lambda>c. sync_current_session (update_sensitivity c)) w)"

definition max_turns_changed :: "int \<Rightarrow> chat_world \<Rightarrow> chat_world" where
  "max_turns_changed v w =
     (let w = chat_upd (\<lambda>c. c\<lparr>ac_max_refinement_passes := to_guint (max v 1)\<rparr>) w;
          w = add_effect (Conf_Set ''plugins/darkroom/agent_chat/multi_turn_max_passes''
                (KInt (to_gint (int (ac_max_refinement_passes (cw_chat w)))))) w
      in chat_upd sync_current_session w)"

definition fast_mode_toggled :: "bool \<Rightarrow> chat_world \<Rightarrow> chat_world" where
  "fast_mode_toggled active w =
     (let w = chat_upd (\<lambda>c. c\<lparr>ac_fast_mode_enabled := active\<rparr>) w;
          w = add_effect (Conf_Set ''plugins/darkroom/agent_chat/fast_mode_enabled'' (KBool active)) w
      in chat_upd sync_current_session w)"

definition new_chat_clicked :: "chat_env \<Rightarrow> chat_world \<Rightarrow> chat_world" where
  "new_chat_clicked cx w =
     (let w = cancel_active_request (Some ''Request canceled'') (Some ''new-chat'') w;
          w = switch_to_image_session cx (chat_current_image_id cx w) True w
      in chat_upd (\<lambda>c. update_sensitivity (widgets_upd (\<lambda>g. g\<lparr>wg_entry := []\<rparr>) c)) w)"

definition image_changed :: "chat_env \<Rightarrow> chat_world \<Rightarrow> chat_world" where
  "image_changed cx w =
     (let image_id = chat_current_image_id cx w;
          w = (if image_id \<noteq> ac_current_image_id (cw_chat w)
               then switch_to_image_session cx image_id False
                      (cancel_active_request (Some ''Request canceled'') (Some ''image-changed'') w)
               else w)
      in chat_upd update_sensitivity w)"

definition cancel_clicked :: "chat_world \<Rightarrow> chat_world" where
  "cancel_clicked w = cancel_active_request (Some ''Canceling request...'') (Some ''cancelled'') w"

definition chat_shutdown :: "chat_world \<Rightarrow> chat_world" where
  "chat_shutdown w =
     cancel_active_request None (Some ''shutdown'') (chat_upd (\<lambda>c. c\<lparr>ac_autorun_source := None\<rparr>) w)"

end
