(* ===== verification/Chat_Request.thy ===== *)
theory Chat_Request
  imports Chat_State
begin

text \<open>
  The chat window of \<open>views/darkroom.c\<close>, part two: building a request, the test report, submitting a
  request to the client, the timer that submits a message at start-up and the one that quits.
\<close>

subsection \<open>The revision of the image\<close>

definition format_image_revision_id :: "bool \<Rightarrow> int \<Rightarrow> int \<Rightarrow> int \<Rightarrow> string" where
  "format_image_revision_id has_image_id image_id history_position history_count =
     (if has_image_id \<and> 0 < image_id
      then ''image-'' @ show_int image_id @ ''-history-'' @ show_int history_position @ ''-''
           @ show_int history_count
      else ''image-unknown'')"

definition collect_current_state :: "chat_env \<Rightarrow> world \<Rightarrow> dt_agent_image_state option" where
  "collect_current_state cx wl =
     (case dt_agent_image_state_collect_from_dev (cx_collect cx) (cx_env cx) wl
             (Some (cx_develop cx wl)) (Some dt_agent_image_state_init) None of
        (ok, state, error) \<Rightarrow> if ok then state else None)"

definition collect_current_image_revision_id :: "chat_env \<Rightarrow> chat_world \<Rightarrow> cstr" where
  "collect_current_image_revision_id cx w =
     (case collect_current_state cx (cw_world w) of
        None \<Rightarrow> None
      | Some state \<Rightarrow>
          let image_id = chat_current_image_id cx w
          in Some (format_image_revision_id (0 < image_id) image_id (st_history_position state)
                     (st_history_count state)))"

subsection \<open>Building a request\<close>

definition fill_ui_context :: "chat_env \<Rightarrow> chat_world \<Rightarrow> dt_agent_chat_request \<Rightarrow> dt_agent_chat_request" where
  "fill_ui_context cx w request =
     (let image = dv_image_storage (cx_develop cx (cw_world w));
          u = (req_ui_context request)\<lparr>ui_view := Some ''darkroom''\<rparr>;
          u = (if 0 < im_id image then u\<lparr>ui_has_image_id := True, ui_image_id := im_id image\<rparr> else u);
          u = (if im_filename image \<noteq> [] then u\<lparr>ui_image_name := Some (im_filename image)\<rparr> else u)
      in request\<lparr>req_ui_context := u\<rparr>)"

definition request_unusable :: "dt_agent_chat_request \<Rightarrow> bool" where
  "request_unusable request \<longleftrightarrow>
     req_request_id request = None \<or> req_app_session_id request = None
     \<or> req_image_session_id request = None \<or> req_conversation_id request = None
     \<or> req_turn_id request = None \<or> req_image_revision_id request = None
     \<or> req_message_text request = None
     \<or> req_refinement_mode request = DT_AGENT_REFINEMENT_MODE_UNKNOWN
     \<or> \<not> nonempty (req_refinement_goal_text request)
     \<or> req_refinement_pass_index request = 0 \<or> req_refinement_max_passes request = 0
     \<or> req_refinement_max_passes request < req_refinement_pass_index request"

definition ensure_app_session_id :: "chat_env \<Rightarrow> chat_world \<Rightarrow> chat_world" where
  "ensure_app_session_id cx w =
     (if ac_app_session_id (cw_chat w) = None
      then let (u, w) = g_uuid_string_random cx w in chat_upd (\<lambda>c. c\<lparr>ac_app_session_id := Some u\<rparr>) w
      else w)"

definition chat_ui_error :: "string \<Rightarrow> gerror" where
  "chat_ui_error msg = \<lparr>gerr_domain = ''dt-agent-chat-ui'', gerr_code = 1, gerr_message = msg\<rparr>"

text \<open>The members that are set before the image is looked at.\<close>

definition request_members ::
  "agent_chat \<Rightarrow> string \<Rightarrow> cstr \<Rightarrow> cstr \<Rightarrow> bool \<Rightarrow> dt_agent_refinement_mode_t \<Rightarrow> nat \<Rightarrow> nat
     \<Rightarrow> dt_agent_chat_request" where
  "request_members c request_id message_text goal_text fast_mode refinement_mode pass_index max_passes =
     dt_agent_chat_request_init
       \<lparr>req_request_id := Some request_id,
        req_app_session_id := ac_app_session_id c,
        req_image_session_id := ac_image_session_id c,
        req_conversation_id := ac_conversation_id c,
        req_turn_id := Some request_id,
        req_message_text := message_text,
        req_refinement_mode := refinement_mode,
        req_refinement_enabled := refinement_mode = DT_AGENT_REFINEMENT_MODE_MULTI,
        req_refinement_pass_index := pass_index,
        req_refinement_max_passes := max_passes,
        req_fast_mode := fast_mode,
        req_refinement_goal_text := (if nonempty goal_text then goal_text else message_text)\<rparr>"

definition build_request ::
  "chat_env \<Rightarrow> cstr \<Rightarrow> cstr \<Rightarrow> bool \<Rightarrow> dt_agent_refinement_mode_t \<Rightarrow> nat \<Rightarrow> nat \<Rightarrow> gerror option \<Rightarrow> chat_world
     \<Rightarrow> (bool \<times> dt_agent_chat_request \<times> gerror option) \<times> chat_world" where
  "build_request cx message_text goal_text fast_mode refinement_mode pass_index max_passes error w =
     (let w = ensure_app_session_id cx w;
          (request_id, w) = g_uuid_string_random cx w;
          request = fill_ui_context cx w (request_members (cw_chat w) request_id message_text goal_text
                      fast_mode refinement_mode pass_index max_passes);
          wl = cw_world w; dev = cx_develop cx wl
      in case dt_agent_capabilities_collect (cx_env cx) wl (Some (dv_modules dev))
                (req_capabilities request) error of
           (False, _, error) \<Rightarrow> ((False, dt_agent_chat_request_clear request, error), w)
         | (True, capabilities, error) \<Rightarrow>
             (case dt_agent_image_state_collect_from_dev (cx_collect cx) (cx_env cx) wl (Some dev)
                     (Some (req_image_state request)) error of
                (True, Some state, error) \<Rightarrow>
                  let request = request\<lparr>req_capabilities := capabilities, req_image_state := state\<rparr>;
                      u = req_ui_context request;
                      request = request\<lparr>req_image_revision_id := Some (format_image_revision_id
                        (ui_has_image_id u) (ui_image_id u) (st_history_position state) (st_history_count state))\<rparr>
                  in if request_unusable request
                     then ((False, dt_agent_chat_request_clear request,
                            g_set_error error (chat_ui_error ''failed to build an agent request'')), w)
                     else ((True, request, error), w)
              | (_, _, error) \<Rightarrow> ((False, dt_agent_chat_request_clear request, error), w)))"

subsection \<open>The test report\<close>

definition key_file_set :: "string \<Rightarrow> key_value \<Rightarrow> key_file \<Rightarrow> key_file" where
  "key_file_set key v report = AList.update key v report"

definition key_file_set_cstr :: "string \<Rightarrow> cstr \<Rightarrow> key_file \<Rightarrow> key_file" where
  "key_file_set_cstr key v report = (case v of None \<Rightarrow> report | Some s \<Rightarrow> key_file_set key (KString s) report)"

definition session_report :: "dt_agent_chat_session \<Rightarrow> key_file \<Rightarrow> key_file" where
  "session_report s report =
     (let report = key_file_set ''refinement_mode'' (KString (if cs_last_refinement_enabled s
                     then ''multi-turn'' else ''single-turn'')) report;
          report = key_file_set ''refinement_enabled'' (KInt (if cs_last_refinement_enabled s then 1 else 0)) report;
          report = key_file_set ''refinement_pass_count''
                     (KInt (to_gint (int (max 1 (cs_last_refinement_pass_index s))))) report;
          report = key_file_set ''refinement_max_turns''
                     (KInt (to_gint (int (max 1 (cs_last_refinement_max_passes s))))) report;
          report = key_file_set ''fast_mode_enabled'' (KInt (if cs_last_fast_mode_enabled s then 1 else 0)) report
      in if nonempty (cs_refinement_stop_reason s)
         then key_file_set_cstr ''refinement_stop_reason'' (cs_refinement_stop_reason s) report else report)"

definition response_report :: "dt_agent_chat_response \<Rightarrow> key_file \<Rightarrow> key_file" where
  "response_report response report =
     (let report = key_file_set_cstr ''request_id'' (resp_request_id response) report;
          report = key_file_set_cstr ''conversation_id'' (resp_conversation_id response) report;
          report = key_file_set_cstr ''response_status'' (resp_status response) report;
          report = key_file_set_cstr ''message'' (resp_message_text response) report;
          report = key_file_set ''operation_count'' (KInt (int (length (garray (resp_operations response))))) report;
          report = key_file_set ''refinement_mode''
                     (KString (dt_agent_refinement_mode_to_string (resp_refinement_mode response))) report;
          report = key_file_set ''refinement_pass_index''
                     (KInt (to_gint (int (resp_refinement_pass_index response)))) report;
          report = key_file_set ''refinement_max_passes''
                     (KInt (to_gint (int (resp_refinement_max_passes response)))) report;
          report = key_file_set ''refinement_continue'' (KBool (resp_refinement_continue response)) report
      in key_file_set_cstr ''refinement_stop_reason'' (resp_refinement_stop_reason response) report)"

definition result_report :: "dt_agent_client_result \<Rightarrow> key_file \<Rightarrow> key_file" where
  "result_report result report =
     (let report = key_file_set ''http_status'' (KInt (cr_http_status result)) report;
          report = key_file_set_cstr ''endpoint'' (cr_endpoint result) report;
          report = key_file_set_cstr ''transport_error'' (cr_transport_error result) report
      in if cr_has_response result then response_report (cr_response result) report else report)"

definition execution_report_entries :: "dt_agent_execution_report \<Rightarrow> key_file \<Rightarrow> key_file" where
  "execution_report_entries er report =
     (let report = key_file_set ''execution_result_count'' (KInt (int (length (garray (rep_results er))))) report;
          report = key_file_set ''execution_applied_count'' (KInt (to_gint (int (rep_applied_count er)))) report;
          report = key_file_set ''execution_blocked_count'' (KInt (to_gint (int (rep_blocked_count er)))) report
      in key_file_set ''execution_failed_count'' (KInt (to_gint (int (rep_failed_count er)))) report)"

text \<open>The file is written in one piece; a failure to write it is only logged.\<close>

definition read_current_exposure :: "chat_env \<Rightarrow> world \<Rightarrow> flt" where
  "read_current_exposure cx wl =
     (let v = cx_exposure cx wl in if DT_ACTION_IS_INVALID v then NaN else v)"

definition write_test_report ::
  "chat_env \<Rightarrow> string \<Rightarrow> dt_agent_client_result option \<Rightarrow> dt_agent_execution_report option \<Rightarrow> cstr \<Rightarrow> flt
     \<Rightarrow> chat_world \<Rightarrow> chat_world" where
  "write_test_report cx status result execution_report msg exposure_before w =
     (let c = cw_chat w
      in if \<not> nonempty (ac_test_report_path c) then w
         else
           let report = key_file_set ''status'' (KString status) [];
               report = key_file_set_cstr ''app_session_id'' (ac_app_session_id c) report;
               report = key_file_set_cstr ''image_session_id'' (ac_image_session_id c) report;
               report = key_file_set_cstr ''active_conversation_id'' (ac_conversation_id c) report;
               report = (if 0 < ac_current_image_id c
                         then key_file_set ''active_image_id'' (KInt (ac_current_image_id c)) report else report);
               report = (case lookup_session (ac_current_image_id c) c of
                           None \<Rightarrow> report | Some s \<Rightarrow> session_report s report);
               report = (case result of None \<Rightarrow> report | Some r \<Rightarrow> result_report r report);
               report = (case execution_report of None \<Rightarrow> report | Some er \<Rightarrow> execution_report_entries er report);
               report = (if nonempty msg then key_file_set_cstr ''error'' msg report else report);
               report = (if isnan_flt exposure_before then report
                         else key_file_set ''exposure_before'' (KDouble exposure_before) report);
               exposure_after = read_current_exposure cx (cw_world w);
               report = (if isnan_flt exposure_after then report
                         else key_file_set ''current_exposure'' (KDouble exposure_after) report)
           in add_effect (Test_Report (the (ac_test_report_path c)) report) w)"

definition quit_after_autorun :: "chat_world \<Rightarrow> chat_world" where
  "quit_after_autorun w = add_effect Quit (chat_upd (\<lambda>c. c\<lparr>ac_autorun_source := None\<rparr>) w)"

definition should_exit_after_autorun :: "agent_chat \<Rightarrow> bool" where
  "should_exit_after_autorun c \<longleftrightarrow> ac_exit_after_autorun c \<or> nonempty (ac_test_report_path c)"

definition quit_timeout_ms :: "chat_env \<Rightarrow> nat" where
  "quit_timeout_ms cx =
     (let timeout_value = cx_getenv cx ''DARKTABLE_AGENT_TEST_AUTORUN_QUIT_AFTER_MS''
      in if nonempty timeout_value then max 1 (to_guint (int (cx_strtoull cx (the timeout_value)))) else 1)"

definition maybe_schedule_test_quit :: "chat_env \<Rightarrow> bool \<Rightarrow> chat_world \<Rightarrow> chat_world" where
  "maybe_schedule_test_quit cx autorun_complete w =
     (if \<not> autorun_complete \<or> \<not> should_exit_after_autorun (cw_chat w) then w
      else chat_upd (\<lambda>c. c\<lparr>ac_autorun_source := Some (Quit_Timer (quit_timeout_ms cx))\<rparr>) w)"

subsection \<open>Submitting\<close>

text \<open>Leaving early: the error is shown and reported, and the window no longer waits.\<close>

definition submit_failed :: "chat_env \<Rightarrow> string \<Rightarrow> cstr \<Rightarrow> flt \<Rightarrow> bool \<Rightarrow> chat_world \<Rightarrow> chat_world" where
  "submit_failed cx status msg exposure_before autorun w =
     (let w = chat_upd (\<lambda>c. handle_transport_error msg (set_loading False c)) w;
          w = write_test_report cx status None None msg exposure_before w
      in maybe_schedule_test_quit cx autorun w)"

definition new_submission ::
  "dt_agent_chat_request \<Rightarrow> string \<Rightarrow> bool \<Rightarrow> dt_agent_refinement_mode_t \<Rightarrow> flt \<Rightarrow> dt_agent_chat_submission" where
  "new_submission request message autorun refinement_mode exposure_before =
     \<lparr>sub_request_id = req_request_id request,
      sub_prompt_text = Some message,
      sub_goal_text = req_refinement_goal_text request,
      sub_conversation_id = req_conversation_id request,
      sub_image_session_id = req_image_session_id request,
      sub_base_image_revision_id = req_image_revision_id request,
      sub_has_image_id = ui_has_image_id (req_ui_context request),
      sub_image_id = to_gint (ui_image_id (req_ui_context request)),
      sub_autorun = autorun,
      sub_refinement_enabled = (refinement_mode = DT_AGENT_REFINEMENT_MODE_MULTI),
      sub_fast_mode_enabled = req_fast_mode request,
      sub_refinement_pass_index = req_refinement_pass_index request,
      sub_refinement_max_passes = req_refinement_max_passes request,
      sub_exposure_before = exposure_before\<rparr>"

text \<open>The call of the client: the new handle, or the error.\<close>

definition start_client_request ::
  "chat_env \<Rightarrow> dt_agent_chat_request \<Rightarrow> dt_agent_chat_submission \<Rightarrow> chat_world
     \<Rightarrow> (gerror + nat) \<times> chat_world" where
  "start_client_request cx request submission w =
     (let i = length (cw_requests w)
      in case dt_agent_client_chat_async (cx_getenv cx ''DARKTABLE_AGENT_SERVER_URL'') (cx_conf_endpoint cx)
                (cx_have_job cx i) (Some request) of
           Inl (e, _) \<Rightarrow> (Inl e, w)
         | Inr (call, job_request) \<Rightarrow>
             (Inr i, w\<lparr>cw_requests := cw_requests w @ [(call, job_request, submission)]\<rparr>))"

text \<open>What is shown and remembered before the request is built.\<close>

definition submit_begin ::
  "string \<Rightarrow> cstr \<Rightarrow> bool \<Rightarrow> bool \<Rightarrow> dt_agent_refinement_mode_t \<Rightarrow> nat \<Rightarrow> nat \<Rightarrow> agent_chat \<Rightarrow> agent_chat" where
  "submit_begin message goal_text append_user_message fast_mode refinement_mode pass_index max_passes c =
     (let c = (if append_user_message then append_message ''you'' (Some message) c else c);
          c = update_refinement_status pass_index max_passes (set_loading True (set_error None c))
      in session_upd (ac_current_image_id c) (\<lambda>s. s
           \<lparr>cs_refinement_goal_text := (if nonempty goal_text then goal_text else Some message),
            cs_refinement_stop_reason := None,
            cs_last_refinement_enabled := refinement_mode = DT_AGENT_REFINEMENT_MODE_MULTI,
            cs_last_refinement_pass_index := pass_index,
            cs_last_refinement_max_passes := max_passes,
            cs_last_fast_mode_enabled := fast_mode,
            cs_last_continue_refining := False\<rparr>) c)"

definition submit_internal ::
  "chat_env \<Rightarrow> cstr \<Rightarrow> cstr \<Rightarrow> bool \<Rightarrow> bool \<Rightarrow> bool \<Rightarrow> dt_agent_refinement_mode_t \<Rightarrow> nat \<Rightarrow> nat
     \<Rightarrow> chat_world \<Rightarrow> bool \<times> chat_world" where
  "submit_internal cx prompt goal_text autorun append_user_message fast_mode refinement_mode
       pass_index max_passes w =
     (let message = g_strstrip (str_or prompt []);
          w = switch_to_image_session cx (chat_current_image_id cx w) False w
      in if ac_is_loading (cw_chat w) \<or> message = [] then (False, w)
         else
           let w = chat_upd (submit_begin message goal_text append_user_message fast_mode refinement_mode
                     pass_index max_passes) w
           in case build_request cx (Some message) goal_text fast_mode refinement_mode pass_index max_passes
                     None w of
                ((False, _, error), w) \<Rightarrow>
                  (False, submit_failed cx ''build_error'' (Some (error_message error ''failed to build request''))
                            NaN autorun w)
              | ((True, request, error), w) \<Rightarrow>
                  let submission = new_submission request message autorun refinement_mode
                                     (read_current_exposure cx (cw_world w));
                      w = chat_upd (\<lambda>c. session_upd (ac_current_image_id c) (\<lambda>s. s
                            \<lparr>cs_refinement_goal_text := sub_goal_text submission\<rparr>) c) w
                  in case start_client_request cx request submission w of
                       (Inl e, w) \<Rightarrow>
                         (False, submit_failed cx ''queue_error''
                            (Some (error_message (Some e) ''failed to queue the agent request''))
                            (sub_exposure_before submission) autorun w)
                     | (Inr handle, w) \<Rightarrow>
                         (True, chat_upd (\<lambda>c. update_sensitivity (c
                           \<lparr>ac_active_request_refinement_pass_index := pass_index,
                            ac_active_request_refinement_max_passes := max_passes,
                            ac_active_request_tool_calls_used := 0,
                            ac_active_request_tool_calls_max :=
                              (if refinement_mode = DT_AGENT_REFINEMENT_MODE_MULTI then max_passes else 1),
                            ac_active_request_live_applied_count := 0\<rparr>))
                           (set_active_request handle (sub_request_id submission) w)))"

definition refinement_mode_for_submit :: "agent_chat \<Rightarrow> dt_agent_refinement_mode_t" where
  "refinement_mode_for_submit c =
     (if ac_multi_turn_enabled c then DT_AGENT_REFINEMENT_MODE_MULTI else DT_AGENT_REFINEMENT_MODE_SINGLE)"

definition chat_submit :: "chat_env \<Rightarrow> cstr \<Rightarrow> bool \<Rightarrow> chat_world \<Rightarrow> chat_world" where
  "chat_submit cx prompt autorun w =
     (let c = cw_chat w; refinement_mode = refinement_mode_for_submit c;
          max_passes = (if refinement_mode = DT_AGENT_REFINEMENT_MODE_MULTI
                        then chat_max_refinement_passes c else 1)
      in snd (submit_internal cx prompt prompt autorun True (ac_fast_mode_enabled c) refinement_mode
                1 max_passes w))"

text \<open>The toggle button of the window only shows it.\<close>

definition autorun_if_requested :: "chat_env \<Rightarrow> chat_world \<Rightarrow> chat_world" where
  "autorun_if_requested cx w =
     (let w = chat_upd (\<lambda>c. c\<lparr>ac_autorun_source := None\<rparr>) w; c = cw_chat w
      in if ac_autorun_sent c \<or> \<not> nonempty (ac_autorun_message c) then w
         else
           let w = chat_upd (\<lambda>c. append_message ''system'' (Some ''running autorun agent request'')
                     (c\<lparr>ac_autorun_sent := True\<rparr>)) w
           in chat_submit cx (ac_autorun_message c) True w)"

definition send_clicked :: "chat_env \<Rightarrow> chat_world \<Rightarrow> chat_world" where
  "send_clicked cx w =
     (let w = chat_submit cx (Some (wg_entry (ac_widgets (cw_chat w)))) False w
      in if ac_is_loading (cw_chat w) then chat_upd (widgets_upd (\<lambda>g. g\<lparr>wg_entry := []\<rparr>)) w else w)"

end
