(* ===== verification/Chat_Response.thy ===== *)
theory Chat_Response
  imports Chat_Request
begin

text \<open>
  The chat window of \<open>views/darkroom.c\<close>, part three: what happens when the client delivers a progress
  report or the result of a request: stale and outdated responses, live edits, the execution of the
  remaining operations, the summary that is shown, the next refinement pass, and the preview that is
  posted when the pipe has rendered live edits.
\<close>

subsection \<open>The summary table\<close>

text \<open>\<open>printf ("%.2f", v)\<close> of a \<open>double\<close>; the sign of a NaN and of a zero is not kept in the model.\<close>

definition two_digits :: "nat \<Rightarrow> string" where
  "two_digits n = (if n < 10 then ''0'' else []) @ show_nat n"

definition show_fixed2 :: "flt \<Rightarrow> string" where
  "show_fixed2 v =
     (case v of
        NaN \<Rightarrow> ''nan''
      | Inf s \<Rightarrow> (if s then ''inf'' else ''-inf'')
      | Fin q \<Rightarrow>
          let n = nat (round_even (\<bar>q\<bar> * 100))
          in (if q < 0 then ''-'' else []) @ show_nat (n div 100) @ ''.'' @ two_digits (n mod 100))"

definition newline :: char where "newline = char_of (10 :: nat)"

definition table_char :: "char \<Rightarrow> char" where
  "table_char ch =
     (if ch = newline \<or> ch = char_of (13 :: nat) \<or> ch = char_of (9 :: nat) then CHR '' ''
      else if ch = CHR ''|'' then CHR ''/'' else ch)"

definition table_cell :: "cstr \<Rightarrow> string" where
  "table_cell txt = (if \<not> nonempty txt then ''-'' else g_strstrip (map table_char (the txt)))"

definition result_value :: "dt_agent_execution_result \<Rightarrow> string" where
  "result_value r =
     (if er_has_value_before r \<and> er_has_value_after r
      then show_fixed2 (er_value_before r) @ '' -> '' @ show_fixed2 (er_value_after r)
      else if er_has_value_before r then show_fixed2 (er_value_before r) @ '' -> -''
      else if er_has_value_after r then ''- -> '' @ show_fixed2 (er_value_after r)
      else ''-'')"

definition result_note :: "dt_agent_execution_result \<Rightarrow> string" where
  "result_note r =
     (let raw_note = table_cell (er_message r)
      in if raw_note \<noteq> [] \<and> raw_note \<noteq> ''-'' then raw_note
         else table_cell (Some (dt_agent_execution_status_to_string (er_status r))))"

definition result_cells :: "dt_agent_execution_result \<Rightarrow> string \<times> string \<times> string" where
  "result_cells r =
     (table_cell (Some (str_or (er_action_path r) ''unknown'')), table_cell (Some (result_value r)),
      table_cell (Some (result_note r)))"

text \<open>\<open>%-*s\<close>.\<close>

definition pad_right :: "nat \<Rightarrow> string \<Rightarrow> string" where
  "pad_right n s = s @ replicate (n - length s) CHR '' ''"

definition table_separator :: "nat \<Rightarrow> nat \<Rightarrow> nat \<Rightarrow> string" where
  "table_separator action_width value_width note_width =
     ''+'' @ replicate (action_width + 2) CHR ''-'' @ ''+'' @ replicate (value_width + 2) CHR ''-'' @ ''+''
       @ replicate (note_width + 2) CHR ''-'' @ ''+'' @ [newline]"

definition table_row :: "nat \<Rightarrow> nat \<Rightarrow> nat \<Rightarrow> string \<times> string \<times> string \<Rightarrow> string" where
  "table_row action_width value_width note_width row =
     (case row of (action_cell, value_cell, note_cell) \<Rightarrow>
        ''| '' @ pad_right action_width action_cell @ '' | '' @ pad_right value_width value_cell
          @ '' | '' @ pad_right note_width note_cell @ '' |'' @ [newline])"

definition max_width :: "string \<Rightarrow> string list \<Rightarrow> nat" where
  "max_width header cells = fold (\<lambda>cell m. max m (length cell)) cells (length header)"

text \<open>The lines of the table, each with its newline.\<close>

definition summary_table :: "dt_agent_execution_result list \<Rightarrow> string list" where
  "summary_table results =
     (let rows = map result_cells results;
          action_width = max_width ''action'' (map fst rows);
          value_width = max_width ''change'' (map (fst \<circ> snd) rows);
          note_width = max_width ''note'' (map (snd \<circ> snd) rows);
          separator = table_separator action_width value_width note_width
      in [separator, table_row action_width value_width note_width (''action'', ''change'', ''note''), separator]
         @ map (table_row action_width value_width note_width) rows @ [separator])"

definition append_operation_summary :: "dt_agent_execution_report \<Rightarrow> agent_chat \<Rightarrow> agent_chat" where
  "append_operation_summary report c =
     (let results = garray (rep_results report); n = length results
      in if n = 0 then c
         else append_message ''system''
           (Some (''applied '' @ show_nat n @ (if n = 1 then '' operation'' else '' operations'') @ newlines
              @ concat (summary_table results))) c)"

subsection \<open>Executing operations\<close>

definition apply_operation_range ::
  "chat_env \<Rightarrow> dt_agent_chat_operation list option \<Rightarrow> nat \<Rightarrow> dt_agent_execution_report \<Rightarrow> chat_world
     \<Rightarrow> bool \<times> dt_agent_execution_report \<times> gerror option \<times> chat_world" where
  "apply_operation_range cx operations start_index report w =
     (case operations of
        None \<Rightarrow> (True, report, None, w)
      | Some ops \<Rightarrow>
          if length ops \<le> start_index then (True, report, None, w)
          else
            let partial = dt_agent_chat_response_init\<lparr>resp_operations := Some (drop start_index ops)\<rparr>
            in case dt_agent_execute_response (cx_env cx) (Some partial) (Some report) None (cw_world w) of
                 (ok, report', error, wl) \<Rightarrow>
                   (ok, case report' of None \<Rightarrow> report | Some r \<Rightarrow> r, error,
                    add_effect (Executed (drop start_index ops)) (w\<lparr>cw_world := wl\<rparr>)))"

definition tool_prefix :: "dt_agent_client_progress \<Rightarrow> nat \<Rightarrow> string" where
  "tool_prefix progress max_tool_calls =
     ''Tool '' @ show_nat (pg_tool_calls_used progress) @ ''/'' @ show_nat max_tool_calls @ '': ''"

definition format_tool_progress_message ::
  "dt_agent_client_progress \<Rightarrow> nat \<Rightarrow> nat \<Rightarrow> nat \<Rightarrow> cstr" where
  "format_tool_progress_message progress previous_tool_calls previous_live_edit_count live_edit_count =
     (if pg_tool_calls_used progress \<le> previous_tool_calls then None
      else
        let max_tool_calls = (if 0 < pg_tool_calls_max progress then pg_tool_calls_max progress
                              else max 1 (pg_tool_calls_used progress));
            tool_name = str_or (pg_last_tool_name progress) [];
            prefix = tool_prefix progress max_tool_calls
        in if tool_name = ''get_preview_image'' then Some (prefix @ ''checked the latest preview image.'')
           else if tool_name = ''get_image_state'' then None
           else if tool_name = ''apply_operations''
           then let new_edits = live_edit_count - previous_live_edit_count
                in if 0 < new_edits
                   then Some (prefix @ ''applied '' @ show_nat new_edits @ '' edit''
                          @ (if new_edits = 1 then [] else ''s'') @ '' ('' @ show_nat live_edit_count @ '' total).'')
                   else Some (prefix @ ''attempted live edits.'')
           else if nonempty (pg_message progress) then Some (prefix @ the (pg_message progress))
           else Some (prefix @ ''completed a tool call.''))"

subsection \<open>Progress reports\<close>

text \<open>
  The live edits of a report that was found: whether to go on, and the state.  A failed application
  cancels the request.
\<close>

definition live_edit_count :: "dt_agent_client_progress \<Rightarrow> nat" where
  "live_edit_count progress =
     (if pg_has_response progress \<and> resp_operations (pg_response progress) \<noteq> None
      then length (garray (resp_operations (pg_response progress)))
      else pg_applied_operation_count progress)"

definition apply_live_edits :: "chat_env \<Rightarrow> dt_agent_client_progress \<Rightarrow> chat_world \<Rightarrow> bool \<times> chat_world" where
  "apply_live_edits cx progress w =
     (let count = live_edit_count progress; applied = ac_active_request_live_applied_count (cw_chat w)
      in if wd_view_darkroom (cw_world w) \<and> pg_has_response progress
            \<and> resp_operations (pg_response progress) \<noteq> None \<and> applied < count
         then case apply_operation_range cx (resp_operations (pg_response progress)) applied
                     dt_agent_execution_report_init w of
                (False, _, error, w) \<Rightarrow>
                  let message = error_message error ''failed to apply live edits'';
                      w = chat_upd (\<lambda>c. set_status (Some ''Live apply failed'') (set_error (Some message) c)) w
                  in (False, cancel_active_request (Some ''Live apply failed'') (Some ''apply-failed'') w)
              | (True, _, _, w) \<Rightarrow>
                  (True, chat_upd (\<lambda>c.
                     let c = c\<lparr>ac_active_request_live_applied_count := count\<rparr>
                     in if pg_requires_render_callback progress
                        then session_upd (ac_current_image_id c) (\<lambda>s. s\<lparr>cs_pending_mid_turn_render := True\<rparr>) c
                        else c) w)
         else (True, w))"

definition progress_found :: "chat_env \<Rightarrow> dt_agent_client_progress \<Rightarrow> chat_world \<Rightarrow> bool \<times> chat_world" where
  "progress_found cx progress w =
     (let c = cw_chat w;
          previous_tool_calls = ac_active_request_tool_calls_used c;
          previous_live_edit_count = ac_active_request_live_applied_count c;
          w = chat_upd (\<lambda>c. c
                \<lparr>ac_active_request_tool_calls_used := pg_tool_calls_used progress,
                 ac_active_request_tool_calls_max :=
                   (if 0 < pg_tool_calls_max progress then pg_tool_calls_max progress
                    else ac_active_request_tool_calls_max c)\<rparr>) w
      in case apply_live_edits cx progress w of
           (False, w) \<Rightarrow> (False, w)
         | (True, w) \<Rightarrow>
             (True,
              if wd_view_darkroom (cw_world w)
              then let message = format_tool_progress_message progress previous_tool_calls
                                   previous_live_edit_count (live_edit_count progress)
                   in if nonempty message then chat_upd (append_message ''system'' message) w else w
              else w))"

definition progress_finished :: "chat_env \<Rightarrow> dt_agent_client_progress \<Rightarrow> chat_world \<Rightarrow> chat_world" where
  "progress_finished cx progress w =
     (let c = cw_chat w
      in if \<not> ac_multi_turn_enabled c \<or> \<not> ac_is_loading c \<or> ac_active_request c = None
            \<or> ac_active_request_canceling c then w
         else if pg_cancelled progress then w
         else if nonempty (pg_transport_error progress) then w
         else case (if pg_found progress then progress_found cx progress w else (True, w)) of
                (False, w) \<Rightarrow> w
              | (True, w) \<Rightarrow> chat_upd (\<lambda>c. update_refinement_status
                    (max 1 (ac_active_request_refinement_pass_index c))
                    (max 1 (ac_active_request_refinement_max_passes c)) c) w)"

subsection \<open>Which responses are used\<close>

definition active_image_matches :: "chat_env \<Rightarrow> dt_agent_chat_submission \<Rightarrow> chat_world \<Rightarrow> bool" where
  "active_image_matches cx submission w \<longleftrightarrow>
     \<not> sub_has_image_id submission
     \<or> im_id (dv_image_storage (cx_develop cx (cw_world w))) = sub_image_id submission"

definition is_stale_response ::
  "chat_env \<Rightarrow> dt_agent_chat_submission \<Rightarrow> dt_agent_client_result \<Rightarrow> chat_world \<Rightarrow> bool" where
  "is_stale_response cx submission result w =
     (let c = cw_chat w
      in if ac_active_request_id c \<noteq> None \<and> ac_active_request_id c \<noteq> sub_request_id submission then True
         else if ac_conversation_id c \<noteq> sub_conversation_id submission then True
         else if ac_image_session_id c \<noteq> sub_image_session_id submission then True
         else if \<not> active_image_matches cx submission w then True
         else cr_has_response result
           \<and> (resp_request_id (cr_response result) \<noteq> sub_request_id submission
              \<or> resp_conversation_id (cr_response result) \<noteq> sub_conversation_id submission))"

text \<open>The key of the session a submission belongs to.\<close>

definition lookup_submission_session :: "agent_chat \<Rightarrow> dt_agent_chat_submission \<Rightarrow> int option" where
  "lookup_submission_session c submission =
     (if sub_has_image_id submission \<and> 0 < sub_image_id submission
      then if lookup_session (sub_image_id submission) c = None then None else Some (sub_image_id submission)
      else map_option fst (find (\<lambda>(k, s). cs_image_session_id s = sub_image_session_id submission)
             (ac_image_sessions c)))"

definition submission_matches_current_session :: "agent_chat \<Rightarrow> dt_agent_chat_submission \<Rightarrow> bool" where
  "submission_matches_current_session c submission \<longleftrightarrow>
     ac_conversation_id c = sub_conversation_id submission
     \<and> ac_image_session_id c = sub_image_session_id submission"

definition on_session ::
  "int option \<Rightarrow> (dt_agent_chat_session \<Rightarrow> dt_agent_chat_session) \<Rightarrow> agent_chat \<Rightarrow> agent_chat" where
  "on_session key f c = (case key of None \<Rightarrow> c | Some k \<Rightarrow> session_upd k f c)"

definition stop_reason :: "string \<Rightarrow> dt_agent_chat_session \<Rightarrow> dt_agent_chat_session" where
  "stop_reason reason s = s\<lparr>cs_refinement_stop_reason := Some reason\<rparr>"

subsection \<open>The response\<close>

text \<open>Returns whether the response was handled, the report, the error and the state.\<close>

definition handle_response ::
  "chat_env \<Rightarrow> dt_agent_chat_response \<Rightarrow> dt_agent_execution_report \<Rightarrow> nat \<Rightarrow> chat_world
     \<Rightarrow> bool \<times> dt_agent_execution_report \<times> cstr \<times> chat_world" where
  "handle_response cx response report already_applied_count w =
     (let w = (if nonempty (resp_message_text response)
               then chat_upd (append_message ''assistant'' (resp_message_text response)) w else w)
      in if resp_status response = Some ''error''
         then let message = str_or (resp_error_message response) ''agent server returned an error''
              in (False, report, Some message,
                  chat_upd (\<lambda>c. set_status (Some ''Server error'') (set_error (Some message) c)) w)
         else if garray (resp_operations response) \<noteq> []
         then let start_index = min already_applied_count (length (garray (resp_operations response)))
              in if length (garray (resp_operations response)) \<le> start_index
                 then (True, report, None, chat_upd (set_status (Some ''Response received'')) w)
                 else case apply_operation_range cx (resp_operations response) start_index report w of
                     (False, report, error, w) \<Rightarrow>
                       let message = error_message error ''failed to apply agent changes''
                       in (False, report, Some message, chat_upd (\<lambda>c.
                            let c = set_status (Some ''Apply failed'') (set_error (Some message) c);
                                c = append_operation_summary report c
                            in append_message ''system'' (Some message) c) w)
                   | (True, report, error, w) \<Rightarrow>
                       let n = rep_applied_count report
                       in (True, report, None, chat_upd (\<lambda>c. set_status (Some (''Applied '' @ show_nat n
                              @ (if n = 1 then '' operation'' else '' operations''))) (append_operation_summary report c)) w)
         else (True, report, None, chat_upd (set_status (Some ''Response received'')) w))"

definition should_continue_refinement :: "dt_agent_client_result \<Rightarrow> dt_agent_chat_submission \<Rightarrow> bool" where
  "should_continue_refinement result submission \<longleftrightarrow>
     cr_has_response result \<and> sub_refinement_enabled submission
     \<and> resp_status (cr_response result) = Some ''ok''
     \<and> resp_refinement_mode (cr_response result) = DT_AGENT_REFINEMENT_MODE_MULTI
     \<and> resp_refinement_continue (cr_response result)
     \<and> resp_refinement_pass_index (cr_response result) < resp_refinement_max_passes (cr_response result)"

definition continue_refinement ::
  "chat_env \<Rightarrow> dt_agent_client_result \<Rightarrow> dt_agent_chat_submission \<Rightarrow> chat_world \<Rightarrow> bool \<times> chat_world" where
  "continue_refinement cx result submission w =
     (if \<not> should_continue_refinement result submission then (False, w)
      else
        let next_pass_index = resp_refinement_pass_index (cr_response result) + 1;
            max_passes = max (sub_refinement_max_passes submission)
                             (resp_refinement_max_passes (cr_response result));
            w = chat_upd (append_message ''system'' (Some (''Continuing refinement pass ''
                  @ show_nat next_pass_index @ ''/'' @ show_nat max_passes))) w
        in submit_internal cx (sub_prompt_text submission) (sub_goal_text submission) (sub_autorun submission)
             False (sub_fast_mode_enabled submission) DT_AGENT_REFINEMENT_MODE_MULTI
             next_pass_index max_passes w)"

subsection \<open>The result\<close>

text \<open>What the session remembers of the result, whoever it belongs to.\<close>

definition record_result ::
  "dt_agent_client_result \<Rightarrow> dt_agent_chat_submission \<Rightarrow> dt_agent_chat_session \<Rightarrow> dt_agent_chat_session" where
  "record_result result submission s =
     (let s = s\<lparr>cs_is_loading := False, cs_last_fast_mode_enabled := sub_fast_mode_enabled submission\<rparr>;
          r = cr_response result
      in if cr_has_response result
         then s\<lparr>cs_last_refinement_pass_index := resp_refinement_pass_index r,
                cs_last_refinement_max_passes := resp_refinement_max_passes r,
                cs_last_continue_refining := resp_refinement_continue r,
                cs_last_refinement_enabled := resp_refinement_enabled r,
                cs_refinement_stop_reason := resp_refinement_stop_reason r\<rparr>
         else s)"

text \<open>The ends of \<open>_agent_chat_request_finished\<close>, in the order of the code.\<close>

definition finish_cancelled ::
  "chat_env \<Rightarrow> bool \<Rightarrow> int option \<Rightarrow> dt_agent_client_result \<Rightarrow> dt_agent_chat_submission \<Rightarrow> chat_world \<Rightarrow> chat_world" where
  "finish_cancelled cx active key result submission w =
     (let w = (if active then chat_upd (on_session key (\<lambda>s. stop_reason ''cancelled''
                 (session_set_status (Some ''Request canceled'') (session_set_error None s)))) w else w);
          w = (if active \<and> submission_matches_current_session (cw_chat w) submission
               then chat_upd (\<lambda>c. set_status (Some ''Request canceled'') (set_loading False (set_error None c))) w
               else w);
          w = write_test_report cx ''cancelled'' (Some result) None
                (Some (str_or (cr_transport_error result) ''chat request canceled''))
                (sub_exposure_before submission) w
      in maybe_schedule_test_quit cx (sub_autorun submission) w)"

definition finish_stale ::
  "chat_env \<Rightarrow> int option \<Rightarrow> dt_agent_client_result \<Rightarrow> dt_agent_chat_submission \<Rightarrow> chat_world \<Rightarrow> chat_world" where
  "finish_stale cx key result submission w =
     (let matches = submission_matches_current_session (cw_chat w) submission;
          w = chat_upd (on_session key (\<lambda>s. stop_reason ''stale''
                (session_set_status (Some ''Ignored stale response'') s))) w;
          w = (if matches
               then chat_upd (\<lambda>c. set_status (Some ''Ignored stale response'') (set_loading False c)) w else w)
      in write_test_report cx ''stale'' (Some result) None (Some ''ignored stale response'')
           (sub_exposure_before submission) w)"

definition image_changed_text :: string where
  "image_changed_text = ''image changed while the agent was planning; response was ignored''"

definition revision_mismatch ::
  "chat_env \<Rightarrow> nat \<Rightarrow> dt_agent_client_result \<Rightarrow> dt_agent_chat_submission \<Rightarrow> chat_world \<Rightarrow> bool" where
  "revision_mismatch cx live_applied result submission w \<longleftrightarrow>
     cr_has_response result \<and> resp_status (cr_response result) = Some ''ok''
     \<and> (case collect_current_image_revision_id cx w of
          None \<Rightarrow> False
        | Some current \<Rightarrow>
            Some current \<noteq> resp_base_image_revision_id (cr_response result)
            \<and> \<not> (sub_refinement_enabled submission \<and> 0 < live_applied
                 \<and> resp_refinement_mode (cr_response result) = DT_AGENT_REFINEMENT_MODE_MULTI))"

definition finish_mismatch ::
  "chat_env \<Rightarrow> int option \<Rightarrow> dt_agent_client_result \<Rightarrow> dt_agent_chat_submission \<Rightarrow> chat_world \<Rightarrow> chat_world" where
  "finish_mismatch cx key result submission w =
     (let matches = submission_matches_current_session (cw_chat w) submission;
          w = chat_upd (on_session key (\<lambda>s. stop_reason ''revision-mismatch''
                (session_set_status (Some ''Image changed'') (session_set_error (Some image_changed_text) s)))) w;
          w = (if wd_view_darkroom (cw_world w) \<and> matches
               then chat_upd (\<lambda>c. append_message ''system'' (Some image_changed_text)
                      (set_status (Some ''Image changed'') (set_error (Some image_changed_text) c))) w
               else w);
          w = write_test_report cx ''revision_mismatch'' (Some result) None (Some image_changed_text)
                (sub_exposure_before submission) w
      in maybe_schedule_test_quit cx (sub_autorun submission) w)"

text \<open>The darkroom is not the current view: only the session learns of the result.\<close>

definition finish_hidden ::
  "chat_env \<Rightarrow> int option \<Rightarrow> dt_agent_client_result \<Rightarrow> dt_agent_chat_submission \<Rightarrow> chat_world \<Rightarrow> chat_world" where
  "finish_hidden cx key result submission w =
     (let response = cr_response result; before = sub_exposure_before submission;
          w = (if cr_transport_error result \<noteq> None \<or> \<not> cr_has_response result
               then let message = str_or (cr_transport_error result) ''failed to contact the agent server''
                    in write_test_report cx ''transport_error'' (Some result) None (Some message) before
                         (chat_upd (on_session key (\<lambda>s. session_append_message ''assistant'' (Some message)
                            (stop_reason ''transport-error'' (session_set_status (Some ''Request failed'')
                              (session_set_error (Some message) s))))) w)
               else
                 let w = chat_upd (on_session key (\<lambda>s.
                           let s = session_set_error None s
                           in if nonempty (resp_message_text response)
                              then session_append_message ''assistant'' (resp_message_text response) s else s)) w
                 in if resp_status response = Some ''error''
                    then let message = str_or (resp_error_message response) ''agent server returned an error''
                         in write_test_report cx ''server_error'' (Some result) None (Some message) before
                              (chat_upd (on_session key (\<lambda>s. stop_reason ''server-error''
                                 (session_set_status (Some ''Server error'') (session_set_error (Some message) s)))) w)
                    else if garray (resp_operations response) \<noteq> []
                    then let message = ''darkroom must be active to apply agent changes''
                         in write_test_report cx ''deferred'' (Some result) None (Some message) before
                              (chat_upd (on_session key (\<lambda>s. stop_reason ''deferred''
                                 (session_set_status (Some message) s))) w)
                    else write_test_report cx ''ok'' (Some result) None None before
                           (chat_upd (on_session key (session_set_status
                              (Some (if resp_refinement_mode response = DT_AGENT_REFINEMENT_MODE_MULTI
                                     then ''Agent run complete'' else ''Response received'')))) w))
      in maybe_schedule_test_quit cx (sub_autorun submission) w)"

definition finish_visible ::
  "chat_env \<Rightarrow> nat \<Rightarrow> dt_agent_client_result \<Rightarrow> dt_agent_chat_submission \<Rightarrow> chat_world \<Rightarrow> chat_world" where
  "finish_visible cx live_applied result submission w =
     (let before = sub_exposure_before submission
      in if cr_transport_error result \<noteq> None \<or> \<not> cr_has_response result
         then maybe_schedule_test_quit cx (sub_autorun submission)
                (write_test_report cx ''transport_error'' (Some result) None
                   (Some (str_or (cr_transport_error result) ''failed to contact the agent server'')) before
                   (chat_upd (handle_transport_error (cr_transport_error result)) w))
         else
           let w = chat_upd (set_error None) w
           in case handle_response cx (cr_response result) dt_agent_execution_report_init live_applied w of
                (handled, report, response_error, w) \<Rightarrow>
                  (case (if handled then continue_refinement cx result submission w else (False, w)) of
                     (True, w) \<Rightarrow> w
                   | (False, w) \<Rightarrow>
                       let status = (if handled then ''ok''
                                     else if resp_status (cr_response result) = Some ''error''
                                     then ''server_error'' else ''apply_failed'');
                           w = (if handled \<and> resp_refinement_mode (cr_response result) = DT_AGENT_REFINEMENT_MODE_MULTI
                                then chat_upd (set_status (Some ''Agent run complete'')) w else w)
                       in maybe_schedule_test_quit cx (sub_autorun submission)
                            (write_test_report cx status (Some result) (Some report) response_error before w)))"

definition request_finished ::
  "chat_env \<Rightarrow> dt_agent_client_result \<Rightarrow> dt_agent_chat_submission \<Rightarrow> chat_world \<Rightarrow> chat_world" where
  "request_finished cx result submission w =
     (let active = submission_matches_active_request (cw_chat w) submission;
          live_applied = (if active then ac_active_request_live_applied_count (cw_chat w) else 0);
          w = (if active then clear_active_request True w else w);
          key = lookup_submission_session (cw_chat w) submission;
          w = chat_upd (on_session key (record_result result submission)) w
      in if cr_cancelled result then finish_cancelled cx active key result submission w
         else if wd_view_darkroom (cw_world w) \<and> is_stale_response cx submission result w
         then finish_stale cx key result submission w
         else
           let w = (if submission_matches_current_session (cw_chat w) submission
                    then chat_upd (set_loading False) w else w)
           in if revision_mismatch cx live_applied result submission w
              then finish_mismatch cx key result submission w
              else if \<not> wd_view_darkroom (cw_world w) then finish_hidden cx key result submission w
              else finish_visible cx live_applied result submission w)"

subsection \<open>Previews of live edits\<close>

definition encode_and_post_preview ::
  "chat_env \<Rightarrow> dt_agent_chat_session \<Rightarrow> cstr \<Rightarrow> chat_world \<Rightarrow> chat_world" where
  "encode_and_post_preview cx session turn_id w =
     (if turn_id = None \<or> dv_preview_pipe (cx_develop cx (cw_world w)) = None
         \<or> \<not> cx_preview_valid cx (cw_world w) then w
      else case collect_current_state cx (cw_world w) of
          None \<Rightarrow> w
        | Some state \<Rightarrow>
            (case (pv_available (st_preview state), pv_base64_data (st_preview state)) of
               (True, Some data) \<Rightarrow>
                 (case cx_base64_decode cx data of
                    None \<Rightarrow> w
                  | Some decoded \<Rightarrow>
                      if decoded = [] then w
                      else add_effect (Render_Post
                        \<lparr>rd_image_session_id = cs_image_session_id session, rd_turn_id = turn_id,
                         rd_jpeg_bytes = decoded,
                         rd_endpoint = dt_agent_client_dup_endpoint
                           (cx_getenv cx ''DARKTABLE_AGENT_SERVER_URL'') (cx_conf_endpoint cx)\<rparr>) w)
             | _ \<Rightarrow> w))"

definition pipe_finished :: "chat_env \<Rightarrow> chat_world \<Rightarrow> chat_world" where
  "pipe_finished cx w =
     (if dv_preview_pipe (cx_develop cx (cw_world w)) = None \<or> \<not> cx_preview_valid cx (cw_world w) then w
      else case lookup_session (ac_current_image_id (cw_chat w)) (cw_chat w) of
          None \<Rightarrow> w
        | Some s \<Rightarrow>
            if \<not> cs_pending_mid_turn_render s then w
            else chat_upd (\<lambda>c. session_upd (ac_current_image_id c) (\<lambda>s. s\<lparr>cs_pending_mid_turn_render := False\<rparr>) c)
                   (encode_and_post_preview cx s (ac_active_request_id (cw_chat w)) w))"

text \<open>The endpoint the preview is posted to.\<close>

definition render_endpoint :: "dt_agent_chat_render_delivery \<Rightarrow> string" where
  "render_endpoint delivery =
     (if has_suffix (rd_endpoint delivery) ''/'' then rd_endpoint delivery @ ''render''
      else rd_endpoint delivery @ ''/render'')"

end
