(* ===== verification/Execute_Limits.thy ===== *)
theory Execute_Limits
  imports Execute
begin

text \<open>
  The limit of the batch guarantee of \<open>Execute\<close>: a concrete darkroom in which
  \<open>dt_agent_execute_response\<close> applies part of a batch that did not validate.  The catalog of that
  darkroom is computed piece by piece, so that the evaluation of each piece stays small.
\<close>

text \<open>
  An rgb levels module with one channel and one handle whose parameters are not allocated, and
  whose on/off button is \<open>on\<close>.
\<close>

definition levels_module :: dt_iop_module where
  "levels_module =
     (let root = Action ''iop'' None None; me = Action ''rgblevels'' None (Some root);
          row = Field DT_INTROSPECTION_TYPE_ARRAY ''row'' 4 0
                  (P_Array 1 (Field DT_INTROSPECTION_TYPE_FLOAT ''v'' 4 0 P_None))
      in \<lparr>mod_op = ''rgblevels'', mod_name = Some ''rgb levels'', mod_multi_priority = 0,
          mod_have_introspection = True,
          mod_linear = Some [Field DT_INTROSPECTION_TYPE_ARRAY ''levels'' 4 0 (P_Array 1 row)],
          mod_params = None, mod_params_size = 4, mod_default_params = Some 2000,
          mod_off = Some 3, mod_default_enabled = True,
          mod_widget_list =
            [\<lparr>tgt_action = Some (Action ''enable'' None (Some me)), tgt_target = Some 3\<rparr>,
             \<lparr>tgt_action = Some (Action ''levels'' None (Some me)), tgt_target = Some 2\<rparr>]\<rparr>)"

definition levels_world :: "bool \<Rightarrow> world" where
  "levels_world on = sample_world
     \<lparr>wd_widgets := (wd_widgets sample_world)
        (3 \<mapsto> \<lparr>w_field = None, w_field_type = DT_INTROSPECTION_TYPE_NONE, w_iop_instance = True,
              w_introspection = None, w_body = ToggleButton on\<rparr>),
      wd_mem := (\<lambda>a. CFloat (Fin 0)),
      wd_develop := Some \<lparr>dev_iop = [Some levels_module], dev_chroma_adaptation = False\<rparr>\<rparr>"

definition levels_batch :: "dt_agent_chat_operation list" where
  "levels_batch =
     [(sample_op ''a'' ''iop/rgblevels/enable'' DT_AGENT_OPERATION_SET_BOOL)
        \<lparr>op_setting_id := Some ''setting.iop.rgblevels.enable.instance.0'', op_bool_value := False\<rparr>,
      (sample_op ''b'' ''iop/rgblevels/levels'' DT_AGENT_OPERATION_SET_FLOAT)
        \<lparr>op_setting_id := Some ''setting.iop.rgblevels.levels.instance.0.red.black''\<rparr>]"


definition levels_referral :: "nat \<Rightarrow> dt_action_target" where
  "levels_referral i = mod_widget_list levels_module ! i"

definition levels_descriptor :: dt_agent_action_descriptor where
  "levels_descriptor = hd (collect_rgblevels_descriptors (levels_world True) levels_module (levels_referral 1))"

definition levels_toggle :: dt_agent_action_descriptor where
  "levels_toggle = the (descriptor_for_module_toggle (Some levels_module))"

lemma levels_ids:
  "ad_setting_id levels_descriptor = Some ''setting.iop.rgblevels.levels.instance.0.red.black''"
  "ad_setting_id levels_toggle = Some ''setting.iop.rgblevels.enable.instance.0''"
  by code_simp+

lemma levels_paths:
  "ad_action_path levels_descriptor = Some ''iop/rgblevels/levels''"
  "ad_action_path levels_toggle = Some ''iop/rgblevels/enable''"
  by code_simp+

lemma levels_custom:
  "collect_rgblevels_descriptors (levels_world on) levels_module (levels_referral 0) = []"
  "collect_colorzones_descriptors sample_env (levels_world on) levels_module (levels_referral 0) = []"
  "collect_colorzones_descriptors sample_env (levels_world on) levels_module (levels_referral 1) = []"
  by code_simp+

lemma levels_handles:
  "collect_rgblevels_descriptors (levels_world on) levels_module (levels_referral 1) = [levels_descriptor]"
proof -
  have "wd_mem (levels_world on) = wd_mem (levels_world True)"
    "target_widget (levels_world on) (levels_referral 1) = target_widget (levels_world True) (levels_referral 1)"
    by (simp_all add: levels_world_def target_widget_def split: option.splits)
  then have "collect_rgblevels_descriptors (levels_world on) levels_module (levels_referral 1)
      = collect_rgblevels_descriptors (levels_world True) levels_module (levels_referral 1)"
    by (simp only: collect_rgblevels_descriptors_def rgblevels_descriptor_def)
  moreover have "length (collect_rgblevels_descriptors (levels_world True) levels_module (levels_referral 1)) = 1"
    by code_simp
  ultimately show ?thesis
    by (cases "collect_rgblevels_descriptors (levels_world True) levels_module (levels_referral 1)")
      (auto simp: levels_descriptor_def)
qed

lemma levels_widgets:
  "descriptor_for_widget sample_env (levels_world on) levels_module (levels_referral 0) = None"
  "descriptor_for_widget sample_env (levels_world on) levels_module (levels_referral 1) = None"
  "descriptor_for_module_toggle (Some levels_module) = Some levels_toggle"
  by code_simp+

lemma levels_allowed:
  "dt_agent_catalog_is_action_path_allowed (Some ''iop/rgblevels/enable'')"
  "dt_agent_catalog_is_action_path_allowed (Some ''iop/rgblevels/levels'')"
  by code_simp+

lemma levels_develop:
  "wd_develop (levels_world on) = Some \<lparr>dev_iop = [Some levels_module], dev_chroma_adaptation = False\<rparr>"
  "wd_view_darkroom (levels_world on)"
  by (simp_all add: levels_world_def sample_world_def)

lemma levels_collect:
  "dt_agent_catalog_collect_descriptors sample_env (levels_world on) (wd_develop (levels_world on))
     = Inr [levels_toggle, levels_descriptor]"
proof -
  have w: "mod_widget_list levels_module = [levels_referral 0, levels_referral 1]"
    by (simp add: levels_referral_def levels_module_def Let_def)
  have "fst (collect_module sample_env (levels_world on) (Some levels_module) ([],{}))
          = [levels_toggle, levels_descriptor]"
    unfolding collect_module_def option.case w
    by (simp add: collect_referral_def levels_custom levels_handles levels_widgets add_descriptor_unique_def levels_ids levels_paths
        levels_allowed g_hash_table_contains_def g_hash_table_add_def del: One_nat_def)
  then show ?thesis by (simp add: dt_agent_catalog_collect_descriptors_def levels_develop)
qed

lemma levels_find:
  "find_operation_descriptor sample_env (levels_world on) (levels_batch ! 0) = Inr levels_toggle"
  "find_operation_descriptor sample_env (levels_world on) (levels_batch ! 1) = Inr levels_descriptor"
  unfolding find_operation_descriptor_def dt_agent_catalog_find_descriptor_def levels_collect
  by (simp_all add: levels_batch_def sample_op_def levels_allowed descriptor_matches_def levels_ids levels_paths copy_simps ebind_def nonempty_def)

lemma levels_access:
  "ad_widget levels_toggle = Some 3" "ad_operation_kind levels_toggle = DT_AGENT_OPERATION_SET_BOOL"
  "is_toggle_button (levels_world on) 3" "toggle_active (levels_world on) 3 = on"
  "read_descriptor_float_value sample_env (levels_world on) levels_descriptor None = (NaN, None)"
  by code_simp+

lemma levels_set: "toggle_set_active sample_env 3 False (levels_world True) = levels_world False"
proof -
  have "toggle_set_active sample_env 3 False (levels_world True) = set_body 3 (ToggleButton False) (levels_world True)"
    by (simp only: toggle_set_active_def levels_access) (simp add: sample_env_def)
  then show ?thesis by (simp add: set_body_def levels_world_def)
qed

lemma levels_batch_list:
  "levels_batch = [levels_batch ! 0, levels_batch ! 1]" by (simp add: levels_batch_def)
lemma levels_wb: "ordered_operations_for_execution levels_batch = levels_batch"
  by code_simp
lemma levels_fields:
  "op_status (levels_batch ! 0) = Some ''planned''" "op_status (levels_batch ! 1) = Some ''planned''"
  "op_target_type (levels_batch ! 0) = Some ''darktable-action''" "op_target_type (levels_batch ! 1) = Some ''darktable-action''"
  "op_kind (levels_batch ! 0) = DT_AGENT_OPERATION_SET_BOOL" "op_kind (levels_batch ! 1) = DT_AGENT_OPERATION_SET_FLOAT"
  "op_value_mode (levels_batch ! 0) = DT_AGENT_VALUE_MODE_SET" "op_has_bool_value (levels_batch ! 0)" "\<not> op_bool_value (levels_batch ! 0)"
  by (simp_all add: levels_batch_def sample_op_def)

lemma levels_no_wb: "validate_white_balance_operation (levels_world on) oper d = None"
  by (simp add: validate_white_balance_operation_def levels_develop)

lemma levels_validate:
  "validate_operation sample_env (levels_world on) (levels_batch ! 0) = (True, None)"
  "validate_operation sample_env (levels_world on) (levels_batch ! 1) = (False, None)"
  unfolding validate_operation_def validate_bool_operation_def validate_float_operation_def levels_fields levels_find
    sum.case levels_no_wb option.case levels_access prod.case
  by (simp_all add: levels_fields isnan_flt_def)

lemma levels_bool:
  "dt_agent_catalog_write_bool sample_env levels_toggle False None (levels_world True) = (Some False, None, levels_world False)"
  by (simp add: dt_agent_catalog_write_bool_def dt_agent_catalog_read_current_bool_def levels_access levels_set)

lemma levels_execute:
  "case execute_operation sample_env (levels_batch ! 0) rep None (levels_world True) of
     (ok, rep', e, wl) \<Rightarrow> ok \<and> e = None \<and> wl = levels_world False \<and>
       map er_status (results_of rep') = map er_status (results_of rep) @ [DT_AGENT_EXECUTION_STATUS_APPLIED]"
  "case execute_operation sample_env (levels_batch ! 1) rep None (levels_world False) of
     (ok, rep', e, wl) \<Rightarrow> \<not> ok \<and> e = None \<and> wl = levels_world False \<and>
       map er_status (results_of rep') = map er_status (results_of rep) @ [DT_AGENT_EXECUTION_STATUS_FAILED]"
  by (simp_all add: execute_operation_def execute_operation_outcome_def execute_set_bool_operation_def
      execute_set_float_operation_def levels_fields levels_find levels_bool levels_access isnan_flt_def
      execution_result_set_failed_def add_result_def results_of_def Let_def del: One_nat_def)

text \<open>
  where the batch guarantee ends.  A levels handle whose parameter memory cannot be read is
  refused by validation without an error, and \<open>dt_agent_execute_response\<close> looks for the error, not
  for the refusal: in this world the batch goes on to be executed, the first operation (switching a
  module off) is applied, the second fails, and the call returns FALSE with no error at all.
\<close>

theorem execute_batch_not_atomic:
  "case dt_agent_execute_response sample_env
          (Some (dt_agent_chat_response_init\<lparr>resp_operations := Some levels_batch\<rparr>))
          (Some dt_agent_execution_report_init) None (levels_world True) of
     (ok, report, error, wl) \<Rightarrow>
       \<not> ok \<and> error = None \<and> wl = levels_world False
       \<and> map er_status (results_of (the report))
           = [DT_AGENT_EXECUTION_STATUS_APPLIED, DT_AGENT_EXECUTION_STATUS_FAILED]
       \<and> \<not> fst (validate_operation sample_env (levels_world True) (levels_batch ! 1))"
proof -
  let ?a = "levels_batch ! 0" and ?b = "levels_batch ! 1"
  obtain rep1 where 1: "execute_operation sample_env ?a dt_agent_execution_report_init None (levels_world True)
      = (True, rep1, None, levels_world False)" 
      "map er_status (results_of rep1) = [DT_AGENT_EXECUTION_STATUS_APPLIED]"
    using levels_execute(1) [of dt_agent_execution_report_init]
    by (auto simp: dt_agent_execution_report_init_def results_of_def split: prod.splits)
  obtain rep2 where 2: "execute_operation sample_env ?b rep1 None (levels_world False)
      = (False, rep2, None, levels_world False)" 
      "map er_status (results_of rep2) = [DT_AGENT_EXECUTION_STATUS_APPLIED, DT_AGENT_EXECUTION_STATUS_FAILED]"
    using levels_execute(2) [of rep1] 1(2) by (auto split: prod.splits)
  have v: "validate_batch sample_env (levels_world True) 0 levels_batch = (Some 1, None)"
    by (subst levels_batch_list) (simp add: levels_validate del: One_nat_def)
  have e: "execute_batch sample_env levels_batch True None dt_agent_execution_report_init (levels_world True)
      = (False, None, rep2, levels_world False)"
    by (subst levels_batch_list) (simp add: 1 2 del: One_nat_def)
  show ?thesis
    using 2(2) by (simp add: dt_agent_execute_response_def levels_wb v e levels_develop levels_validate
      dt_agent_execution_report_init_def [THEN arg_cong, of rep_results] del: One_nat_def)
qed
end
