(* ===== verification/Chat_Safety.thy ===== *)
theory Chat_Safety
  imports Chat_Response Execute_Limits
begin

text \<open>
  When the chat window lets a response change the image, and which operations it executes: a result is
  used only if it belongs to the conversation, the image and the revision the window shows, and the
  live edits and the final response together execute each operation of the response once.
\<close>

subsection \<open>What leaves the image alone\<close>

definition executed :: "chat_world \<Rightarrow> dt_agent_chat_operation list list" where
  "executed w = List.map_filter (\<lambda>e. case e of Executed ops \<Rightarrow> Some ops | _ \<Rightarrow> None) (cw_effects w)"

text \<open>No operation is executed between the two states and the image is the same.\<close>

definition same_image :: "chat_world \<Rightarrow> chat_world \<Rightarrow> bool" where
  "same_image w w' \<longleftrightarrow> cw_world w' = cw_world w \<and> executed w' = executed w"

lemma same_image_refl [simp]: "same_image w w"
  by (simp add: same_image_def)

lemma same_image_trans: "same_image w w' \<Longrightarrow> same_image w' w'' \<Longrightarrow> same_image w w''"
  by (simp add: same_image_def)

lemma executed_add_effect:
  "executed (add_effect e w) = executed w @ (case e of Executed ops \<Rightarrow> [ops] | _ \<Rightarrow> [])"
  by (simp add: executed_def add_effect_def map_filter_def split: chat_effect.splits)

lemma cw_simps [simp]:
  "cw_world (chat_upd f w) = cw_world w" "cw_effects (chat_upd f w) = cw_effects w"
  "cw_requests (chat_upd f w) = cw_requests w" "cw_uuids (chat_upd f w) = cw_uuids w"
  "cw_chat (chat_upd f w) = f (cw_chat w)"
  "cw_world (add_effect e w) = cw_world w" "cw_chat (add_effect e w) = cw_chat w"
  "cw_requests (add_effect e w) = cw_requests w" "cw_uuids (add_effect e w) = cw_uuids w"
  by (simp_all add: chat_upd_def add_effect_def)

lemma executed_chat_upd [simp]: "executed (chat_upd f w) = executed w"
  by (simp add: executed_def)

lemma executed_world [simp]: "executed (w\<lparr>cw_world := x\<rparr>) = executed w"
  by (simp add: executed_def)

lemma same_image_upd [simp]:
  "same_image w (chat_upd f w') = same_image w w'" "same_image (chat_upd f w) w' = same_image w w'"
  by (simp_all add: same_image_def)

lemma same_image_fields [simp]:
  "same_image w (w'\<lparr>cw_requests := r\<rparr>) = same_image w w'" "same_image w (w'\<lparr>cw_uuids := n\<rparr>) = same_image w w'"
  "same_image w (w'\<lparr>cw_chat := c\<rparr>) = same_image w w'"
  by (simp_all add: same_image_def executed_def)

lemma call_upd_simps [simp]:
  "cw_chat (call_upd i f w) = cw_chat w" "same_image w' (call_upd i f w) = same_image w' w"
  by (simp_all add: call_upd_def)

lemma drop_handle_same_image [simp]: "same_image w' (drop_active_request_handle w) = same_image w' w"
  by (simp add: drop_active_request_handle_def split: option.splits)

lemma set_active_same_image [simp]: "same_image w' (set_active_request i r w) = same_image w' w"
  by (simp add: set_active_request_def)

lemma clear_active_same_image [simp]: "same_image w' (clear_active_request b w) = same_image w' w"
  by (simp add: clear_active_request_def)

lemma cancel_active_same_image [simp]: "same_image w' (cancel_active_request s r w) = same_image w' w"
  by (simp add: cancel_active_request_def Let_def split: option.splits)

lemma write_report_same_image [simp]: "same_image w' (write_test_report cx s r er m e w) = same_image w' w"
  by (simp add: write_test_report_def Let_def same_image_def executed_add_effect)

lemma schedule_quit_same_image [simp]: "same_image w' (maybe_schedule_test_quit cx b w) = same_image w' w"
  by (simp add: maybe_schedule_test_quit_def)

lemma uuid_same_image [simp]: "same_image w' (snd (g_uuid_string_random cx w)) = same_image w' w"
  by (simp add: g_uuid_string_random_def)

lemma lookup_or_create_same_image [simp]: "same_image w' (lookup_or_create_session cx i w) = same_image w' w"
  by (simp add: lookup_or_create_session_def g_uuid_string_random_def Let_def split: option.splits)

lemma switch_same_image [simp]: "same_image w' (switch_to_image_session cx i f w) = same_image w' w"
  by (simp add: switch_to_image_session_def g_uuid_string_random_def Let_def split: option.splits)

lemma ensure_app_same_image [simp]: "same_image w' (ensure_app_session_id cx w) = same_image w' w"
  by (simp add: ensure_app_session_id_def g_uuid_string_random_def Let_def)

lemma build_request_same_image:
  "build_request cx m g f md p mx e w = (r, w') \<Longrightarrow> same_image w w'"
  by (auto simp: build_request_def g_uuid_string_random_def Let_def split: prod.splits bool.splits
      option.splits if_splits)

lemma submit_failed_same_image [simp]: "same_image w' (submit_failed cx s m e a w) = same_image w' w"
  by (simp add: submit_failed_def Let_def)

lemma start_client_same_image:
  "start_client_request cx r s w = (x, w') \<Longrightarrow> same_image w w'"
  by (auto simp: start_client_request_def Let_def split: sum.splits prod.splits)

lemma submit_same_image: "same_image w (snd (submit_internal cx p g a u f md px mx w))"
proof -
  let ?w = "switch_to_image_session cx (chat_current_image_id cx w) False w"
  have w: "cw_world ?w = cw_world w" "executed ?w = executed w"
    using switch_same_image [of w cx "chat_current_image_id cx w" False w] by (simp_all add: same_image_def)
  obtain ok rq e w1 where b: "build_request cx (Some (g_strstrip (str_or p []))) g f md px mx None
      (chat_upd (submit_begin (g_strstrip (str_or p [])) g u f md px mx) ?w) = ((ok, rq, e), w1)"
    by (metis prod_cases3 surj_pair)
  from build_request_same_image [OF b] have w1: "cw_world w1 = cw_world w" "executed w1 = executed w"
    by (simp_all add: same_image_def w)
  let ?s = "new_submission rq (g_strstrip (str_or p [])) a md (read_current_exposure cx (cw_world w1))"
  let ?w1 = "chat_upd (\<lambda>c. session_upd (ac_current_image_id c)
      (\<lambda>s. s\<lparr>cs_refinement_goal_text := sub_goal_text ?s\<rparr>) c) w1"
  obtain h w2 where st: "start_client_request cx rq ?s ?w1 = (h, w2)" by force
  from start_client_same_image [OF st] have w2: "same_image w w2" by (simp add: same_image_def w1)
  show ?thesis
  proof (cases ok)
    case False
    with b w1 show ?thesis by (simp add: submit_internal_def Let_def) (simp add: same_image_def w)
  next
    case True
    with b st w2 show ?thesis
      by (cases h) (simp_all add: submit_internal_def Let_def)
  qed
qed

lemma continue_same_image: "same_image w (snd (continue_refinement cx r s w))"
  unfolding continue_refinement_def Let_def
  using submit_same_image [of "chat_upd f w" for f] by (auto simp: same_image_def)

lemma on_session_ids [simp]:
  "ac_active_request_id (on_session k f c) = ac_active_request_id c"
  "ac_conversation_id (on_session k f c) = ac_conversation_id c"
  "ac_image_session_id (on_session k f c) = ac_image_session_id c"
  by (simp_all add: on_session_def session_upd_def split: option.splits)

lemma current_image_id_cong: "cw_world w' = cw_world w \<Longrightarrow> chat_current_image_id cx w' = chat_current_image_id cx w"
  by (simp add: chat_current_image_id_def)

lemma revision_id_Some:
  "collect_current_image_revision_id cx w = Some (format_image_revision_id
     (0 < chat_current_image_id cx w) (chat_current_image_id cx w)
     (dv_history_end (cx_develop cx (cw_world w))) (int (length (dv_history (cx_develop cx (cw_world w))))))"
proof -
  let ?dev = "cx_develop cx (cw_world w)"
  let ?st = "collect_render_snapshot (cx_collect cx) ?dev (collected_base (cx_env cx) (cw_world w) ?dev)"
  have "collect_current_state cx (cw_world w) = Some ?st"
    by (simp add: collect_current_state_def collect_from_dev_Some)
  moreover have "st_history_position ?st = dv_history_end ?dev" "st_history_count ?st = int (length (dv_history ?dev))"
    using render_same_data [of "cx_collect cx" ?dev "collected_base (cx_env cx) (cw_world w) ?dev"]
    by (simp_all add: same_data_def collected_base_fields)
  ultimately show ?thesis by (simp add: collect_current_image_revision_id_def Let_def)
qed

text \<open>The revision the window shows.\<close>

definition shown_revision :: "chat_env \<Rightarrow> chat_world \<Rightarrow> string" where
  "shown_revision cx w = the (collect_current_image_revision_id cx w)"

text \<open>
  What the code requires of a result before it executes its operations; \<open>live\<close> is the number of live
  edits that were applied.
\<close>

definition response_usable ::
  "chat_env \<Rightarrow> dt_agent_client_result \<Rightarrow> dt_agent_chat_submission \<Rightarrow> nat \<Rightarrow> chat_world \<Rightarrow> bool" where
  "response_usable cx result sub live w \<longleftrightarrow>
     (let c = cw_chat w; response = cr_response result
      in \<not> cr_cancelled result \<and> cr_transport_error result = None \<and> cr_has_response result
         \<and> wd_view_darkroom (cw_world w)
         \<and> (ac_active_request_id c = None \<or> ac_active_request_id c = sub_request_id sub)
         \<and> ac_conversation_id c = sub_conversation_id sub \<and> ac_image_session_id c = sub_image_session_id sub
         \<and> active_image_matches cx sub w
         \<and> resp_request_id response = sub_request_id sub \<and> resp_conversation_id response = sub_conversation_id sub
         \<and> resp_status response \<noteq> Some ''error''
         \<and> (resp_status response = Some ''ok'' \<longrightarrow>
              resp_base_image_revision_id response = Some (shown_revision cx w)
              \<or> sub_refinement_enabled sub \<and> 0 < live
                \<and> resp_refinement_mode response = DT_AGENT_REFINEMENT_MODE_MULTI))"

definition live_applied_for :: "dt_agent_chat_submission \<Rightarrow> agent_chat \<Rightarrow> nat" where
  "live_applied_for sub c =
     (if submission_matches_active_request c sub then ac_active_request_live_applied_count c else 0)"

text \<open>The state of the window when the decision is made.\<close>

definition finish_prepared ::
  "dt_agent_client_result \<Rightarrow> dt_agent_chat_submission \<Rightarrow> chat_world \<Rightarrow> chat_world" where
  "finish_prepared result sub w =
     (let w = (if submission_matches_active_request (cw_chat w) sub then clear_active_request True w else w)
      in chat_upd (on_session (lookup_submission_session (cw_chat w) sub) (record_result result sub)) w)"

lemma drop_handle_ids [simp]:
  "ac_active_request_id (cw_chat (drop_active_request_handle w)) = ac_active_request_id (cw_chat w)"
  "ac_conversation_id (cw_chat (drop_active_request_handle w)) = ac_conversation_id (cw_chat w)"
  "ac_image_session_id (cw_chat (drop_active_request_handle w)) = ac_image_session_id (cw_chat w)"
  "cw_world (drop_active_request_handle w) = cw_world w"
  by (simp_all add: drop_active_request_handle_def call_upd_def split: option.splits)

lemma finish_prepared_simps:
  "same_image w' (finish_prepared result sub w) = same_image w' w"
  "cw_world (finish_prepared result sub w) = cw_world w"
  "ac_conversation_id (cw_chat (finish_prepared result sub w)) = ac_conversation_id (cw_chat w)"
  "ac_image_session_id (cw_chat (finish_prepared result sub w)) = ac_image_session_id (cw_chat w)"
  "ac_active_request_id (cw_chat (finish_prepared result sub w))
     = (if submission_matches_active_request (cw_chat w) sub then None else ac_active_request_id (cw_chat w))"
  by (simp_all add: finish_prepared_def Let_def clear_active_request_def)

lemma finish_parts_same_image [simp]:
  "same_image w' (finish_cancelled cx a k r s w) = same_image w' w"
  "same_image w' (finish_stale cx k r s w) = same_image w' w"
  "same_image w' (finish_mismatch cx k r s w) = same_image w' w"
  "same_image w' (finish_hidden cx k r s w) = same_image w' w"
  by (simp_all add: finish_cancelled_def finish_stale_def finish_mismatch_def finish_hidden_def Let_def)

text \<open>The same state with the spinner off.\<close>

definition finish_quiet ::
  "dt_agent_client_result \<Rightarrow> dt_agent_chat_submission \<Rightarrow> chat_world \<Rightarrow> chat_world" where
  "finish_quiet result sub w =
     (let w = finish_prepared result sub w
      in if submission_matches_current_session (cw_chat w) sub then chat_upd (set_loading False) w else w)"

lemma request_finished_cases:
  obtains "same_image w (request_finished cx result sub w)"
    "\<not> (\<not> cr_cancelled result \<and> \<not> (wd_view_darkroom (cw_world w) \<and> is_stale_response cx sub result (finish_prepared result sub w))
        \<and> \<not> revision_mismatch cx (live_applied_for sub (cw_chat w)) result sub (finish_quiet result sub w)
        \<and> wd_view_darkroom (cw_world w))"
  | "\<not> cr_cancelled result" "\<not> is_stale_response cx sub result (finish_prepared result sub w)"
    "\<not> revision_mismatch cx (live_applied_for sub (cw_chat w)) result sub (finish_quiet result sub w)"
    "wd_view_darkroom (cw_world w)"
    "request_finished cx result sub w
       = finish_visible cx (live_applied_for sub (cw_chat w)) result sub (finish_quiet result sub w)"
proof -
  have rf: "request_finished cx result sub w =
    (let active = submission_matches_active_request (cw_chat w) sub; w1 = finish_prepared result sub w;
         key = lookup_submission_session (cw_chat (if active then clear_active_request True w else w)) sub
     in if cr_cancelled result then finish_cancelled cx active key result sub w1
        else if wd_view_darkroom (cw_world w1) \<and> is_stale_response cx sub result w1 then finish_stale cx key result sub w1
        else if revision_mismatch cx (live_applied_for sub (cw_chat w)) result sub (finish_quiet result sub w)
        then finish_mismatch cx key result sub (finish_quiet result sub w)
        else if \<not> wd_view_darkroom (cw_world (finish_quiet result sub w)) then finish_hidden cx key result sub (finish_quiet result sub w)
        else finish_visible cx (live_applied_for sub (cw_chat w)) result sub (finish_quiet result sub w))"
    unfolding request_finished_def finish_quiet_def finish_prepared_def live_applied_for_def Let_def by simp
  have q: "cw_world (finish_quiet result sub w) = cw_world w" "same_image w' (finish_quiet result sub w) = same_image w' w" for w'
    by (simp_all add: finish_quiet_def Let_def finish_prepared_simps)
  show thesis
  proof (cases "\<not> cr_cancelled result \<and> \<not> (wd_view_darkroom (cw_world w) \<and> is_stale_response cx sub result (finish_prepared result sub w))
        \<and> \<not> revision_mismatch cx (live_applied_for sub (cw_chat w)) result sub (finish_quiet result sub w)
        \<and> wd_view_darkroom (cw_world w)")
    case True
    then show thesis by (intro that(2)) (simp_all add: rf Let_def q finish_prepared_simps)
  next
    case False
    then show thesis by (intro that(1)) (auto simp: rf Let_def q finish_prepared_simps)
  qed
qed

lemma append_summary_nothing: "garray (rep_results r) = [] \<Longrightarrow> append_operation_summary r c = c"
  by (simp add: append_operation_summary_def)

lemma apply_range_executed:
  assumes "apply_operation_range cx ops n rep w = (ok, rep', e, w')"
  shows "executed w' = executed w @ (case ops of None \<Rightarrow> [] | Some os \<Rightarrow> if length os \<le> n then [] else [drop n os])"
    and "length (garray ops) \<le> n \<Longrightarrow> w' = w \<and> ok"
    and "cw_chat w' = cw_chat w"
  using assms by (auto simp: apply_operation_range_def executed_add_effect Let_def
      split: option.splits if_splits prod.splits)

text \<open>What the handler of a response executes.\<close>

lemma handle_response_executed:
  assumes "handle_response cx response rep n w = (ok, rep', e, w')"
  shows "executed w' = executed w
      @ (if resp_status response = Some ''error'' \<or> length (garray (resp_operations response)) \<le> n then []
         else [drop n (garray (resp_operations response))])"
    and "resp_status response = Some ''error'' \<or> length (garray (resp_operations response)) \<le> n
      \<Longrightarrow> cw_world w' = cw_world w"
proof -
  obtain ops where g: "garray (resp_operations response) = ops" by simp
  show "executed w' = executed w
      @ (if resp_status response = Some ''error'' \<or> length (garray (resp_operations response)) \<le> n then []
         else [drop n (garray (resp_operations response))])"
    using assms
    by (cases "resp_operations response")
      (auto simp: handle_response_def Let_def min_def split: if_splits prod.splits bool.splits
        dest!: apply_range_executed(1))
  show "resp_status response = Some ''error'' \<or> length (garray (resp_operations response)) \<le> n
      \<Longrightarrow> cw_world w' = cw_world w"
    using assms
    by (auto simp: handle_response_def Let_def min_def split: if_splits prod.splits bool.splits)
qed

lemma finish_visible_same_image:
  assumes h: "handle_response cx (cr_response result) dt_agent_execution_report_init n
      (chat_upd (set_error None) w) = (ok, rep, e, w')"
  shows "same_image (if cr_transport_error result \<noteq> None \<or> \<not> cr_has_response result then w else w')
    (finish_visible cx n result sub w)"
proof (cases "cr_transport_error result \<noteq> None \<or> \<not> cr_has_response result")
  case True
  then show ?thesis by (simp add: finish_visible_def Let_def)
next
  case used: False
  show ?thesis
  proof (cases ok)
    case False
    with used h show ?thesis by (simp add: finish_visible_def Let_def)
  next
    case True
    obtain b w'' where c: "continue_refinement cx result sub w' = (b, w'')" by force
    with continue_same_image [of w' cx result sub] have "same_image w' w''" by simp
    with used h c True show ?thesis by (cases b) (simp_all add: finish_visible_def Let_def)
  qed
qed

definition operations_left :: "dt_agent_client_result \<Rightarrow> nat \<Rightarrow> dt_agent_chat_operation list" where
  "operations_left result n =
     (if cr_transport_error result \<noteq> None \<or> \<not> cr_has_response result
         \<or> resp_status (cr_response result) = Some ''error'' then []
      else drop n (garray (resp_operations (cr_response result))))"

lemma finish_visible_executed:
  "executed (finish_visible cx n result sub w) = executed w
     @ (if operations_left result n = [] then [] else [operations_left result n])"
  and finish_visible_world:
  "operations_left result n = [] \<Longrightarrow> cw_world (finish_visible cx n result sub w) = cw_world w"
proof -
  obtain ok rep e w' where h: "handle_response cx (cr_response result) dt_agent_execution_report_init n
      (chat_upd (set_error None) w) = (ok, rep, e, w')" by (metis prod_cases4)
  note f = finish_visible_same_image [OF h, of sub] and hr = handle_response_executed [OF h]
  show "executed (finish_visible cx n result sub w) = executed w
     @ (if operations_left result n = [] then [] else [operations_left result n])"
    using f hr(1) by (auto simp: same_image_def operations_left_def split: if_splits)
  show "operations_left result n = [] \<Longrightarrow> cw_world (finish_visible cx n result sub w) = cw_world w"
    using f hr(2) by (auto simp: same_image_def operations_left_def split: if_splits)
qed

subsection \<open>A window that waits for a response\<close>

text \<open>The darkroom of \<open>Execute_Limits\<close> with a request that is active, for the witnesses.\<close>

definition sample_chat_env :: chat_env where
  "sample_chat_env = \<lparr>cx_env = sample_env, cx_collect = sample_collect_env (Some ''jpeg''),
     cx_develop = (\<lambda>wl. sample_develop), cx_preview_valid = (\<lambda>wl. True), cx_exposure = (\<lambda>wl. Fin 0),
     cx_uuid = (\<lambda>n. ''uuid-'' @ show_nat n), cx_getenv = (\<lambda>name. None), cx_conf_endpoint = None,
     cx_have_job = (\<lambda>n. True), cx_strtoull = read_nat, cx_base64_decode = Some\<rparr>"

definition sample_widgets :: chat_widgets where
  "sample_widgets = \<lparr>wg_conversation = [], wg_entry = ''brighter'', wg_status = ready_status, wg_error = [],
     wg_error_visible = False, wg_spinner_visible = False, wg_spinner = False, wg_entry_sensitive = True, wg_send_sensitive = True,
     wg_cancel_sensitive = False, wg_new_chat_sensitive = True, wg_multi_turn_sensitive = True,
     wg_turn_limit_sensitive = True, wg_fast_mode_sensitive = True, wg_multi_turn_active = True,
     wg_turn_limit = 15, wg_fast_mode_active = True\<rparr>"

definition sample_chat :: agent_chat where
  "sample_chat = \<lparr>ac_widgets = sample_widgets, ac_app_session_id = Some ''app'',
     ac_image_session_id = Some ''image'', ac_conversation_id = Some ''talk'', ac_active_request_id = Some ''request'',
     ac_image_sessions = [], ac_active_request = Some 0, ac_current_image_id = 42, ac_autorun_message = None,
     ac_test_report_path = None, ac_autorun_source = None, ac_max_refinement_passes = 15,
     ac_active_request_live_applied_count = 0, ac_active_request_refinement_pass_index = 1,
     ac_active_request_refinement_max_passes = 15, ac_active_request_tool_calls_used = 0,
     ac_active_request_tool_calls_max = 15, ac_multi_turn_enabled = True, ac_fast_mode_enabled = True,
     ac_active_request_canceling = False, ac_is_loading = True, ac_autorun_sent = False,
     ac_exit_after_autorun = False\<rparr>"

definition sample_submission :: dt_agent_chat_submission where
  "sample_submission = \<lparr>sub_request_id = Some ''request'', sub_prompt_text = Some ''brighter'',
     sub_goal_text = Some ''brighter'', sub_conversation_id = Some ''talk'', sub_image_session_id = Some ''image'',
     sub_base_image_revision_id = Some ''image-42-history-1-2'', sub_has_image_id = True, sub_image_id = 42,
     sub_autorun = False, sub_refinement_enabled = True, sub_fast_mode_enabled = True,
     sub_refinement_pass_index = 1, sub_refinement_max_passes = 15, sub_exposure_before = Fin 0\<rparr>"

definition sample_chat_world :: chat_world where
  "sample_chat_world = \<lparr>cw_world = levels_world True, cw_chat = sample_chat, cw_requests = [],
     cw_uuids = 0, cw_effects = []\<rparr>"

definition sample_chat_response :: dt_agent_chat_response where
  "sample_chat_response = dt_agent_chat_response_init\<lparr>resp_request_id := Some ''request'',
     resp_conversation_id := Some ''talk'', resp_status := Some ''ok'',
     resp_base_image_revision_id := Some ''image-42-history-1-2'', resp_operations := Some levels_batch\<rparr>"

definition sample_chat_result :: dt_agent_client_result where
  "sample_chat_result = zero_result\<lparr>cr_has_response := True, cr_response := sample_chat_response\<rparr>"

definition sample_chat_progress :: dt_agent_client_progress where
  "sample_chat_progress = zero_progress\<lparr>pg_found := True, pg_has_response := True,
     pg_response := dt_agent_chat_response_init\<lparr>resp_operations := Some [levels_batch ! 0]\<rparr>\<rparr>"

lemma sample_revision: "format_image_revision_id True 42 1 2 = ''image-42-history-1-2''"
  by code_simp

lemma sample_usable:
  assumes "cw_world w = levels_world on" "ac_conversation_id (cw_chat w) = Some ''talk''"
    "ac_image_session_id (cw_chat w) = Some ''image''" "ac_active_request_id (cw_chat w) = Some ''request''"
  shows "response_usable sample_chat_env sample_chat_result sample_submission n w"
proof -
  have i: "chat_current_image_id sample_chat_env w = 42"
    by (simp add: chat_current_image_id_def sample_chat_env_def sample_develop_def)
  have "shown_revision sample_chat_env w = ''image-42-history-1-2''"
    using sample_revision by (simp add: shown_revision_def revision_id_Some i)
      (simp add: sample_chat_env_def sample_develop_def)
  with assms show ?thesis
    by (simp add: response_usable_def Let_def sample_chat_result_def sample_chat_response_def sample_submission_def
        zero_result_def levels_develop active_image_matches_def sample_chat_env_def sample_develop_def)
qed

lemma levels_first_applied:
  "\<exists>rep. dt_agent_execute_response sample_env
     (Some (dt_agent_chat_response_init\<lparr>resp_operations := Some [levels_batch ! 0]\<rparr>))
     (Some dt_agent_execution_report_init) None (levels_world True) = (True, Some rep, None, levels_world False)"
proof -
  let ?a = "levels_batch ! 0"
  obtain rep where e: "execute_operation sample_env ?a dt_agent_execution_report_init None (levels_world True)
      = (True, rep, None, levels_world False)"
    using levels_execute(1) [of dt_agent_execution_report_init] by (auto split: prod.splits)
  have "ordered_operations_for_execution [?a] = [?a]" by code_simp
  then show ?thesis
    by (simp add: dt_agent_execute_response_def levels_develop levels_validate e
        dt_agent_execution_report_init_def [THEN arg_cong, of rep_results] del: One_nat_def)
qed

lemma session_upd_no_sessions: "ac_image_sessions c = [] \<Longrightarrow> session_upd k f c = c"
  by (simp add: session_upd_def lookup_session_def)

lemma sync_no_sessions: "ac_image_sessions c = [] \<Longrightarrow> sync_current_session c = c"
  by (simp add: sync_current_session_def session_upd_no_sessions)

lemma sample_live_edits:
  "\<exists>es. apply_live_edits sample_chat_env sample_chat_progress sample_chat_world
     = (True, sample_chat_world\<lparr>cw_world := levels_world False, cw_effects := es,
         cw_chat := sample_chat\<lparr>ac_active_request_live_applied_count := 1\<rparr>\<rparr>)"
proof -
  obtain rep where rep: "dt_agent_execute_response sample_env
     (Some (dt_agent_chat_response_init\<lparr>resp_operations := Some [levels_batch ! 0]\<rparr>))
     (Some dt_agent_execution_report_init) None (levels_world True) = (True, Some rep, None, levels_world False)"
    using levels_first_applied by blast
  show ?thesis
    by (simp add: apply_live_edits_def live_edit_count_def apply_operation_range_def Let_def
        sample_chat_progress_def sample_chat_world_def sample_chat_env_def sample_chat_def rep levels_develop
        zero_progress_def chat_upd_def add_effect_def)
qed

lemma sample_progress_applied:
  "\<exists>c es. progress_finished sample_chat_env sample_chat_progress sample_chat_world
     = sample_chat_world\<lparr>cw_world := levels_world False, cw_effects := es, cw_chat := c\<rparr>
   \<and> ac_active_request c = Some 0 \<and> ac_active_request_id c = Some ''request''
   \<and> ac_conversation_id c = Some ''talk'' \<and> ac_image_session_id c = Some ''image''"
proof -
  obtain es where es: "apply_live_edits sample_chat_env sample_chat_progress sample_chat_world
     = (True, sample_chat_world\<lparr>cw_world := levels_world False, cw_effects := es,
         cw_chat := sample_chat\<lparr>ac_active_request_live_applied_count := 1\<rparr>\<rparr>)"
    using sample_live_edits by blast
  have "chat_upd (\<lambda>c. c\<lparr>ac_active_request_tool_calls_used := pg_tool_calls_used sample_chat_progress,
                 ac_active_request_tool_calls_max :=
                   (if 0 < pg_tool_calls_max sample_chat_progress then pg_tool_calls_max sample_chat_progress
                    else ac_active_request_tool_calls_max c)\<rparr>) sample_chat_world = sample_chat_world"
    by (simp add: sample_chat_progress_def sample_chat_world_def sample_chat_def zero_progress_def chat_upd_def)
  moreover have "format_tool_progress_message sample_chat_progress 0 0 1 = None"
    by (simp add: format_tool_progress_message_def sample_chat_progress_def zero_progress_def)
  ultimately have "progress_found sample_chat_env sample_chat_progress sample_chat_world
     = (True, sample_chat_world\<lparr>cw_world := levels_world False, cw_effects := es,
         cw_chat := sample_chat\<lparr>ac_active_request_live_applied_count := 1\<rparr>\<rparr>)"
    by (simp add: progress_found_def es Let_def nonempty_def)
      (simp add: sample_chat_world_def sample_chat_def sample_chat_progress_def format_tool_progress_message_def
        zero_progress_def nonempty_def)
  then show ?thesis
    by (simp add: progress_finished_def sample_chat_world_def sample_chat_def sample_chat_progress_def
        zero_progress_def nonempty_def chat_upd_def update_refinement_status_def set_status_def widgets_upd_def
        sync_no_sessions Let_def)
qed

subsection \<open>A response is used exactly if it is usable\<close>

lemma revision_cong:
  "cw_world w' = cw_world w \<Longrightarrow> collect_current_image_revision_id cx w' = collect_current_image_revision_id cx w"
  by (simp add: revision_id_Some chat_current_image_id_def)

lemma finish_quiet_same [simp]:
  "cw_world (finish_quiet result sub w) = cw_world w" "executed (finish_quiet result sub w) = executed w"
  using finish_prepared_simps(1) [of w result sub w]
  by (simp_all add: finish_quiet_def Let_def finish_prepared_simps same_image_def)

lemma not_stale_iff:
  "\<not> is_stale_response cx sub result (finish_prepared result sub w) \<longleftrightarrow>
     (ac_active_request_id (cw_chat w) = None \<or> ac_active_request_id (cw_chat w) = sub_request_id sub)
     \<and> ac_conversation_id (cw_chat w) = sub_conversation_id sub
     \<and> ac_image_session_id (cw_chat w) = sub_image_session_id sub \<and> active_image_matches cx sub w
     \<and> (cr_has_response result \<longrightarrow> resp_request_id (cr_response result) = sub_request_id sub
          \<and> resp_conversation_id (cr_response result) = sub_conversation_id sub)"
  by (auto simp: is_stale_response_def Let_def finish_prepared_simps active_image_matches_def
      submission_matches_active_request_def)

lemma mismatch_iff:
  "revision_mismatch cx live result sub (finish_quiet result sub w) \<longleftrightarrow>
     cr_has_response result \<and> resp_status (cr_response result) = Some ''ok''
     \<and> resp_base_image_revision_id (cr_response result) \<noteq> Some (shown_revision cx w)
     \<and> \<not> (sub_refinement_enabled sub \<and> 0 < live
          \<and> resp_refinement_mode (cr_response result) = DT_AGENT_REFINEMENT_MODE_MULTI)"
  by (auto simp: revision_mismatch_def shown_revision_def revision_id_Some
      current_image_id_cong [of "finish_quiet result sub w" w])

lemma usable_executes:
  assumes "response_usable cx result sub (live_applied_for sub (cw_chat w)) w"
  shows "executed (request_finished cx result sub w) = executed w
    @ (if operations_left result (live_applied_for sub (cw_chat w)) = [] then []
       else [operations_left result (live_applied_for sub (cw_chat w))])"
proof (cases rule: request_finished_cases [of w cx result sub])
  case 1
  with assms show ?thesis
    by (simp add: not_stale_iff mismatch_iff response_usable_def Let_def)
next
  case 2
  then show ?thesis by (simp add: finish_visible_executed)
qed

text \<open>
  C10: A result changes the image only if it was not cancelled, came without a transport error, answers
  the submission of the conversation, image and image session that the visible darkroom shows, is that
  of the active request if there is one, is no error, and is based on the revision of the image that is
  shown.  Two cases are weaker, as in the code: without an active request the request id of the
  submission is not compared with one, and the revision may be any other if the submission allowed
  several passes, the response is one of a multi-pass run and live edits of its request have been
  applied.  What is executed then are the operations after the live edits, as one batch.
\<close>

theorem image_changed_only_if_usable:
  assumes "\<not> same_image w (request_finished cx result sub w)"
  shows "response_usable cx result sub (live_applied_for sub (cw_chat w)) w
    \<and> executed (request_finished cx result sub w) = executed w
        @ [drop (live_applied_for sub (cw_chat w)) (garray (resp_operations (cr_response result)))]"
proof (cases rule: request_finished_cases [of w cx result sub])
  case 1
  with assms show ?thesis by simp
next
  case 2
  let ?n = "live_applied_for sub (cw_chat w)"
  have left: "operations_left result ?n \<noteq> []"
  proof
    assume "operations_left result ?n = []"
    with 2(5) have "same_image w (request_finished cx result sub w)"
      by (simp add: same_image_def finish_visible_executed finish_visible_world)
    with assms show False by simp
  qed
  then have used: "cr_transport_error result = None" "cr_has_response result"
    "resp_status (cr_response result) \<noteq> Some ''error''"
    "operations_left result ?n = drop ?n (garray (resp_operations (cr_response result)))"
    by (simp_all add: operations_left_def split: if_splits)
  have "response_usable cx result sub ?n w"
    using 2(1,2,3,4) used unfolding not_stale_iff mismatch_iff by (simp add: response_usable_def Let_def)
  with left used(4) 2(5) show ?thesis by (simp add: finish_visible_executed)
qed

theorem image_changed_only_if_usable_witness:
  "\<exists>ops. executed (request_finished sample_chat_env sample_chat_result sample_submission sample_chat_world) = [ops]"
proof -
  have live: "live_applied_for sample_submission (cw_chat sample_chat_world) = 0"
    by (simp add: live_applied_for_def sample_chat_world_def sample_chat_def)
  have "response_usable sample_chat_env sample_chat_result sample_submission 0 sample_chat_world"
    by (rule sample_usable [of _ True]) (simp_all add: sample_chat_world_def sample_chat_def)
  with live usable_executes [of sample_chat_env sample_chat_result sample_submission sample_chat_world]
  have "executed (request_finished sample_chat_env sample_chat_result sample_submission sample_chat_world)
      = executed sample_chat_world @ (if operations_left sample_chat_result 0 = [] then [] else [operations_left sample_chat_result 0])"
    by simp
  then have "\<not> same_image sample_chat_world (request_finished sample_chat_env sample_chat_result sample_submission sample_chat_world)"
    by (simp add: same_image_def operations_left_def sample_chat_result_def zero_result_def sample_chat_response_def
        levels_batch_def)
  from image_changed_only_if_usable [OF this] show ?thesis
    by (simp add: sample_chat_world_def executed_def map_filter_def)
qed

subsection \<open>Live edits\<close>

text \<open>The parts of the window that the labels and messages leave alone.\<close>

definition request_view :: "agent_chat \<Rightarrow> nat option \<times> cstr \<times> nat \<times> bool \<times> bool \<times> bool" where
  "request_view c = (ac_active_request c, ac_active_request_id c, ac_active_request_live_applied_count c,
     ac_active_request_canceling c, ac_is_loading c, ac_multi_turn_enabled c)"

lemma request_view_simps [simp]:
  "request_view (session_upd k f c) = request_view c" "request_view (widgets_upd g c) = request_view c"
  "request_view (sync_current_session c) = request_view c" "request_view (update_sensitivity c) = request_view c"
  "request_view (set_status s c) = request_view c" "request_view (set_error s c) = request_view c"
  "request_view (append_message a s c) = request_view c"
  "request_view (update_refinement_status n m c) = request_view c"
proof -
  show s: "request_view (session_upd k f c) = request_view c" for k f c
    by (simp add: request_view_def session_upd_def split: option.splits)
  show g: "request_view (widgets_upd g c) = request_view c" for g c by (simp add: request_view_def widgets_upd_def)
  show y: "request_view (sync_current_session c) = request_view c" for c by (simp add: sync_current_session_def s)
  show "request_view (update_sensitivity c) = request_view c" by (simp add: update_sensitivity_def g Let_def)
  show st: "request_view (set_status s c) = request_view c" for s c by (simp add: set_status_def g y)
  show "request_view (set_error s c) = request_view c" by (simp add: set_error_def g y)
  show "request_view (append_message a s c) = request_view c" by (simp add: append_message_def g y)
  have "request_view (c\<lparr>ac_active_request_refinement_pass_index := n, ac_active_request_refinement_max_passes := m\<rparr>)
      = request_view c" by (simp add: request_view_def)
  then show "request_view (update_refinement_status n m c) = request_view c"
    by (simp add: update_refinement_status_def Let_def st)
qed

lemma request_view_eq:
  "request_view c = request_view c' \<longleftrightarrow> ac_active_request c = ac_active_request c'
     \<and> ac_active_request_id c = ac_active_request_id c'
     \<and> ac_active_request_live_applied_count c = ac_active_request_live_applied_count c'
     \<and> ac_active_request_canceling c = ac_active_request_canceling c'
     \<and> ac_is_loading c = ac_is_loading c' \<and> ac_multi_turn_enabled c = ac_multi_turn_enabled c'"
  by (simp add: request_view_def)

lemma refinement_status_fields [simp]:
  "ac_active_request (update_refinement_status n m c) = ac_active_request c"
  "ac_active_request_id (update_refinement_status n m c) = ac_active_request_id c"
  "ac_active_request_live_applied_count (update_refinement_status n m c) = ac_active_request_live_applied_count c"
  using request_view_simps(8) [of n m c] by (simp_all only: request_view_eq)

lemma cancel_drops_handle:
  "ac_active_request (cw_chat (cancel_active_request s r w)) = None"
proof -
  have view: "ac_active_request (f c) = ac_active_request c" if "request_view (f c) = request_view c" for f c
    using that by (simp add: request_view_eq)
  have loading: "ac_active_request (set_loading b c) = ac_active_request c" for b c
    by (simp add: set_loading_def update_sensitivity_def widgets_upd_def Let_def)
  show ?thesis
    by (auto simp: cancel_active_request_def Let_def drop_active_request_handle_def view loading
        split: option.splits)
qed

text \<open>The operations executed since \<open>done\<close> are the first \<open>n\<close> operations of the response.\<close>

definition executed_prefix ::
  "dt_agent_chat_operation list list \<Rightarrow> dt_agent_chat_operation list \<Rightarrow> chat_world \<Rightarrow> bool" where
  "executed_prefix earlier ops w \<longleftrightarrow> (\<exists>bs. executed w = earlier @ bs
     \<and> concat bs = take (ac_active_request_live_applied_count (cw_chat w)) ops)"

lemma take_drop_take: "n \<le> m \<Longrightarrow> take n ops @ drop n (take m ops) = take m ops"
  by (metis append_take_drop_id min.absorb1 take_take)

lemma apply_live_edits_prefix:
  assumes "executed_prefix earlier ops w"
    and "\<forall>os. resp_operations (pg_response p) = Some os \<longrightarrow> prefix os ops"
    and step: "apply_live_edits cx p w = (ok, w')"
  shows "(if ok then executed_prefix earlier ops w'
            \<and> ac_active_request (cw_chat w') = ac_active_request (cw_chat w)
            \<and> ac_active_request_id (cw_chat w') = ac_active_request_id (cw_chat w)
          else ac_active_request (cw_chat w') = None)"
proof -
  let ?n = "ac_active_request_live_applied_count (cw_chat w)" and ?os = "resp_operations (pg_response p)"
  show ?thesis
  proof (cases "wd_view_darkroom (cw_world w) \<and> pg_has_response p \<and> ?os \<noteq> None \<and> ?n < live_edit_count p")
    case False
    with step assms(1) show ?thesis by (auto simp: apply_live_edits_def Let_def)
  next
    case True
    then obtain os where os: "?os = Some os" by auto
    with True have n: "live_edit_count p = length os" "?n < length os" by (auto simp: live_edit_count_def)
    from assms(2) os have os_eq: "os = take (length os) ops" by (metis prefix_def append_eq_conv_conj)
    obtain r rep e w1 where a: "apply_operation_range cx ?os ?n dt_agent_execution_report_init w = (r, rep, e, w1)"
      by (metis prod_cases4)
    note ex = apply_range_executed [OF a]
    show ?thesis
    proof (cases r)
      case False
      with step a True show ?thesis
        by (auto simp: apply_live_edits_def Let_def cancel_drops_handle)
    next
      case r: True
      let ?c = "(cw_chat w1)\<lparr>ac_active_request_live_applied_count := length os\<rparr>"
      have w': "ok" "executed w' = executed w1" "request_view (cw_chat w') = request_view ?c"
        using step a True r n by (auto simp: apply_live_edits_def Let_def)
      from assms(1) obtain bs where bs: "executed w = earlier @ bs" "concat bs = take ?n ops"
        by (auto simp: executed_prefix_def)
      have "executed w' = earlier @ (bs @ [drop ?n os])" using w'(2) ex(1) os n(2) bs(1) by simp
      moreover have "concat (bs @ [drop ?n os]) = take (length os) ops"
        using bs(2) n(2) take_drop_take [of ?n "length os" ops] os_eq by simp
      moreover have "ac_active_request_live_applied_count (cw_chat w') = length os"
        using w'(3) by (simp add: request_view_eq)
      ultimately have "executed_prefix earlier ops w'" by (auto simp: executed_prefix_def)
      with w'(1,3) ex(3) show ?thesis by (simp add: request_view_eq)
    qed
  qed
qed

lemma executed_prefix_view:
  assumes "executed w' = executed w" "request_view (cw_chat w') = request_view (cw_chat w)"
  shows "executed_prefix earlier ops w' = executed_prefix earlier ops w"
  using assms by (simp add: executed_prefix_def request_view_eq)

lemma progress_found_prefix:
  assumes pre: "executed_prefix earlier ops w"
    and os: "\<forall>os. resp_operations (pg_response p) = Some os \<longrightarrow> prefix os ops"
    and step: "progress_found cx p w = (ok, w')"
  shows "(if ok then executed_prefix earlier ops w'
            \<and> ac_active_request (cw_chat w') = ac_active_request (cw_chat w)
            \<and> ac_active_request_id (cw_chat w') = ac_active_request_id (cw_chat w)
          else ac_active_request (cw_chat w') = None)"
proof -
  let ?w = "chat_upd (\<lambda>c. c
                \<lparr>ac_active_request_tool_calls_used := pg_tool_calls_used p,
                 ac_active_request_tool_calls_max :=
                   (if 0 < pg_tool_calls_max p then pg_tool_calls_max p
                    else ac_active_request_tool_calls_max c)\<rparr>) w"
  have same: "executed_prefix earlier ops ?w" "request_view (cw_chat ?w) = request_view (cw_chat w)"
    using pre by (simp_all add: executed_prefix_def request_view_eq)
  obtain r w1 where a: "apply_live_edits cx p ?w = (r, w1)" by force
  note p = apply_live_edits_prefix [OF same(1) os a]
  show ?thesis
  proof (cases r)
    case False
    with step a p show ?thesis by (auto simp: progress_found_def Let_def)
  next
    case True
    have "ok \<and> executed w' = executed w1 \<and> request_view (cw_chat w') = request_view (cw_chat w1)"
      using step a True by (auto simp: progress_found_def Let_def split: if_splits)
    with p True same(2) show ?thesis
      by (auto simp: request_view_eq executed_prefix_view [of w' w1])
  qed
qed

lemma progress_finished_prefix:
  assumes pre: "executed_prefix earlier ops w"
    and os: "\<forall>os. resp_operations (pg_response p) = Some os \<longrightarrow> prefix os ops"
  shows "ac_active_request (cw_chat (progress_finished cx p w)) = None
    \<or> executed_prefix earlier ops (progress_finished cx p w)
      \<and> ac_active_request_id (cw_chat (progress_finished cx p w)) = ac_active_request_id (cw_chat w)"
proof -
  obtain r w1 where a: "(if pg_found p then progress_found cx p w else (True, w)) = (r, w1)" by force
  have p: "(if r then executed_prefix earlier ops w1
            \<and> ac_active_request (cw_chat w1) = ac_active_request (cw_chat w)
            \<and> ac_active_request_id (cw_chat w1) = ac_active_request_id (cw_chat w)
          else ac_active_request (cw_chat w1) = None)"
    using a pre progress_found_prefix [OF pre os] by (auto split: if_splits)
  have v: "executed_prefix earlier ops (chat_upd (\<lambda>c. update_refinement_status (f c) (g c) c) w1)
      = executed_prefix earlier ops w1" for f g by (simp add: executed_prefix_def)
  show ?thesis
    using a p pre v by (cases r) (auto simp: progress_finished_def Let_def)
qed

lemma ignored_without_handle: "ac_active_request (cw_chat w) = None \<Longrightarrow> progress_finished cx p w = w"
  by (simp add: progress_finished_def Let_def)

lemma progress_run_prefix:
  assumes "executed_prefix earlier ops w"
    and "\<forall>p \<in> set ps. \<forall>os. resp_operations (pg_response p) = Some os \<longrightarrow> prefix os ops"
  shows "ac_active_request (cw_chat (fold (progress_finished cx) ps w)) = None
    \<or> executed_prefix earlier ops (fold (progress_finished cx) ps w)
      \<and> ac_active_request_id (cw_chat (fold (progress_finished cx) ps w)) = ac_active_request_id (cw_chat w)"
  using assms
proof (induction ps arbitrary: w)
  case (Cons p ps)
  have os: "\<forall>os. resp_operations (pg_response p) = Some os \<longrightarrow> prefix os ops" using Cons.prems(2) by simp
  from progress_finished_prefix [OF Cons.prems(1) os, of cx] show ?case
  proof
    assume "ac_active_request (cw_chat (progress_finished cx p w)) = None"
    then have "fold (progress_finished cx) ps (progress_finished cx p w) = progress_finished cx p w"
      by (induction ps) (simp_all add: ignored_without_handle)
    with \<open>ac_active_request (cw_chat (progress_finished cx p w)) = None\<close> show ?thesis by simp
  next
    assume a: "executed_prefix earlier ops (progress_finished cx p w)
      \<and> ac_active_request_id (cw_chat (progress_finished cx p w)) = ac_active_request_id (cw_chat w)"
    with Cons.IH [of "progress_finished cx p w"] Cons.prems(2) show ?thesis by simp
  qed
qed simp

text \<open>
  C11: Live edits and the final response together execute every operation of the response once and in
  order, under these conditions: the reports and the result are those of the active request, no live
  edit was applied before, every report carries a beginning of the operation list of the response, no
  application failed (the request is still active after the reports), and the response is usable after
  them.  Then the batches executed since the request was sent are a division of that list.
\<close>

theorem operations_executed_once:
  assumes "submission_matches_active_request (cw_chat w) sub"
    and "ac_active_request_live_applied_count (cw_chat w) = 0"
    and "\<forall>p \<in> set ps. \<forall>os. resp_operations (pg_response p) = Some os \<longrightarrow> prefix os ops"
    and "w' = fold (progress_finished cx) ps w" "ac_active_request (cw_chat w') \<noteq> None"
    and "resp_operations (cr_response result) = Some ops"
    and "response_usable cx result sub (ac_active_request_live_applied_count (cw_chat w')) w'"
  shows "\<exists>batches. executed (request_finished cx result sub w') = executed w @ batches \<and> concat batches = ops"
proof -
  have "executed_prefix (executed w) ops w" using assms(2) by (simp add: executed_prefix_def)
  from progress_run_prefix [OF this assms(3), of cx] assms(4,5)
  have p: "executed_prefix (executed w) ops w'" and i: "ac_active_request_id (cw_chat w') = ac_active_request_id (cw_chat w)"
    by auto
  let ?n = "ac_active_request_live_applied_count (cw_chat w')"
  have "submission_matches_active_request (cw_chat w') sub"
    using assms(1) i unfolding submission_matches_active_request_def by metis
  then have n: "live_applied_for sub (cw_chat w') = ?n" by (simp add: live_applied_for_def)
  have "operations_left result ?n = drop ?n ops"
    using assms(6,7) by (simp add: operations_left_def response_usable_def Let_def)
  with usable_executes [of cx result sub w'] assms(7) n
  have e: "executed (request_finished cx result sub w') = executed w' @ (if drop ?n ops = [] then [] else [drop ?n ops])"
    by simp
  from p obtain bs where bs: "executed w' = executed w @ bs" "concat bs = take ?n ops"
    by (auto simp: executed_prefix_def)
  have "concat (bs @ (if drop ?n ops = [] then [] else [drop ?n ops])) = ops"
    using bs(2) by (auto simp: append_take_drop_id)
  with e bs(1) show ?thesis by (metis append.assoc)
qed

theorem operations_executed_once_witness:
  "\<exists>batches. executed (request_finished sample_chat_env sample_chat_result sample_submission
       (progress_finished sample_chat_env sample_chat_progress sample_chat_world)) = batches
     \<and> concat batches = levels_batch"
proof -
  let ?w' = "fold (progress_finished sample_chat_env) [sample_chat_progress] sample_chat_world"
  obtain c es where w': "?w' = sample_chat_world\<lparr>cw_world := levels_world False, cw_effects := es, cw_chat := c\<rparr>"
    "ac_active_request c = Some 0" "ac_active_request_id c = Some ''request''"
    "ac_conversation_id c = Some ''talk''" "ac_image_session_id c = Some ''image''"
    using sample_progress_applied by auto
  have "response_usable sample_chat_env sample_chat_result sample_submission n ?w'" for n
    by (rule sample_usable [of _ False]) (simp_all add: w' del: fold.simps)
  moreover have "prefix [levels_batch ! 0] levels_batch" by (subst (2) levels_batch_list) simp
  ultimately show ?thesis
    using operations_executed_once [of sample_chat_world sample_submission "[sample_chat_progress]" levels_batch ?w'
        sample_chat_env sample_chat_result] w'(1,2)
    by (simp add: submission_matches_active_request_def)
      (simp add: sample_chat_world_def sample_chat_def sample_submission_def sample_chat_progress_def
        sample_chat_result_def sample_chat_response_def zero_progress_def zero_result_def executed_def map_filter_def)
qed

end
