(* ===== verification/Chat_Session.thy ===== *)
theory Chat_Session
  imports Chat_Safety
begin

text \<open>
  The chat window of \<open>views/darkroom.c\<close>, part four: entering and leaving the darkroom, the options as
  the user or the code sets them, showing the popup; and what switching images keeps: every session
  comes back as it was left.
\<close>

subsection \<open>Options, as widgets\<close>

text \<open>
  \<open>gtk_toggle_button_set_active\<close> and \<open>gtk_spin_button_set_value\<close> (range 1 to \<open>G_MAXINT\<close>) emit their
  signal only when the value changes; the handler then reads the new value.  A click of the user does
  the same.
\<close>

definition set_multi_turn_button :: "bool \<Rightarrow> chat_world \<Rightarrow> chat_world" where
  "set_multi_turn_button active w =
     (if wg_multi_turn_active (ac_widgets (cw_chat w)) = active then w
      else multi_turn_toggled active (chat_upd (widgets_upd (\<lambda>g. g\<lparr>wg_multi_turn_active := active\<rparr>)) w))"

definition set_turn_limit_spin :: "int \<Rightarrow> chat_world \<Rightarrow> chat_world" where
  "set_turn_limit_spin v w =
     (let v = min (max v 1) G_MAXINT
      in if wg_turn_limit (ac_widgets (cw_chat w)) = v then w
         else max_turns_changed v (chat_upd (widgets_upd (\<lambda>g. g\<lparr>wg_turn_limit := v\<rparr>)) w))"

definition set_fast_mode_button :: "bool \<Rightarrow> chat_world \<Rightarrow> chat_world" where
  "set_fast_mode_button active w =
     (if wg_fast_mode_active (ac_widgets (cw_chat w)) = active then w
      else fast_mode_toggled active (chat_upd (widgets_upd (\<lambda>g. g\<lparr>wg_fast_mode_active := active\<rparr>)) w))"

text \<open>\<open>gtk_widget_show_all\<close> also shows the error label, empty or not, and the spinner, turning or not.\<close>

definition display_window :: "chat_world \<Rightarrow> chat_world" where
  "display_window = chat_upd (widgets_upd (\<lambda>g. g\<lparr>wg_error_visible := True, wg_spinner_visible := True\<rparr>))"

subsection \<open>Entering and leaving the darkroom\<close>

definition dup_env :: "chat_env \<Rightarrow> string \<Rightarrow> cstr" where
  "dup_env cx name = (let value = cx_getenv cx name in if nonempty value then value else None)"

definition env_enabled :: "chat_env \<Rightarrow> string \<Rightarrow> bool" where
  "env_enabled cx name = nonempty (cx_getenv cx name)"

definition dup_env_pair :: "chat_env \<Rightarrow> string \<Rightarrow> string \<Rightarrow> cstr" where
  "dup_env_pair cx primary fallback =
     (let primary_value = dup_env cx primary in if primary_value = None then dup_env cx fallback else primary_value)"

text \<open>The settings that are read; \<open>ec_fast_mode\<close> is None when its key does not exist.\<close>

record enter_conf =
  ec_max_passes :: int
  ec_multi_turn :: bool
  ec_fast_mode :: "bool option"

definition entered_max_passes :: "chat_env \<Rightarrow> enter_conf \<Rightarrow> nat" where
  "entered_max_passes cx conf =
     (if env_enabled cx ''DARKTABLE_AGENT_TEST_MULTI_TURN_MAX_TURNS''
      then min (max (cx_strtoull cx (the (cx_getenv cx ''DARKTABLE_AGENT_TEST_MULTI_TURN_MAX_TURNS''))) 1)
             (nat G_MAXINT)
      else if 0 < ec_max_passes conf then to_guint (ec_max_passes conf)
      else DT_AGENT_CHAT_DEFAULT_MAX_REFINEMENT_TURNS)"

definition entered_multi_turn :: "chat_env \<Rightarrow> enter_conf \<Rightarrow> bool" where
  "entered_multi_turn cx conf =
     (if env_enabled cx ''DARKTABLE_AGENT_TEST_MULTI_TURN_ENABLED''
      then cx_getenv cx ''DARKTABLE_AGENT_TEST_MULTI_TURN_ENABLED'' \<noteq> Some ''0''
      else ec_multi_turn conf)"

definition chat_enter :: "chat_env \<Rightarrow> enter_conf \<Rightarrow> chat_world \<Rightarrow> chat_world" where
  "chat_enter cx conf w =
     (let w = chat_upd (\<lambda>c. c
            \<lparr>ac_autorun_message := dup_env_pair cx ''DARKTABLE_AGENT_TEST_AUTORUN_PROMPT''
               ''DARKTABLE_AGENT_AUTORUN_MESSAGE'',
             ac_test_report_path := dup_env cx ''DARKTABLE_AGENT_TEST_RESULT_FILE'',
             ac_exit_after_autorun := env_enabled cx ''DARKTABLE_AGENT_TEST_AUTORUN_QUIT_AFTER_MS''
               \<or> env_enabled cx ''DARKTABLE_AGENT_EXIT_AFTER_AUTORUN'',
             ac_max_refinement_passes := entered_max_passes cx conf,
             ac_multi_turn_enabled := entered_multi_turn cx conf,
             ac_fast_mode_enabled := (case ec_fast_mode conf of None \<Rightarrow> True | Some b \<Rightarrow> b)\<rparr>) w;
          w = set_multi_turn_button (ac_multi_turn_enabled (cw_chat w)) w;
          w = set_turn_limit_spin (int (chat_max_refinement_passes (cw_chat w))) w;
          w = set_fast_mode_button (ac_fast_mode_enabled (cw_chat w)) w;
          w = switch_to_image_session cx (chat_current_image_id cx w) False w
      in chat_upd (\<lambda>c. (update_sensitivity c)
           \<lparr>ac_autorun_source := (if nonempty (ac_autorun_message c) then Some Autorun_Timer else None),
            ac_autorun_sent := False\<rparr>) w)"

definition chat_leave :: "chat_world \<Rightarrow> chat_world" where
  "chat_leave = chat_upd sync_current_session"

subsection \<open>The widgets follow the state\<close>

text \<open>The widgets as the state demands them.\<close>

definition refresh_widgets :: "agent_chat \<Rightarrow> agent_chat" where
  "refresh_widgets c = update_sensitivity (widgets_upd (\<lambda>g. g
     \<lparr>wg_error_visible := wg_error g \<noteq> [],
      wg_spinner_visible := ac_is_loading c,
      wg_spinner := ac_is_loading c,
      wg_multi_turn_active := ac_multi_turn_enabled c,
      wg_turn_limit := min (int (ac_max_refinement_passes c)) G_MAXINT,
      wg_fast_mode_active := ac_fast_mode_enabled c\<rparr>) c)"

text \<open>A session that the window has loaded or created.\<close>

definition session_complete :: "dt_agent_chat_session \<Rightarrow> bool" where
  "session_complete s \<longleftrightarrow> cs_image_session_id s \<noteq> None \<and> cs_conversation_id s \<noteq> None
     \<and> cs_transcript s \<noteq> None \<and> cs_status_text s \<noteq> None \<and> 1 \<le> cs_last_refinement_max_passes s"

text \<open>The label cannot tell no error from an empty one.\<close>

definition session_error_shown :: "dt_agent_chat_session \<Rightarrow> dt_agent_chat_session" where
  "session_error_shown s = s\<lparr>cs_error_text := Some (str_or (cs_error_text s) [])\<rparr>"

lemma lookup_session_update [simp]:
  "lookup_session k (c\<lparr>ac_image_sessions := AList.update k' s al\<rparr>)
     = (if k = k' then Some s else map_of al k)"
  by (simp add: lookup_session_def update_conv')

lemma lookup_session_upd [simp]:
  "lookup_session k (session_upd k' f c)
     = (if k = k' then map_option f (lookup_session k c) else lookup_session k c)"
  by (auto simp: session_upd_def lookup_session_def update_conv' split: option.splits)

lemma lookup_session_cong: "ac_image_sessions c' = ac_image_sessions c \<Longrightarrow> lookup_session k c' = lookup_session k c"
  by (simp add: lookup_session_def)

text \<open>The session of the image that is shown, after it was saved.\<close>

definition saved_session :: "agent_chat \<Rightarrow> dt_agent_chat_session \<Rightarrow> dt_agent_chat_session" where
  "saved_session c s =
     (if ac_conversation_id c = None \<or> ac_image_session_id c = None then s
      else s\<lparr>cs_image_session_id := ac_image_session_id c, cs_conversation_id := ac_conversation_id c,
         cs_transcript := Some (wg_conversation (ac_widgets c)), cs_status_text := Some (wg_status (ac_widgets c)),
         cs_error_text := Some (wg_error (ac_widgets c)), cs_is_loading := ac_is_loading c,
         cs_last_refinement_enabled := ac_multi_turn_enabled c,
         cs_last_refinement_max_passes := chat_max_refinement_passes c,
         cs_last_fast_mode_enabled := ac_fast_mode_enabled c\<rparr>)"

lemma sync_only_sessions:
  "\<exists>al. sync_current_session c = c\<lparr>ac_image_sessions := al\<rparr>"
proof (cases "lookup_session (ac_current_image_id c) c")
  case None
  then have "sync_current_session c = c\<lparr>ac_image_sessions := ac_image_sessions c\<rparr>"
    by (simp add: sync_current_session_def session_upd_def)
  then show ?thesis ..
next
  case (Some s)
  show ?thesis
  proof (cases "ac_conversation_id c = None \<or> ac_image_session_id c = None")
    case True
    then have "sync_current_session c = c\<lparr>ac_image_sessions := ac_image_sessions c\<rparr>"
      by (simp add: sync_current_session_def)
    then show ?thesis ..
  next
    case False
    with Some show ?thesis by (auto simp: sync_current_session_def session_upd_def)
  qed
qed

lemma lookup_sync:
  "lookup_session k (sync_current_session c)
     = (if k = ac_current_image_id c then map_option (saved_session c) (lookup_session k c) else lookup_session k c)"
  by (cases "lookup_session k c") (auto simp: sync_current_session_def saved_session_def)

lemma load_session_refresh:
  "load_session s c = refresh_widgets (widgets_upd (\<lambda>g. g
       \<lparr>wg_conversation := str_or (cs_transcript s) [], wg_status := str_or (cs_status_text s) ready_status,
        wg_error := str_or (cs_error_text s) []\<rparr>)
     (c\<lparr>ac_image_session_id := cs_image_session_id s, ac_conversation_id := cs_conversation_id s,
        ac_is_loading := cs_is_loading s, ac_multi_turn_enabled := cs_last_refinement_enabled s,
        ac_max_refinement_passes := max 1 (cs_last_refinement_max_passes s),
        ac_fast_mode_enabled := cs_last_fast_mode_enabled s\<rparr>))"
proof -
  have "nonempty (cs_error_text s) \<longleftrightarrow> str_or (cs_error_text s) [] \<noteq> []"
    by (cases "cs_error_text s") (simp_all add: nonempty_def)
  then show ?thesis
    by (simp add: load_session_def refresh_widgets_def replace_transcript_def widgets_upd_def update_sensitivity_def Let_def)
qed

text \<open>Switching without a new chat: the shown session is saved, then that of the image is loaded.\<close>

lemma switch_loads:
  assumes "1 \<le> ac_max_refinement_passes (cw_chat w)"
  obtains s al where
    "cw_chat (switch_to_image_session cx k False w)
       = load_session s ((cw_chat w)\<lparr>ac_image_sessions := al, ac_current_image_id := k\<rparr>)"
    "map_of al k = Some s" "\<And>j. j \<noteq> k \<Longrightarrow> map_of al j = lookup_session j (sync_current_session (cw_chat w))"
    "\<And>s'. lookup_session k (sync_current_session (cw_chat w)) = Some s' \<Longrightarrow> s = s'"
    "lookup_session k (sync_current_session (cw_chat w)) = None \<Longrightarrow> session_complete s"
proof -
  let ?c = "cw_chat w" and ?sync = "sync_current_session (cw_chat w)"
  from sync_only_sessions obtain al where al: "?sync = ?c\<lparr>ac_image_sessions := al\<rparr>" by blast
  have first: "(if ac_current_image_id ?c \<noteq> 0 \<or> ac_conversation_id ?c \<noteq> None \<or> ac_image_session_id ?c \<noteq> None
      then chat_upd sync_current_session w else w) = chat_upd sync_current_session w"
    by (simp add: chat_upd_def sync_current_session_def)
  show thesis
  proof (cases "lookup_session k ?sync")
    case (Some s)
    show thesis
    proof (rule that [of s al])
      show "cw_chat (switch_to_image_session cx k False w)
          = load_session s (?c\<lparr>ac_image_sessions := al, ac_current_image_id := k\<rparr>)"
        using Some unfolding switch_to_image_session_def first Let_def
        by (simp add: lookup_or_create_session_def al lookup_session_def)
    qed (use Some in \<open>simp_all add: al lookup_session_def\<close>)
  next
    case None
    define s where "s = zero_session
      \<lparr>cs_image_session_id := Some (cx_uuid cx (cw_uuids w)), cs_conversation_id := Some (cx_uuid cx (cw_uuids w + 1)),
       cs_transcript := Some chat_default_transcript, cs_status_text := Some ready_status,
       cs_last_refinement_enabled := ac_multi_turn_enabled ?c, cs_last_refinement_pass_index := 1,
       cs_last_refinement_max_passes := ac_max_refinement_passes ?c,
       cs_last_fast_mode_enabled := ac_fast_mode_enabled ?c\<rparr>"
    show thesis
    proof (rule that [of s "AList.update k s al"])
      show "cw_chat (switch_to_image_session cx k False w)
          = load_session s (?c\<lparr>ac_image_sessions := AList.update k s al, ac_current_image_id := k\<rparr>)"
        using None unfolding switch_to_image_session_def first Let_def
        by (simp add: lookup_or_create_session_def g_uuid_string_random_def al s_def Let_def lookup_session_def update_conv')
      show "session_complete s" using assms by (simp add: session_complete_def s_def zero_session_def)
    qed (use None in \<open>simp_all add: al lookup_session_def update_conv'\<close>)
  qed
qed

lemma saved_after_load:
  "session_complete s \<Longrightarrow> saved_session (load_session s c) s = session_error_shown s"
  by (cases "cs_transcript s"; cases "cs_status_text s")
    (auto simp: saved_session_def load_session_refresh refresh_widgets_def update_sensitivity_def widgets_upd_def
      session_complete_def session_error_shown_def chat_max_refinement_passes_def Let_def max_def
      intro!: dt_agent_chat_session.equality)

lemma load_after_saved:
  assumes "ac_conversation_id c \<noteq> None" "ac_image_session_id c \<noteq> None" "1 \<le> ac_max_refinement_passes c"
  shows "load_session (saved_session c s)
      ((load_session s' (c\<lparr>ac_image_sessions := al, ac_current_image_id := b\<rparr>))
         \<lparr>ac_image_sessions := al', ac_current_image_id := ac_current_image_id c\<rparr>)
    = refresh_widgets (c\<lparr>ac_image_sessions := al'\<rparr>)"
proof -
  have m: "max 1 (chat_max_refinement_passes c) = ac_max_refinement_passes c"
    using assms(3) by (simp add: chat_max_refinement_passes_def)
  have ids: "(ac_conversation_id c = None \<or> ac_image_session_id c = None) = False" using assms(1,2) by simp
  show ?thesis
    unfolding load_session_refresh saved_session_def ids if_False
    by (simp add: m refresh_widgets_def update_sensitivity_def widgets_upd_def Let_def del: One_nat_def)
qed

text \<open>
  C17: Going to another image and back changes nothing.  When the window shows image \<open>a\<close> and its session
  exists, then after switching to \<open>b\<close> and back to \<open>a\<close> the whole state of the window is the one it had
  (conversation, status, error, options, active request, entry), with its widgets as the state demands
  them; the session of \<open>b\<close>, if it was complete, and all others are as before.
\<close>

theorem session_switch_roundtrip:
  assumes "lookup_session a (cw_chat w) \<noteq> None" "ac_current_image_id (cw_chat w) = a" "b \<noteq> a"
    and "ac_conversation_id (cw_chat w) \<noteq> None" "ac_image_session_id (cw_chat w) \<noteq> None"
    and "1 \<le> ac_max_refinement_passes (cw_chat w)"
  shows "\<exists>sessions.
      cw_chat (switch_to_image_session cx a False (switch_to_image_session cx b False w))
        = refresh_widgets ((cw_chat w)\<lparr>ac_image_sessions := sessions\<rparr>)
    \<and> (\<forall>k. k \<noteq> a \<and> k \<noteq> b \<longrightarrow> map_of sessions k = lookup_session k (cw_chat w))
    \<and> (\<forall>s. lookup_session b (cw_chat w) = Some s \<and> session_complete s
          \<longrightarrow> map_of sessions b = Some (session_error_shown s))"
proof -
  let ?c = "cw_chat w" and ?w1 = "switch_to_image_session cx b False w"
  obtain sa where sa: "lookup_session a ?c = Some sa" using assms(1) by auto
  obtain sb al where one: "cw_chat ?w1 = load_session sb (?c\<lparr>ac_image_sessions := al, ac_current_image_id := b\<rparr>)"
    "map_of al b = Some sb" "\<And>j. j \<noteq> b \<Longrightarrow> map_of al j = lookup_session j (sync_current_session ?c)"
    "\<And>s'. lookup_session b (sync_current_session ?c) = Some s' \<Longrightarrow> sb = s'"
    by (rule switch_loads [OF assms(6), of cx b]) blast
  have w1: "1 \<le> ac_max_refinement_passes (cw_chat ?w1)" "ac_current_image_id (cw_chat ?w1) = b"
    "lookup_session k (cw_chat ?w1) = map_of al k" for k
    by (simp_all add: one(1) load_session_refresh refresh_widgets_def update_sensitivity_def widgets_upd_def Let_def
        lookup_session_def)
  obtain s al' where two: "cw_chat (switch_to_image_session cx a False ?w1)
      = load_session s ((cw_chat ?w1)\<lparr>ac_image_sessions := al', ac_current_image_id := a\<rparr>)"
    "\<And>j. j \<noteq> a \<Longrightarrow> map_of al' j = lookup_session j (sync_current_session (cw_chat ?w1))"
    "\<And>s'. lookup_session a (sync_current_session (cw_chat ?w1)) = Some s' \<Longrightarrow> s = s'"
    by (rule switch_loads [OF w1(1), of cx a]) blast
  have "lookup_session a (sync_current_session (cw_chat ?w1)) = Some (saved_session ?c sa)"
    using assms(2,3) one(3) [of a] sa by (simp add: lookup_sync w1)
  then have s: "s = saved_session ?c sa" using two(3) by blast
  have "cw_chat (switch_to_image_session cx a False ?w1) = refresh_widgets (?c\<lparr>ac_image_sessions := al'\<rparr>)"
    unfolding two(1) s one(1) using load_after_saved [OF assms(4,5,6)] assms(2) by simp
  moreover have "map_of al' k = lookup_session k ?c" if "k \<noteq> a" "k \<noteq> b" for k
    using that two(2) [of k] one(3) [of k] assms(2) by (simp add: lookup_sync w1)
  moreover have "map_of al' b = Some (session_error_shown s)"
    if "lookup_session b ?c = Some s" "session_complete s" for s
  proof -
    from that(1) assms(2,3) have "sb = s" using one(4) by (simp add: lookup_sync)
    with two(2) [of b] assms(3) one(2) saved_after_load [OF that(2)] show ?thesis
      by (simp add: lookup_sync w1(2,3)) (simp add: one(1))
  qed
  ultimately show ?thesis by blast
qed

lemma session_switch_roundtrip_witness:
  "\<exists>sessions. cw_chat (switch_to_image_session sample_chat_env 42 False
       (switch_to_image_session sample_chat_env 7 False
         (chat_upd (\<lambda>c. c\<lparr>ac_image_sessions := [(42, zero_session)]\<rparr>) sample_chat_world)))
     = refresh_widgets (sample_chat\<lparr>ac_image_sessions := sessions\<rparr>)"
  using session_switch_roundtrip [of 42 "chat_upd (\<lambda>c. c\<lparr>ac_image_sessions := [(42, zero_session)]\<rparr>) sample_chat_world" 7
      sample_chat_env]
  by (auto simp: lookup_session_def sample_chat_world_def sample_chat_def)

end
