(* ===== verification/Chat_System.thy ===== *)
theory Chat_System
  imports Chat_Session Step_System
begin

text \<open>
  The chat window together with the client calls it has started.  The steps are the events of the
  window (user, timers, signals, other changes of the darkroom), each handler as a whole, and, for every
  request, the steps of its worker and the deliveries of the main loop, which run the callbacks of the
  window.  The invariant: every request handle has one owner and is released.
\<close>

subsection \<open>Events and steps\<close>

datatype chat_event =
    Type_Entry string
  | Send_Clicked
  | Cancel_Clicked
  | New_Chat_Clicked
  | Click_Multi_Turn bool
  | Change_Turn_Limit int
  | Click_Fast_Mode bool
  | Show_Window
  | Enter_Darkroom enter_conf
  | Leave_Darkroom
  | Image_Changed
  | World_Changed world
  | Autorun_Fires
  | Quit_Fires
  | Pipe_Finished

fun window_event :: "chat_env \<Rightarrow> chat_event \<Rightarrow> chat_world \<Rightarrow> chat_world" where
  "window_event cx (Type_Entry t) w = chat_upd (widgets_upd (\<lambda>g. g\<lparr>wg_entry := t\<rparr>)) w"
| "window_event cx Send_Clicked w = send_clicked cx w"
| "window_event cx Cancel_Clicked w = cancel_clicked w"
| "window_event cx New_Chat_Clicked w = new_chat_clicked cx w"
| "window_event cx (Click_Multi_Turn b) w = set_multi_turn_button b w"
| "window_event cx (Change_Turn_Limit v) w = set_turn_limit_spin v w"
| "window_event cx (Click_Fast_Mode b) w = set_fast_mode_button b w"
| "window_event cx Show_Window w = display_window w"
| "window_event cx (Enter_Darkroom conf) w = chat_enter cx conf w"
| "window_event cx Leave_Darkroom w = chat_leave w"
| "window_event cx Image_Changed w = image_changed cx w"
| "window_event cx (World_Changed wl) w = w\<lparr>cw_world := wl\<rparr>"
| "window_event cx Autorun_Fires w =
     (if ac_autorun_source (cw_chat w) = Some Autorun_Timer then autorun_if_requested cx w else w)"
| "window_event cx Quit_Fires w =
     (case ac_autorun_source (cw_chat w) of Some (Quit_Timer ms) \<Rightarrow> quit_after_autorun w | _ \<Rightarrow> w)"
| "window_event cx Pipe_Finished w = pipe_finished cx w"

definition call_of :: "chat_world \<Rightarrow> nat \<Rightarrow> chat_call" where
  "call_of w i = fst (cw_requests w ! i)"

definition submission_of :: "chat_world \<Rightarrow> nat \<Rightarrow> dt_agent_chat_submission" where
  "submission_of w i = snd (snd (cw_requests w ! i))"

text \<open>The job of a request: its own copy of the request, and the progress callback of the window.\<close>

definition job_env_of :: "job_env \<Rightarrow> chat_world \<Rightarrow> nat \<Rightarrow> job_env" where
  "job_env_of je w i = je\<lparr>je_request := fst (snd (cw_requests w ! i)), je_has_progress_callback := True\<rparr>"

text \<open>The steps of request \<open>i\<close> outside the window's control; the deliveries are those of \<open>main_step\<close>.\<close>

inductive request_step :: "chat_env \<Rightarrow> job_env \<Rightarrow> nat \<Rightarrow> chat_world \<Rightarrow> chat_world \<Rightarrow> bool" for cx je i where
  worker: "i < length (cw_requests w) \<Longrightarrow> job_step (job_env_of je w i) (call_of w i) s
     \<Longrightarrow> request_step cx je i w (call_upd i (\<lambda>_. s) w)"
| progress: "i < length (cw_requests w) \<Longrightarrow> cc_main (call_of w i) = Progress p # rest
     \<Longrightarrow> main_step (call_of w i) s
     \<Longrightarrow> request_step cx je i w (progress_finished cx p (call_upd i (\<lambda>_. s) w))"
| result: "i < length (cw_requests w) \<Longrightarrow> cc_main (call_of w i) = Final r # rest
     \<Longrightarrow> main_step (call_of w i) s
     \<Longrightarrow> request_step cx je i w (request_finished cx r (submission_of w i) (call_upd i (\<lambda>_. s) w))"

inductive window_step :: "chat_env \<Rightarrow> job_env \<Rightarrow> chat_world \<Rightarrow> chat_world \<Rightarrow> bool" for cx je where
  event: "window_step cx je w (window_event cx e w)"
| dropped: "i < length (cw_requests w) \<Longrightarrow> queue_step (call_of w i) s
     \<Longrightarrow> window_step cx je w (call_upd i (\<lambda>_. s) w)"
| request: "request_step cx je i w w' \<Longrightarrow> window_step cx je w w'"

inductive_cases window_stepE: "window_step cx je w w'"
inductive_cases request_stepE: "request_step cx je i w w'"

subsection \<open>What the parts of the window do to the requests\<close>

definition handle_view :: "agent_chat \<Rightarrow> nat option \<times> cstr" where
  "handle_view c = (ac_active_request c, ac_active_request_id c)"

text \<open>The functions that leave the handle of the active request and its id alone.\<close>

lemma handle_view_widgets [simp]: "handle_view (widgets_upd f c) = handle_view c"
  by (simp add: handle_view_def widgets_upd_def)

lemma handle_view_session [simp]: "handle_view (session_upd k f c) = handle_view c"
  by (simp add: handle_view_def session_upd_def split: option.splits)

lemma handle_view_fields [simp]:
  "handle_view (c\<lparr>ac_image_sessions := al\<rparr>) = handle_view c"
  "handle_view (c\<lparr>ac_current_image_id := k\<rparr>) = handle_view c"
  "handle_view (c\<lparr>ac_is_loading := b\<rparr>) = handle_view c"
  "handle_view (c\<lparr>ac_autorun_source := src\<rparr>) = handle_view c"
  "handle_view (c\<lparr>ac_autorun_sent := b\<rparr>) = handle_view c"
  "handle_view (c\<lparr>ac_multi_turn_enabled := b\<rparr>) = handle_view c"
  "handle_view (c\<lparr>ac_fast_mode_enabled := b\<rparr>) = handle_view c"
  "handle_view (c\<lparr>ac_max_refinement_passes := n\<rparr>) = handle_view c"
  "handle_view (c\<lparr>ac_app_session_id := s\<rparr>) = handle_view c"
  "handle_view (c\<lparr>ac_image_session_id := s\<rparr>) = handle_view c"
  "handle_view (c\<lparr>ac_conversation_id := s\<rparr>) = handle_view c"
  "handle_view (c\<lparr>ac_autorun_message := s\<rparr>) = handle_view c"
  "handle_view (c\<lparr>ac_test_report_path := s\<rparr>) = handle_view c"
  "handle_view (c\<lparr>ac_exit_after_autorun := b\<rparr>) = handle_view c"
  "handle_view (c\<lparr>ac_active_request_canceling := b\<rparr>) = handle_view c"
  "handle_view (c\<lparr>ac_active_request_live_applied_count := n\<rparr>) = handle_view c"
  "handle_view (c\<lparr>ac_active_request_refinement_pass_index := n\<rparr>) = handle_view c"
  "handle_view (c\<lparr>ac_active_request_refinement_max_passes := n\<rparr>) = handle_view c"
  "handle_view (c\<lparr>ac_active_request_tool_calls_used := n\<rparr>) = handle_view c"
  "handle_view (c\<lparr>ac_active_request_tool_calls_max := n\<rparr>) = handle_view c"
  by (simp_all add: handle_view_def)

lemma handle_view_functions [simp]:
  "handle_view (sync_current_session c) = handle_view c" "handle_view (update_sensitivity c) = handle_view c"
  "handle_view (set_status s c) = handle_view c" "handle_view (set_error s c) = handle_view c"
  "handle_view (append_message a s c) = handle_view c" "handle_view (set_loading b c) = handle_view c"
  "handle_view (update_refinement_status n m c) = handle_view c"
  "handle_view (handle_transport_error s c) = handle_view c"
  "handle_view (load_session ss c) = handle_view c"
  "handle_view (on_session k f c) = handle_view c"
  "handle_view (append_operation_summary rep c) = handle_view c"
  "handle_view (submit_begin msg g u fm md px mx c) = handle_view c"
proof -
  show sync: "handle_view (sync_current_session c) = handle_view c" for c by (simp add: sync_current_session_def)
  show sens: "handle_view (update_sensitivity c) = handle_view c" for c by (simp add: update_sensitivity_def Let_def)
  show st: "handle_view (set_status s c) = handle_view c" for s c by (simp add: set_status_def sync)
  show er: "handle_view (set_error s c) = handle_view c" for s c by (simp add: set_error_def sync)
  show ap: "handle_view (append_message a s c) = handle_view c" for a s c by (simp add: append_message_def sync)
  show ld: "handle_view (set_loading b c) = handle_view c" for b c by (simp add: set_loading_def sens)
  show rs: "handle_view (update_refinement_status n m c) = handle_view c" for n m c
    by (simp add: update_refinement_status_def Let_def st)
  show "handle_view (handle_transport_error s c) = handle_view c"
    by (simp add: handle_transport_error_def Let_def st er ap)
  show "handle_view (load_session ss c) = handle_view c"
    by (simp add: load_session_refresh refresh_widgets_def sens)
  show "handle_view (on_session k f c) = handle_view c" by (simp add: on_session_def split: option.splits)
  show "handle_view (append_operation_summary rep c) = handle_view c"
    by (simp add: append_operation_summary_def Let_def ap)
  show "handle_view (submit_begin msg g u fm md px mx c) = handle_view c"
    by (simp add: submit_begin_def Let_def ap rs ld er)
qed

subsection \<open>What every handler keeps\<close>

text \<open>
  The contract between the handlers and a property of the requests: the property looks at the requests
  and at the active handle and id only, cancelling keeps it, and so does starting a request and making
  it the active one.  Every handler is put together from such steps.
\<close>

lemma build_request_world:
  "snd (build_request cx m g f md p mx e w) = snd (g_uuid_string_random cx (ensure_app_session_id cx w))"
  by (simp add: build_request_def g_uuid_string_random_def Let_def split: prod.split bool.split option.split)

lemma build_request_id:
  "build_request cx m g f md p mx e w = ((True, request, e'), w') \<Longrightarrow> req_request_id request \<noteq> None"
  by (auto simp: build_request_def request_unusable_def Let_def split: prod.splits bool.splits option.splits if_splits)

lemma start_failed_same: "start_client_request cx request sub w = (Inl e, w') \<Longrightarrow> w' = w"
  by (auto simp: start_client_request_def Let_def split: sum.splits prod.splits)

locale window_contract =
  fixes P :: "chat_world \<Rightarrow> bool"
  assumes keeps_cong: "cw_requests w' = cw_requests w \<Longrightarrow> handle_view (cw_chat w') = handle_view (cw_chat w)
      \<Longrightarrow> P w' = P w"
    and keeps_cancel: "P w \<Longrightarrow> P (cancel_active_request s r w)"
    and keeps_start: "P w \<Longrightarrow> start_client_request cx request sub w = (Inr h, w') \<Longrightarrow> sub_request_id sub \<noteq> None
      \<Longrightarrow> P (set_active_request h (sub_request_id sub) w')"
begin

lemma keeps_upd [simp]: "handle_view (f (cw_chat w)) = handle_view (cw_chat w) \<Longrightarrow> P (chat_upd f w) = P w"
  by (rule keeps_cong) simp_all

lemma keeps_effect [simp]: "P (add_effect e w) = P w"
  by (rule keeps_cong) simp_all

lemma keeps_world [simp]: "P (w\<lparr>cw_world := wl\<rparr>) = P w" "P (w\<lparr>cw_uuids := n\<rparr>) = P w"
  by (rule keeps_cong; simp)+

lemma keeps_chat_fields [simp]:
  "handle_view c = handle_view (cw_chat w) \<Longrightarrow> P (w\<lparr>cw_chat := c\<rparr>) = P w"
  by (rule keeps_cong) simp_all

lemma keeps_report [simp]: "P (write_test_report cx s r er m e w) = P w"
  by (simp add: write_test_report_def Let_def)

lemma keeps_quit [simp]: "P (maybe_schedule_test_quit cx b w) = P w"
  by (simp add: maybe_schedule_test_quit_def)

lemma keeps_session [simp]: "P (lookup_or_create_session cx k w) = P w"
  by (simp add: lookup_or_create_session_def g_uuid_string_random_def Let_def split: option.splits)

lemma keeps_switch [simp]: "P (switch_to_image_session cx k f w) = P w"
  by (simp add: switch_to_image_session_def g_uuid_string_random_def Let_def split: option.splits)

lemma keeps_build: "build_request cx m g f md p mx e w = (r, w') \<Longrightarrow> P w' = P w"
  using build_request_world [of cx m g f md p mx e w]
  by (simp add: ensure_app_session_id_def g_uuid_string_random_def Let_def split: if_splits)

lemma keeps_failed [simp]: "P (submit_failed cx s m e a w) = P w"
  by (simp add: submit_failed_def Let_def)

lemma keeps_submit:
  assumes "P w" shows "P (snd (submit_internal cx p g a u f md px mx w))"
proof -
  let ?w = "switch_to_image_session cx (chat_current_image_id cx w) False w"
  let ?m = "g_strstrip (str_or p [])"
  obtain ok rq e w1 where b: "build_request cx (Some ?m) g f md px mx None
      (chat_upd (submit_begin ?m g u f md px mx) ?w) = ((ok, rq, e), w1)"
    by (metis prod_cases3 surj_pair)
  from keeps_build [OF b] assms have w1: "P w1" by simp
  let ?s = "new_submission rq ?m a md (read_current_exposure cx (cw_world w1))"
  let ?w1 = "chat_upd (\<lambda>c. session_upd (ac_current_image_id c)
      (\<lambda>s. s\<lparr>cs_refinement_goal_text := sub_goal_text ?s\<rparr>) c) w1"
  obtain h w2 where st: "start_client_request cx rq ?s ?w1 = (h, w2)" by force
  show ?thesis
  proof (cases ok)
    case False
    with b w1 assms show ?thesis by (simp add: submit_internal_def Let_def)
  next
    case True
    show ?thesis
    proof (cases h)
      case (Inl err)
      with st have "w2 = ?w1" by (simp add: start_failed_same)
      with b st Inl True w1 assms show ?thesis by (simp add: submit_internal_def Let_def)
    next
      case (Inr i)
      have "sub_request_id ?s \<noteq> None"
        using b True by (auto simp: new_submission_def dest!: build_request_id)
      from keeps_start [OF _ st [unfolded Inr] this] w1 b st Inr True assms show ?thesis
        by (simp add: submit_internal_def Let_def)
    qed
  qed
qed

text \<open>The handlers of the window.\<close>

lemma keeps_range: "apply_operation_range cx ops n rep w = (ok, rep', e, w') \<Longrightarrow> P w' = P w"
  by (auto simp: apply_operation_range_def Let_def split: option.splits if_splits prod.splits)

lemma keeps_live_edits:
  assumes "P w" shows "P (snd (apply_live_edits cx p w))"
proof -
  obtain ok rep e w' where r: "apply_operation_range cx (resp_operations (pg_response p))
      (ac_active_request_live_applied_count (cw_chat w)) dt_agent_execution_report_init w = (ok, rep, e, w')"
    by (metis prod_cases4)
  with keeps_range [OF r] assms show ?thesis
    by (cases ok) (simp_all add: apply_live_edits_def Let_def keeps_cancel)
qed

lemma keeps_progress_found:
  assumes "P w" shows "P (snd (progress_found cx p w))"
proof -
  let ?w = "chat_upd (\<lambda>c. c\<lparr>ac_active_request_tool_calls_used := pg_tool_calls_used p,
                 ac_active_request_tool_calls_max :=
                   (if 0 < pg_tool_calls_max p then pg_tool_calls_max p
                    else ac_active_request_tool_calls_max c)\<rparr>) w"
  obtain ok w' where r: "apply_live_edits cx p ?w = (ok, w')" by force
  have "P w'" using keeps_live_edits [of ?w cx p] assms r by simp
  with r show ?thesis by (cases ok) (simp_all add: progress_found_def Let_def)
qed

lemma keeps_progress:
  assumes "P w" shows "P (progress_finished cx p w)"
proof -
  obtain ok w' where r: "(if pg_found p then progress_found cx p w else (True, w)) = (ok, w')" by force
  have "P w'" using keeps_progress_found [OF assms, of cx p] assms r by (auto split: if_splits)
  with r assms show ?thesis by (cases ok) (simp_all add: progress_finished_def Let_def)
qed

lemma keeps_response:
  assumes "P w" "handle_response cx response rep n w = (ok, rep', e, w')" shows "P w'"
proof -
  let ?w = "if nonempty (resp_message_text response)
      then chat_upd (append_message ''assistant'' (resp_message_text response)) w else w"
  obtain ok1 rep1 e1 w1 where r: "apply_operation_range cx (resp_operations response)
      (min n (length (garray (resp_operations response)))) rep ?w = (ok1, rep1, e1, w1)"
    by (metis prod_cases4)
  have w: "P ?w" using assms(1) by simp
  then have w1: "P w1" using keeps_range [OF r] by simp
  show ?thesis
    using assms(2) w w1 r by (cases ok1) (auto simp: handle_response_def Let_def split: if_splits)
qed

lemma keeps_continue: "P w \<Longrightarrow> P (snd (continue_refinement cx result sub w))"
  by (simp add: continue_refinement_def Let_def keeps_submit)

lemma keeps_visible:
  assumes "P w" shows "P (finish_visible cx n result sub w)"
proof (cases "cr_transport_error result \<noteq> None \<or> \<not> cr_has_response result")
  case True
  with assms show ?thesis by (simp add: finish_visible_def Let_def)
next
  case False
  obtain ok rep e w' where h: "handle_response cx (cr_response result) dt_agent_execution_report_init n
      (chat_upd (set_error None) w) = (ok, rep, e, w')" by (metis prod_cases4)
  from keeps_response [OF _ h] assms have w': "P w'" by simp
  obtain b w'' where c: "(if ok then continue_refinement cx result sub w' else (False, w')) = (b, w'')" by force
  have "P w''" using keeps_continue [OF w', of cx result sub] c w' by (auto split: if_splits)
  with False h c show ?thesis by (cases b) (simp_all add: finish_visible_def Let_def)
qed

lemma keeps_finished:
  assumes "P (if submission_matches_active_request (cw_chat w) sub then clear_active_request True w else w)"
  shows "P (request_finished cx result sub w)"
proof -
  let ?w = "if submission_matches_active_request (cw_chat w) sub then clear_active_request True w else w"
  let ?p = "finish_prepared result sub w" and ?q = "finish_quiet result sub w"
  let ?a = "submission_matches_active_request (cw_chat w) sub" and ?k = "lookup_submission_session (cw_chat ?w) sub"
  have p: "P ?p" using assms by (simp add: finish_prepared_def Let_def)
  then have q: "P ?q" by (simp add: finish_quiet_def Let_def)
  have parts: "P (finish_cancelled cx ?a ?k result sub ?p)" "P (finish_stale cx ?k result sub ?p)"
    "P (finish_mismatch cx ?k result sub ?q)" "P (finish_hidden cx ?k result sub ?q)"
    using p q by (simp_all add: finish_cancelled_def finish_stale_def finish_mismatch_def finish_hidden_def Let_def)
  have rf: "request_finished cx result sub w =
     (if cr_cancelled result then finish_cancelled cx ?a ?k result sub ?p
      else if wd_view_darkroom (cw_world ?p) \<and> is_stale_response cx sub result ?p then finish_stale cx ?k result sub ?p
      else if revision_mismatch cx (live_applied_for sub (cw_chat w)) result sub ?q
      then finish_mismatch cx ?k result sub ?q
      else if \<not> wd_view_darkroom (cw_world ?q) then finish_hidden cx ?k result sub ?q
      else finish_visible cx (live_applied_for sub (cw_chat w)) result sub ?q)"
    unfolding request_finished_def finish_quiet_def finish_prepared_def live_applied_for_def Let_def by simp
  show ?thesis unfolding rf using parts keeps_visible [OF q] by simp
qed

text \<open>The events of the window.\<close>

lemma keeps_buttons:
  "P w \<Longrightarrow> P (set_multi_turn_button b w)" "P w \<Longrightarrow> P (set_turn_limit_spin v w)"
  "P w \<Longrightarrow> P (set_fast_mode_button b w)"
  by (simp_all add: set_multi_turn_button_def set_turn_limit_spin_def set_fast_mode_button_def
      multi_turn_toggled_def max_turns_changed_def fast_mode_toggled_def Let_def)

lemma keeps_chat_submit: "P w \<Longrightarrow> P (chat_submit cx p a w)"
  by (simp add: chat_submit_def Let_def keeps_submit)

lemma keeps_enter: "P w \<Longrightarrow> P (chat_enter cx conf w)"
  unfolding chat_enter_def Let_def by (simp add: keeps_buttons)

lemma keeps_preview: "P w \<Longrightarrow> P (encode_and_post_preview cx s t w)"
  by (auto simp: encode_and_post_preview_def split: option.splits bool.splits)

lemma keeps_event: "P w \<Longrightarrow> P (window_event cx e w)"
proof (induction cx e w rule: window_event.induct)
  case (2 cx w)
  then show ?case by (simp add: send_clicked_def Let_def keeps_chat_submit)
next
  case (4 cx w)
  then show ?case by (simp add: new_chat_clicked_def Let_def keeps_cancel)
next
  case (11 cx w)
  then show ?case by (simp add: image_changed_def Let_def keeps_cancel)
next
  case (13 cx w)
  then show ?case by (simp add: autorun_if_requested_def Let_def keeps_chat_submit)
next
  case (14 cx w)
  then show ?case by (simp add: quit_after_autorun_def split: option.splits main_source.splits)
next
  case (15 cx w)
  then show ?case by (simp add: pipe_finished_def keeps_preview split: option.splits)
qed (simp_all add: cancel_clicked_def keeps_cancel keeps_buttons display_window_def keeps_enter chat_leave_def)

end

subsection \<open>Ownership\<close>

definition answered :: "chat_call \<Rightarrow> bool" where
  "answered s \<longleftrightarrow> (\<exists>r. Final r \<in> set (cc_delivered s))"

text \<open>The requests whose handle the window holds are those in \<open>A\<close>.\<close>

definition holds_handles :: "nat set \<Rightarrow> chat_world \<Rightarrow> bool" where
  "holds_handles A w \<longleftrightarrow> (\<forall>i < length (cw_requests w).
     chat_inv (call_of w i) \<and> (cc_ui_ref (call_of w i) \<longleftrightarrow> i \<in> A))"

definition active_waits :: "chat_world \<Rightarrow> bool" where
  "active_waits w \<longleftrightarrow> (\<forall>i. ac_active_request (cw_chat w) = Some i \<longrightarrow>
     i < length (cw_requests w) \<and> ac_active_request_id (cw_chat w) \<noteq> None
     \<and> ac_active_request_id (cw_chat w) = sub_request_id (submission_of w i) \<and> \<not> answered (call_of w i))"

definition owned :: "chat_world \<Rightarrow> bool" where
  "owned w \<longleftrightarrow> holds_handles (set_option (ac_active_request (cw_chat w))) w \<and> active_waits w"

lemma owned_cong:
  "cw_requests w' = cw_requests w \<Longrightarrow> handle_view (cw_chat w') = handle_view (cw_chat w) \<Longrightarrow> owned w' = owned w"
  by (simp add: owned_def holds_handles_def active_waits_def handle_view_def call_of_def submission_of_def)

lemma owned_chat_upd: "handle_view (f (cw_chat w)) = handle_view (cw_chat w) \<Longrightarrow> owned (chat_upd f w) = owned w"
  by (rule owned_cong) simp_all

text \<open>Without an active request the id does not matter.\<close>

lemma owned_no_active:
  "ac_active_request (cw_chat w) = None \<Longrightarrow> ac_active_request (f (cw_chat w)) = None
     \<Longrightarrow> owned (chat_upd f w) = owned w"
  by (simp add: owned_def holds_handles_def active_waits_def call_of_def)

lemma call_of_upd:
  "i < length (cw_requests w) \<Longrightarrow> call_of (call_upd i f w) j = (if j = i then f (call_of w i) else call_of w j)"
  "submission_of (call_upd i f w) j = submission_of w j"
  "length (cw_requests (call_upd i f w)) = length (cw_requests w)"
  by (auto simp: call_of_def submission_of_def call_upd_def nth_list_update)

lemma call_of_chat_upd [simp]:
  "call_of (chat_upd f w) i = call_of w i" "submission_of (chat_upd f w) i = submission_of w i"
  by (simp_all add: call_of_def submission_of_def)

lemma call_unref_inv: "chat_inv s \<Longrightarrow> cc_ui_ref s \<Longrightarrow> chat_inv (call_unref s) \<and> \<not> cc_ui_ref (call_unref s)"
proof -
  assume s: "chat_inv s" "cc_ui_ref s"
  then obtain h where h: "cc_handle s = Some h" by (auto simp: chat_inv_def refs_ok_def split: option.splits)
  from ui_step_inv [OF ui_unref [OF s(2) h] s(1)] h show ?thesis by (simp add: call_unref_def)
qed

lemma call_cancel_inv:
  assumes "chat_inv s" "cc_ui_ref s"
  shows "chat_inv (call_cancel r s) \<and> cc_ui_ref (call_cancel r s) \<and> cc_delivered (call_cancel r s) = cc_delivered s"
proof -
  from assms obtain h where h: "cc_handle s = Some h" by (auto simp: chat_inv_def refs_ok_def split: option.splits)
  obtain h' d where d: "dt_agent_client_request_cancel h r = (h', d)" by force
  from ui_step_inv [OF ui_cancel [OF assms(2) h d] assms(1)] h d assms(2) show ?thesis by (simp add: call_cancel_def)
qed

lemma drop_holds:
  assumes "holds_handles A w" "set_option (ac_active_request (cw_chat w)) \<subseteq> A"
    "set_option (ac_active_request (cw_chat w)) \<subseteq> {..<length (cw_requests w)}"
  shows "holds_handles (A - set_option (ac_active_request (cw_chat w))) (drop_active_request_handle w)"
proof (cases "ac_active_request (cw_chat w)")
  case None
  with assms(1) show ?thesis by (simp add: drop_active_request_handle_def)
next
  case (Some i)
  with assms(2,3) have i: "i < length (cw_requests w)" "i \<in> A" by auto
  with assms(1) have "chat_inv (call_of w i)" "cc_ui_ref (call_of w i)" by (auto simp: holds_handles_def)
  from call_unref_inv [OF this] assms(1) i Some show ?thesis
    by (auto simp: holds_handles_def drop_active_request_handle_def call_of_upd)
qed

lemma drop_active [simp]:
  "ac_active_request (cw_chat (drop_active_request_handle w)) = None"
  "length (cw_requests (drop_active_request_handle w)) = length (cw_requests w)"
  "submission_of (drop_active_request_handle w) i = submission_of w i"
  by (simp_all add: drop_active_request_handle_def call_of_upd split: option.splits)

lemma owned_bounds: "owned w \<Longrightarrow> set_option (ac_active_request (cw_chat w)) \<subseteq> {..<length (cw_requests w)}"
  by (auto simp: owned_def active_waits_def)

lemma owned_no_handle: "ac_active_request (cw_chat w) = None \<Longrightarrow> owned w = holds_handles {} w"
  by (simp add: owned_def active_waits_def)

lemma owned_drop:
  assumes "owned w" shows "owned (drop_active_request_handle w)"
proof -
  have "holds_handles (set_option (ac_active_request (cw_chat w))) w" using assms by (simp add: owned_def)
  from drop_holds [OF this subset_refl owned_bounds [OF assms]] show ?thesis
    by (simp add: owned_no_handle)
qed

lemma owned_clear: "owned w \<Longrightarrow> owned (clear_active_request b w)"
  unfolding clear_active_request_def by (subst owned_no_active) (auto intro: owned_drop)

lemma owned_cancel: 
  assumes "owned w" shows "owned (cancel_active_request s r w)"
proof -
  have call: "owned (drop_active_request_handle (call_upd i (call_cancel r) w))"
    if "owned w" "ac_active_request (cw_chat w) = Some i" for i w
  proof (rule owned_drop)
    from that have i: "i < length (cw_requests w)" "chat_inv (call_of w i)" "cc_ui_ref (call_of w i)"
      by (auto simp: owned_def active_waits_def holds_handles_def)
    from call_cancel_inv [OF i(2,3), of r] that i(1) show "owned (call_upd i (call_cancel r) w)"
      by (auto simp: owned_def active_waits_def holds_handles_def call_of_upd answered_def)
  qed
  show ?thesis
    using assms by (auto simp: cancel_active_request_def Let_def call owned_chat_upd split: option.splits)
qed

lemma owned_start:
  assumes "owned w" "start_client_request cx request sub w = (Inr h, w')" "sub_request_id sub \<noteq> None"
  shows "owned (set_active_request h (sub_request_id sub) w')"
proof -
  obtain call jr where async: "dt_agent_client_chat_async (cx_getenv cx ''DARKTABLE_AGENT_SERVER_URL'')
      (cx_conf_endpoint cx) (cx_have_job cx (length (cw_requests w))) (Some request) = Inr (call, jr)"
    and w': "w' = w\<lparr>cw_requests := cw_requests w @ [(call, jr, sub)]\<rparr>" "h = length (cw_requests w)"
    using assms(2) by (auto simp: start_client_request_def Let_def split: sum.splits prod.splits)
  have new: "cc_ui_ref call" "\<not> answered call" "cx_have_job cx (length (cw_requests w))"
    using async by (auto simp: dt_agent_client_chat_async_def Let_def answered_def split: if_splits)
  have inv: "chat_inv call"
    by (rule chat_inv_init [of "\<lparr>je_load = undefined, je_print = undefined, je_strerror = undefined,
        je_request = jr, je_has_progress_callback = True\<rparr>"])
      (use async new(3) in \<open>auto simp: chat_init_def\<close>)
  let ?A = "set_option (ac_active_request (cw_chat w))"
  have b: "?A \<subseteq> {..<length (cw_requests w)}" by (rule owned_bounds [OF assms(1)])
  have "holds_handles (insert h ?A) w'"
    using assms(1) inv new(1) b
    by (auto simp: owned_def holds_handles_def w' call_of_def nth_append less_Suc_eq)
  moreover have act: "ac_active_request (cw_chat w') = ac_active_request (cw_chat w)" by (simp add: w')
  moreover have "?A \<subseteq> insert h ?A" "?A \<subseteq> {..<length (cw_requests w')}" using b by (auto simp: w')
  ultimately have "holds_handles (insert h ?A - ?A) (drop_active_request_handle w')"
    using drop_holds [of "insert h ?A" w'] by simp
  moreover have "insert h ?A - ?A = {h}" using b by (auto simp: w')
  moreover have "h < length (cw_requests w')" "submission_of w' h = sub" by (simp_all add: w' submission_of_def)
  moreover have "call_of (drop_active_request_handle w') h = call"
    using b by (auto simp: drop_active_request_handle_def call_of_upd w' split: option.splits)
      (simp_all add: call_of_def)
  ultimately show ?thesis
    using assms(3) new(2) by (simp add: owned_def set_active_request_def active_waits_def holds_handles_def)
qed

interpretation owning: window_contract owned
  by unfold_locales (rule owned_cong owned_cancel owned_start; assumption)+

text \<open>The steps of a request.\<close>

lemma owned_call_step:
  assumes "owned w" "i < length (cw_requests w)" "chat_inv (call_of w i) \<Longrightarrow> chat_inv s"
    and "cc_ui_ref s = cc_ui_ref (call_of w i)" "answered s \<longrightarrow> answered (call_of w i)"
  shows "owned (call_upd i (\<lambda>_. s) w)"
  using assms by (auto simp: owned_def active_waits_def holds_handles_def call_of_upd)

lemma main_step_cases:
  assumes "main_step s s'" "cc_main s = ev # rest"
  shows "s' = s\<lparr>cc_main := rest, cc_delivered := cc_delivered s @ [ev],
      cc_destroyed := cc_destroyed s + of_bool (is_final ev)\<rparr>"
  using assms by (cases rule: main_step.cases) auto

lemma job_step_keeps: "job_step env s s' \<Longrightarrow> cc_ui_ref s' = cc_ui_ref s \<and> cc_delivered s' = cc_delivered s"
  by (auto elim!: job_stepE)

lemma queue_step_keeps: "queue_step s s' \<Longrightarrow> cc_ui_ref s' = cc_ui_ref s \<and> cc_delivered s' = cc_delivered s"
  by (auto elim!: queue_stepE)

lemma owned_request_step: "request_step cx je i w w' \<Longrightarrow> owned w \<Longrightarrow> owned w'"
proof (induction rule: request_step.induct)
  case (worker w s)
  with job_step_keeps [OF worker(2)] job_step_inv [OF worker(2)] show ?case
    by (intro owned_call_step) (auto simp: answered_def)
next
  case (progress w p rest s)
  from main_step_cases [OF progress(3,2)] main_step_inv [OF progress(3)] progress show ?case
    by (intro owning.keeps_progress owned_call_step) (auto simp: answered_def)
next
  case (result w r rest s)
  let ?w = "call_upd i (\<lambda>_. s) w" and ?sub = "submission_of w i"
  note s = main_step_cases [OF result(3,2)]
  show ?case
  proof (rule owning.keeps_finished)
    show "owned (if submission_matches_active_request (cw_chat ?w) ?sub then clear_active_request True ?w else ?w)"
    proof (cases "ac_active_request (cw_chat w) = Some i")
      case False
      then have "owned ?w"
        using result main_step_inv [OF result(3)] s
        by (auto simp: owned_def active_waits_def holds_handles_def call_of_upd)
      then show ?thesis by (simp add: owned_clear)
    next
      case True
      then have m: "submission_matches_active_request (cw_chat ?w) ?sub"
        using result(4) by (auto simp: owned_def active_waits_def submission_matches_active_request_def)
      have "holds_handles (set_option (ac_active_request (cw_chat ?w))) ?w"
        using result main_step_inv [OF result(3)] s by (auto simp: owned_def holds_handles_def call_of_upd)
      from drop_holds [OF this] True result(1) have "owned (drop_active_request_handle ?w)"
        by (simp add: owned_no_handle call_of_upd)
      then have "owned (clear_active_request True ?w)"
        unfolding clear_active_request_def by (subst owned_no_active) auto
      with m show ?thesis by simp
    qed
  qed
qed

lemma owned_step: "window_step cx je w w' \<Longrightarrow> owned w \<Longrightarrow> owned w'"
proof (induction rule: window_step.induct)
  case (event w e)
  then show ?case by (rule owning.keeps_event)
next
  case (dropped i w s)
  with queue_step_keeps [OF dropped(2)] queue_step_inv [OF dropped(2)] show ?case
    by (intro owned_call_step) (auto simp: answered_def)
next
  case (request i w w')
  then show ?case by (simp add: owned_request_step)
qed

end
