(* ===== verification/Chat_Widgets.thy ===== *)
theory Chat_Widgets
  imports Chat_System
begin

text \<open>
  The invariant of the chat window as the user sees it: the window belongs to the session of its image,
  its widgets show the state, and every handler keeps it so.
\<close>

subsection \<open>The window shows its state\<close>

definition session_ids :: "dt_agent_chat_session \<Rightarrow> cstr \<times> cstr" where
  "session_ids s = (cs_image_session_id s, cs_conversation_id s)"

definition sessions_ok :: "agent_chat \<Rightarrow> bool" where
  "sessions_ok c \<longleftrightarrow> (\<forall>k s. lookup_session k c = Some s
     \<longrightarrow> cs_image_session_id s \<noteq> None \<and> cs_conversation_id s \<noteq> None)"

text \<open>The window belongs to the session of its image, and the widgets show the options and flags.\<close>

definition chat_ok :: "agent_chat \<Rightarrow> bool" where
  "chat_ok c \<longleftrightarrow> sessions_ok c
     \<and> map_option session_ids (lookup_session (ac_current_image_id c) c)
         = Some (ac_image_session_id c, ac_conversation_id c)
     \<and> (wg_error (ac_widgets c) \<noteq> [] \<longrightarrow> wg_error_visible (ac_widgets c))
     \<and> wg_spinner (ac_widgets c) = ac_is_loading c
     \<and> (ac_is_loading c \<longrightarrow> wg_spinner_visible (ac_widgets c))
     \<and> wg_multi_turn_active (ac_widgets c) = ac_multi_turn_enabled c
     \<and> wg_turn_limit (ac_widgets c) = min (int (ac_max_refinement_passes c)) G_MAXINT
     \<and> wg_fast_mode_active (ac_widgets c) = ac_fast_mode_enabled c
     \<and> 1 \<le> ac_max_refinement_passes c"

lemma chat_ok_ids: "chat_ok c \<Longrightarrow> ac_image_session_id c \<noteq> None \<and> ac_conversation_id c \<noteq> None"
proof -
  assume c: "chat_ok c"
  then obtain s where "lookup_session (ac_current_image_id c) c = Some s"
    "session_ids s = (ac_image_session_id c, ac_conversation_id c)" by (auto simp: chat_ok_def)
  moreover have "sessions_ok c" using c by (simp add: chat_ok_def)
  ultimately show ?thesis by (metis sessions_ok_def session_ids_def prod.inject)
qed

lemma lookup_session_fields [simp]:
  "lookup_session k (c\<lparr>ac_is_loading := b\<rparr>) = lookup_session k c"
  "lookup_session k (c\<lparr>ac_autorun_source := src\<rparr>) = lookup_session k c"
  "lookup_session k (c\<lparr>ac_autorun_sent := b\<rparr>) = lookup_session k c"
  "lookup_session k (c\<lparr>ac_multi_turn_enabled := b\<rparr>) = lookup_session k c"
  "lookup_session k (c\<lparr>ac_fast_mode_enabled := b\<rparr>) = lookup_session k c"
  "lookup_session k (c\<lparr>ac_max_refinement_passes := n\<rparr>) = lookup_session k c"
  "lookup_session k (c\<lparr>ac_app_session_id := t\<rparr>) = lookup_session k c"
  "lookup_session k (c\<lparr>ac_current_image_id := j\<rparr>) = lookup_session k c"
  "lookup_session k (c\<lparr>ac_image_session_id := t\<rparr>) = lookup_session k c"
  "lookup_session k (c\<lparr>ac_conversation_id := t\<rparr>) = lookup_session k c"
  "lookup_session k (c\<lparr>ac_autorun_message := t\<rparr>) = lookup_session k c"
  "lookup_session k (c\<lparr>ac_test_report_path := t\<rparr>) = lookup_session k c"
  "lookup_session k (c\<lparr>ac_exit_after_autorun := b\<rparr>) = lookup_session k c"
  "lookup_session k (c\<lparr>ac_active_request := r\<rparr>) = lookup_session k c"
  "lookup_session k (c\<lparr>ac_active_request_id := t\<rparr>) = lookup_session k c"
  "lookup_session k (c\<lparr>ac_active_request_canceling := b\<rparr>) = lookup_session k c"
  "lookup_session k (c\<lparr>ac_active_request_live_applied_count := n\<rparr>) = lookup_session k c"
  "lookup_session k (c\<lparr>ac_active_request_refinement_pass_index := n\<rparr>) = lookup_session k c"
  "lookup_session k (c\<lparr>ac_active_request_refinement_max_passes := n\<rparr>) = lookup_session k c"
  "lookup_session k (c\<lparr>ac_active_request_tool_calls_used := n\<rparr>) = lookup_session k c"
  "lookup_session k (c\<lparr>ac_active_request_tool_calls_max := n\<rparr>) = lookup_session k c"
  "lookup_session k (widgets_upd f c) = lookup_session k c"
  by (simp_all add: lookup_session_def widgets_upd_def)

lemma sessions_ok_cong: "(\<And>k. lookup_session k c' = lookup_session k c) \<Longrightarrow> sessions_ok c' = sessions_ok c"
  by (simp add: sessions_ok_def)

lemma sessions_ok_sync: "sessions_ok c \<Longrightarrow> sessions_ok (sync_current_session c)"
  by (auto simp: sessions_ok_def lookup_sync saved_session_def split: if_splits)

lemma chat_ok_fields [simp]:
  "chat_ok (c\<lparr>ac_autorun_source := src\<rparr>) = chat_ok c" "chat_ok (c\<lparr>ac_autorun_sent := b\<rparr>) = chat_ok c"
  "chat_ok (c\<lparr>ac_app_session_id := t\<rparr>) = chat_ok c" "chat_ok (c\<lparr>ac_autorun_message := t\<rparr>) = chat_ok c"
  "chat_ok (c\<lparr>ac_test_report_path := t\<rparr>) = chat_ok c" "chat_ok (c\<lparr>ac_exit_after_autorun := b\<rparr>) = chat_ok c"
  "chat_ok (c\<lparr>ac_active_request := r\<rparr>) = chat_ok c" "chat_ok (c\<lparr>ac_active_request_id := t\<rparr>) = chat_ok c"
  "chat_ok (c\<lparr>ac_active_request_canceling := b\<rparr>) = chat_ok c"
  "chat_ok (c\<lparr>ac_active_request_live_applied_count := n\<rparr>) = chat_ok c"
  "chat_ok (c\<lparr>ac_active_request_refinement_pass_index := n\<rparr>) = chat_ok c"
  "chat_ok (c\<lparr>ac_active_request_refinement_max_passes := n\<rparr>) = chat_ok c"
  "chat_ok (c\<lparr>ac_active_request_tool_calls_used := n\<rparr>) = chat_ok c"
  "chat_ok (c\<lparr>ac_active_request_tool_calls_max := n\<rparr>) = chat_ok c"
  by (simp_all add: chat_ok_def sessions_ok_def)

lemma chat_ok_session_upd [simp]:
  "(\<And>s. session_ids (f s) = session_ids s) \<Longrightarrow> chat_ok c \<Longrightarrow> chat_ok (session_upd k f c)"
proof -
  assume f: "\<And>s. session_ids (f s) = session_ids s" and c: "chat_ok c"
  have same: "ac_widgets (session_upd k f c) = ac_widgets c" "ac_current_image_id (session_upd k f c) = ac_current_image_id c"
    "ac_image_session_id (session_upd k f c) = ac_image_session_id c" "ac_conversation_id (session_upd k f c) = ac_conversation_id c"
    "ac_is_loading (session_upd k f c) = ac_is_loading c" "ac_multi_turn_enabled (session_upd k f c) = ac_multi_turn_enabled c"
    "ac_max_refinement_passes (session_upd k f c) = ac_max_refinement_passes c"
    "ac_fast_mode_enabled (session_upd k f c) = ac_fast_mode_enabled c"
    by (simp_all add: session_upd_def split: option.splits)
  have "sessions_ok (session_upd k f c)"
    using c f by (auto simp: chat_ok_def sessions_ok_def session_ids_def split: if_splits)
  then show ?thesis using c f by (auto simp: chat_ok_def same option.map_comp comp_def)
qed

lemma chat_ok_widgets:
  assumes "chat_ok c" "wg_error (f (ac_widgets c)) \<noteq> [] \<Longrightarrow> wg_error_visible (f (ac_widgets c))"
    and "wg_spinner_visible (ac_widgets c) \<Longrightarrow> wg_spinner_visible (f (ac_widgets c))"
    "wg_spinner (f (ac_widgets c)) = wg_spinner (ac_widgets c)"
    "wg_multi_turn_active (f (ac_widgets c)) = wg_multi_turn_active (ac_widgets c)"
    "wg_turn_limit (f (ac_widgets c)) = wg_turn_limit (ac_widgets c)"
    "wg_fast_mode_active (f (ac_widgets c)) = wg_fast_mode_active (ac_widgets c)"
  shows "chat_ok (widgets_upd f c)"
proof -
  have "sessions_ok (widgets_upd f c) = sessions_ok c" by (rule sessions_ok_cong) simp
  then show ?thesis using assms by (simp add: chat_ok_def) (simp add: widgets_upd_def)
qed

lemma chat_ok_error_shown: "chat_ok c \<Longrightarrow> wg_error (ac_widgets c) \<noteq> [] \<Longrightarrow> wg_error_visible (ac_widgets c)"
  by (simp add: chat_ok_def)

lemma chat_ok_sync [simp]: "chat_ok c \<Longrightarrow> chat_ok (sync_current_session c)"
proof -
  assume c: "chat_ok c"
  obtain al where al: "sync_current_session c = c\<lparr>ac_image_sessions := al\<rparr>" using sync_only_sessions by blast
  have "map_option session_ids (lookup_session (ac_current_image_id c) (sync_current_session c))
      = Some (ac_image_session_id c, ac_conversation_id c)"
    using c chat_ok_ids [OF c] by (auto simp: lookup_sync chat_ok_def session_ids_def saved_session_def)
  moreover have "sessions_ok (sync_current_session c)" using c by (simp add: chat_ok_def sessions_ok_sync)
  ultimately show ?thesis using c unfolding al by (simp add: chat_ok_def)
qed

lemma chat_ok_functions [simp]:
  assumes "chat_ok c"
  shows "chat_ok (update_sensitivity c)" "chat_ok (set_status st c)" "chat_ok (set_error er c)"
    "chat_ok (append_message a m c)" "chat_ok (update_refinement_status px mx c)" "chat_ok (handle_transport_error er c)"
    "chat_ok (append_operation_summary rep c)"
proof -
  have sens: "chat_ok (update_sensitivity c)" if "chat_ok c" for c
    unfolding update_sensitivity_def Let_def
    by (rule chat_ok_widgets [OF that]) (simp_all add: chat_ok_error_shown [OF that])
  have st: "chat_ok (set_status st c)" if "chat_ok c" for st c
    unfolding set_status_def
    by (rule chat_ok_sync, rule chat_ok_widgets [OF that]) (simp_all add: chat_ok_error_shown [OF that])
  have er: "chat_ok (set_error er c)" if "chat_ok c" for er c
  proof -
    have "str_or er [] \<noteq> [] \<Longrightarrow> nonempty er" by (cases er) (simp_all add: nonempty_def)
    then show ?thesis
      unfolding set_error_def by (intro chat_ok_sync chat_ok_widgets [OF that]) simp_all
  qed
  have ap: "chat_ok (append_message a m c)" if "chat_ok c" for a m c
    unfolding append_message_def
    by (rule chat_ok_sync, rule chat_ok_widgets [OF that]) (simp_all add: chat_ok_error_shown [OF that])
  show "chat_ok (update_sensitivity c)" "chat_ok (set_status st c)" "chat_ok (set_error er c)" "chat_ok (append_message a m c)"
    by (rule sens st er ap, rule assms)+
  show "chat_ok (update_refinement_status px mx c)"
    using assms by (simp add: update_refinement_status_def Let_def st)
  show "chat_ok (handle_transport_error er c)"
    using assms by (simp add: handle_transport_error_def Let_def st er ap)
  show "chat_ok (append_operation_summary rep c)"
    using assms by (simp add: append_operation_summary_def Let_def ap)
qed

lemma chat_ok_set_loading [simp]: "chat_ok c \<Longrightarrow> chat_ok (set_loading b c)"
proof -
  assume "chat_ok c"
  then have "chat_ok (widgets_upd (\<lambda>g. g\<lparr>wg_spinner_visible := b, wg_spinner := b\<rparr>) (c\<lparr>ac_is_loading := b\<rparr>))"
    by (simp add: chat_ok_def sessions_ok_def) (simp add: widgets_upd_def)
  then show ?thesis by (simp add: set_loading_def)
qed

lemma chat_ok_submit_begin [simp]: "chat_ok c \<Longrightarrow> chat_ok (submit_begin msg g u fm md px mx c)"
  by (simp add: submit_begin_def Let_def session_ids_def)

lemma chat_ok_on_session [simp]:
  "(\<And>s. session_ids (f s) = session_ids s) \<Longrightarrow> chat_ok c \<Longrightarrow> chat_ok (on_session k f c)"
  by (simp add: on_session_def split: option.splits)

lemma chat_ok_load:
  assumes "sessions_ok c" "lookup_session (ac_current_image_id c) c = Some s" shows "chat_ok (load_session s c)"
proof -
  have "lookup_session k (load_session s c) = lookup_session k c" for k
    by (simp add: load_session_refresh refresh_widgets_def update_sensitivity_def Let_def)
  moreover from this have "sessions_ok (load_session s c)" using assms(1) by (simp add: sessions_ok_def)
  moreover have "ac_current_image_id (load_session s c) = ac_current_image_id c"
    "session_ids s = (ac_image_session_id (load_session s c), ac_conversation_id (load_session s c))"
    by (simp_all add: load_session_refresh refresh_widgets_def update_sensitivity_def Let_def widgets_upd_def session_ids_def)
  ultimately show ?thesis
    using assms(2) unfolding chat_ok_def
    by (simp add: load_session_refresh refresh_widgets_def update_sensitivity_def Let_def widgets_upd_def)
qed

lemma sessions_ok_update: 
  assumes "sessions_ok c" "cs_image_session_id s \<noteq> None" "cs_conversation_id s \<noteq> None"
  shows "sessions_ok (c\<lparr>ac_image_sessions := AList.update k s (ac_image_sessions c)\<rparr>)"
  using assms by (auto simp: sessions_ok_def) (simp_all add: lookup_session_def)

lemma sessions_ok_create:
  assumes "sessions_ok (cw_chat w)"
  shows "sessions_ok (cw_chat (lookup_or_create_session cx k w))"
    "lookup_session k (cw_chat (lookup_or_create_session cx k w)) \<noteq> None"
  using assms by (auto simp: lookup_or_create_session_def g_uuid_string_random_def Let_def sessions_ok_update
      split: option.splits)

lemma sessions_ok_conversation:
  "sessions_ok c \<Longrightarrow> (\<And>s. cs_image_session_id (f s) = cs_image_session_id s \<and> cs_conversation_id (f s) \<noteq> None)
     \<Longrightarrow> sessions_ok (session_upd k f c)"
  by (auto simp: sessions_ok_def split: if_splits)

lemma chat_ok_switch:
  assumes "sessions_ok (cw_chat w)" shows "chat_ok (cw_chat (switch_to_image_session cx k force w))"
proof -
  let ?c = "cw_chat w"
  let ?w1 = "if ac_current_image_id ?c \<noteq> 0 \<or> ac_conversation_id ?c \<noteq> None \<or> ac_image_session_id ?c \<noteq> None
      then chat_upd sync_current_session w else w"
  let ?w2 = "lookup_or_create_session cx k ?w1"
  let ?f = "\<lambda>c conversation_id s. s
          \<lparr>cs_conversation_id := Some conversation_id, cs_transcript := Some chat_default_transcript,
           cs_status_text := Some ''started a new chat for this image'', cs_error_text := None,
           cs_refinement_goal_text := None, cs_refinement_stop_reason := None, cs_last_refinement_pass_index := 1,
           cs_last_refinement_max_passes := chat_max_refinement_passes c, cs_last_continue_refining := False,
           cs_last_refinement_enabled := ac_multi_turn_enabled c, cs_last_fast_mode_enabled := ac_fast_mode_enabled c\<rparr>"
  let ?w3 = "if force
      then let (conversation_id, w) = g_uuid_string_random cx ?w2 in chat_upd (\<lambda>c. session_upd k (?f c conversation_id) c) w
      else ?w2"
  have w1: "sessions_ok (cw_chat ?w1)" using assms by (simp add: sessions_ok_sync)
  note w2 = sessions_ok_create [OF w1, where cx = cx and k = k]
  have w3: "sessions_ok (cw_chat ?w3)" "lookup_session k (cw_chat ?w3) \<noteq> None"
    using w2 by (simp_all add: g_uuid_string_random_def sessions_ok_conversation)
  then obtain s where s: "lookup_session k (cw_chat ?w3) = Some s" by blast
  have "sessions_ok ((cw_chat ?w3)\<lparr>ac_current_image_id := k\<rparr>)" using w3(1) by (simp add: sessions_ok_def)
  then have "chat_ok (load_session s ((cw_chat ?w3)\<lparr>ac_current_image_id := k\<rparr>))"
    using s by (intro chat_ok_load) simp_all
  moreover have "lookup_session k (cw_chat (chat_upd (\<lambda>c. c\<lparr>ac_current_image_id := k\<rparr>) ?w3)) = Some s"
    by (simp only: cw_simps lookup_session_fields s)
  moreover have "switch_to_image_session cx k force w =
     (case lookup_session k (cw_chat (chat_upd (\<lambda>c. c\<lparr>ac_current_image_id := k\<rparr>) ?w3)) of
        None \<Rightarrow> chat_upd (\<lambda>c. c\<lparr>ac_current_image_id := k\<rparr>) ?w3
      | Some s \<Rightarrow> chat_upd (load_session s) (chat_upd (\<lambda>c. c\<lparr>ac_current_image_id := k\<rparr>) ?w3))"
    by (simp only: switch_to_image_session_def Let_def)
  ultimately show ?thesis by (simp only: option.case cw_simps)
qed

text \<open>The handlers keep the window's state.\<close>

definition window_ok :: "chat_world \<Rightarrow> bool" where
  "window_ok w \<longleftrightarrow> chat_ok (cw_chat w)"

lemma window_ok_upd [simp]: "chat_ok (f (cw_chat w)) \<Longrightarrow> window_ok (chat_upd f w)"
  by (simp add: window_ok_def)

lemma window_ok_same [simp]:
  "window_ok (add_effect e w) = window_ok w" "window_ok (w\<lparr>cw_world := wl\<rparr>) = window_ok w"
  "window_ok (call_upd i g w) = window_ok w" "window_ok (w\<lparr>cw_uuids := n\<rparr>) = window_ok w"
  "window_ok (w\<lparr>cw_requests := rs\<rparr>) = window_ok w"
  by (simp_all add: window_ok_def)

lemma window_ok_chat: "window_ok w \<Longrightarrow> chat_ok (cw_chat w)"
  by (simp add: window_ok_def)

lemma window_ok_drop: "window_ok w \<Longrightarrow> window_ok (drop_active_request_handle w)"
  by (simp add: drop_active_request_handle_def window_ok_chat split: option.splits)

lemma window_ok_set_active: "window_ok w \<Longrightarrow> window_ok (set_active_request i r w)"
  using window_ok_drop [of w] by (simp add: set_active_request_def window_ok_def)

lemma window_ok_clear: "window_ok w \<Longrightarrow> window_ok (clear_active_request b w)"
  using window_ok_drop [of w] by (simp add: clear_active_request_def window_ok_def)

lemma window_ok_cancel:
  assumes "window_ok w" shows "window_ok (cancel_active_request s r w)"
proof -
  have "chat_ok (session_upd (ac_current_image_id c) (\<lambda>t.
      let t = t\<lparr>cs_is_loading := False\<rparr>; t = if r = None then t else t\<lparr>cs_refinement_stop_reason := r\<rparr>
      in if s = None then t else session_set_status s t) c)" if "chat_ok c" for c
    using that by (simp add: session_ids_def session_set_status_def Let_def)
  with assms show ?thesis
    by (auto simp: cancel_active_request_def Let_def window_ok_def window_ok_drop [unfolded window_ok_def] split: option.splits)
qed

lemma window_ok_report [simp]: "window_ok (write_test_report cx s r er m e w) = window_ok w"
  by (simp add: write_test_report_def Let_def)

lemma window_ok_quit: "window_ok w \<Longrightarrow> window_ok (maybe_schedule_test_quit cx b w)"
  by (simp add: maybe_schedule_test_quit_def window_ok_chat)

lemma window_ok_switch: "window_ok w \<Longrightarrow> window_ok (switch_to_image_session cx k f w)"
  unfolding window_ok_def by (rule chat_ok_switch) (simp add: chat_ok_def)

lemma window_ok_build: "build_request cx m g f md p mx e w = (r, w') \<Longrightarrow> window_ok w \<Longrightarrow> window_ok w'"
  using build_request_world [of cx m g f md p mx e w]
  by (auto simp: ensure_app_session_id_def g_uuid_string_random_def Let_def window_ok_def)

lemma window_ok_failed: "window_ok w \<Longrightarrow> window_ok (submit_failed cx s m e a w)"
  by (simp add: submit_failed_def Let_def window_ok_quit window_ok_chat)

lemma window_ok_start: "start_client_request cx rq sub w = (h, w') \<Longrightarrow> window_ok w \<Longrightarrow> window_ok w'"
  by (auto simp: start_client_request_def Let_def split: sum.splits prod.splits)

lemma window_ok_submit:
  assumes "window_ok w" shows "window_ok (snd (submit_internal cx p g a u f md px mx w))"
proof -
  let ?w = "switch_to_image_session cx (chat_current_image_id cx w) False w"
  let ?m = "g_strstrip (str_or p [])"
  have w0: "window_ok ?w" by (rule window_ok_switch [OF assms])
  obtain ok rq e w1 where b: "build_request cx (Some ?m) g f md px mx None
      (chat_upd (submit_begin ?m g u f md px mx) ?w) = ((ok, rq, e), w1)"
    by (metis prod_cases3 surj_pair)
  from window_ok_build [OF b] w0 have w1: "window_ok w1" by (simp add: window_ok_chat)
  let ?s = "new_submission rq ?m a md (read_current_exposure cx (cw_world w1))"
  let ?w1 = "chat_upd (\<lambda>c. session_upd (ac_current_image_id c)
      (\<lambda>s. s\<lparr>cs_refinement_goal_text := sub_goal_text ?s\<rparr>) c) w1"
  have w1': "window_ok ?w1" using w1 by (simp add: window_ok_chat session_ids_def)
  obtain h w2 where st: "start_client_request cx rq ?s ?w1 = (h, w2)" by force
  have w2: "window_ok w2" by (rule window_ok_start [OF st w1'])
  show ?thesis
  proof (cases ok)
    case False
    with b w0 w1 show ?thesis by (simp add: submit_internal_def Let_def window_ok_failed)
  next
    case True
    with b st w0 w2 show ?thesis
      by (cases h) (simp_all add: submit_internal_def Let_def window_ok_failed window_ok_chat [OF window_ok_set_active])
  qed
qed

lemma window_ok_range: "apply_operation_range cx ops n rep w = (ok, rep', e, w') \<Longrightarrow> window_ok w' = window_ok w"
  by (auto simp: apply_operation_range_def Let_def split: option.splits if_splits prod.splits)

lemma window_ok_live_edits:
  assumes "window_ok w" shows "window_ok (snd (apply_live_edits cx p w))"
proof -
  obtain ok rep e w' where r: "apply_operation_range cx (resp_operations (pg_response p))
      (ac_active_request_live_applied_count (cw_chat w)) dt_agent_execution_report_init w = (ok, rep, e, w')"
    by (metis prod_cases4)
  with window_ok_range [OF r] assms show ?thesis
    by (cases ok) (simp_all add: apply_live_edits_def Let_def window_ok_cancel window_ok_chat session_ids_def)
qed

lemma window_ok_progress:
  assumes "window_ok w" shows "window_ok (progress_finished cx p w)"
proof -
  let ?w = "chat_upd (\<lambda>c. c\<lparr>ac_active_request_tool_calls_used := pg_tool_calls_used p,
                 ac_active_request_tool_calls_max :=
                   (if 0 < pg_tool_calls_max p then pg_tool_calls_max p
                    else ac_active_request_tool_calls_max c)\<rparr>) w"
  obtain ok1 w1 where a: "apply_live_edits cx p ?w = (ok1, w1)" by force
  have w1: "window_ok w1" using window_ok_live_edits [of ?w cx p] assms a by (simp add: window_ok_chat)
  obtain ok w' where r: "(if pg_found p then progress_found cx p w else (True, w)) = (ok, w')" by force
  have "window_ok w'"
    using r a w1 assms by (cases ok1) (auto simp: progress_found_def Let_def window_ok_chat split: if_splits)
  with r assms show ?thesis by (cases ok) (simp_all add: progress_finished_def Let_def window_ok_chat)
qed

lemma window_ok_response:
  assumes "window_ok w" "handle_response cx response rep n w = (ok, rep', e, w')" shows "window_ok w'"
proof -
  let ?w = "if nonempty (resp_message_text response)
      then chat_upd (append_message ''assistant'' (resp_message_text response)) w else w"
  obtain ok1 rep1 e1 w1 where r: "apply_operation_range cx (resp_operations response)
      (min n (length (garray (resp_operations response)))) rep ?w = (ok1, rep1, e1, w1)"
    by (metis prod_cases4)
  have w: "window_ok ?w" using assms(1) by (simp add: window_ok_chat)
  then have w1: "window_ok w1" using window_ok_range [OF r] by simp
  show ?thesis
    using assms(2) w w1 r window_ok_chat [OF w] window_ok_chat [OF w1]
    by (cases ok1) (auto simp: handle_response_def Let_def split: if_splits)
qed

lemma window_ok_visible:
  assumes "window_ok w" shows "window_ok (finish_visible cx n result sub w)"
proof (cases "cr_transport_error result \<noteq> None \<or> \<not> cr_has_response result")
  case True
  with assms show ?thesis by (simp add: finish_visible_def Let_def window_ok_quit window_ok_chat)
next
  case False
  obtain ok rep e w' where h: "handle_response cx (cr_response result) dt_agent_execution_report_init n
      (chat_upd (set_error None) w) = (ok, rep, e, w')" by (metis prod_cases4)
  from window_ok_response [OF _ h] assms have w': "window_ok w'" by (simp add: window_ok_chat)
  obtain b w'' where c: "(if ok then continue_refinement cx result sub w' else (False, w')) = (b, w'')" by force
  have "window_ok (snd (continue_refinement cx result sub w'))"
    using w' by (simp add: continue_refinement_def Let_def window_ok_submit window_ok_chat)
  with c w' have "window_ok w''" by (auto split: if_splits)
  with False h c show ?thesis
    by (cases b) (simp_all add: finish_visible_def Let_def window_ok_quit window_ok_chat)
qed

lemma session_ids_simps [simp]:
  "session_ids (record_result r sub s) = session_ids s" "session_ids (stop_reason t s) = session_ids s"
  "session_ids (session_set_status st s) = session_ids s" "session_ids (session_set_error er s) = session_ids s"
  "session_ids (session_append_message a m s) = session_ids s"
  by (simp_all add: session_ids_def record_result_def stop_reason_def session_set_status_def session_set_error_def
      session_append_message_def Let_def)

lemma window_ok_finished:
  assumes "window_ok w" shows "window_ok (request_finished cx result sub w)"
proof -
  let ?w = "if submission_matches_active_request (cw_chat w) sub then clear_active_request True w else w"
  let ?p = "finish_prepared result sub w" and ?q = "finish_quiet result sub w"
  let ?a = "submission_matches_active_request (cw_chat w) sub" and ?k = "lookup_submission_session (cw_chat ?w) sub"
  have "window_ok ?w" using assms by (simp add: window_ok_clear)
  then have p: "window_ok ?p" by (simp add: finish_prepared_def Let_def window_ok_chat)
  then have q: "window_ok ?q" by (simp add: finish_quiet_def Let_def window_ok_chat)
  note c = window_ok_chat [OF p] window_ok_chat [OF q]
  have parts: "window_ok (finish_cancelled cx ?a ?k result sub ?p)" "window_ok (finish_stale cx ?k result sub ?p)"
    "window_ok (finish_mismatch cx ?k result sub ?q)" "window_ok (finish_hidden cx ?k result sub ?q)"
    using p q c
    by (simp_all add: finish_cancelled_def finish_stale_def finish_mismatch_def finish_hidden_def Let_def window_ok_quit)
  have rf: "request_finished cx result sub w =
     (if cr_cancelled result then finish_cancelled cx ?a ?k result sub ?p
      else if wd_view_darkroom (cw_world ?p) \<and> is_stale_response cx sub result ?p then finish_stale cx ?k result sub ?p
      else if revision_mismatch cx (live_applied_for sub (cw_chat w)) result sub ?q
      then finish_mismatch cx ?k result sub ?q
      else if \<not> wd_view_darkroom (cw_world ?q) then finish_hidden cx ?k result sub ?q
      else finish_visible cx (live_applied_for sub (cw_chat w)) result sub ?q)"
    unfolding request_finished_def finish_quiet_def finish_prepared_def live_applied_for_def Let_def by simp
  show ?thesis unfolding rf using parts window_ok_visible [OF q] by simp
qed

lemma window_ok_buttons:
  assumes "window_ok w"
  shows "window_ok (set_multi_turn_button b w)" "window_ok (set_turn_limit_spin v w)" "window_ok (set_fast_mode_button b w)"
proof -
  have c: "chat_ok (cw_chat w)" using assms by (rule window_ok_chat)
  then have "chat_ok (widgets_upd (\<lambda>g. g\<lparr>wg_multi_turn_active := b\<rparr>) (cw_chat w)\<lparr>ac_multi_turn_enabled := b\<rparr>)"
    "chat_ok (widgets_upd (\<lambda>g. g\<lparr>wg_fast_mode_active := b\<rparr>) (cw_chat w)\<lparr>ac_fast_mode_enabled := b\<rparr>)" for b
    by (simp_all add: chat_ok_def sessions_ok_def) (simp_all add: widgets_upd_def)
  with assms show "window_ok (set_multi_turn_button b w)" "window_ok (set_fast_mode_button b w)"
    by (simp_all add: set_multi_turn_button_def set_fast_mode_button_def multi_turn_toggled_def fast_mode_toggled_def Let_def)
  have limit: "chat_ok (widgets_upd (\<lambda>g. g\<lparr>wg_turn_limit := u\<rparr>) (cw_chat w)\<lparr>ac_max_refinement_passes := n\<rparr>)"
    if "1 \<le> n" "min (int n) G_MAXINT = u" for n u
    using c that unfolding chat_ok_def sessions_ok_def by (simp add: widgets_upd_def lookup_session_def)
  define u where "u = min (max v 1) G_MAXINT"
  have u: "1 \<le> u" "u \<le> G_MAXINT" by (simp_all add: u_def G_MAXINT_def)
  then have "to_guint (max u 1) = nat u" by (simp add: to_guint_def G_MAXINT_def)
  moreover have "1 \<le> nat u" "min (int (nat u)) G_MAXINT = u" using u by linarith+
  ultimately have "chat_ok (widgets_upd (\<lambda>g. g\<lparr>wg_turn_limit := u\<rparr>) (cw_chat w)
      \<lparr>ac_max_refinement_passes := to_guint (max u 1)\<rparr>)" by (simp only: limit)
  with assms show "window_ok (set_turn_limit_spin v w)"
    unfolding set_turn_limit_spin_def u_def [symmetric] by (simp add: max_turns_changed_def Let_def)
qed

lemma window_ok_chat_submit: "window_ok w \<Longrightarrow> window_ok (chat_submit cx p a w)"
  by (simp add: chat_submit_def Let_def window_ok_submit)

lemma sessions_ok_buttons:
  assumes "sessions_ok (cw_chat w)"
  shows "sessions_ok (cw_chat (set_multi_turn_button b w))" "sessions_ok (cw_chat (set_turn_limit_spin v w))"
    "sessions_ok (cw_chat (set_fast_mode_button b w))"
proof -
  have "sessions_ok (update_sensitivity c) = sessions_ok c" "sessions_ok (widgets_upd f c) = sessions_ok c"
    "sessions_ok (c\<lparr>ac_multi_turn_enabled := t\<rparr>) = sessions_ok c" "sessions_ok (c\<lparr>ac_fast_mode_enabled := t\<rparr>) = sessions_ok c"
    "sessions_ok (c\<lparr>ac_max_refinement_passes := n\<rparr>) = sessions_ok c" for c f t n
    by (simp_all add: sessions_ok_def update_sensitivity_def Let_def)
  with assms show "sessions_ok (cw_chat (set_multi_turn_button b w))" "sessions_ok (cw_chat (set_turn_limit_spin v w))"
    "sessions_ok (cw_chat (set_fast_mode_button b w))"
    by (simp_all add: set_multi_turn_button_def set_turn_limit_spin_def set_fast_mode_button_def multi_turn_toggled_def
        max_turns_changed_def fast_mode_toggled_def Let_def sessions_ok_sync)
qed

lemma window_ok_enter:
  assumes "sessions_ok (cw_chat w)" shows "window_ok (chat_enter cx conf w)"
proof -
  have "sessions_ok (c\<lparr>ac_autorun_message := m, ac_test_report_path := t, ac_exit_after_autorun := e,
      ac_max_refinement_passes := n, ac_multi_turn_enabled := b, ac_fast_mode_enabled := f\<rparr>) = sessions_ok c" for c m t e n b f
    by (simp add: sessions_ok_def)
  with assms show ?thesis
    unfolding chat_enter_def Let_def
    by (intro window_ok_upd) (simp add: chat_ok_switch sessions_ok_buttons)
qed

lemma window_ok_preview: "window_ok w \<Longrightarrow> window_ok (encode_and_post_preview cx s t w)"
  by (auto simp: encode_and_post_preview_def split: option.splits bool.splits)

lemma chat_ok_entry: "chat_ok c \<Longrightarrow> chat_ok (widgets_upd (\<lambda>g. g\<lparr>wg_entry := t\<rparr>) c)"
  by (rule chat_ok_widgets) (simp_all add: chat_ok_error_shown)

lemma chat_ok_display: "chat_ok c \<Longrightarrow> chat_ok (widgets_upd (\<lambda>g. g\<lparr>wg_error_visible := True, wg_spinner_visible := True\<rparr>) c)"
  by (rule chat_ok_widgets) simp_all

lemma window_ok_event: "window_ok w \<Longrightarrow> window_ok (window_event cx e w)"
proof (induction cx e w rule: window_event.induct)
  case (1 cx t w)
  then show ?case by (simp add: window_ok_chat chat_ok_entry)
next
  case (2 cx w)
  then show ?case by (simp add: send_clicked_def Let_def window_ok_chat_submit window_ok_chat chat_ok_entry)
next
  case (3 cx w)
  then show ?case by (simp add: cancel_clicked_def window_ok_cancel)
next
  case (4 cx w)
  then have "window_ok (switch_to_image_session cx k True (cancel_active_request s r w))" for k s r
    by (intro window_ok_switch window_ok_cancel)
  then show ?case by (simp add: new_chat_clicked_def Let_def window_ok_chat chat_ok_entry)
next
  case (8 cx w)
  then show ?case by (simp add: display_window_def window_ok_chat chat_ok_display)
next
  case (9 cx conf w)
  then have "sessions_ok (cw_chat w)" by (simp add: window_ok_def chat_ok_def)
  then show ?case by (simp add: window_ok_enter)
next
  case (10 cx w)
  then show ?case by (simp add: chat_leave_def window_ok_chat)
next
  case (11 cx w)
  then have "window_ok (switch_to_image_session cx k False (cancel_active_request s r w))" for k s r
    by (intro window_ok_switch window_ok_cancel)
  with 11 show ?case by (simp add: image_changed_def Let_def window_ok_chat)
next
  case (13 cx w)
  then show ?case by (simp add: autorun_if_requested_def Let_def window_ok_chat_submit window_ok_chat)
next
  case (14 cx w)
  then show ?case by (simp add: quit_after_autorun_def window_ok_chat split: option.splits main_source.splits)
next
  case (15 cx w)
  then show ?case
    by (simp add: pipe_finished_def window_ok_chat [OF window_ok_preview] session_ids_def split: option.splits)
qed (simp_all add: window_ok_buttons)

lemma window_ok_step: "window_step cx je w w' \<Longrightarrow> window_ok w \<Longrightarrow> window_ok w'"
  by (induction rule: window_step.induct)
    (auto elim!: request_stepE intro: window_ok_event window_ok_progress window_ok_finished)

end

