(* ===== verification/Chat_Runs.thy ===== *)
theory Chat_Runs
  imports Chat_Widgets
begin

text \<open>
  What holds in every run of the chat window: the invariants of \<open>Chat_System\<close> and \<open>Chat_Widgets\<close> as
  properties of the reachable states, and what a message that is sent becomes.
\<close>

subsection \<open>Invariants of the window\<close>

text \<open>The window right after the darkroom was entered for the first time.\<close>

definition window_init :: "chat_env \<Rightarrow> chat_world \<Rightarrow> bool" where
  "window_init cx w \<longleftrightarrow> (\<exists>conf w0. w = chat_enter cx conf w0 \<and> cw_requests w0 = []
     \<and> ac_active_request (cw_chat w0) = None \<and> ac_image_sessions (cw_chat w0) = [])"

definition window_inv :: "chat_world \<Rightarrow> bool" where
  "window_inv w \<longleftrightarrow> owned w \<and> window_ok w"

lemma window_init_inv: "window_init cx w \<Longrightarrow> window_inv w"
proof -
  assume "window_init cx w"
  then obtain conf w0 where w: "w = chat_enter cx conf w0" "cw_requests w0 = []"
    "ac_active_request (cw_chat w0) = None" "ac_image_sessions (cw_chat w0) = []"
    by (auto simp: window_init_def)
  have "owned w0" using w by (simp add: owned_no_handle holds_handles_def)
  moreover have "sessions_ok (cw_chat w0)" using w by (simp add: sessions_ok_def lookup_session_def)
  ultimately show ?thesis by (simp add: w(1) window_inv_def owning.keeps_enter window_ok_enter)
qed

interpretation window: step_system "window_init cx" "window_step cx je" window_inv
  by (unfold_locales, erule window_init_inv) (auto simp: window_inv_def intro: owned_step window_ok_step)

text \<open>A window that has just been opened, for the witnesses.\<close>

definition sample_enter_conf :: enter_conf where
  "sample_enter_conf = \<lparr>ec_max_passes = 15, ec_multi_turn = True, ec_fast_mode = None\<rparr>"

definition opened_window :: chat_world where
  "opened_window = chat_enter sample_chat_env sample_enter_conf
     (sample_chat_world\<lparr>cw_chat := sample_chat\<lparr>ac_active_request := None\<rparr>\<rparr>)"

lemma opened_window_init: "window_init sample_chat_env opened_window"
  unfolding window_init_def opened_window_def
  by (intro exI conjI) (rule refl, simp_all add: sample_chat_world_def sample_chat_def)

text \<open>
  C12: Every request has one owner.  However the user, the timers, the darkroom, the workers and the main
  loop interleave: the handle of a request is freed exactly when it is not the active one and its job is
  gone, and its count is the number of these two owners; the active request is the one whose submission
  carries the active id, and its result has not been delivered.
\<close>

theorem window_requests_owned:
  assumes "window_init cx w0" "(window_step cx je)\<^sup>*\<^sup>* w0 w"
  shows "(\<forall>i < length (cw_requests w).
           (cc_handle (call_of w i) = None
              \<longleftrightarrow> ac_active_request (cw_chat w) \<noteq> Some i \<and> \<not> job_alive (cc_job (call_of w i)))
         \<and> (\<forall>h. cc_handle (call_of w i) = Some h \<longrightarrow> rq_refcount h
              = of_bool (ac_active_request (cw_chat w) = Some i) + of_bool (job_alive (cc_job (call_of w i)))))
    \<and> (\<forall>i. ac_active_request (cw_chat w) = Some i \<longrightarrow> i < length (cw_requests w)
         \<and> ac_active_request_id (cw_chat w) = sub_request_id (submission_of w i)
         \<and> (\<forall>r. Final r \<notin> set (cc_delivered (call_of w i))))"
proof -
  have o: "owned w" using window.inv_reachable [OF assms] by (simp add: window_inv_def)
  have "(cc_handle (call_of w i) = None
              \<longleftrightarrow> ac_active_request (cw_chat w) \<noteq> Some i \<and> \<not> job_alive (cc_job (call_of w i)))
         \<and> (\<forall>h. cc_handle (call_of w i) = Some h \<longrightarrow> rq_refcount h
              = of_bool (ac_active_request (cw_chat w) = Some i) + of_bool (job_alive (cc_job (call_of w i))))"
    if "i < length (cw_requests w)" for i
  proof -
    from o that have "chat_inv (call_of w i)" "cc_ui_ref (call_of w i) \<longleftrightarrow> ac_active_request (cw_chat w) = Some i"
      by (auto simp: owned_def holds_handles_def)
    then show ?thesis by (auto simp: chat_inv_def refs_ok_def split: option.splits)
  qed
  moreover have "\<forall>i. ac_active_request (cw_chat w) = Some i \<longrightarrow> i < length (cw_requests w)
         \<and> ac_active_request_id (cw_chat w) = sub_request_id (submission_of w i)
         \<and> (\<forall>r. Final r \<notin> set (cc_delivered (call_of w i)))"
    using o by (auto simp: owned_def active_waits_def answered_def)
  ultimately show ?thesis by blast
qed

text \<open>
  C18: The window shows its state.  In every reachable state the conversation and image session of the
  window are those of the session of its image, an error is visible, the spinner turns exactly while
  the window waits and is visible then, and the options show what is in force.
\<close>

theorem window_shows_state:
  assumes "window_init cx w0" "(window_step cx je)\<^sup>*\<^sup>* w0 w" "c = cw_chat w" "g = ac_widgets c"
  shows "(\<exists>s. lookup_session (ac_current_image_id c) c = Some s
       \<and> cs_image_session_id s = ac_image_session_id c \<and> cs_conversation_id s = ac_conversation_id c)
    \<and> ac_image_session_id c \<noteq> None \<and> ac_conversation_id c \<noteq> None
    \<and> (wg_error g \<noteq> [] \<longrightarrow> wg_error_visible g) \<and> wg_spinner g = ac_is_loading c
    \<and> (ac_is_loading c \<longrightarrow> wg_spinner_visible g)
    \<and> wg_multi_turn_active g = ac_multi_turn_enabled c \<and> wg_fast_mode_active g = ac_fast_mode_enabled c
    \<and> wg_turn_limit g = min (int (ac_max_refinement_passes c)) G_MAXINT \<and> 1 \<le> ac_max_refinement_passes c"
proof -
  have c: "chat_ok c" using window.inv_reachable [OF assms(1,2)] by (simp add: window_inv_def window_ok_def assms(3))
  then show ?thesis using chat_ok_ids [OF c] by (auto simp: chat_ok_def session_ids_def assms(4))
qed


subsection \<open>Sending a message\<close>

definition built_request ::
  "chat_env \<Rightarrow> chat_world \<Rightarrow> string \<Rightarrow> string \<Rightarrow> cstr \<Rightarrow> bool \<Rightarrow> dt_agent_refinement_mode_t \<Rightarrow> nat \<Rightarrow> nat
     \<Rightarrow> dt_agent_chat_request" where
  "built_request cx w request_id msg goal fast md px mx =
     (let request = fill_ui_context cx w (request_members (cw_chat w) request_id (Some msg) goal fast md px mx);
          dev = cx_develop cx (cw_world w)
      in request
        \<lparr>req_capabilities := fst (snd (dt_agent_capabilities_collect (cx_env cx) (cw_world w) (Some (dv_modules dev))
           (Some []) None)),
         req_image_state := collect_render_snapshot (cx_collect cx) dev (collected_base (cx_env cx) (cw_world w) dev),
         req_image_revision_id := Some (shown_revision cx w)\<rparr>)"

lemma fill_ui_context_fields:
  "req_request_id (fill_ui_context cx w r) = req_request_id r" "req_app_session_id (fill_ui_context cx w r) = req_app_session_id r"
  "req_image_session_id (fill_ui_context cx w r) = req_image_session_id r"
  "req_conversation_id (fill_ui_context cx w r) = req_conversation_id r" "req_turn_id (fill_ui_context cx w r) = req_turn_id r"
  "req_message_text (fill_ui_context cx w r) = req_message_text r" "req_refinement_mode (fill_ui_context cx w r) = req_refinement_mode r"
  "req_refinement_goal_text (fill_ui_context cx w r) = req_refinement_goal_text r"
  "req_refinement_pass_index (fill_ui_context cx w r) = req_refinement_pass_index r"
  "req_refinement_max_passes (fill_ui_context cx w r) = req_refinement_max_passes r"
  "req_refinement_enabled (fill_ui_context cx w r) = req_refinement_enabled r"
  "req_capabilities (fill_ui_context cx w r) = req_capabilities r" "req_image_state (fill_ui_context cx w r) = req_image_state r"
  "ui_view (req_ui_context (fill_ui_context cx w r)) = Some ''darkroom''"
  by (simp_all add: fill_ui_context_def Let_def)

lemma capabilities_collected:
  "dt_agent_capabilities_collect env wl (Some d) (Some cs) e
     = (True, fst (snd (dt_agent_capabilities_collect env wl (Some d) (Some []) None)), e)"
  by (simp add: dt_agent_capabilities_collect_def dt_agent_catalog_collect_descriptors_def)

lemma collected_history_numbers:
  "st_history_position (collect_render_snapshot ce dev (collected_base env wl dev)) = dv_history_end dev"
  "st_history_count (collect_render_snapshot ce dev (collected_base env wl dev)) = int (length (dv_history dev))"
  using render_same_data [of ce dev "collected_base env wl dev"] by (simp_all add: same_data_def collected_base_fields)

lemma filled_revision:
  "format_image_revision_id (ui_has_image_id (req_ui_context (fill_ui_context cx w (request_members c i m g f md px mx))))
     (ui_image_id (req_ui_context (fill_ui_context cx w (request_members c i m g f md px mx))))
     (dv_history_end (cx_develop cx (cw_world w))) (int (length (dv_history (cx_develop cx (cw_world w)))))
   = shown_revision cx w"
  by (simp add: shown_revision_def revision_id_Some fill_ui_context_def Let_def request_members_def
      chat_current_image_id_def NO_IMGID_def format_image_revision_id_def dt_agent_chat_request_init_def zero_request_def
      zero_ui_context_def)

lemma build_request_succeeds:
  assumes "ac_image_session_id (cw_chat w) \<noteq> None" "ac_conversation_id (cw_chat w) \<noteq> None"
    and "md \<noteq> DT_AGENT_REFINEMENT_MODE_UNKNOWN" "msg \<noteq> []" "0 < px" "px \<le> mx"
  shows "\<exists>id w'. build_request cx (Some msg) goal fast md px mx e w
      = ((True, built_request cx (ensure_app_session_id cx w) id msg goal fast md px mx, e), w')"
proof -
  let ?w = "ensure_app_session_id cx w"
  obtain id w' where u: "g_uuid_string_random cx ?w = (id, w')" by force
  have w': "cw_chat w' = cw_chat ?w" "cw_world w' = cw_world ?w" using u by (auto simp: g_uuid_string_random_def)
  have app: "ac_app_session_id (cw_chat ?w) \<noteq> None" "ac_image_session_id (cw_chat ?w) = ac_image_session_id (cw_chat w)"
    "ac_conversation_id (cw_chat ?w) = ac_conversation_id (cw_chat w)"
    by (simp_all add: ensure_app_session_id_def g_uuid_string_random_def Let_def)
  let ?r = "fill_ui_context cx w' (request_members (cw_chat w') id (Some msg) goal fast md px mx)"
  let ?dev = "cx_develop cx (cw_world w')"
  have r1: "req_capabilities ?r = Some []"
    unfolding fill_ui_context_fields by (simp add: request_members_def dt_agent_chat_request_init_def)
  have r2: "fill_ui_context cx w' r = fill_ui_context cx ?w r" for r
    unfolding fill_ui_context_def w'(2) ..
  have rev: "shown_revision cx w' = shown_revision cx ?w" by (simp only: shown_revision_def revision_cong [OF w'(2)])
  have usable: "\<not> request_unusable (built_request cx ?w id msg goal fast md px mx)"
    using assms app by (simp add: request_unusable_def built_request_def Let_def fill_ui_context_fields request_members_def nonempty_def)
  have "build_request cx (Some msg) goal fast md px mx e w
      = ((True, built_request cx ?w id msg goal fast md px mx, e), w')"
    using usable
    unfolding build_request_def Let_def u prod.case r1 capabilities_collected [of _ _ _ "[]" e] collect_from_dev_Some
      bool.case option.case
    by (simp add: collected_history_numbers filled_revision built_request_def Let_def w' r2 rev)
  then show ?thesis by blast
qed

lemma built_request_fields:
  "req_request_id (built_request cx w rid msg g f md px mx) = Some rid"
  "req_app_session_id (built_request cx w rid msg g f md px mx) = ac_app_session_id (cw_chat w)"
  "req_image_session_id (built_request cx w rid msg g f md px mx) = ac_image_session_id (cw_chat w)"
  "req_conversation_id (built_request cx w rid msg g f md px mx) = ac_conversation_id (cw_chat w)"
  "req_turn_id (built_request cx w rid msg g f md px mx) = Some rid"
  "req_message_text (built_request cx w rid msg g f md px mx) = Some msg"
  "req_image_revision_id (built_request cx w rid msg g f md px mx) = Some (shown_revision cx w)"
  "req_refinement_mode (built_request cx w rid msg g f md px mx) = md"
  "req_refinement_enabled (built_request cx w rid msg g f md px mx) = (md = DT_AGENT_REFINEMENT_MODE_MULTI)"
  "req_refinement_pass_index (built_request cx w rid msg g f md px mx) = px"
  "req_refinement_max_passes (built_request cx w rid msg g f md px mx) = mx"
  "req_refinement_goal_text (built_request cx w rid msg g f md px mx) = (if nonempty g then g else Some msg)"
  "ui_view (req_ui_context (built_request cx w rid msg g f md px mx)) = Some ''darkroom''"
  "image_state_ready (req_image_state (built_request cx w rid msg g f md px mx))"
proof -
  let ?dev = "cx_develop cx (cw_world w)"
  let ?base = "collected_base (cx_env cx) (cw_world w) ?dev"
  have "st_controls ?base \<noteq> None \<and> st_history ?base \<noteq> None"
    by (simp add: collected_base_def collect_history_def collect_controls_def collect_metadata_def
        dt_agent_image_state_init_def dt_agent_catalog_collect_descriptors_def Let_def)
  with render_same_data [of "cx_collect cx" ?dev ?base]
  show "image_state_ready (req_image_state (built_request cx w rid msg g f md px mx))"
    by (simp add: built_request_def Let_def image_state_ready_def same_data_def)
qed (simp_all add: built_request_def Let_def fill_ui_context_fields request_members_def)

lemma built_request_complete:
  assumes "ac_app_session_id (cw_chat w) \<noteq> None" "ac_image_session_id (cw_chat w) \<noteq> None"
    "ac_conversation_id (cw_chat w) \<noteq> None" "md \<noteq> DT_AGENT_REFINEMENT_MODE_UNKNOWN" "msg \<noteq> []" "0 < px" "px \<le> mx"
    and "md \<noteq> DT_AGENT_REFINEMENT_MODE_MULTI \<longrightarrow> mx = 1"
  shows "request_incomplete (dt_agent_chat_request_copy (built_request cx w rid msg g f md px mx))
    \<longleftrightarrow> garray (req_capabilities (dt_agent_chat_request_copy (built_request cx w rid msg g f md px mx))) = []"
  unfolding dt_agent_chat_request_copy_eq [OF built_request_fields(14)]
  using assms by (auto simp: request_incomplete_def built_request_fields nonempty_def)

text \<open>Which conversation the window is in.\<close>

definition conversation_view :: "agent_chat \<Rightarrow> cstr \<times> cstr" where
  "conversation_view c = (ac_image_session_id c, ac_conversation_id c)"

lemma conversation_view_simps [simp]:
  "conversation_view (widgets_upd f c) = conversation_view c" "conversation_view (session_upd k h c) = conversation_view c"
  "conversation_view (c\<lparr>ac_is_loading := b\<rparr>) = conversation_view c"
  "conversation_view (c\<lparr>ac_app_session_id := t\<rparr>) = conversation_view c"
  "conversation_view (c\<lparr>ac_active_request := r\<rparr>) = conversation_view c"
  "conversation_view (c\<lparr>ac_active_request_id := t\<rparr>) = conversation_view c"
  "conversation_view (c\<lparr>ac_active_request_canceling := b\<rparr>) = conversation_view c"
  "conversation_view (c\<lparr>ac_active_request_live_applied_count := n\<rparr>) = conversation_view c"
  "conversation_view (c\<lparr>ac_active_request_refinement_pass_index := n\<rparr>) = conversation_view c"
  "conversation_view (c\<lparr>ac_active_request_refinement_max_passes := n\<rparr>) = conversation_view c"
  "conversation_view (c\<lparr>ac_active_request_tool_calls_used := n\<rparr>) = conversation_view c"
  "conversation_view (c\<lparr>ac_active_request_tool_calls_max := n\<rparr>) = conversation_view c"
  by (simp_all add: conversation_view_def widgets_upd_def session_upd_def split: option.splits)

lemma conversation_view_functions [simp]:
  "conversation_view (sync_current_session c) = conversation_view c" "conversation_view (update_sensitivity c) = conversation_view c"
  "conversation_view (set_status st c) = conversation_view c" "conversation_view (set_error st c) = conversation_view c"
  "conversation_view (append_message a st c) = conversation_view c" "conversation_view (set_loading b c) = conversation_view c"
  "conversation_view (update_refinement_status n k c) = conversation_view c"
  "conversation_view (submit_begin msg g u f md px mx c) = conversation_view c"
proof -
  show y: "conversation_view (sync_current_session c) = conversation_view c" for c by (simp add: sync_current_session_def)
  show sens: "conversation_view (update_sensitivity c) = conversation_view c" for c by (simp add: update_sensitivity_def Let_def)
  show st: "conversation_view (set_status st c) = conversation_view c" for st c by (simp add: set_status_def y)
  show er: "conversation_view (set_error st c) = conversation_view c" for st c by (simp add: set_error_def y)
  show ap: "conversation_view (append_message a st c) = conversation_view c" for a st c by (simp add: append_message_def y)
  show ld: "conversation_view (set_loading b c) = conversation_view c" for b c by (simp add: set_loading_def sens)
  show rs: "conversation_view (update_refinement_status n k c) = conversation_view c" for n k c
    by (simp add: update_refinement_status_def Let_def st)
  show "conversation_view (submit_begin msg g u f md px mx c) = conversation_view c"
    by (simp add: submit_begin_def Let_def ap rs ld er)
qed

lemma conversation_view_drop [simp]:
  "conversation_view (cw_chat (drop_active_request_handle w)) = conversation_view (cw_chat w)"
  by (simp add: drop_active_request_handle_def split: option.splits)

lemma requests_switch [simp]: "cw_requests (switch_to_image_session cx k b w) = cw_requests w"
  by (simp add: switch_to_image_session_def lookup_or_create_session_def g_uuid_string_random_def Let_def split: option.splits)

lemma world_switch [simp]: "cw_world (switch_to_image_session cx k b w) = cw_world w"
  using switch_same_image [of w cx k b w] by (simp add: same_image_def)

lemma submit_starts:
  assumes ok: "window_ok w" and w1: "w1 = switch_to_image_session cx (chat_current_image_id cx w) False w"
    and idle: "\<not> ac_is_loading (cw_chat w1)" and msg: "msg = g_strstrip (str_or p [])" "msg \<noteq> []"
    and md: "md \<noteq> DT_AGENT_REFINEMENT_MODE_UNKNOWN" "0 < px" "px \<le> mx" and job: "cx_have_job cx (length (cw_requests w))"
    and w': "(b, w') = submit_internal cx p g a u f md px mx w" and n: "n = length (cw_requests w)"
  shows "\<exists>rid w2. b \<and> cw_world w2 = cw_world w \<and> conversation_view (cw_chat w2) = conversation_view (cw_chat w1)
    \<and> ac_app_session_id (cw_chat w2) \<noteq> None
    \<and> length (cw_requests w') = Suc n \<and> ac_active_request (cw_chat w') = Some n
    \<and> ac_active_request_id (cw_chat w') = Some rid
    \<and> snd (cw_requests w' ! n) = (dt_agent_chat_request_copy (built_request cx w2 rid msg g f md px mx),
         new_submission (built_request cx w2 rid msg g f md px mx) msg a md (read_current_exposure cx (cw_world w)))
    \<and> conversation_view (cw_chat w') = conversation_view (cw_chat w1) \<and> cc_job (call_of w' n) = Job_Queued"
proof -
  let ?wb = "chat_upd (submit_begin msg g u f md px mx) w1"
  let ?w2 = "ensure_app_session_id cx ?wb"
  have "window_ok w1" unfolding w1 by (rule window_ok_switch [OF ok])
  then have wb: "window_ok ?wb" by (simp add: window_ok_chat)
  then have ids: "ac_image_session_id (cw_chat ?wb) \<noteq> None" "ac_conversation_id (cw_chat ?wb) \<noteq> None"
    using chat_ok_ids [OF window_ok_chat [OF wb]] by simp_all
  from build_request_succeeds [OF ids md(1) msg(2) md(2,3), where goal = g and fast = f and e = None and cx = cx]
  obtain rid w3 where b: "build_request cx (Some msg) g f md px mx None ?wb
      = ((True, built_request cx ?w2 rid msg g f md px mx, None), w3)" by blast
  let ?r = "built_request cx ?w2 rid msg g f md px mx"
  have w2: "cw_world ?w2 = cw_world w" "conversation_view (cw_chat ?w2) = conversation_view (cw_chat w1)"
    "ac_app_session_id (cw_chat ?w2) \<noteq> None" "cw_requests ?w2 = cw_requests w"
    "handle_view (cw_chat ?w2) = handle_view (cw_chat w1)"
    by (simp_all add: ensure_app_session_id_def g_uuid_string_random_def Let_def w1)
  have "w3 = snd (g_uuid_string_random cx ?w2)"
    using build_request_world [of cx "Some msg" g f md px mx None ?wb] b by simp
  then have w3: "cw_world w3 = cw_world w" "conversation_view (cw_chat w3) = conversation_view (cw_chat w1)"
    "cw_requests w3 = cw_requests w" "handle_view (cw_chat w3) = handle_view (cw_chat w1)"
    using w2 by (simp_all add: g_uuid_string_random_def)
  let ?s = "new_submission ?r msg a md (read_current_exposure cx (cw_world w3))"
  let ?w4 = "chat_upd (\<lambda>c. session_upd (ac_current_image_id c) (\<lambda>s. s\<lparr>cs_refinement_goal_text := sub_goal_text ?s\<rparr>) c) w3"
  obtain call where st: "start_client_request cx ?r ?s ?w4
      = (Inr n, ?w4\<lparr>cw_requests := cw_requests w @ [(call, dt_agent_chat_request_copy ?r, ?s)]\<rparr>)"
    and queued: "cc_job call = Job_Queued"
    using job by (simp add: start_client_request_def dt_agent_client_chat_async_def Let_def w3 n)
  let ?w5 = "?w4\<lparr>cw_requests := cw_requests w @ [(call, dt_agent_chat_request_copy ?r, ?s)]\<rparr>"
  let ?F = "\<lambda>c. update_sensitivity (c\<lparr>ac_active_request_refinement_pass_index := px,
                            ac_active_request_refinement_max_passes := mx,
                            ac_active_request_tool_calls_used := 0,
                            ac_active_request_tool_calls_max := (if md = DT_AGENT_REFINEMENT_MODE_MULTI then mx else 1),
                            ac_active_request_live_applied_count := 0\<rparr>)"
  have res: "(b, w') = (True, chat_upd ?F (set_active_request n (sub_request_id ?s) ?w5))"
    unfolding w' submit_internal_def Let_def
    using idle msg(2) b st by (simp add: w1 [symmetric] msg(1) [symmetric])
  have len: "length (cw_requests (drop_active_request_handle ?w5)) = Suc n" by (simp add: n)
  have rid: "sub_request_id ?s = Some rid" by (simp add: new_submission_def built_request_fields)
  have "snd (cw_requests (drop_active_request_handle ?w5) ! n) = (dt_agent_chat_request_copy ?r, ?s)"
    by (auto simp: drop_active_request_handle_def call_upd_def nth_list_update n nth_append split: option.splits)
  then have "snd (cw_requests w' ! n) = (dt_agent_chat_request_copy ?r, ?s)" "length (cw_requests w') = Suc n"
    using res len by (simp_all add: set_active_request_def)
  moreover have "handle_view (cw_chat w') = (Some n, Some rid)"
    using res rid by (simp add: handle_view_def set_active_request_def update_sensitivity_def Let_def widgets_upd_def)
  moreover have "conversation_view (cw_chat w') = conversation_view (cw_chat w1)"
    using res w3 by (simp add: set_active_request_def)
  moreover have "cc_job (fst (cw_requests (drop_active_request_handle ?w5) ! n)) = Job_Queued"
    using queued by (auto simp: drop_active_request_handle_def call_upd_def nth_list_update n nth_append call_unref_def
        split: option.splits)
  then have "cc_job (call_of w' n) = Job_Queued" using res by (simp add: set_active_request_def call_of_def)
  ultimately show ?thesis
    using res w2 w3 by (intro exI [of _ rid] exI [of _ ?w2]) (simp add: handle_view_def)
qed

text \<open>
  C14: What the window sends is a complete request.  In every reachable state in which the window is not
  waiting, sending a message that is not blank starts one request: it becomes the active one, it is for
  the conversation and image session of the window and the revision of the image, its pass and pass
  limit are in range, and the protocol layer accepts it exactly when there is a control to offer.
\<close>

theorem sent_request_complete:
  assumes "window_init cx w0" "(window_step cx je)\<^sup>*\<^sup>* w0 w"
    and "\<not> ac_is_loading (cw_chat (switch_to_image_session cx (chat_current_image_id cx w) False w))"
    and "g_strstrip (str_or prompt []) \<noteq> []" "n = length (cw_requests w)" "cx_have_job cx n"
    and "w' = chat_submit cx prompt autorun w" "r = fst (snd (cw_requests w' ! n))"
  shows "length (cw_requests w') = Suc n \<and> ac_active_request (cw_chat w') = Some n
    \<and> req_request_id r = ac_active_request_id (cw_chat w') \<and> req_request_id r \<noteq> None
    \<and> req_conversation_id r = ac_conversation_id (cw_chat w') \<and> req_image_session_id r = ac_image_session_id (cw_chat w')
    \<and> req_image_revision_id r = Some (shown_revision cx w) \<and> req_message_text r = Some (g_strstrip (str_or prompt []))
    \<and> 1 \<le> req_refinement_pass_index r \<and> req_refinement_pass_index r \<le> req_refinement_max_passes r
    \<and> (request_incomplete r \<longleftrightarrow> garray (req_capabilities r) = [])"
proof -
  have ok: "window_ok w" using window.inv_reachable [OF assms(1,2)] by (simp add: window_inv_def)
  let ?md = "refinement_mode_for_submit (cw_chat w)"
  let ?mx = "if ?md = DT_AGENT_REFINEMENT_MODE_MULTI then chat_max_refinement_passes (cw_chat w) else 1"
  let ?w1 = "switch_to_image_session cx (chat_current_image_id cx w) False w"
  have md: "?md \<noteq> DT_AGENT_REFINEMENT_MODE_UNKNOWN" "1 \<le> ?mx"
    by (simp_all add: refinement_mode_for_submit_def chat_max_refinement_passes_def DT_AGENT_CHAT_DEFAULT_MAX_REFINEMENT_TURNS_def)
  obtain b w'' where s: "(b, w'') = submit_internal cx prompt prompt autorun True (ac_fast_mode_enabled (cw_chat w)) ?md 1 ?mx w"
    by (metis surj_pair)
  have w'': "w'' = w'" using s [symmetric] by (simp add: assms(7) chat_submit_def Let_def)
  from submit_starts [OF ok refl assms(3) refl assms(4) md(1) zero_less_one md(2) assms(6) [unfolded assms(5)] s assms(5)]
  obtain rid w2 where x: "cw_world w2 = cw_world w" "conversation_view (cw_chat w2) = conversation_view (cw_chat ?w1)"
    "ac_app_session_id (cw_chat w2) \<noteq> None" "length (cw_requests w') = Suc n" "ac_active_request (cw_chat w') = Some n"
    "ac_active_request_id (cw_chat w') = Some rid"
    "r = dt_agent_chat_request_copy (built_request cx w2 rid (g_strstrip (str_or prompt [])) prompt
           (ac_fast_mode_enabled (cw_chat w)) ?md 1 ?mx)"
    "conversation_view (cw_chat w') = conversation_view (cw_chat ?w1)"
    unfolding w'' assms(8) by auto
  have ids: "ac_image_session_id (cw_chat w2) \<noteq> None" "ac_conversation_id (cw_chat w2) \<noteq> None"
    "ac_image_session_id (cw_chat w2) = ac_image_session_id (cw_chat w')"
    "ac_conversation_id (cw_chat w2) = ac_conversation_id (cw_chat w')"
    using chat_ok_ids [OF window_ok_chat [OF window_ok_switch [OF ok, of cx "chat_current_image_id cx w" False]]] x(2,8)
    by (simp_all add: conversation_view_def)
  have "request_incomplete r \<longleftrightarrow> garray (req_capabilities r) = []"
    unfolding x(7) by (rule built_request_complete [OF x(3) ids(1,2) md(1) assms(4) zero_less_one md(2)]) simp
  moreover have "shown_revision cx w2 = shown_revision cx w" by (simp only: shown_revision_def revision_cong [OF x(1)])
  ultimately show ?thesis
    using x(4,5,6) ids(3,4) md(2) by (simp add: x(7) dt_agent_chat_request_copy_eq [OF built_request_fields(14)] built_request_fields
        del: One_nat_def)
qed

text \<open>Switching to an image without a session ends the wait, switching to the shown image keeps it.\<close>

lemma load_session_loading [simp]:
  "ac_is_loading (load_session s c) = cs_is_loading s" "ac_current_image_id (load_session s c) = ac_current_image_id c"
  by (simp_all add: load_session_refresh refresh_widgets_def update_sensitivity_def widgets_upd_def Let_def)

lemma new_session_idle:
  assumes "lookup_session k (sync_current_session (cw_chat w)) = None"
  shows "\<not> ac_is_loading (cw_chat (switch_to_image_session cx k False w))
    \<and> ac_current_image_id (cw_chat (switch_to_image_session cx k False w)) = k"
proof -
  have first: "(if ac_current_image_id (cw_chat w) \<noteq> 0 \<or> ac_conversation_id (cw_chat w) \<noteq> None
        \<or> ac_image_session_id (cw_chat w) \<noteq> None
      then chat_upd sync_current_session w else w) = chat_upd sync_current_session w"
    by (simp add: chat_upd_def sync_current_session_def)
  show ?thesis
    unfolding switch_to_image_session_def first Let_def
    using assms by (simp add: lookup_or_create_session_def g_uuid_string_random_def Let_def) (simp add: zero_session_def)
qed

lemma same_session_waits:
  assumes "window_ok w"
  shows "ac_is_loading (cw_chat (switch_to_image_session cx (ac_current_image_id (cw_chat w)) False w))
    = ac_is_loading (cw_chat w)"
proof -
  let ?c = "cw_chat w" and ?k = "ac_current_image_id (cw_chat w)"
  have c: "chat_ok ?c" using assms by (rule window_ok_chat)
  then obtain s where s: "lookup_session ?k ?c = Some s" "1 \<le> ac_max_refinement_passes ?c" by (auto simp: chat_ok_def)
  then have saved: "lookup_session ?k (sync_current_session ?c) = Some (saved_session ?c s)" by (simp add: lookup_sync)
  obtain s' al where one: "cw_chat (switch_to_image_session cx ?k False w)
      = load_session s' (?c\<lparr>ac_image_sessions := al, ac_current_image_id := ?k\<rparr>)"
    "\<And>s''. lookup_session ?k (sync_current_session ?c) = Some s'' \<Longrightarrow> s' = s''"
    by (rule switch_loads [OF s(2), of cx ?k]) blast
  show ?thesis using one(1) one(2) [OF saved] chat_ok_ids [OF c] by (simp add: saved_session_def)
qed

lemma sample_image [simp]: "chat_current_image_id sample_chat_env w = 42"
  by (simp add: chat_current_image_id_def sample_chat_env_def sample_develop_def)

lemma opened_window_state:
  "\<not> ac_is_loading (cw_chat opened_window) \<and> ac_current_image_id (cw_chat opened_window) = 42"
proof -
  let ?w0 = "sample_chat_world\<lparr>cw_chat := sample_chat\<lparr>ac_active_request := None\<rparr>\<rparr>"
  have none: "lookup_session j (sync_current_session (cw_chat (set_fast_mode_button f (set_turn_limit_spin v
      (set_multi_turn_button b (chat_upd g ?w0)))))) = None"
    if "\<And>c. ac_image_sessions (g c) = ac_image_sessions c" for j f v b g
  proof -
    have "ac_image_sessions (g (sample_chat\<lparr>ac_active_request := None\<rparr>)) = []" by (simp add: that sample_chat_def)
    then show ?thesis
      by (simp add: set_multi_turn_button_def set_turn_limit_spin_def set_fast_mode_button_def multi_turn_toggled_def
          max_turns_changed_def fast_mode_toggled_def Let_def sync_no_sessions widgets_upd_def update_sensitivity_def
          lookup_session_def)
  qed
  have n: "\<not> ac_is_loading (cw_chat (switch_to_image_session cx 42 False (set_fast_mode_button f (set_turn_limit_spin v
        (set_multi_turn_button b (chat_upd g ?w0))))))
      \<and> ac_current_image_id (cw_chat (switch_to_image_session cx 42 False (set_fast_mode_button f (set_turn_limit_spin v
        (set_multi_turn_button b (chat_upd g ?w0)))))) = 42"
    if "\<And>c. ac_image_sessions (g c) = ac_image_sessions c" for cx f v b g
    by (rule new_session_idle, rule none, rule that)
  show ?thesis
    unfolding opened_window_def chat_enter_def Let_def sample_image cw_simps
    by (simp add: n update_sensitivity_def widgets_upd_def)
qed

lemma opened_window_ok: "window_ok opened_window"
  using window_init_inv [OF opened_window_init] by (simp add: window_inv_def)

lemma opened_window_idle:
  "\<not> ac_is_loading (cw_chat (switch_to_image_session sample_chat_env
       (chat_current_image_id sample_chat_env opened_window) False opened_window))"
  using same_session_waits [OF opened_window_ok, of sample_chat_env] opened_window_state by (simp add: sample_image)

definition sent_window :: chat_world where
  "sent_window = chat_submit sample_chat_env (Some ''brighter'') False opened_window"

lemma opened_window_requests: "cw_requests opened_window = []"
proof -
  have "cw_requests (set_fast_mode_button f w) = cw_requests w" "cw_requests (set_turn_limit_spin v w) = cw_requests w"
    "cw_requests (set_multi_turn_button b w) = cw_requests w" for f v b w
    by (simp_all add: set_fast_mode_button_def set_turn_limit_spin_def set_multi_turn_button_def multi_turn_toggled_def
        max_turns_changed_def fast_mode_toggled_def Let_def)
  then show ?thesis by (simp add: opened_window_def chat_enter_def Let_def) (simp add: sample_chat_world_def)
qed

lemma blank_check: "g_strstrip (str_or (Some ''brighter'') []) \<noteq> []"
  by code_simp

theorem sent_request_complete_witness:
  "length (cw_requests sent_window) = 1
     \<and> req_message_text (fst (snd (cw_requests sent_window ! 0))) = Some (g_strstrip ''brighter'')"
  using sent_request_complete [OF opened_window_init rtranclp.rtrancl_refl opened_window_idle blank_check refl _ refl refl, of False]
  by (simp add: opened_window_requests sent_window_def) (simp add: sample_chat_env_def)

text \<open>The window after the message was typed and sent, as a run.\<close>

definition typed_window :: chat_world where
  "typed_window = window_event sample_chat_env (Type_Entry ''brighter'') opened_window"

definition clicked_window :: chat_world where
  "clicked_window = window_event sample_chat_env Send_Clicked typed_window"

lemma clicked_window_run: "(window_step sample_chat_env je)\<^sup>*\<^sup>* opened_window clicked_window"
  unfolding clicked_window_def typed_window_def
  by (rule rtranclp.rtrancl_into_rtrancl, rule r_into_rtranclp) (rule event)+

text \<open>The message that was typed is on its way.\<close>

lemma clicked_window_waits:
  "ac_active_request (cw_chat clicked_window) = Some 0 \<and> cc_job (call_of clicked_window 0) = Job_Queued"
proof -
  have ok: "window_ok typed_window" unfolding typed_window_def by (rule window_ok_event [OF opened_window_ok])
  have typed: "\<not> ac_is_loading (cw_chat typed_window)" "ac_current_image_id (cw_chat typed_window) = 42"
    "cw_requests typed_window = []" "wg_entry (ac_widgets (cw_chat typed_window)) = ''brighter''"
    using opened_window_state by (simp_all add: typed_window_def opened_window_requests widgets_upd_def)
  have idle: "\<not> ac_is_loading (cw_chat (switch_to_image_session sample_chat_env
      (chat_current_image_id sample_chat_env typed_window) False typed_window))"
    using same_session_waits [OF ok, of sample_chat_env] typed by simp
  have job: "cx_have_job sample_chat_env (length (cw_requests typed_window))"
    by (simp add: sample_chat_env_def)
  let ?c = "cw_chat typed_window"
  let ?md = "refinement_mode_for_submit ?c"
  let ?mx = "if ?md = DT_AGENT_REFINEMENT_MODE_MULTI then chat_max_refinement_passes ?c else 1"
  have md: "?md \<noteq> DT_AGENT_REFINEMENT_MODE_UNKNOWN" "1 \<le> ?mx"
    by (simp_all add: refinement_mode_for_submit_def chat_max_refinement_passes_def DT_AGENT_CHAT_DEFAULT_MAX_REFINEMENT_TURNS_def)
  obtain b w' where s: "(b, w') = submit_internal sample_chat_env (Some ''brighter'') (Some ''brighter'') False True
      (ac_fast_mode_enabled ?c) ?md 1 ?mx typed_window" by (metis surj_pair)
  have sub: "chat_submit sample_chat_env (Some ''brighter'') False typed_window = w'"
    using s [symmetric] by (simp add: chat_submit_def Let_def)
  from submit_starts [OF ok refl idle refl blank_check md(1) zero_less_one md(2) job s refl]
  have "ac_active_request (cw_chat w') = Some 0" "cc_job (call_of w' 0) = Job_Queued" by (auto simp: typed(3))
  then show ?thesis
    by (simp add: clicked_window_def send_clicked_def typed(4) sub Let_def widgets_upd_def)
qed

theorem window_requests_owned_witness:
  "cc_handle (call_of clicked_window 0) \<noteq> None
     \<and> ac_active_request_id (cw_chat clicked_window) = sub_request_id (submission_of clicked_window 0)"
  using window_requests_owned [OF opened_window_init clicked_window_run] clicked_window_waits by auto

theorem window_shows_state_witness:
  "ac_conversation_id (cw_chat clicked_window) \<noteq> None
     \<and> wg_spinner (ac_widgets (cw_chat clicked_window)) = ac_is_loading (cw_chat clicked_window)"
  using window_shows_state [OF opened_window_init clicked_window_run refl refl] by blast

end
