(* ===== verification/Chat_Liveness.thy ===== *)
theory Chat_Liveness
  imports Chat_Runs
begin

text \<open>
  That the window does not stay stuck: a request whose job is not dropped is answered and released by
  the steps of the background alone.
\<close>

subsection \<open>The window gets rid of its requests\<close>

lemma worker_run:
  assumes "(job_step env)\<^sup>*\<^sup>* s s'" "i < length (cw_requests w)" "call_of w i = s" "env = job_env_of je w i"
  shows "\<exists>w'. (request_step cx je i)\<^sup>*\<^sup>* w w' \<and> call_of w' i = s' \<and> cw_chat w' = cw_chat w
    \<and> length (cw_requests w') = length (cw_requests w) \<and> job_env_of je w' i = env"
  using assms
proof (induction rule: rtranclp_induct)
  case base
  then show ?case by blast
next
  case (step t t')
  then obtain w' where w': "(request_step cx je i)\<^sup>*\<^sup>* w w'" "call_of w' i = t" "cw_chat w' = cw_chat w"
    "length (cw_requests w') = length (cw_requests w)" "job_env_of je w' i = env" by blast
  let ?w = "call_upd i (\<lambda>_. t') w'"
  have i: "i < length (cw_requests w')" using w'(4) step.prems(1) by simp
  have "request_step cx je i w' ?w" using worker [OF i, of je t' cx] step.hyps(2) w'(2,5) by simp
  moreover have "job_env_of je ?w i = env"
    using w'(5) i by (simp add: job_env_of_def call_upd_def)
  ultimately show ?case
    using w' i by (intro exI [of _ ?w]) (auto simp: call_of_upd intro: rtranclp.rtrancl_into_rtrancl)
qed

text \<open>A progress report leaves the requests alone unless it ends the active one.\<close>

lemma live_edits_requests:
  "ac_active_request (cw_chat (snd (apply_live_edits cx p w))) = None
     \<or> cw_requests (snd (apply_live_edits cx p w)) = cw_requests w"
proof -
  obtain ok rep e w' where r: "apply_operation_range cx (resp_operations (pg_response p))
      (ac_active_request_live_applied_count (cw_chat w)) dt_agent_execution_report_init w = (ok, rep, e, w')"
    by (metis prod_cases4)
  then have "cw_requests w' = cw_requests w"
    by (auto simp: apply_operation_range_def Let_def split: option.splits if_splits prod.splits)
  with r show ?thesis by (cases ok) (simp_all add: apply_live_edits_def Let_def cancel_drops_handle)
qed

lemma progress_requests:
  "ac_active_request (cw_chat (progress_finished cx p w)) = None
     \<or> cw_requests (progress_finished cx p w) = cw_requests w"
proof -
  let ?w = "chat_upd (\<lambda>c. c\<lparr>ac_active_request_tool_calls_used := pg_tool_calls_used p,
                 ac_active_request_tool_calls_max :=
                   (if 0 < pg_tool_calls_max p then pg_tool_calls_max p
                    else ac_active_request_tool_calls_max c)\<rparr>) w"
  obtain ok1 w1 where a: "apply_live_edits cx p ?w = (ok1, w1)" by force
  have w1: "ac_active_request (cw_chat w1) = None \<or> cw_requests w1 = cw_requests w"
    using live_edits_requests [of cx p ?w] a by simp
  obtain ok w' where r: "(if pg_found p then progress_found cx p w else (True, w)) = (ok, w')" by force
  have hv: "ac_active_request (append_message s t c) = ac_active_request c" for s t c
    using handle_view_functions(5) [of s t c] by (simp add: handle_view_def)
  have hs: "ac_active_request (update_refinement_status n k c) = ac_active_request c" for n k c by simp
  have "ac_active_request (cw_chat w') = None \<or> cw_requests w' = cw_requests w"
    using r a w1 by (cases ok1) (auto simp: progress_found_def Let_def hv split: if_splits)
  with r show ?thesis by (cases ok) (auto simp: progress_finished_def Let_def hs)
qed

text \<open>That request \<open>i\<close> is not the active one is kept by every handler.\<close>

definition released :: "nat \<Rightarrow> chat_world \<Rightarrow> bool" where
  "released i w \<longleftrightarrow> i < length (cw_requests w) \<and> ac_active_request (cw_chat w) \<noteq> Some i"

lemma cancel_requests_length [simp]: "length (cw_requests (cancel_active_request s r w)) = length (cw_requests w)"
  by (simp add: cancel_active_request_def Let_def call_upd_def split: option.splits)

interpretation releasing: window_contract "released i" for i
proof
  show "released i w' = released i w"
    if "cw_requests w' = cw_requests w" "handle_view (cw_chat w') = handle_view (cw_chat w)" for w w'
    using that by (simp add: released_def handle_view_def)
  show "released i (cancel_active_request s r w)" if "released i w" for s r w
    using that by (simp add: released_def cancel_drops_handle)
  show "released i (set_active_request h (sub_request_id sub) w')"
    if "released i w" "start_client_request cx request sub w = (Inr h, w')" for cx request sub h w w'
  proof -
    from that(2) have "h = length (cw_requests w)" "length (cw_requests w') = Suc h"
      by (auto simp: start_client_request_def Let_def split: sum.splits prod.splits)
    with that(1) show ?thesis by (simp add: released_def set_active_request_def)
  qed
qed

text \<open>So is that its job is disposed of: the window only cancels and releases its own references.\<close>

definition disposed :: "nat \<Rightarrow> chat_world \<Rightarrow> bool" where
  "disposed i w \<longleftrightarrow> i < length (cw_requests w) \<and> cc_job (call_of w i) = Job_Disposed"

lemma call_upd_disposed [simp]: "(\<And>s. cc_job (f s) = cc_job s) \<Longrightarrow> disposed i (call_upd j f w) = disposed i w"
  by (auto simp: disposed_def call_of_def call_upd_def nth_list_update)

lemma disposed_cong: "cw_requests w' = cw_requests w \<Longrightarrow> disposed i w' = disposed i w"
  by (simp add: disposed_def call_of_def)

lemma disposed_chat_upd [simp]: "disposed i (chat_upd f w) = disposed i w"
  by (rule disposed_cong) simp

lemma call_keeps_job [simp]: "cc_job (call_unref s) = cc_job s" "cc_job (call_cancel r s) = cc_job s"
  by (auto simp: call_unref_def call_cancel_def split: option.splits prod.splits)

lemma disposed_drop [simp]: "disposed i (drop_active_request_handle w) = disposed i w"
  by (simp add: drop_active_request_handle_def split: option.splits)

interpretation disposing: window_contract "disposed i" for i
proof
  show "disposed i w' = disposed i w" if "cw_requests w' = cw_requests w" for w w'
    using that by (rule disposed_cong)
  show "disposed i (cancel_active_request s r w)" if "disposed i w" for s r w
    using that by (simp add: cancel_active_request_def Let_def split: option.splits)
  show "disposed i (set_active_request h (sub_request_id sub) w')"
    if "disposed i w" "start_client_request cx request sub w = (Inr h, w')" for cx request sub h w w'
    using that by (auto simp: start_client_request_def set_active_request_def Let_def
        split: sum.splits prod.splits) (simp add: disposed_def call_of_def nth_append)
qed

lemma disposed_request_step: "request_step cx je i w w' \<Longrightarrow> disposed i w \<Longrightarrow> disposed i w'"
proof (induction rule: request_step.induct)
  case (worker w s)
  from worker(2,3) show ?case by (auto simp: disposed_def elim!: job_stepE)
next
  case (progress w p rest s)
  from main_step_cases [OF progress(3,2)] progress(1,4) show ?case
    by (intro disposing.keeps_progress) (simp add: disposed_def call_of_upd)
next
  case (result w r rest s)
  from main_step_cases [OF result(3,2)] result(1,4) have "disposed i (call_upd i (\<lambda>_. s) w)"
    by (simp add: disposed_def call_of_upd)
  then show ?case by (intro disposing.keeps_finished) (simp add: clear_active_request_def)
qed

text \<open>The deliveries of a finished job: the last one releases the request.\<close>

lemma result_releases:
  assumes "owned w" "ac_active_request (cw_chat w) = Some i" "cc_main (call_of w i) = Final r # rest"
  shows "\<exists>w'. request_step cx je i w w' \<and> ac_active_request (cw_chat w') \<noteq> Some i"
proof -
  let ?s = "(call_of w i)\<lparr>cc_main := rest, cc_delivered := cc_delivered (call_of w i) @ [Final r],
      cc_destroyed := cc_destroyed (call_of w i) + 1\<rparr>"
  let ?w = "call_upd i (\<lambda>_. ?s) w" and ?sub = "submission_of w i"
  have i: "i < length (cw_requests w)" using owned_bounds [OF assms(1)] assms(2) by simp
  have m: "submission_matches_active_request (cw_chat ?w) ?sub"
    using assms(1,2) by (auto simp: owned_def active_waits_def submission_matches_active_request_def)
  have "released i (clear_active_request True ?w)"
    using i by (simp add: released_def clear_active_request_def call_of_upd)
  with m have "released i (request_finished cx r ?sub ?w)"
    by (intro releasing.keeps_finished) simp
  moreover have "request_step cx je i w (request_finished cx r ?sub ?w)"
    by (rule result [OF i assms(3)]) (rule deliver_result [OF assms(3)])
  ultimately show ?thesis unfolding released_def by blast
qed

lemma deliveries_release:
  assumes "owned w" "ac_active_request (cw_chat w) = Some i" "cc_job (call_of w i) = Job_Disposed"
  shows "\<exists>w'. (request_step cx je i)\<^sup>*\<^sup>* w w' \<and> ac_active_request (cw_chat w') \<noteq> Some i"
  using assms
proof (induction "cc_main (call_of w i)" arbitrary: w)
  case Nil
  have i: "i < length (cw_requests w)" using owned_bounds [OF Nil(2)] Nil(3) by simp
  with Nil have "chat_inv (call_of w i)" "\<not> answered (call_of w i)"
    by (auto simp: owned_def holds_handles_def active_waits_def)
  with Nil(1) [symmetric] Nil(4) show ?case by (auto simp: chat_inv_def events_ok_def answered_def)
next
  case (Cons ev rest)
  note main = Cons(2) [symmetric]
  have i: "i < length (cw_requests w)" using owned_bounds [OF Cons(3)] Cons(4) by simp
  show ?case
  proof (cases ev)
    case (Final r)
    from result_releases [OF Cons(3,4) main [unfolded Final], of cx je] show ?thesis by (blast intro: r_into_rtranclp)
  next
    case (Progress p)
    let ?s = "(call_of w i)\<lparr>cc_main := rest, cc_delivered := cc_delivered (call_of w i) @ [Progress p]\<rparr>"
    let ?w = "progress_finished cx p (call_upd i (\<lambda>_. ?s) w)"
    have step: "request_step cx je i w ?w"
      by (rule progress [OF i main [unfolded Progress]]) (rule deliver_stream_progress [OF main [unfolded Progress]])
    show ?thesis
    proof (cases "ac_active_request (cw_chat ?w) = Some i")
      case False
      with step show ?thesis by (blast intro: r_into_rtranclp)
    next
      case True
      then have "cw_requests ?w = cw_requests (call_upd i (\<lambda>_. ?s) w)"
        using progress_requests [of cx p "call_upd i (\<lambda>_. ?s) w"] by simp
      then have "call_of ?w i = ?s" using call_of_upd(1) [OF i] by (simp add: call_of_def)
      then have "rest = cc_main (call_of ?w i)" "cc_job (call_of ?w i) = Job_Disposed" using Cons(5) by simp_all
      from Cons(1) [OF this(1) owned_request_step [OF step Cons(3)] True this(2)] step show ?thesis
        by (blast intro: converse_rtranclp_into_rtranclp)
    qed
  qed
qed

text \<open>
  C13: A request does not stay the active one.  In every reachable state, unless the queue has dropped its
  job (as it does at shutdown), the worker and the main loop alone lead to a state in which the request
  is no longer the active one and its handle has been freed.
\<close>

theorem active_request_released:
  assumes "window_init cx w0" "(window_step cx je)\<^sup>*\<^sup>* w0 w" "ac_active_request (cw_chat w) = Some i"
    and "cc_job (call_of w i) \<noteq> Job_Dropped"
  shows "\<exists>w'. (request_step cx je i)\<^sup>*\<^sup>* w w' \<and> ac_active_request (cw_chat w') \<noteq> Some i
    \<and> cc_handle (call_of w' i) = None"
proof -
  have o: "owned w" using window.inv_reachable [OF assms(1,2)] by (simp add: window_inv_def)
  have i: "i < length (cw_requests w)" using owned_bounds [OF o] assms(3) by simp
  with o have inv: "chat_inv (call_of w i)" by (simp add: owned_def holds_handles_def)
  from job_finishes [OF inv assms(4)] obtain s where s: "(job_step (job_env_of je w i))\<^sup>*\<^sup>* (call_of w i) s"
    "cc_job s = Job_Disposed" by blast
  from worker_run [OF s(1) i refl refl, of cx] obtain w1 where w1: "(request_step cx je i)\<^sup>*\<^sup>* w w1"
    "call_of w1 i = s" "cw_chat w1 = cw_chat w" "length (cw_requests w1) = length (cw_requests w)" by blast
  from w1(1) o have o1: "owned w1" by (induction rule: rtranclp_induct) (auto intro: owned_request_step)
  from deliveries_release [OF this, of i cx je] w1 s(2) assms(3)
  obtain w2 where w2: "(request_step cx je i)\<^sup>*\<^sup>* w1 w2" "ac_active_request (cw_chat w2) \<noteq> Some i" by auto
  have "disposed i w1" using w1 s(2) i by (simp add: disposed_def)
  with w2(1) o1 have "owned w2 \<and> disposed i w2"
    by (induction rule: rtranclp_induct) (auto intro: owned_request_step disposed_request_step)
  then have "cc_handle (call_of w2 i) = None"
    using w2(2) by (auto simp: owned_def disposed_def holds_handles_def chat_inv_def refs_ok_def job_alive_def
        split: option.splits)
  with w1(1) w2 show ?thesis by (meson rtranclp_trans)
qed

theorem active_request_released_witness:
  "ac_active_request (cw_chat clicked_window) = Some 0
     \<and> (\<forall>je. \<exists>w'. (request_step sample_chat_env je 0)\<^sup>*\<^sup>* clicked_window w' \<and> ac_active_request (cw_chat w') \<noteq> Some 0
          \<and> cc_handle (call_of w' 0) = None)"
  using active_request_released [OF opened_window_init clicked_window_run] clicked_window_waits by simp

end
