(* ===== verification/Chat_Passes.thy ===== *)
theory Chat_Passes
  imports Chat_Liveness
begin

text \<open>
  The refinement passes of a conversation: when the result of one pass asks for another, the window
  sends it, and the passes come to an end when the server counts them as it is asked to.
\<close>

subsection \<open>Which handlers start requests\<close>

lemma build_request_pass:
  "build_request cx m g f md px mx e w = ((True, request, e'), w')
     \<Longrightarrow> req_refinement_pass_index request = px \<and> req_refinement_max_passes request = mx"
  by (auto simp: build_request_def request_members_def fill_ui_context_fields Let_def
      split: prod.splits bool.splits option.splits if_splits)

text \<open>A submission appends at most one request, for the pass it is called with.\<close>

lemma submit_appends:
  assumes "submit_internal cx p g a u f md px mx w = (b, w')"
  shows "length (cw_requests w') = length (cw_requests w) \<and> \<not> b
    \<or> length (cw_requests w') = Suc (length (cw_requests w)) \<and> b
      \<and> sub_refinement_pass_index (submission_of w' (length (cw_requests w))) = px
      \<and> sub_refinement_max_passes (submission_of w' (length (cw_requests w))) = mx
      \<and> sub_refinement_enabled (submission_of w' (length (cw_requests w))) = (md = DT_AGENT_REFINEMENT_MODE_MULTI)"
proof -
  let ?m = "g_strstrip (str_or p [])"
  let ?w1 = "chat_upd (submit_begin ?m g u f md px mx)
      (switch_to_image_session cx (chat_current_image_id cx w) False w)"
  obtain ok rq e w2 where b: "build_request cx (Some ?m) g f md px mx None ?w1 = ((ok, rq, e), w2)"
    by (metis prod_cases3 surj_pair)
  have len2: "cw_requests w2 = cw_requests w"
    using build_request_world [of cx "Some ?m" g f md px mx None ?w1] b
    by (simp add: ensure_app_session_id_def g_uuid_string_random_def Let_def)
  let ?s = "new_submission rq ?m a md (read_current_exposure cx (cw_world w2))"
  let ?w3 = "chat_upd (\<lambda>c. session_upd (ac_current_image_id c)
      (\<lambda>s. s\<lparr>cs_refinement_goal_text := sub_goal_text ?s\<rparr>) c) w2"
  obtain h w4 where st: "start_client_request cx rq ?s ?w3 = (h, w4)" by force
  have failed: "cw_requests (submit_failed cx s m e a v) = cw_requests v" for s m e a v
    by (simp add: submit_failed_def write_test_report_def maybe_schedule_test_quit_def Let_def)
  show ?thesis
  proof (cases "ac_is_loading (cw_chat (switch_to_image_session cx (chat_current_image_id cx w) False w)) \<or> ?m = []")
    case True
    with assms show ?thesis by (auto simp: submit_internal_def Let_def)
  next
    case False
    show ?thesis
    proof (cases ok)
      case no: False
      with assms False b show ?thesis by (auto simp: submit_internal_def Let_def failed len2)
    next
      case yes: True
      show ?thesis
      proof (cases h)
        case (Inl err)
        with st have "w4 = ?w3" by (simp add: start_failed_same)
        with assms False b yes st Inl show ?thesis by (auto simp: submit_internal_def Let_def failed len2)
      next
        case (Inr i)
        from st [unfolded Inr] obtain call jr where
          w4: "w4 = ?w3\<lparr>cw_requests := cw_requests w @ [(call, jr, ?s)]\<rparr>"
          by (auto simp: start_client_request_def Let_def len2 split: sum.splits prod.splits)
        have "submission_of w4 (length (cw_requests w)) = ?s" by (simp add: w4 submission_of_def)
        moreover from b yes have "req_refinement_pass_index rq = px \<and> req_refinement_max_passes rq = mx"
          by (auto dest: build_request_pass)
        ultimately show ?thesis using assms False b yes st Inr w4
          by (auto simp: submit_internal_def Let_def set_active_request_def new_submission_def)
      qed
    qed
  qed
qed

text \<open>The two numbers that the server returns count the passes as the request asked.\<close>

definition counts_passes :: "dt_agent_client_result \<Rightarrow> dt_agent_chat_submission \<Rightarrow> bool" where
  "counts_passes result sub \<longleftrightarrow>
     sub_refinement_pass_index sub \<le> resp_refinement_pass_index (cr_response result)
     \<and> resp_refinement_max_passes (cr_response result) \<le> sub_refinement_max_passes sub"

text \<open>The submission \<open>s'\<close> is made because the result of \<open>s\<close> arrived.\<close>

inductive next_pass :: "chat_env \<Rightarrow> dt_agent_chat_submission \<Rightarrow> dt_agent_chat_submission \<Rightarrow> bool" for cx where
  next_pass: "counts_passes result s
     \<Longrightarrow> length (cw_requests w) < length (cw_requests (request_finished cx result s w))
     \<Longrightarrow> next_pass cx s (submission_of (request_finished cx result s w) (length (cw_requests w)))"

lemma requests_report [simp]:
  "cw_requests (write_test_report cx s r er m e w) = cw_requests w"
  "cw_requests (maybe_schedule_test_quit cx b w) = cw_requests w"
  by (simp_all add: write_test_report_def maybe_schedule_test_quit_def Let_def)

lemma requests_range: "apply_operation_range cx ops n rep w = (ok, rep', e, w') \<Longrightarrow> cw_requests w' = cw_requests w"
  by (auto simp: apply_operation_range_def Let_def split: option.splits if_splits prod.splits)

lemma requests_response:
  "handle_response cx response rep n w = (ok, rep', e, w') \<Longrightarrow> cw_requests w' = cw_requests w"
  by (auto simp: handle_response_def Let_def dest!: requests_range split: if_splits prod.splits bool.splits)

lemma requests_prepared: "length (cw_requests (finish_quiet result sub w)) = length (cw_requests w)"
  by (simp add: finish_quiet_def finish_prepared_def clear_active_request_def Let_def)

lemma visible_appends:
  assumes "w' = finish_visible cx n result sub w"
  shows "length (cw_requests w') = length (cw_requests w)
    \<or> length (cw_requests w') = Suc (length (cw_requests w)) \<and> should_continue_refinement result sub
      \<and> sub_refinement_pass_index (submission_of w' (length (cw_requests w)))
          = resp_refinement_pass_index (cr_response result) + 1
      \<and> sub_refinement_max_passes (submission_of w' (length (cw_requests w)))
          = max (sub_refinement_max_passes sub) (resp_refinement_max_passes (cr_response result))"
proof (cases "cr_transport_error result \<noteq> None \<or> \<not> cr_has_response result")
  case True
  with assms show ?thesis by (simp add: finish_visible_def Let_def)
next
  case used: False
  obtain ok rep e w1 where h: "handle_response cx (cr_response result) dt_agent_execution_report_init n
      (chat_upd (set_error None) w) = (ok, rep, e, w1)" by (metis prod_cases4)
  have w1: "cw_requests w1 = cw_requests w" using requests_response [OF h] by simp
  show ?thesis
  proof (cases "ok \<and> should_continue_refinement result sub")
    case False
    with used h w1 assms show ?thesis by (auto simp: finish_visible_def continue_refinement_def Let_def)
  next
    case True
    obtain b w2 where c: "continue_refinement cx result sub w1 = (b, w2)" by force
    from c [unfolded continue_refinement_def] True submit_appends
    have "length (cw_requests w2) = length (cw_requests w) \<and> \<not> b
      \<or> length (cw_requests w2) = Suc (length (cw_requests w)) \<and> b
      \<and> sub_refinement_pass_index (submission_of w2 (length (cw_requests w)))
          = resp_refinement_pass_index (cr_response result) + 1
      \<and> sub_refinement_max_passes (submission_of w2 (length (cw_requests w)))
          = max (sub_refinement_max_passes sub) (resp_refinement_max_passes (cr_response result))"
      unfolding Let_def by (fastforce simp: w1)
    with used h True c assms show ?thesis by (cases b) (auto simp: finish_visible_def Let_def)
  qed
qed

lemma finished_appends:
  assumes "w' = request_finished cx result sub w" "length (cw_requests w) < length (cw_requests w')"
  shows "should_continue_refinement result sub"
    and "sub_refinement_pass_index (submission_of w' (length (cw_requests w)))
      = resp_refinement_pass_index (cr_response result) + 1"
    and "sub_refinement_max_passes (submission_of w' (length (cw_requests w)))
      = max (sub_refinement_max_passes sub) (resp_refinement_max_passes (cr_response result))"
proof -
  let ?a = "submission_matches_active_request (cw_chat w) sub" and ?p = "finish_prepared result sub w"
    and ?q = "finish_quiet result sub w"
  let ?k = "lookup_submission_session (cw_chat (if ?a then clear_active_request True w else w)) sub"
  have rf: "request_finished cx result sub w =
     (if cr_cancelled result then finish_cancelled cx ?a ?k result sub ?p
      else if wd_view_darkroom (cw_world ?p) \<and> is_stale_response cx sub result ?p then finish_stale cx ?k result sub ?p
      else if revision_mismatch cx (live_applied_for sub (cw_chat w)) result sub ?q
      then finish_mismatch cx ?k result sub ?q
      else if \<not> wd_view_darkroom (cw_world ?q) then finish_hidden cx ?k result sub ?q
      else finish_visible cx (live_applied_for sub (cw_chat w)) result sub ?q)"
    unfolding request_finished_def finish_quiet_def finish_prepared_def live_applied_for_def Let_def by simp
  have p: "length (cw_requests ?p) = length (cw_requests w)"
    by (simp add: finish_prepared_def clear_active_request_def Let_def)
  have other: "length (cw_requests (finish_cancelled cx ?a ?k result sub ?p)) = length (cw_requests w)"
    "length (cw_requests (finish_stale cx ?k result sub ?p)) = length (cw_requests w)"
    "length (cw_requests (finish_mismatch cx ?k result sub ?q)) = length (cw_requests w)"
    "length (cw_requests (finish_hidden cx ?k result sub ?q)) = length (cw_requests w)"
    using p requests_prepared [of result sub w]
    by (simp_all add: finish_cancelled_def finish_stale_def finish_mismatch_def finish_hidden_def Let_def)
  then have "w' = finish_visible cx (live_applied_for sub (cw_chat w)) result sub ?q"
    using assms unfolding rf by (auto split: if_splits)
  from visible_appends [OF this] assms(2)
  show "should_continue_refinement result sub"
    "sub_refinement_pass_index (submission_of w' (length (cw_requests w)))
      = resp_refinement_pass_index (cr_response result) + 1"
    "sub_refinement_max_passes (submission_of w' (length (cw_requests w)))
      = max (sub_refinement_max_passes sub) (resp_refinement_max_passes (cr_response result))"
    by (auto simp: requests_prepared)
qed

lemma next_pass_counts:
  assumes "next_pass cx s s'"
  shows "sub_refinement_pass_index s < sub_refinement_pass_index s'"
    and "sub_refinement_pass_index s' \<le> sub_refinement_max_passes s'"
    and "sub_refinement_max_passes s' = sub_refinement_max_passes s"
proof -
  from assms obtain result w where c: "counts_passes result s"
    and l: "length (cw_requests w) < length (cw_requests (request_finished cx result s w))"
    and s': "s' = submission_of (request_finished cx result s w) (length (cw_requests w))"
    by (auto elim: next_pass.cases)
  note f = finished_appends [OF refl l]
  show "sub_refinement_pass_index s < sub_refinement_pass_index s'"
    "sub_refinement_pass_index s' \<le> sub_refinement_max_passes s'"
    "sub_refinement_max_passes s' = sub_refinement_max_passes s"
    using c f unfolding s' by (auto simp: counts_passes_def should_continue_refinement_def)
qed

subsection \<open>A pass that asks for another gets it\<close>

lemma same_session_conversation:
  assumes "window_ok w"
  shows "conversation_view (cw_chat (switch_to_image_session cx (ac_current_image_id (cw_chat w)) False w))
    = conversation_view (cw_chat w)"
proof -
  let ?c = "cw_chat w" and ?k = "ac_current_image_id (cw_chat w)"
  have c: "chat_ok ?c" using assms by (rule window_ok_chat)
  then obtain s where s: "lookup_session ?k ?c = Some s" "1 \<le> ac_max_refinement_passes ?c" by (auto simp: chat_ok_def)
  then have saved: "lookup_session ?k (sync_current_session ?c) = Some (saved_session ?c s)" by (simp add: lookup_sync)
  obtain s' al where one: "cw_chat (switch_to_image_session cx ?k False w)
      = load_session s' (?c\<lparr>ac_image_sessions := al, ac_current_image_id := ?k\<rparr>)"
    "\<And>s''. lookup_session ?k (sync_current_session ?c) = Some s'' \<Longrightarrow> s' = s''"
    by (rule switch_loads [OF s(2), of cx ?k]) blast
  show ?thesis using one(1) one(2) [OF saved] chat_ok_ids [OF c]
    by (simp add: saved_session_def load_session_refresh refresh_widgets_def update_sensitivity_def widgets_upd_def
        conversation_view_def Let_def)
qed

text \<open>The image of the window and whether it waits.\<close>

definition wait_view :: "agent_chat \<Rightarrow> int \<times> bool" where
  "wait_view c = (ac_current_image_id c, ac_is_loading c)"

lemma wait_view_simps [simp]:
  "wait_view (widgets_upd f c) = wait_view c" "wait_view (session_upd k h c) = wait_view c"
  "wait_view (sync_current_session c) = wait_view c" "wait_view (update_sensitivity c) = wait_view c"
  "wait_view (on_session ok h c) = wait_view c" "wait_view (set_status s c) = wait_view c"
  "wait_view (set_error e c) = wait_view c" "wait_view (append_message a m c) = wait_view c"
  "wait_view (c\<lparr>ac_active_request := r, ac_active_request_canceling := b\<rparr>) = wait_view c"
proof -
  show w: "wait_view (widgets_upd f c) = wait_view c" for f c by (simp add: wait_view_def widgets_upd_def)
  show s: "wait_view (session_upd k h c) = wait_view c" for k h c
    by (simp add: wait_view_def session_upd_def split: option.splits)
  show y: "wait_view (sync_current_session c) = wait_view c" for c by (simp add: sync_current_session_def s)
  show "wait_view (update_sensitivity c) = wait_view c" by (simp add: update_sensitivity_def Let_def w)
  show "wait_view (on_session ok h c) = wait_view c" by (simp add: on_session_def s split: option.splits)
  show "wait_view (set_status s c) = wait_view c" for s by (simp add: set_status_def w y)
  show "wait_view (set_error e c) = wait_view c" by (simp add: set_error_def w y)
  show "wait_view (append_message a m c) = wait_view c" by (simp add: append_message_def w y)
  show "wait_view (c\<lparr>ac_active_request := r, ac_active_request_canceling := b\<rparr>) = wait_view c"
    by (simp add: wait_view_def)
qed

lemma wait_view_clear: "wait_view (cw_chat (clear_active_request b w)) = wait_view (cw_chat w)"
  by (simp add: clear_active_request_def drop_active_request_handle_def wait_view_def split: option.splits)

lemma wait_view_loading [simp]: "wait_view (set_loading b c) = (ac_current_image_id c, b)"
  by (simp add: set_loading_def) (simp add: wait_view_def)

lemma wait_view_quiet:
  "submission_matches_current_session (cw_chat w) sub
     \<Longrightarrow> wait_view (cw_chat (finish_quiet result sub w)) = (ac_current_image_id (cw_chat w), False)"
proof -
  have p: "wait_view (cw_chat (finish_prepared result sub w)) = wait_view (cw_chat w)"
    by (simp add: finish_prepared_def Let_def wait_view_clear)
  assume "submission_matches_current_session (cw_chat w) sub"
  then have m: "submission_matches_current_session (cw_chat (finish_prepared result sub w)) sub"
    by (simp add: submission_matches_current_session_def finish_prepared_simps)
  show ?thesis using p by (simp add: finish_quiet_def Let_def m) (simp add: wait_view_def)
qed

text \<open>A response without operations that are left is only shown.\<close>

lemma handle_response_shown:
  assumes "handle_response cx response rep n w = (ok, rep', e, w')"
    and "resp_status response \<noteq> Some ''error''" "length (garray (resp_operations response)) \<le> n"
  shows "ok \<and> wait_view (cw_chat w') = wait_view (cw_chat w) \<and> cw_world w' = cw_world w
    \<and> cw_requests w' = cw_requests w \<and> conversation_view (cw_chat w') = conversation_view (cw_chat w)"
  using assms by (auto simp: handle_response_def Let_def split: if_splits)

lemma pass_continues:
  assumes ok: "window_ok w" and usable: "response_usable cx result sub (live_applied_for sub (cw_chat w)) w"
    and more: "should_continue_refinement result sub"
    and left: "operations_left result (live_applied_for sub (cw_chat w)) = []"
    and prompt: "g_strstrip (str_or (sub_prompt_text sub) []) = msg" "msg \<noteq> []"
    and image: "ac_current_image_id (cw_chat w) = chat_current_image_id cx w"
    and k: "k = length (cw_requests w)" "cx_have_job cx k"
    and w': "w' = request_finished cx result sub w" and s': "s' = submission_of w' k"
  shows "length (cw_requests w') = Suc k \<and> ac_active_request (cw_chat w') = Some k
    \<and> sub_refinement_pass_index s' = resp_refinement_pass_index (cr_response result) + 1
    \<and> sub_refinement_max_passes s' = max (sub_refinement_max_passes sub) (resp_refinement_max_passes (cr_response result))
    \<and> sub_refinement_enabled s' \<and> sub_prompt_text s' = Some msg \<and> sub_autorun s' = sub_autorun sub
    \<and> sub_goal_text s' = (if nonempty (sub_goal_text sub) then sub_goal_text sub else Some msg)
    \<and> sub_conversation_id s' = sub_conversation_id sub \<and> sub_image_session_id s' = sub_image_session_id sub"
proof -
  let ?n = "live_applied_for sub (cw_chat w)" and ?q = "finish_quiet result sub w" and ?r = "cr_response result"
  have used: "cr_transport_error result = None" "cr_has_response result" "resp_status ?r \<noteq> Some ''error''"
    "submission_matches_current_session (cw_chat w) sub"
    using usable by (simp_all add: response_usable_def submission_matches_current_session_def Let_def)
  have rf: "w' = finish_visible cx ?n result sub ?q"
  proof (cases rule: request_finished_cases [of w cx result sub])
    case 1
    with usable show ?thesis by (simp add: not_stale_iff mismatch_iff response_usable_def Let_def)
  next
    case 2
    then show ?thesis by (simp add: w')
  qed
  let ?w1 = "chat_upd (set_error None) ?q"
  obtain hd rep e w2 where h: "handle_response cx ?r dt_agent_execution_report_init ?n ?w1 = (hd, rep, e, w2)"
    by (metis prod_cases4)
  have len: "length (garray (resp_operations ?r)) \<le> ?n" using left used by (simp add: operations_left_def)
  note shown = handle_response_shown [OF h used(3) len]
  let ?msg = "''Continuing refinement pass '' @ show_nat (resp_refinement_pass_index ?r + 1) @ ''/''
      @ show_nat (max (sub_refinement_max_passes sub) (resp_refinement_max_passes ?r))"
  let ?w3 = "chat_upd (append_message ''system'' (Some ?msg)) w2"
  have q: "window_ok ?q"
    using window_ok_clear [OF ok, of True] ok
    by (simp add: finish_quiet_def finish_prepared_def window_ok_chat Let_def)
  then have "window_ok w2" using window_ok_response [OF _ h] by (simp add: window_ok_chat)
  then have w3: "window_ok ?w3" by (simp add: window_ok_chat)
  have idle: "wait_view (cw_chat ?w3) = (ac_current_image_id (cw_chat w), False)"
    "cw_world ?w3 = cw_world w" "length (cw_requests ?w3) = k"
    using shown wait_view_quiet [OF used(4), of result] by (simp_all add: k(1) requests_prepared)
  have conv: "conversation_view (cw_chat ?w3) = (sub_image_session_id sub, sub_conversation_id sub)"
    using shown used(4) by (simp add: finish_quiet_def finish_prepared_simps submission_matches_current_session_def Let_def)
      (simp add: conversation_view_def finish_prepared_simps)
  have at: "chat_current_image_id cx ?w3 = ac_current_image_id (cw_chat ?w3)" "\<not> ac_is_loading (cw_chat ?w3)"
    using idle(1,2) image by (simp_all add: wait_view_def chat_current_image_id_def)
  let ?s = "switch_to_image_session cx (chat_current_image_id cx ?w3) False ?w3"
  have s: "\<not> ac_is_loading (cw_chat ?s)" "conversation_view (cw_chat ?s) = conversation_view (cw_chat ?w3)"
    using same_session_waits [OF w3, of cx] same_session_conversation [OF w3, of cx] at by simp_all
  let ?px = "resp_refinement_pass_index ?r + 1"
    and ?mx = "max (sub_refinement_max_passes sub) (resp_refinement_max_passes ?r)"
  have px: "0 < ?px" "?px \<le> ?mx" using more by (auto simp: should_continue_refinement_def)
  obtain b w4 where sub: "(b, w4) = submit_internal cx (sub_prompt_text sub) (sub_goal_text sub) (sub_autorun sub) False
      (sub_fast_mode_enabled sub) DT_AGENT_REFINEMENT_MODE_MULTI ?px ?mx ?w3" by (metis surj_pair)
  from submit_starts [OF w3 refl s(1) prompt(1) [symmetric] prompt(2) _ px _ sub refl] idle(3) k(2)
  obtain rid w5 where new: "b" "conversation_view (cw_chat w5) = conversation_view (cw_chat ?s)"
    "length (cw_requests w4) = Suc k" "ac_active_request (cw_chat w4) = Some k"
    "submission_of w4 k = new_submission (built_request cx w5 rid msg (sub_goal_text sub) (sub_fast_mode_enabled sub)
       DT_AGENT_REFINEMENT_MODE_MULTI ?px ?mx) msg (sub_autorun sub) DT_AGENT_REFINEMENT_MODE_MULTI
       (read_current_exposure cx (cw_world ?w3))" by (auto simp: submission_of_def)
  have "continue_refinement cx result sub w2 = (True, w4)"
    using more sub new(1) by (simp add: continue_refinement_def Let_def)
  with used h shown have w4: "w' = w4" unfolding rf by (simp add: finish_visible_def Let_def)
  have "ac_conversation_id (cw_chat w5) = sub_conversation_id sub" "ac_image_session_id (cw_chat w5) = sub_image_session_id sub"
    using new(2) s(2) conv by (simp_all add: conversation_view_def)
  with new show ?thesis
    unfolding s' w4 by (simp add: new_submission_def built_request_fields)
qed

text \<open>
  C15: A pass that asks for another gets it.  In every reachable state in which the window is on the
  image that is shown, a usable result that asks to continue and whose operations have all been applied
  starts exactly one request, the new active one: the next pass, for the same message, goal,
  conversation and image session.
\<close>

theorem refinement_continues:
  assumes "window_init cx w0" "(window_step cx je)\<^sup>*\<^sup>* w0 w"
    and "response_usable cx result sub (live_applied_for sub (cw_chat w)) w" "should_continue_refinement result sub"
    and "operations_left result (live_applied_for sub (cw_chat w)) = []"
    and "g_strstrip (str_or (sub_prompt_text sub) []) = msg" "msg \<noteq> []"
    and "ac_current_image_id (cw_chat w) = chat_current_image_id cx w"
    and "k = length (cw_requests w)" "cx_have_job cx k"
    and "w' = request_finished cx result sub w" "s' = submission_of w' k"
  shows "length (cw_requests w') = Suc k \<and> ac_active_request (cw_chat w') = Some k
    \<and> sub_refinement_pass_index s' = resp_refinement_pass_index (cr_response result) + 1
    \<and> sub_refinement_max_passes s' = max (sub_refinement_max_passes sub) (resp_refinement_max_passes (cr_response result))
    \<and> sub_refinement_enabled s' \<and> sub_prompt_text s' = Some msg \<and> sub_autorun s' = sub_autorun sub
    \<and> sub_goal_text s' = (if nonempty (sub_goal_text sub) then sub_goal_text sub else Some msg)
    \<and> sub_conversation_id s' = sub_conversation_id sub \<and> sub_image_session_id s' = sub_image_session_id sub"
proof -
  have "window_ok w" using window.inv_reachable [OF assms(1,2)] by (simp add: window_inv_def)
  from pass_continues [OF this assms(3-12)] show ?thesis .
qed

text \<open>The result of the first of two passes, for the window that has just been opened.\<close>

definition pass_submission :: dt_agent_chat_submission where
  "pass_submission = sample_submission
     \<lparr>sub_request_id := ac_active_request_id (cw_chat opened_window), sub_conversation_id := ac_conversation_id (cw_chat opened_window),
      sub_image_session_id := ac_image_session_id (cw_chat opened_window), sub_refinement_max_passes := 2\<rparr>"

definition pass_result :: dt_agent_client_result where
  "pass_result = zero_result\<lparr>cr_has_response := True, cr_response := sample_chat_response
     \<lparr>resp_request_id := sub_request_id pass_submission, resp_conversation_id := sub_conversation_id pass_submission,
      resp_operations := None, resp_refinement_mode := DT_AGENT_REFINEMENT_MODE_MULTI, resp_refinement_continue := True,
      resp_refinement_pass_index := 1, resp_refinement_max_passes := 2\<rparr>\<rparr>"

lemma opened_window_world: "cw_world opened_window = levels_world True"
proof -
  have "cw_world (set_fast_mode_button f w) = cw_world w" "cw_world (set_turn_limit_spin v w) = cw_world w"
    "cw_world (set_multi_turn_button b w) = cw_world w" for f v b w
    by (simp_all add: set_fast_mode_button_def set_turn_limit_spin_def set_multi_turn_button_def multi_turn_toggled_def
        max_turns_changed_def fast_mode_toggled_def Let_def)
  then show ?thesis by (simp add: opened_window_def chat_enter_def Let_def) (simp add: sample_chat_world_def)
qed

lemma pass_usable:
  "response_usable sample_chat_env pass_result pass_submission n opened_window"
  "should_continue_refinement pass_result pass_submission" "operations_left pass_result n = []"
  "counts_passes pass_result pass_submission"
proof -
  have "shown_revision sample_chat_env opened_window = ''image-42-history-1-2''"
    using sample_revision by (simp add: shown_revision_def revision_id_Some)
      (simp add: sample_chat_env_def sample_develop_def)
  then show "response_usable sample_chat_env pass_result pass_submission n opened_window"
    by (simp add: response_usable_def Let_def pass_result_def sample_chat_response_def pass_submission_def sample_submission_def
        zero_result_def levels_develop active_image_matches_def sample_chat_env_def sample_develop_def opened_window_world)
qed (simp_all add: should_continue_refinement_def operations_left_def counts_passes_def pass_result_def pass_submission_def
    sample_submission_def sample_chat_response_def)

lemma pass_prompt: "g_strstrip (str_or (sub_prompt_text pass_submission) []) = ''brighter''"
  by (simp add: pass_submission_def sample_submission_def) code_simp

lemma pass_job: "cx_have_job sample_chat_env n"
  by (simp add: sample_chat_env_def)

lemma pass_image: "ac_current_image_id (cw_chat opened_window) = chat_current_image_id sample_chat_env opened_window"
  using opened_window_state by simp

theorem refinement_continues_witness:
  "length (cw_requests (request_finished sample_chat_env pass_result pass_submission opened_window)) = 1
     \<and> sub_refinement_pass_index (submission_of (request_finished sample_chat_env pass_result pass_submission opened_window) 0) = 2"
  using refinement_continues [OF opened_window_init rtranclp.rtrancl_refl pass_usable(1,2,3) pass_prompt _ pass_image refl
      pass_job refl refl]
  by (simp add: opened_window_requests) (simp add: pass_result_def)

subsection \<open>The passes come to an end\<close>

text \<open>
  C16: The passes come to an end.  As long as the server returns at least the pass it was asked for and at
  most the pass limit it was given, every new pass has a higher number within the limit of the first
  submission: a message that is sent leads to at most as many requests as the limit says.
\<close>

theorem refinement_passes_bounded:
  assumes "(next_pass cx ^^ n) s s'"
  shows "sub_refinement_pass_index s + n \<le> sub_refinement_pass_index s'
    \<and> n \<le> sub_refinement_max_passes s - sub_refinement_pass_index s"
proof -
  have "sub_refinement_pass_index s + n \<le> sub_refinement_pass_index s'
    \<and> sub_refinement_max_passes s' = sub_refinement_max_passes s
    \<and> (0 < n \<longrightarrow> sub_refinement_pass_index s' \<le> sub_refinement_max_passes s)"
    using assms
  proof (induction n arbitrary: s')
    case (Suc n)
    then obtain t where t: "(next_pass cx ^^ n) s t" "next_pass cx t s'" by auto
    from Suc.IH [OF t(1)] next_pass_counts [OF t(2)] show ?case by auto
  qed simp
  then show ?thesis by (cases n) auto
qed

theorem refinement_passes_bounded_witness:
  "\<exists>s'. next_pass sample_chat_env pass_submission s' \<and> sub_refinement_pass_index pass_submission + 1 \<le> sub_refinement_pass_index s'
     \<and> 1 \<le> sub_refinement_max_passes pass_submission - sub_refinement_pass_index pass_submission"
proof -
  let ?w' = "request_finished sample_chat_env pass_result pass_submission opened_window"
  let ?s' = "submission_of ?w' (length (cw_requests opened_window))"
  from pass_continues [OF opened_window_ok pass_usable(1,2,3) pass_prompt _ pass_image refl pass_job refl refl]
  have "length (cw_requests opened_window) < length (cw_requests ?w')" by simp
  from next_pass.next_pass [OF pass_usable(4) this] have n: "next_pass sample_chat_env pass_submission ?s'" .
  then have "(next_pass sample_chat_env ^^ 1) pass_submission ?s'" by auto
  from refinement_passes_bounded [OF this] n show ?thesis by blast
qed

text \<open>So no run has passes without end.\<close>

lemma next_pass_wf: "wfp (\<lambda>s' s. next_pass cx s s')"
proof (rule wfp_if_convertible_to_nat [where f = "\<lambda>s. sub_refinement_max_passes s - sub_refinement_pass_index s"])
  show "sub_refinement_max_passes s' - sub_refinement_pass_index s' < sub_refinement_max_passes s - sub_refinement_pass_index s"
    if "next_pass cx s s'" for s s'
    using next_pass_counts [OF that] by simp
qed

subsection \<open>A live edit that fails\<close>

lemma wait_view_upd: "wait_view (f (cw_chat w)) = wait_view (cw_chat w) \<Longrightarrow> wait_view (cw_chat (chat_upd f w)) = wait_view (cw_chat w)"
  by simp

lemma error_widgets [simp]:
  "wg_error (ac_widgets (sync_current_session c)) = wg_error (ac_widgets c)"
  "wg_error (ac_widgets (set_status s c)) = wg_error (ac_widgets c)"
  "wg_error (ac_widgets (set_error e c)) = str_or e []"
  "wg_error (ac_widgets (set_loading b c)) = wg_error (ac_widgets c)"
  "wg_error (ac_widgets (update_sensitivity c)) = wg_error (ac_widgets c)"
  by (simp_all add: set_status_def set_error_def set_loading_def update_sensitivity_def widgets_upd_def
      sync_current_session_def session_upd_def Let_def split: option.splits)

lemma status_widgets [simp]:
  "wg_status (ac_widgets (sync_current_session c)) = wg_status (ac_widgets c)"
  "wg_status (ac_widgets (set_status s c)) = str_or s []"
  "wg_status (ac_widgets (update_sensitivity c)) = wg_status (ac_widgets c)"
  by (simp_all add: set_status_def update_sensitivity_def widgets_upd_def
      sync_current_session_def session_upd_def Let_def split: option.splits)

lemma wait_view_cancel_call: "wait_view (cw_chat (chat_upd (\<lambda>c. c\<lparr>ac_active_request_canceling := True\<rparr>)
    (drop_active_request_handle (call_upd i f w)))) = wait_view (cw_chat w)"
  by (simp add: drop_active_request_handle_def wait_view_def split: option.splits)

lemma cancel_waiting:
  assumes "ac_is_loading (cw_chat w)"
  shows "\<not> ac_is_loading (cw_chat (cancel_active_request (Some s) r w))
    \<and> wg_error (ac_widgets (cw_chat (cancel_active_request (Some s) r w))) = []
    \<and> wg_status (ac_widgets (cw_chat (cancel_active_request (Some s) r w))) = s"
proof -
  let ?w1 = "chat_upd (\<lambda>c. session_upd (ac_current_image_id c) (\<lambda>sa.
      session_set_status (Some s) (if r = None then sa\<lparr>cs_is_loading := False\<rparr>
        else sa\<lparr>cs_is_loading := False, cs_refinement_stop_reason := r\<rparr>)) c) w"
  let ?w2 = "case ac_active_request (cw_chat ?w1) of None \<Rightarrow> ?w1
     | Some i \<Rightarrow> chat_upd (\<lambda>c. c\<lparr>ac_active_request_canceling := True\<rparr>)
                     (drop_active_request_handle (call_upd i (call_cancel r) ?w1))"
  have "wait_view (cw_chat ?w2) = wait_view (cw_chat w)"
    by (simp add: wait_view_cancel_call del: cw_simps split: option.splits) (simp add: chat_upd_def)
  with assms have "ac_is_loading (cw_chat ?w2)" by (simp add: wait_view_def)
  then have c: "cancel_active_request (Some s) r w
      = chat_upd update_sensitivity (chat_upd (\<lambda>c. set_status (Some s) (set_loading False (set_error None c))) ?w2)"
    by (simp add: cancel_active_request_def Let_def)
  have "wait_view (update_sensitivity (set_status (Some s) (set_loading False (set_error None (cw_chat ?w2))))) 
      = (ac_current_image_id (set_error None (cw_chat ?w2)), False)" by simp
  then show ?thesis unfolding c by (simp add: wait_view_def)
qed

text \<open>The message of the failure is shown and then removed again by the cancellation.\<close>

lemma live_failure_shows_no_error:
  assumes "ac_is_loading (cw_chat w)" "apply_live_edits cx p w = (False, w')"
  shows "ac_active_request (cw_chat w') = None \<and> \<not> ac_is_loading (cw_chat w')
    \<and> wg_status (ac_widgets (cw_chat w')) = ''Live apply failed'' \<and> wg_error (ac_widgets (cw_chat w')) = []"
proof -
  obtain rep e w1 where r: "apply_operation_range cx (resp_operations (pg_response p))
      (ac_active_request_live_applied_count (cw_chat w)) dt_agent_execution_report_init w = (False, rep, e, w1)"
    using assms(2) by (auto simp: apply_live_edits_def Let_def split: if_splits prod.splits bool.splits)
  let ?w2 = "chat_upd (\<lambda>c. set_status (Some ''Live apply failed'')
      (set_error (Some (error_message e ''failed to apply live edits'')) c)) w1"
  have w': "w' = cancel_active_request (Some ''Live apply failed'') (Some ''apply-failed'') ?w2"
    using assms(2) r by (auto simp: apply_live_edits_def Let_def split: if_splits)
  have "wait_view (cw_chat ?w2) = wait_view (cw_chat w)" using apply_range_executed(3) [OF r] by simp
  with assms(1) have "ac_is_loading (cw_chat ?w2)" by (simp add: wait_view_def)
  from cancel_waiting [OF this] show ?thesis unfolding w' by (simp add: cancel_drops_handle)
qed

end
