(* ===== verification/Chat_Delivery.thy ===== *)
theory Chat_Delivery
  imports Chat_Passes
begin

text \<open>
  From the bytes of the server to the image: the worker, the event stream, the main loop and the window
  together.  What the server answers to the request that the window waits for is executed.
\<close>

subsection \<open>The job of a request that is answered\<close>

lemma worker_run_to:
  assumes "(job_step env)\<^sup>*\<^sup>* s s'" "i < length (cw_requests w)" "call_of w i = s" "env = job_env_of je w i"
  shows "(request_step cx je i)\<^sup>*\<^sup>* w (call_upd i (\<lambda>_. s') w)"
  using assms
proof (induction rule: rtranclp_induct)
  case base
  then have "apfst (\<lambda>_. s) (cw_requests w ! i) = cw_requests w ! i"
    by (cases "cw_requests w ! i") (simp add: call_of_def)
  then have "call_upd i (\<lambda>_. s) w = w" by (simp add: call_upd_def)
  then show ?case by simp
next
  case (step t t')
  let ?w = "call_upd i (\<lambda>_. t) w"
  have i: "i < length (cw_requests ?w)" using step.prems(1) by (simp add: call_upd_def)
  have "job_env_of je ?w i = env" using step.prems by (simp add: job_env_of_def call_upd_def)
  then have "request_step cx je i ?w (call_upd i (\<lambda>_. t') ?w)"
    using worker [OF i, of je t' cx] step.hyps(2) step.prems(1) by (simp add: call_of_upd)
  moreover have "call_upd i (\<lambda>_. t') ?w = call_upd i (\<lambda>_. t') w" using step.prems(1)
    by (cases "cw_requests w ! i") (simp add: call_upd_def)
  ultimately show ?case using step.IH step.prems by (auto intro: rtranclp.rtrancl_into_rtrancl)
qed

lemma call_upd_const: "call_upd i f w = call_upd i (\<lambda>_. f (call_of w i)) w"
  by (cases "cw_requests w ! i") (simp add: call_upd_def call_of_def)

lemma job_receives:
  assumes "cc_job s = Job_Running parser" "cc_handle s = Some h" "cc_main s = map Progress (sp_progress parser)"
  shows "(job_step env)\<^sup>*\<^sup>* s (s\<lparr>cc_job := Job_Running (fold (write_sse_response (job_stream_env env h)) chunks parser),
      cc_main := map Progress (sp_progress (fold (write_sse_response (job_stream_env env h)) chunks parser))\<rparr>)"
  using assms
proof (induction chunks arbitrary: s parser)
  case Nil
  then have "s\<lparr>cc_job := Job_Running parser, cc_main := map Progress (sp_progress parser)\<rparr> = s" by simp
  then show ?case by simp
next
  case (Cons c chunks)
  let ?p = "write_sse_response (job_stream_env env h) c parser"
  let ?s = "s\<lparr>cc_job := Job_Running ?p, cc_main := cc_main s @ new_progress parser ?p\<rparr>"
  have main: "cc_main s @ new_progress parser ?p = map Progress (sp_progress ?p)"
    unfolding Cons.prems(3) by (rule new_progress_eq) (rule write_sse_outcome)
  have "job_step env s ?s" using job_receive [OF Cons.prems(1,2) refl] .
  moreover from Cons.IH [of ?s ?p] Cons.prems(2) main
  have "(job_step env)\<^sup>*\<^sup>* ?s (s\<lparr>cc_job := Job_Running (fold (write_sse_response (job_stream_env env h)) (c # chunks) parser),
      cc_main := map Progress (sp_progress (fold (write_sse_response (job_stream_env env h)) (c # chunks) parser))\<rparr>)"
    by simp
  ultimately show ?case by (rule converse_rtranclp_into_rtranclp)
qed

lemma sse_lines_update:
  "fold (sse_line env) ls (p\<lparr>sp_line_buffer := b\<rparr>) = (fold (sse_line env) ls p)\<lparr>sp_line_buffer := b\<rparr>"
  by (induction ls arbitrary: p) (simp_all add: sse_line_update)

lemma sse_drain_lines:
  "\<exists>b. sse_drain env parser = (fold (sse_line env) (stream_lines (sp_line_buffer parser)) parser)\<lparr>sp_line_buffer := b\<rparr>"
proof (induction env parser rule: sse_drain.induct)
  case (1 env parser)
  show ?case
  proof (cases "next_line (sp_line_buffer parser)")
    case None
    then show ?thesis
      by (subst sse_drain.simps, subst stream_lines.simps) (auto intro: exI [of _ "sp_line_buffer parser"])
  next
    case (Some lr)
    obtain line rest where lr: "lr = (line, rest)" by fastforce
    from 1 [OF Some lr [symmetric]] obtain b where "sse_drain env (sse_line env line (parser\<lparr>sp_line_buffer := rest\<rparr>))
        = (fold (sse_line env) (stream_lines rest) (sse_line env line (parser\<lparr>sp_line_buffer := rest\<rparr>)))\<lparr>sp_line_buffer := b\<rparr>"
      by auto
    then show ?thesis
      by (subst sse_drain.simps, subst stream_lines.simps) (auto simp: Some lr sse_line_update sse_lines_update)
  qed
qed

text \<open>A stream that ends with an event leaves nothing behind.\<close>

lemma blank_line_resets: "sp_data_buffer (sse_line env [] parser) = []"
  by (simp add: sse_line_def sse_parser_reset_event_def g_strchomp_def)

lemma encoded_lines:
  "list_all plain_event evs \<Longrightarrow> evs \<noteq> [] \<Longrightarrow> \<exists>ls. stream_lines (concat (map encode_event evs)) = ls @ [[]]"
proof (induction evs)
  case (Cons ev evs)
  have empty: "stream_lines [] = []" by (subst stream_lines.simps) simp
  show ?case
  proof (cases "evs = []")
    case True
    with Cons.prems(1) show ?thesis using stream_lines_encode [of ev "[]"] by (simp add: empty)
  next
    case False
    with Cons obtain ls where "stream_lines (concat (map encode_event evs)) = ls @ [[]]" by auto
    with Cons.prems(1) show ?thesis using stream_lines_encode [of ev "concat (map encode_event evs)"] by simp
  qed
qed simp

lemma encoded_drained:
  assumes "list_all plain_event evs" "evs \<noteq> []"
  shows "sp_data_buffer (write_sse_response env (concat (map encode_event evs)) (sse_parser_init result)) = []"
proof -
  obtain ls where "stream_lines (concat (map encode_event evs)) = ls @ [[]]" using encoded_lines [OF assms] ..
  with sse_drain_lines [of env "(sse_parser_init result)\<lparr>sp_line_buffer := concat (map encode_event evs)\<rparr>"]
  show ?thesis by (auto simp: write_sse_response_def sse_parser_init_def blank_line_resets)
qed

text \<open>The result a job delivers when the last event is a final one with the given response.\<close>

definition answered_result :: "dt_agent_client_request \<Rightarrow> int \<Rightarrow> dt_agent_chat_response \<Rightarrow> dt_agent_client_result" where
  "answered_result h status response = (job_result_init h)
     \<lparr>cr_has_response := True, cr_response := response, cr_http_status := status\<rparr>"

lemma job_answers:
  assumes queued: "cc_job s = Job_Queued" "cc_handle s = Some h" "cc_main s = []"
    and start: "chat_job_begin env True h = Inr (parser, payload)"
    and events: "list_all plain_event (evs @ [(''final'', answer)])" "list_all (\<lambda>ev. \<not> concludes ev) evs"
    and bytes: "concat chunks = concat (map encode_event (evs @ [(''final'', answer)]))"
    and ps: "snd (fold (handle_event (job_stream_env env h)) evs (job_result_init h, [])) = ps"
    and answer: "dt_agent_chat_response_parse_data (je_load env) (Some answer) (- 1) (Some zero_response) None
                   = (True, Some response, e)"
  shows "(job_step env)\<^sup>*\<^sup>* s (s\<lparr>cc_handle := dt_agent_client_request_unref h, cc_job := Job_Disposed,
      cc_main := map Progress ps @ [Final (answered_result h status response)]\<rparr>)"
proof -
  let ?env = "job_stream_env env h"
  let ?p = "fold (write_sse_response ?env) chunks parser"
  from start have parser: "parser = sse_parser_init (job_result_init h)"
    by (auto simp: chat_job_begin_def Let_def split: if_splits prod.splits option.splits)
  let ?all = "write_sse_response ?env (concat (map encode_event (evs @ [(''final'', answer)]))) (sse_parser_init (job_result_init h))"
  have p: "?p = ?all" unfolding parser by (simp only: sse.feed_chunks [OF sse_init_drained] bytes)
  have first: "fold (handle_event ?env) evs (job_result_init h, []) = (job_result_init h, ps)"
    using handle_other_events [OF events(2), of ?env "(job_result_init h, [])"] ps by (simp add: prod_eq_iff)
  have "outcome ?p = fold (handle_event ?env) (evs @ [(''final'', answer)]) (job_result_init h, [])"
    unfolding p by (simp only: write_sse_events stream_events_encode [OF events(1)])
  also have "\<dots> = handle_event ?env (''final'', answer) (job_result_init h, ps)"
    using first by simp
  also have "\<dots> = ((job_result_init h)\<lparr>cr_has_response := True, cr_response := response\<rparr>, ps)"
    using answer by (simp add: handle_event_def final_result_def job_result_init_def zero_result_def job_stream_env_def)
  finally have out: "sp_result ?p = (job_result_init h)\<lparr>cr_has_response := True, cr_response := response\<rparr>" "sp_progress ?p = ps"
    by (simp_all add: outcome_def)
  have "sp_data_buffer ?p = []" unfolding p by (rule encoded_drained [OF events(1)]) simp
  then have fin: "chat_job_end env h CURLE_OK status ?p
      = ?p\<lparr>sp_result := (sp_result ?p)\<lparr>cr_http_status := status\<rparr>\<rparr>"
    using out by (simp add: chat_job_end_def Let_def)
  let ?s1 = "s\<lparr>cc_job := Job_Running parser\<rparr>"
  let ?s2 = "?s1\<lparr>cc_job := Job_Running ?p, cc_main := map Progress (sp_progress ?p)\<rparr>"
  let ?s3 = "?s2\<lparr>cc_job := Job_Done, cc_main := cc_main ?s2 @ [Final (answered_result h status response)]\<rparr>"
  have "job_step env s ?s1" by (rule job_start [OF queued(1,2) start])
  moreover have "(job_step env)\<^sup>*\<^sup>* ?s1 ?s2"
    using queued by (intro job_receives) (simp_all add: parser sse_parser_init_def)
  moreover have "job_step env ?s2 ?s3"
    using job_end [of ?s2 ?p h CURLE_OK "chat_job_end env h CURLE_OK status ?p" env status] queued(2)
    by (simp add: fin new_progress_def out answered_result_def)
  moreover have "job_step env ?s3 (?s3\<lparr>cc_job := Job_Disposed, cc_handle := dt_agent_client_request_unref h\<rparr>)"
    using queued(2) by (intro job_dispose) simp_all
  ultimately have "(job_step env)\<^sup>*\<^sup>* s (?s3\<lparr>cc_job := Job_Disposed, cc_handle := dt_agent_client_request_unref h\<rparr>)"
    by (meson converse_rtranclp_into_rtranclp rtranclp.rtrancl_into_rtrancl)
  moreover have "?s3\<lparr>cc_job := Job_Disposed, cc_handle := dt_agent_client_request_unref h\<rparr>
      = s\<lparr>cc_handle := dt_agent_client_request_unref h, cc_job := Job_Disposed,
      cc_main := map Progress ps @ [Final (answered_result h status response)]\<rparr>"
    by (simp add: out del: unref_simps)
  ultimately show ?thesis by simp
qed

subsection \<open>The deliveries\<close>

text \<open>The window after the job of request \<open>i\<close> has ended, and after it was given its progress reports.\<close>

definition job_finished :: "nat \<Rightarrow> dt_agent_client_progress list \<Rightarrow> dt_agent_client_request \<Rightarrow> dt_agent_client_result
    \<Rightarrow> chat_world \<Rightarrow> chat_world" where
  "job_finished i ps h r w = call_upd i (\<lambda>s. s\<lparr>cc_handle := dt_agent_client_request_unref h, cc_job := Job_Disposed,
      cc_main := map Progress ps @ [Final r]\<rparr>) w"

primrec deliver_reports :: "chat_env \<Rightarrow> nat \<Rightarrow> dt_agent_client_progress list \<Rightarrow> chat_world \<Rightarrow> chat_world" where
  "deliver_reports cx i [] w = w"
| "deliver_reports cx i (p # ps) w = deliver_reports cx i ps (progress_finished cx p
     (call_upd i (\<lambda>s. s\<lparr>cc_main := tl (cc_main s), cc_delivered := cc_delivered s @ [Progress p]\<rparr>) w))"

lemma reports_stay_ignored:
  "ac_active_request (cw_chat w) = None \<Longrightarrow> ac_active_request (cw_chat (deliver_reports cx i ps w)) = None"
  by (induction ps arbitrary: w) (simp_all add: ignored_without_handle)

lemma executed_call_upd [simp]: "executed (call_upd i f w) = executed w"
  by (simp add: executed_def call_upd_def)

lemma reports_delivered:
  assumes "i < length (cw_requests w)" "cc_main (call_of w i) = map Progress ps @ rest"
    and "executed_prefix earlier ops w" "\<forall>p \<in> set ps. \<forall>os. resp_operations (pg_response p) = Some os \<longrightarrow> prefix os ops"
    and "w1 = deliver_reports cx i ps w" "ac_active_request (cw_chat w1) \<noteq> None"
  shows "(request_step cx je i)\<^sup>*\<^sup>* w w1 \<and> i < length (cw_requests w1) \<and> cc_main (call_of w1 i) = rest
    \<and> executed_prefix earlier ops w1 \<and> ac_active_request_id (cw_chat w1) = ac_active_request_id (cw_chat w)
    \<and> submission_of w1 i = submission_of w i"
  using assms
proof (induction ps arbitrary: w)
  case (Cons p ps)
  let ?f = "\<lambda>s. s\<lparr>cc_main := tl (cc_main s), cc_delivered := cc_delivered s @ [Progress p]\<rparr>"
  let ?v = "call_upd i ?f w"
  let ?u = "progress_finished cx p ?v"
  have main: "cc_main (call_of w i) = Progress p # map Progress ps @ rest" using Cons.prems(2) by simp
  have u: "w1 = deliver_reports cx i ps ?u" using Cons.prems(5) by simp
  then have active: "ac_active_request (cw_chat ?u) \<noteq> None" using reports_stay_ignored [of ?u cx i ps] Cons.prems(6) by metis
  have v: "call_upd i (\<lambda>_. (call_of w i)\<lparr>cc_main := map Progress ps @ rest,
      cc_delivered := cc_delivered (call_of w i) @ [Progress p]\<rparr>) w = ?v"
    using main unfolding call_upd_const [of i ?f] by simp
  have step: "request_step cx je i w ?u"
    using progress [OF Cons.prems(1) main deliver_stream_progress [OF main], of cx je] unfolding v .
  have req: "cw_requests ?u = cw_requests ?v" using progress_requests [of cx p ?v] active by simp
  then have u2: "i < length (cw_requests ?u)" "cc_main (call_of ?u i) = map Progress ps @ rest"
    "submission_of ?u i = submission_of w i"
    using Cons.prems(1) main by (simp_all add: call_of_def submission_of_def call_upd_def)
  have ev: "executed_prefix earlier ops ?v" using Cons.prems(3) by (simp add: executed_prefix_def)
  have "\<forall>os. resp_operations (pg_response p) = Some os \<longrightarrow> prefix os ops" using Cons.prems(4) by simp
  from progress_finished_prefix [OF ev this, of cx] active
  have "executed_prefix earlier ops ?u" "ac_active_request_id (cw_chat ?u) = ac_active_request_id (cw_chat w)" by auto
  with Cons.IH [OF u2(1,2) _ _ u Cons.prems(6)] Cons.prems(4) step u2(3) show ?case
    by (auto intro: converse_rtranclp_into_rtranclp)
qed simp

lemma call_upd_world: "cw_world (call_upd i f w) = cw_world w"
  by (simp add: call_upd_def)

lemma usable_call_upd [simp]: "response_usable cx r sub n (call_upd i f w) = response_usable cx r sub n w"
  by (simp add: response_usable_def active_image_matches_def shown_revision_def revision_id_Some
      chat_current_image_id_def Let_def call_upd_world)

text \<open>
  C1: What a server that keeps to the protocol answers reaches the image.  Take any reachable state in
  which the window waits for a request whose job is queued, with no live edit applied yet.  Assumed of
  the server: it sends plain events (a name and data on one line), none of which ends the stream early,
  then a final one whose payload is a response, in chunks of any size, and the operations of each
  progress report are a beginning of those of the response.  Assumed of the window: it still waits when
  the reports have been delivered (a live edit that fails cancels the request), and the response is
  usable then.  Under these conditions the worker and the main loop alone take it to a state in which
  exactly the operations of the response have been executed, each once and in order.
\<close>

theorem response_reaches_image:
  assumes "window_init cx w0" "(window_step cx je)\<^sup>*\<^sup>* w0 w" "ac_active_request (cw_chat w) = Some i"
    and "cc_job (call_of w i) = Job_Queued" "cc_handle (call_of w i) = Some h"
    and "ac_active_request_live_applied_count (cw_chat w) = 0"
    and "env = job_env_of je w i" "chat_job_begin env True h = Inr (parser, payload)"
    and "list_all plain_event (evs @ [(''final'', answer)])" "list_all (\<lambda>ev. \<not> concludes ev) evs"
    and "concat chunks = concat (map encode_event (evs @ [(''final'', answer)]))"
    and "snd (fold (handle_event (job_stream_env env h)) evs (job_result_init h, [])) = ps"
    and "dt_agent_chat_response_parse_data (je_load je) (Some answer) (- 1) (Some zero_response) None
           = (True, Some response, e)"
    and "resp_operations response = Some ops"
    and "\<forall>p \<in> set ps. \<forall>os. resp_operations (pg_response p) = Some os \<longrightarrow> prefix os ops"
    and "r = answered_result h status response" "w1 = deliver_reports cx i ps (job_finished i ps h r w)"
    and "ac_active_request (cw_chat w1) = Some i"
    and "response_usable cx r (submission_of w i) (ac_active_request_live_applied_count (cw_chat w1)) w1"
  shows "\<exists>w' batches. (request_step cx je i)\<^sup>*\<^sup>* w w' \<and> executed w' = executed w @ batches \<and> concat batches = ops"
proof -
  have o: "owned w" using window.inv_reachable [OF assms(1,2)] by (simp add: window_inv_def)
  have i: "i < length (cw_requests w)" using owned_bounds [OF o] assms(3) by simp
  with o have inv: "chat_inv (call_of w i)" by (simp add: owned_def holds_handles_def)
  then have main: "cc_main (call_of w i) = []" using assms(4) by (simp add: chat_inv_def events_ok_def)
  have load: "je_load env = je_load je" by (simp add: assms(7) job_env_of_def)
  let ?s = "(call_of w i)\<lparr>cc_handle := dt_agent_client_request_unref h, cc_job := Job_Disposed,
      cc_main := map Progress ps @ [Final r]\<rparr>"
  let ?w0 = "job_finished i ps h r w"
  have "(job_step env)\<^sup>*\<^sup>* (call_of w i) ?s"
    using job_answers [OF assms(4,5) main assms(8,9,10,11,12)] assms(13) load unfolding assms(16) by simp
  from worker_run_to [OF this [unfolded assms(7)] i refl refl, of cx]
  have run: "(request_step cx je i)\<^sup>*\<^sup>* w ?w0"
    unfolding job_finished_def by (subst call_upd_const) (simp only:)
  have w0: "i < length (cw_requests ?w0)" "cc_main (call_of ?w0 i) = map Progress ps @ [Final r]"
    "submission_of ?w0 i = submission_of w i"
    using i by (simp_all add: job_finished_def call_of_def call_upd_def submission_of_def)
  have start: "executed_prefix (executed w) ops ?w0" "ac_active_request_id (cw_chat ?w0) = ac_active_request_id (cw_chat w)"
    using assms(6) by (simp_all add: job_finished_def executed_prefix_def)
  from reports_delivered [OF w0(1,2) start(1) assms(15,17)] assms(18) w0(3) start(2)
  have w1: "(request_step cx je i)\<^sup>*\<^sup>* ?w0 w1" "i < length (cw_requests w1)" "cc_main (call_of w1 i) = [Final r]"
    "executed_prefix (executed w) ops w1" "ac_active_request_id (cw_chat w1) = ac_active_request_id (cw_chat w)"
    "submission_of w1 i = submission_of w i" by auto
  let ?sub = "submission_of w i" and ?n = "ac_active_request_live_applied_count (cw_chat w1)"
  let ?v = "call_upd i (\<lambda>_. (call_of w1 i)\<lparr>cc_main := [], cc_delivered := cc_delivered (call_of w1 i) @ [Final r],
      cc_destroyed := cc_destroyed (call_of w1 i) + 1\<rparr>) w1"
  let ?w' = "request_finished cx r ?sub ?v"
  have fin: "request_step cx je i w1 ?w'"
    using result [OF w1(2,3) deliver_result [OF w1(3)], of cx je] unfolding w1(6) .
  have "submission_matches_active_request (cw_chat w) ?sub"
    using o assms(3) by (auto simp: owned_def active_waits_def submission_matches_active_request_def)
  moreover have "cw_chat ?v = cw_chat w1" by simp
  ultimately have "submission_matches_active_request (cw_chat ?v) ?sub"
    using w1(5) unfolding submission_matches_active_request_def by metis
  then have n: "live_applied_for ?sub (cw_chat ?v) = ?n" by (simp add: live_applied_for_def)
  have "operations_left r ?n = drop ?n ops"
    using assms(14,16,19) by (simp add: operations_left_def response_usable_def answered_result_def Let_def)
  with usable_executes [of cx r ?sub ?v] assms(19) n
  have e: "executed ?w' = executed w1 @ (if drop ?n ops = [] then [] else [drop ?n ops])" by simp
  from w1(4) obtain bs where bs: "executed w1 = executed w @ bs" "concat bs = take ?n ops"
    by (auto simp: executed_prefix_def)
  have "concat (bs @ (if drop ?n ops = [] then [] else [drop ?n ops])) = ops"
    using bs(2) by (auto simp: append_take_drop_id)
  with e bs(1) run w1(1) fin show ?thesis
    by (metis append.assoc rtranclp.rtrancl_into_rtrancl rtranclp_trans)
qed

subsection \<open>The message that was typed is answered\<close>

lemma build_request_uuid:
  "build_request cx m g f md px mx e w = ((True, request, e'), w')
     \<Longrightarrow> \<exists>k. req_request_id request = Some (cx_uuid cx k)"
  by (auto simp: build_request_def request_members_def fill_ui_context_fields g_uuid_string_random_def Let_def
      split: prod.splits bool.splits option.splits if_splits)

lemma active_switch [simp]:
  "ac_active_request (cw_chat (switch_to_image_session cx k b w)) = ac_active_request (cw_chat w)"
proof -
  have "handle_view (cw_chat (switch_to_image_session cx k b w)) = handle_view (cw_chat w)"
    by (simp add: switch_to_image_session_def lookup_or_create_session_def g_uuid_string_random_def Let_def split: option.splits)
  then show ?thesis by (simp add: handle_view_def)
qed

lemma submit_fresh:
  assumes "submit_internal cx p g a u f md px mx w = (True, w')" "ac_active_request (cw_chat w) = None"
  shows "ac_active_request_live_applied_count (cw_chat w') = 0 \<and> (\<exists>call jr sub rq k. cw_requests w' = cw_requests w @ [(call, jr, sub)]
    \<and> dt_agent_client_chat_async (cx_getenv cx ''DARKTABLE_AGENT_SERVER_URL'') (cx_conf_endpoint cx) True (Some rq) = Inr (call, jr)
    \<and> sub_request_id sub = Some (cx_uuid cx k))"
proof -
  let ?m = "g_strstrip (str_or p [])"
  let ?w1 = "chat_upd (submit_begin ?m g u f md px mx) (switch_to_image_session cx (chat_current_image_id cx w) False w)"
  obtain ok rq e w2 where b: "build_request cx (Some ?m) g f md px mx None ?w1 = ((ok, rq, e), w2)"
    by (metis prod_cases3 surj_pair)
  have w2: "cw_requests w2 = cw_requests w" "handle_view (cw_chat w2) = handle_view (cw_chat ?w1)"
    using build_request_world [of cx "Some ?m" g f md px mx None ?w1] b
    by (simp_all add: ensure_app_session_id_def g_uuid_string_random_def Let_def)
  then have none: "ac_active_request (cw_chat w2) = None" using assms(2) by (simp add: handle_view_def)
      (metis active_switch fst_conv handle_view_def handle_view_functions(12))
  let ?s = "new_submission rq ?m a md (read_current_exposure cx (cw_world w2))"
  let ?w3 = "chat_upd (\<lambda>c. session_upd (ac_current_image_id c)
      (\<lambda>s. s\<lparr>cs_refinement_goal_text := sub_goal_text ?s\<rparr>) c) w2"
  have w3: "cw_requests ?w3 = cw_requests w" using w2 by simp
  have "handle_view (cw_chat ?w3) = handle_view (cw_chat w2)" by simp
  with none have none3: "ac_active_request (cw_chat ?w3) = None" by (simp add: handle_view_def)
  obtain h w4 where st: "start_client_request cx rq ?s ?w3 = (h, w4)" by force
  from assms(1) b st have ok: "ok" "\<exists>i. h = Inr i"
    by (auto simp: submit_internal_def Let_def split: if_splits bool.splits sum.splits)
  from st ok(2) obtain call jr where c: "w4 = ?w3\<lparr>cw_requests := cw_requests w @ [(call, jr, ?s)]\<rparr>"
    "dt_agent_client_chat_async (cx_getenv cx ''DARKTABLE_AGENT_SERVER_URL'') (cx_conf_endpoint cx) True (Some rq) = Inr (call, jr)"
    unfolding start_client_request_def Let_def w3
    by (cases "cx_have_job cx (length (cw_requests w))") (auto simp: dt_agent_client_chat_async_def Let_def)
  have same: "drop_active_request_handle w4 = w4" using none3 by (simp add: c(1) drop_active_request_handle_def)
  from b ok(1) obtain k where "req_request_id rq = Some (cx_uuid cx k)" using build_request_uuid by metis
  then have "sub_request_id ?s = Some (cx_uuid cx k)" by (simp add: new_submission_def)
  moreover have "cw_requests w' = cw_requests w4" "ac_active_request_live_applied_count (cw_chat w') = 0"
    using assms(1) b st ok
    by (auto simp: submit_internal_def Let_def set_active_request_def same update_sensitivity_def widgets_upd_def split: if_splits)
  ultimately show ?thesis using c by auto
qed

lemma opened_ids: "nonempty (ac_conversation_id (cw_chat opened_window))" "nonempty (ac_image_session_id (cw_chat opened_window))"
  by code_simp+

text \<open>The request of the message that was typed.\<close>

abbreviation typed_submission :: dt_agent_chat_submission where
  "typed_submission \<equiv> submission_of clicked_window 0"

lemma clicked_window_submission: "ac_active_request_id (cw_chat clicked_window) = sub_request_id typed_submission"
proof -
  have "owned clicked_window"
    using window.inv_reachable [OF opened_window_init clicked_window_run] by (simp add: window_inv_def)
  then show ?thesis using clicked_window_waits by (auto simp: owned_def active_waits_def)
qed

lemma sample_capabilities:
  "garray (fst (snd (dt_agent_capabilities_collect sample_env (levels_world True) (Some (dv_modules sample_develop)) (Some []) None))) \<noteq> []"
  by code_simp

lemma clicked_window_request:
  "ac_active_request_live_applied_count (cw_chat clicked_window) = 0" "cw_world clicked_window = levels_world True"
  "\<exists>h. cc_handle (call_of clicked_window 0) = Some h \<and> \<not> request_cancelled (Some h)"
  "\<not> request_incomplete (fst (snd (cw_requests clicked_window ! 0)))"
  "nonempty (sub_request_id typed_submission)" "nonempty (sub_conversation_id typed_submission)"
  "sub_has_image_id typed_submission = True" "sub_image_id typed_submission = 42"
  "ac_conversation_id (cw_chat clicked_window) = sub_conversation_id typed_submission"
  "ac_image_session_id (cw_chat clicked_window) = sub_image_session_id typed_submission"
proof -
  have ok: "window_ok typed_window" unfolding typed_window_def by (rule window_ok_event [OF opened_window_ok])
  have typed: "\<not> ac_is_loading (cw_chat typed_window)" "ac_current_image_id (cw_chat typed_window) = 42"
    "cw_requests typed_window = []" "wg_entry (ac_widgets (cw_chat typed_window)) = ''brighter''"
    "cw_world typed_window = levels_world True" "conversation_view (cw_chat typed_window) = conversation_view (cw_chat opened_window)"
    using opened_window_state opened_window_world
    by (simp_all add: typed_window_def opened_window_requests)
      (simp_all add: widgets_upd_def)
  have owned: "owned typed_window"
    using window.inv_reachable [OF opened_window_init r_into_rtranclp [of "window_step sample_chat_env undefined", OF event]]
    unfolding typed_window_def window_inv_def by blast
  then have none: "ac_active_request (cw_chat typed_window) = None"
    using owned_bounds [OF owned] typed(3) by (cases "ac_active_request (cw_chat typed_window)") auto
  let ?w1 = "switch_to_image_session sample_chat_env (chat_current_image_id sample_chat_env typed_window) False typed_window"
  have idle: "\<not> ac_is_loading (cw_chat ?w1)" "conversation_view (cw_chat ?w1) = conversation_view (cw_chat opened_window)"
    using same_session_waits [OF ok, of sample_chat_env] same_session_conversation [OF ok, of sample_chat_env] typed by simp_all
  have job: "cx_have_job sample_chat_env (length (cw_requests typed_window))" by (simp add: sample_chat_env_def)
  let ?c = "cw_chat typed_window"
  let ?md = "refinement_mode_for_submit ?c"
  let ?mx = "if ?md = DT_AGENT_REFINEMENT_MODE_MULTI then chat_max_refinement_passes ?c else 1"
  have md: "?md \<noteq> DT_AGENT_REFINEMENT_MODE_UNKNOWN" "1 \<le> ?mx" "?md \<noteq> DT_AGENT_REFINEMENT_MODE_MULTI \<longrightarrow> ?mx = 1"
    by (simp_all add: refinement_mode_for_submit_def chat_max_refinement_passes_def DT_AGENT_CHAT_DEFAULT_MAX_REFINEMENT_TURNS_def)
  obtain b w' where s: "(b, w') = submit_internal sample_chat_env (Some ''brighter'') (Some ''brighter'') False True
      (ac_fast_mode_enabled ?c) ?md 1 ?mx typed_window" by (metis surj_pair)
  have sub: "chat_submit sample_chat_env (Some ''brighter'') False typed_window = w'"
    using s [symmetric] by (simp add: chat_submit_def Let_def)
  from submit_starts [OF ok refl idle(1) refl blank_check md(1) zero_less_one md(2) job s refl]
  obtain rid w2 where x: "b" "cw_world w2 = levels_world True" "conversation_view (cw_chat w2) = conversation_view (cw_chat ?w1)"
    "ac_app_session_id (cw_chat w2) \<noteq> None"
    "snd (cw_requests w' ! 0) = (dt_agent_chat_request_copy (built_request sample_chat_env w2 rid (g_strstrip (str_or (Some ''brighter'') []))
         (Some ''brighter'') (ac_fast_mode_enabled ?c) ?md 1 ?mx),
       new_submission (built_request sample_chat_env w2 rid (g_strstrip (str_or (Some ''brighter'') [])) (Some ''brighter'')
         (ac_fast_mode_enabled ?c) ?md 1 ?mx) (g_strstrip (str_or (Some ''brighter'') [])) False ?md
         (read_current_exposure sample_chat_env (cw_world typed_window)))"
    "conversation_view (cw_chat w') = conversation_view (cw_chat ?w1)"
    unfolding typed(3,5) list.size by blast
  from s x(1) have s1: "submit_internal sample_chat_env (Some ''brighter'') (Some ''brighter'') False True
      (ac_fast_mode_enabled ?c) ?md 1 ?mx typed_window = (True, w')" by simp
  have f1: "ac_active_request_live_applied_count (cw_chat w') = 0" using submit_fresh [OF s1 none] by blast
  from submit_fresh [OF s1 none] typed(3) obtain call jr sb rq k where
    f: "cw_requests w' = [(call, jr, sb)]" "sub_request_id sb = Some (cx_uuid sample_chat_env k)"
    "dt_agent_client_chat_async (cx_getenv sample_chat_env ''DARKTABLE_AGENT_SERVER_URL'') (cx_conf_endpoint sample_chat_env) True
       (Some rq) = Inr (call, jr)" by auto
  have world: "cw_world w' = cw_world typed_window"
    using submit_same_image [of typed_window sample_chat_env "Some ''brighter''" "Some ''brighter''" False True
      "ac_fast_mode_enabled ?c" ?md 1 ?mx] unfolding s1 same_image_def snd_conv by blast
  have clicked: "cw_requests clicked_window = cw_requests w'" "cw_world clicked_window = cw_world w'"
    "conversation_view (cw_chat clicked_window) = conversation_view (cw_chat w')"
    "ac_active_request_live_applied_count (cw_chat clicked_window) = ac_active_request_live_applied_count (cw_chat w')"
    by (simp_all add: clicked_window_def send_clicked_def typed(4) sub Let_def) (simp add: widgets_upd_def)
  show "ac_active_request_live_applied_count (cw_chat clicked_window) = 0" using f1 clicked by simp
  show "cw_world clicked_window = levels_world True" using world clicked typed by simp
  show "\<exists>h. cc_handle (call_of clicked_window 0) = Some h \<and> \<not> request_cancelled (Some h)"
    using f(1,3) clicked(1) by (auto simp: call_of_def dt_agent_client_chat_async_def request_ref_def new_handle_def
        request_cancelled_def Let_def)
  show "nonempty (sub_request_id typed_submission)"
    using f(1,2) clicked(1) by (simp add: submission_of_def sample_chat_env_def nonempty_def)
  have ids: "ac_image_session_id (cw_chat w2) = ac_image_session_id (cw_chat opened_window)"
    "ac_conversation_id (cw_chat w2) = ac_conversation_id (cw_chat opened_window)"
    "ac_image_session_id (cw_chat clicked_window) = ac_image_session_id (cw_chat opened_window)"
    "ac_conversation_id (cw_chat clicked_window) = ac_conversation_id (cw_chat opened_window)"
    using x(3,6) idle(2) clicked(3) by (simp_all add: conversation_view_def)
  have set: "ac_image_session_id (cw_chat w2) \<noteq> None" "ac_conversation_id (cw_chat w2) \<noteq> None"
    using opened_ids ids by (auto simp: nonempty_def split: option.splits)
  let ?r = "built_request sample_chat_env w2 rid (g_strstrip (str_or (Some ''brighter'') [])) (Some ''brighter'')
      (ac_fast_mode_enabled ?c) ?md 1 ?mx"
  have caps: "garray (req_capabilities ?r) \<noteq> []"
    using sample_capabilities x(2) by (simp add: built_request_def Let_def) (simp add: sample_chat_env_def)
  then show "\<not> request_incomplete (fst (snd (cw_requests clicked_window ! 0)))"
    using built_request_complete [OF x(4) set md(1) _ _ md(2,3), of "g_strstrip (str_or (Some ''brighter'') [])" sample_chat_env rid]
      blank_check x(5) clicked(1)
    by (simp add: dt_agent_chat_request_copy_eq [OF built_request_fields(14)])
  have sub_eq: "typed_submission = new_submission ?r (g_strstrip (str_or (Some ''brighter'') [])) False ?md
      (read_current_exposure sample_chat_env (cw_world typed_window))"
    using x(5) clicked(1) by (simp add: submission_of_def)
  show "nonempty (sub_conversation_id typed_submission)"
    "ac_conversation_id (cw_chat clicked_window) = sub_conversation_id typed_submission"
    "ac_image_session_id (cw_chat clicked_window) = sub_image_session_id typed_submission"
    using opened_ids ids unfolding sub_eq by (simp_all add: new_submission_def built_request_fields)
  show "sub_has_image_id typed_submission = True" "sub_image_id typed_submission = 42"
    unfolding sub_eq by (simp_all add: new_submission_def built_request_def fill_ui_context_def Let_def)
      (simp_all add: sample_chat_env_def sample_develop_def to_gint_def)
qed

definition delivered_response :: dt_agent_chat_response where
  "delivered_response = sample_response
     \<lparr>resp_request_id := sub_request_id typed_submission, resp_conversation_id := sub_conversation_id typed_submission,
      resp_base_image_revision_id := Some ''image-42-history-1-2''\<rparr>"

definition delivered_env :: job_env where
  "delivered_env = sample_job_env\<lparr>je_load := \<lambda>text len. Inr (Some (JObject (response_object delivered_response)))\<rparr>"

lemma delivered_response_wf: "wf_response delivered_response"
proof -
  have "resp_status sample_response = Some ''ok''" by (simp add: sample_response_def)
  with sample_response_wf clicked_window_request(5,6) show ?thesis
    by (simp add: wf_response_def delivered_response_def nonempty_def del: One_nat_def)
qed

text \<open>The server accepts the request of the window and answers with two operations, which reach the image.\<close>

theorem response_reaches_image_witness:
  "\<exists>w' batches. (request_step sample_chat_env delivered_env 0)\<^sup>*\<^sup>* clicked_window w'
     \<and> executed w' = executed clicked_window @ batches \<and> concat batches = garray (resp_operations sample_response)"
proof -
  obtain h where h: "cc_handle (call_of clicked_window 0) = Some h" "\<not> request_cancelled (Some h)"
    using clicked_window_request(3) by blast
  let ?env = "job_env_of delivered_env clicked_window 0"
  have started: "chat_job_begin ?env True h = Inr (sse_parser_init (job_result_init h), ''{}'')"
    using h(2) clicked_window_request(4)
    by (simp add: chat_job_begin_def dt_agent_chat_request_serialize_def job_env_of_def delivered_env_def
        sample_job_env_def Let_def)
  have parse: "dt_agent_chat_response_parse_data (je_load delivered_env) (Some ''{}'') (- 1) (Some zero_response) None
      = (True, Some delivered_response, None)"
    by (simp add: delivered_env_def dt_agent_chat_response_parse_data_def parse_response_object_complete delivered_response_wf)
  let ?r = "answered_result h 200 delivered_response" and ?v = "job_finished 0 [] h (answered_result h 200 delivered_response) clicked_window"
  have v: "cw_chat ?v = cw_chat clicked_window" by (simp add: job_finished_def)
  have use: "response_usable sample_chat_env ?r typed_submission n ?v" for n
  proof -
    have "shown_revision sample_chat_env clicked_window = ''image-42-history-1-2''"
      using sample_revision by (simp add: shown_revision_def revision_id_Some)
        (simp add: sample_chat_env_def sample_develop_def)
    then have "response_usable sample_chat_env ?r typed_submission n clicked_window"
      using clicked_window_request clicked_window_submission
      by (simp add: response_usable_def answered_result_def job_result_init_def zero_result_def delivered_response_def Let_def
          active_image_matches_def levels_develop) (simp add: sample_response_def sample_chat_env_def sample_develop_def)
    then show ?thesis by (simp add: job_finished_def)
  qed
  have ops: "resp_operations delivered_response = Some (garray (resp_operations sample_response))"
    by (simp add: delivered_response_def sample_response_def)
  from response_reaches_image [OF opened_window_init clicked_window_run _ _ h(1) clicked_window_request(1) refl started _ _ _ refl parse ops
      _ refl refl, where evs = "[(''accepted'', ''1'')]" and
      chunks = "[encode_event (''accepted'', ''1''), encode_event (''final'', ''{}'')]" and status = 200]
  show ?thesis
    using use clicked_window_waits v
    by (simp add: plain_event_def plain_text_def g_ascii_isspace_def concludes_def handle_event_def job_stream_env_def)
qed

end
