(* ===== verification/Edit_History.thy ===== *)
theory Edit_History
  imports Collect Step_System "HOL-Library.Word"
begin

unbundle bit_operations_syntax

text \<open>
  The edit history of the darkroom (\<open>develop/develop.c\<close>): what the revision of an image counts.  Adding
  an item drops the undone items above the end of the history, merges the edit into the item on top or
  pushes a new one; going to a position of the history sets the modules to what the items say.
\<close>

subsection \<open>Modules and items\<close>

text \<open>Blend parameters: the blend color space and the other bytes.\<close>

record dt_develop_blend_params =
  bp_blend_cst :: int
  bp_bytes :: "8 word list"

definition DEVELOP_BLEND_CS_NONE :: int where
  "DEVELOP_BLEND_CS_NONE = 0"

text \<open>
  The members of \<open>dt_iop_module_t\<close> that the history reads or writes.  \<open>in_hidden\<close> is \<open>dt_iop_is_hidden\<close>,
  \<open>in_supports_blending\<close> the flag of \<open>flags ()\<close>, \<open>in_has_off\<close> whether there is an enable button, and
  \<open>in_default_cst\<close> what \<open>dt_develop_blend_default_module_blend_colorspace\<close> returns.
\<close>

record dt_iop_instance =
  in_so :: nat
  in_op :: string
  in_instance :: int
  in_multi_priority :: int
  in_multi_name :: string
  in_multi_name_hand_edited :: bool
  in_iop_order :: int
  in_enabled :: bool
  in_default_enabled :: bool
  in_hide_enable_button :: bool
  in_hidden :: bool
  in_supports_blending :: bool
  in_has_off :: bool
  in_params :: "8 word list"
  in_default_params :: "8 word list"
  in_blend_params :: dt_develop_blend_params
  in_default_blendop_params :: dt_develop_blend_params
  in_default_cst :: int

text \<open>
  The item with the members the agent does not read.  A module is named by its index in \<open>de_module\<close>; the
  masks are a list of forms, the empty list for NULL.
\<close>

record dt_dev_history_entry = dt_dev_history_item +
  dh_module :: nat
  dh_params :: "8 word list"
  dh_blend_params :: dt_develop_blend_params
  dh_multi_name_hand_edited :: bool
  dh_forms :: "nat list"
  dh_focus_hash :: bool

record dt_iop_order_entry =
  oe_iop_order :: int
  oe_operation :: string
  oe_instance :: int

datatype dev_effect =
    Set_Enable_Button nat
  | Update_Header nat
  | Undo_Start
  | Undo_End
  | Attach_Changed_Tag int
  | Change_Timestamp int
  | Invalidate_All
  | Raise_Tag_Changed
  | Redraw_Center
  | Write_History
  | Synch_Xmp int
  | Gui_Update nat
  | Pipe_Synch_All
  | Pipe_Rebuild
  | Masks_List_Change

record develop_edit =
  de_gui_attached :: bool
  de_gui_previous_target :: "nat option"
  de_gui_previous_time :: flt
  de_gui_previous_pipe_time :: flt
  de_focus_hash :: bool
  de_autosaving :: bool
  de_autosave_time :: flt
  de_gui_module :: "nat option"
  de_imgid :: int
  de_requested_id :: int
  de_full_loading :: bool
  de_history_end :: int
  de_history :: "dt_dev_history_entry list"
  de_history_postpone_invalidate :: bool
  de_history_last_module :: "nat option"
  de_module :: "nat \<Rightarrow> dt_iop_instance"
  de_iop :: "nat list"
  de_iop_order_list :: "dt_iop_order_entry list"
  de_forms :: "nat list"
  de_full_changed :: "32 word"
  de_preview_changed :: "32 word"
  de_preview2_changed :: "32 word"
  de_effects :: "dev_effect list"

text \<open>
  What the code asks its surroundings: preferences, the clock (at the start of a call and after saving),
  the label of the preset that matches a module, whether the tag was attached now, and the correction of
  equal module orders.
\<close>

record edit_env =
  ee_gui_reset :: bool
  ee_auto_name :: bool
  ee_preset_label :: "dt_iop_instance \<Rightarrow> bool \<Rightarrow> string option"
  ee_wtime :: flt
  ee_wtime_saved :: flt
  ee_autosave_interval :: int
  ee_merge_same_secs :: flt
  ee_review_secs :: flt
  ee_tag_attached :: bool
  ee_duplicate_orders :: "(nat \<Rightarrow> dt_iop_instance) \<Rightarrow> nat list \<Rightarrow> dt_dev_history_entry list \<Rightarrow> nat \<Rightarrow> int"

definition DT_DEV_PIPE_TOP_CHANGED :: "32 word" where
  "DT_DEV_PIPE_TOP_CHANGED = 1"

definition DT_DEV_PIPE_SYNCH :: "32 word" where
  "DT_DEV_PIPE_SYNCH = 4"

definition dev_add_effect :: "dev_effect \<Rightarrow> develop_edit \<Rightarrow> develop_edit" where
  "dev_add_effect e d = d\<lparr>de_effects := de_effects d @ [e]\<rparr>"

definition module_upd :: "nat \<Rightarrow> (dt_iop_instance \<Rightarrow> dt_iop_instance) \<Rightarrow> develop_edit \<Rightarrow> develop_edit" where
  "module_upd m f d = d\<lparr>de_module := (de_module d)(m := f (de_module d m))\<rparr>"

definition pipes_changed :: "32 word \<Rightarrow> develop_edit \<Rightarrow> develop_edit" where
  "pipes_changed flag d = d
     \<lparr>de_full_changed := de_full_changed d OR flag, de_preview_changed := de_preview_changed d OR flag,
      de_preview2_changed := de_preview2_changed d OR flag\<rparr>"

text \<open>The item at an index of the list, as \<open>g_list_nth\<close>; a negative index is out of range.\<close>

definition g_list_nth :: "'a list \<Rightarrow> int \<Rightarrow> 'a option" where
  "g_list_nth xs i = (if 0 \<le> i \<and> i < int (length xs) then Some (xs ! nat i) else None)"

text \<open>The size of the parameters of a module does not change.\<close>

definition in_params_size :: "dt_iop_instance \<Rightarrow> nat" where
  "in_params_size x = length (in_default_params x)"

definition g_strlcpy :: "nat \<Rightarrow> string \<Rightarrow> string" where
  "g_strlcpy dest_size s = take (dest_size - 1) s"

subsection \<open>Adding an item\<close>

definition dev_auto_save :: "edit_env \<Rightarrow> develop_edit \<Rightarrow> develop_edit" where
  "dev_auto_save ee d =
     (let user_delay = Fin (of_int (ee_autosave_interval ee));
          imgid = de_imgid d;
          start = ee_wtime ee;
          saving = 1 \<le> ee_autosave_interval ee
            \<and> user_delay < fsub round64 start (de_autosave_time d)
            \<and> \<not> de_full_loading d \<and> de_requested_id d = imgid \<and> 0 < imgid
      in if saving
         then
           let d = dev_add_effect (Synch_Xmp imgid) (dev_add_effect Write_History d);
               after = ee_wtime_saved ee;
               d = d\<lparr>de_autosave_time := after\<rparr>
           in if Fin (1 / 2) < fsub round64 after start then d\<lparr>de_autosaving := False\<rparr> else d
         else d)"

definition dev_auto_module_label :: "edit_env \<Rightarrow> nat \<Rightarrow> develop_edit \<Rightarrow> develop_edit" where
  "dev_auto_module_label ee m d =
     (let module = de_module d m
      in if \<not> in_hidden module \<and> \<not> in_multi_name_hand_edited module \<and> ee_auto_name ee
         then
           let is_default_params = in_params module = in_default_params module;
               name = (case ee_preset_label ee module is_default_params of
                         Some preset_name \<Rightarrow> g_strlcpy 128 preset_name
                       | None \<Rightarrow> if in_multi_priority module \<noteq> 0 then g_strlcpy 128 (show_int (in_multi_priority module))
                                 else []);
               d = module_upd m (\<lambda>x. x\<lparr>in_multi_name := name\<rparr>) d
           in if de_gui_attached d then dev_add_effect (Update_Header m) d else d
         else d)"

text \<open>Whether an item above the end of the history goes: its module is optional or has an earlier item.\<close>

definition earlier_entry :: "develop_edit \<Rightarrow> dt_dev_history_entry \<Rightarrow> bool" where
  "earlier_entry d hist \<longleftrightarrow> (\<exists>prior_hist \<in> set (take (nat (de_history_end d)) (de_history d)).
     in_so (de_module d (dh_module prior_hist)) = in_so (de_module d (dh_module hist)))"

definition obsolete :: "develop_edit \<Rightarrow> dt_dev_history_entry \<Rightarrow> bool" where
  "obsolete d hist \<longleftrightarrow>
     \<not> in_hide_enable_button (de_module d (dh_module hist)) \<and> \<not> in_default_enabled (de_module d (dh_module hist))
     \<or> earlier_entry d hist"

text \<open>An end beyond the list drops nothing and comes back to the length; kept items become part of the history.\<close>

definition remove_obsolete :: "develop_edit \<Rightarrow> develop_edit" where
  "remove_obsolete d =
     (let n = nat (de_history_end d);
          kept = filter (\<lambda>h. \<not> obsolete d h) (drop n (de_history d))
      in d\<lparr>de_history := take n (de_history d) @ kept,
           de_history_end := min (de_history_end d) (int (length (de_history d))) + int (length kept)\<rparr>)"

definition new_history_item :: "bool \<Rightarrow> nat \<Rightarrow> develop_edit \<Rightarrow> dt_dev_history_entry" where
  "new_history_item include_masks m d =
     (let module = de_module d m
      in \<lparr>dh_enabled = in_enabled module, dh_op_name = g_strlcpy 20 (in_op module),
          dh_iop_order = in_iop_order module, dh_multi_priority = in_multi_priority module,
          dh_multi_name = g_strlcpy 128 (in_multi_name module), dh_num = 0,
          dh_module = m, dh_params = in_params module, dh_blend_params = in_blend_params module,
          dh_multi_name_hand_edited = in_multi_name_hand_edited module,
          dh_forms = (if include_masks then de_forms d else []), dh_focus_hash = de_focus_hash d\<rparr>)"

definition merge_history_item :: "bool \<Rightarrow> nat \<Rightarrow> develop_edit \<Rightarrow> dt_dev_history_entry \<Rightarrow> dt_dev_history_entry" where
  "merge_history_item include_masks m d hist =
     (let module = de_module d m
      in hist\<lparr>dh_params := in_params module,
          dh_blend_params := (if in_supports_blending module then in_blend_params module else dh_blend_params hist),
          dh_iop_order := in_iop_order module, dh_multi_priority := in_multi_priority module,
          dh_multi_name_hand_edited := in_multi_name_hand_edited module, dh_multi_name := in_multi_name module,
          dh_enabled := in_enabled module,
          dh_forms := (if include_masks then de_forms d else dh_forms hist)\<rparr>)"

text \<open>
  Whether a new item is pushed onto the item \<open>hist\<close> on top.  When the module pointers are equal, so are
  the instances, priorities and sizes the code compares.
\<close>

definition push_needed :: "bool \<Rightarrow> bool \<Rightarrow> nat \<Rightarrow> develop_edit \<Rightarrow> dt_dev_history_entry option \<Rightarrow> bool" where
  "push_needed new_item include_masks m d upper =
     (case upper of
        None \<Rightarrow> True
      | Some hist \<Rightarrow>
          new_item \<or> m \<noteq> dh_module hist
          \<or> in_instance (de_module d m) \<noteq> in_instance (de_module d (dh_module hist))
          \<or> in_multi_priority (de_module d m) \<noteq> in_multi_priority (de_module d (dh_module hist))
          \<or> de_focus_hash d \<noteq> dh_focus_hash hist
            \<and> (in_params_size (de_module d m) \<noteq> in_params_size (de_module d (dh_module hist))
               \<or> include_masks \<or> dh_params hist \<noteq> in_params (de_module d m)))"

definition enable_module :: "nat \<Rightarrow> bool \<Rightarrow> develop_edit \<Rightarrow> develop_edit" where
  "enable_module m no_image d =
     (let d = module_upd m (\<lambda>x. x\<lparr>in_enabled := True\<rparr>) d
      in if \<not> no_image \<and> in_has_off (de_module d m) then dev_add_effect (Set_Enable_Button m) d else d)"

definition push_history_item :: "bool \<Rightarrow> bool \<Rightarrow> nat \<Rightarrow> develop_edit \<Rightarrow> develop_edit" where
  "push_history_item no_image include_masks m d =
     (let d = d\<lparr>de_history_end := de_history_end d + 1,
                de_history := de_history d @ [new_history_item include_masks m d]\<rparr>
      in if no_image then d else pipes_changed DT_DEV_PIPE_SYNCH d)"

definition update_history_item :: "bool \<Rightarrow> bool \<Rightarrow> nat \<Rightarrow> develop_edit \<Rightarrow> develop_edit" where
  "update_history_item no_image include_masks m d =
     (let i = nat (de_history_end d - 1);
          d = d\<lparr>de_history := (de_history d)[i := merge_history_item include_masks m d (de_history d ! i)]\<rparr>
      in if no_image then d else pipes_changed DT_DEV_PIPE_TOP_CHANGED d)"

definition dev_add_history_item_ext ::
  "edit_env \<Rightarrow> nat \<Rightarrow> bool \<Rightarrow> bool \<Rightarrow> bool \<Rightarrow> bool \<Rightarrow> bool \<Rightarrow> develop_edit \<Rightarrow> develop_edit" where
  "dev_add_history_item_ext ee m enable new_item no_image include_masks auto_name_module d =
     (let d = (if auto_name_module then dev_auto_module_label ee m d else d);
          d = remove_obsolete d;
          upper = g_list_nth (de_history d) (de_history_end d - 1);
          d = (if enable then enable_module m no_image d else d);
          d = (if push_needed new_item include_masks m d upper then push_history_item no_image include_masks m d
               else update_history_item no_image include_masks m d);
          d = (if in_enabled (de_module d m) \<and> \<not> no_image then d\<lparr>de_history_last_module := Some m\<rparr> else d)
      in if de_autosaving d then dev_auto_save ee d else d)"

text \<open>Whether an undo record is started: not for the same widget again in a short time.\<close>

definition dev_undo_start_record_target :: "edit_env \<Rightarrow> nat option \<Rightarrow> develop_edit \<Rightarrow> bool \<times> develop_edit" where
  "dev_undo_start_record_target ee target d =
     (let this_time = ee_wtime ee;
          merge_time = fadd round64 (de_gui_previous_time d) (ee_merge_same_secs ee);
          review_time = fadd round64 (de_gui_previous_pipe_time d) (ee_review_secs ee);
          d = d\<lparr>de_gui_previous_pipe_time := merge_time\<rparr>
      in if target \<noteq> None \<and> target = de_gui_previous_target d \<and> this_time < MINf merge_time review_time
         then (False, d)
         else (True, (dev_add_effect Undo_Start d)\<lparr>de_gui_previous_target := target, de_gui_previous_time := this_time\<rparr>))"

definition dev_add_history_item ::
  "edit_env \<Rightarrow> nat \<Rightarrow> bool \<Rightarrow> bool \<Rightarrow> nat option \<Rightarrow> develop_edit \<Rightarrow> develop_edit" where
  "dev_add_history_item ee m enable new_item target d =
     (if ee_gui_reset ee then d
      else
        let saved_name = in_multi_name (de_module d m);
            d = dev_auto_module_label ee m d;
            multi_name_changed = (saved_name \<noteq> in_multi_name (de_module d m));
            (need_end_record, d) = dev_undo_start_record_target ee (if multi_name_changed then None else target) d;
            d = (if de_gui_attached d then dev_add_history_item_ext ee m enable new_item False False False d else d);
            d = dev_add_effect (Attach_Changed_Tag (de_imgid d)) d;
            d = dev_add_effect (Change_Timestamp (de_imgid d)) d;
            d = (if \<not> de_history_postpone_invalidate d \<or> de_gui_module d \<noteq> Some m
                 then dev_add_effect Invalidate_All d else d);
            d = (if need_end_record then dev_add_effect Undo_End d else d)
        in if de_gui_attached d
           then
             let d = (if ee_tag_attached ee then dev_add_effect Raise_Tag_Changed d else d)
             in dev_add_effect Redraw_Center d
           else d)"

definition dt_dev_add_history_item :: "edit_env \<Rightarrow> nat \<Rightarrow> bool \<Rightarrow> develop_edit \<Rightarrow> develop_edit" where
  "dt_dev_add_history_item ee m enable d = dev_add_history_item ee m enable False None d"

definition dt_dev_add_history_item_target ::
  "edit_env \<Rightarrow> nat \<Rightarrow> bool \<Rightarrow> nat option \<Rightarrow> develop_edit \<Rightarrow> develop_edit" where
  "dt_dev_add_history_item_target ee m enable target d = dev_add_history_item ee m enable False target d"

definition dt_dev_add_new_history_item :: "edit_env \<Rightarrow> nat \<Rightarrow> bool \<Rightarrow> develop_edit \<Rightarrow> develop_edit" where
  "dt_dev_add_new_history_item ee m enable d = dev_add_history_item ee m enable True None d"

definition dt_dev_add_history_item_ext :: "edit_env \<Rightarrow> nat \<Rightarrow> bool \<Rightarrow> bool \<Rightarrow> develop_edit \<Rightarrow> develop_edit" where
  "dt_dev_add_history_item_ext ee m enable no_image d = dev_add_history_item_ext ee m enable False no_image False True d"

text \<open>Without a module the edit belongs to the mask manager; if there is none, nothing happens.\<close>

definition dt_dev_add_masks_history_item_ext ::
  "edit_env \<Rightarrow> nat option \<Rightarrow> bool \<Rightarrow> bool \<Rightarrow> develop_edit \<Rightarrow> develop_edit" where
  "dt_dev_add_masks_history_item_ext ee target enable no_image d =
     (let (found, enable) =
            (case target of
               None \<Rightarrow> (find (\<lambda>m. in_op (de_module d m) = ''mask_manager'') (de_iop d), False)
             | Some m \<Rightarrow> (Some m, enable))
      in case found of
           Some m \<Rightarrow> dev_add_history_item_ext ee m enable False no_image True True d
         | None \<Rightarrow> d)"

definition dt_dev_get_history_item :: "develop_edit \<Rightarrow> string \<Rightarrow> dt_dev_history_entry option" where
  "dt_dev_get_history_item d op = find (\<lambda>item. dh_op_name item = op) (rev (de_history d))"

subsection \<open>Going to a position of the history\<close>

definition INT_MAX :: int where
  "INT_MAX = 2147483647"

definition dt_ioppr_get_iop_order :: "dt_iop_order_entry list \<Rightarrow> string \<Rightarrow> int \<Rightarrow> int" where
  "dt_ioppr_get_iop_order iop_order_list op_name multi_priority =
     (case find (\<lambda>e. oe_operation e = op_name \<and> (oe_instance e = multi_priority \<or> multi_priority = - 1)) iop_order_list of
        Some order_entry \<Rightarrow> oe_iop_order order_entry
      | None \<Rightarrow> INT_MAX)"

fun ioppr_reset_iop_order :: "int \<Rightarrow> dt_iop_order_entry list \<Rightarrow> dt_iop_order_entry list" where
  "ioppr_reset_iop_order iop_order [] = []"
| "ioppr_reset_iop_order iop_order (e # es) = e\<lparr>oe_iop_order := iop_order\<rparr> # ioppr_reset_iop_order (iop_order + 100) es"

definition dt_ioppr_resync_modules_order :: "develop_edit \<Rightarrow> develop_edit" where
  "dt_ioppr_resync_modules_order d =
     (let orders = ioppr_reset_iop_order 100 (de_iop_order_list d);
          d = d\<lparr>de_iop_order_list := orders\<rparr>;
          d = fold (\<lambda>m. module_upd m (\<lambda>x. if in_iop_order x \<noteq> INT_MAX
                then x\<lparr>in_iop_order := dt_ioppr_get_iop_order orders (in_op x) (in_multi_priority x)\<rparr> else x)) (de_iop d) d
      in d\<lparr>de_iop := sort_key (\<lambda>m. in_iop_order (de_module d m)) (de_iop d)\<rparr>)"

text \<open>The masks that other modules take from a module are not part of the model.\<close>

definition dt_iop_commit_blend_params :: "dt_develop_blend_params \<Rightarrow> dt_iop_instance \<Rightarrow> dt_iop_instance" where
  "dt_iop_commit_blend_params blendop_params x =
     x\<lparr>in_blend_params := (if bp_blend_cst blendop_params = DEVELOP_BLEND_CS_NONE
        then blendop_params\<lparr>bp_blend_cst := in_default_cst x\<rparr> else blendop_params)\<rparr>"

definition reset_module :: "dt_iop_order_entry list \<Rightarrow> dt_iop_instance \<Rightarrow> dt_iop_instance" where
  "reset_module orders x =
     (let x = x\<lparr>in_params := in_default_params x\<rparr>;
          x = dt_iop_commit_blend_params (in_default_blendop_params x) x;
          x = x\<lparr>in_enabled := in_default_enabled x\<rparr>
      in x\<lparr>in_iop_order := (if in_multi_priority x = 0
            then dt_ioppr_get_iop_order orders (in_op x) (in_multi_priority x) else INT_MAX)\<rparr>)"

definition replay_item :: "dt_dev_history_entry \<Rightarrow> dt_iop_instance \<Rightarrow> dt_iop_instance" where
  "replay_item hist x =
     (let x = x\<lparr>in_params := (if in_params_size x = 0 then in_default_params x else dh_params hist)\<rparr>;
          x = dt_iop_commit_blend_params (dh_blend_params hist) x
      in x\<lparr>in_iop_order := dh_iop_order hist, in_enabled := dh_enabled hist,
           in_multi_name := g_strlcpy 128 (dh_multi_name hist),
           in_multi_name_hand_edited := dh_multi_name_hand_edited hist\<rparr>)"

text \<open>The masks of the last item that has some.\<close>

definition replayed_forms :: "dt_dev_history_entry list \<Rightarrow> nat list" where
  "replayed_forms hs = fold (\<lambda>h forms. if dh_forms h \<noteq> [] then dh_forms h else forms) hs []"

definition reset_modules :: "develop_edit \<Rightarrow> develop_edit" where
  "reset_modules d = fold (\<lambda>m. module_upd m (reset_module (de_iop_order_list d))) (de_iop d) d"

definition replay_history :: "int \<Rightarrow> develop_edit \<Rightarrow> develop_edit" where
  "replay_history cnt d =
     fold (\<lambda>h. module_upd (dh_module h) (replay_item h)) (take (nat cnt) (de_history d)) d"

definition settle_orders :: "edit_env \<Rightarrow> develop_edit \<Rightarrow> develop_edit" where
  "settle_orders ee d =
     (let d = dt_ioppr_resync_modules_order d;
          orders = ee_duplicate_orders ee (de_module d) (de_iop d) (de_history d)
      in fold (\<lambda>m. module_upd m (\<lambda>x. x\<lparr>in_iop_order := orders m\<rparr>)) (de_iop d) d)"

text \<open>Whether an item between two positions has masks.\<close>

definition masks_between :: "int \<Rightarrow> int \<Rightarrow> dt_dev_history_entry list \<Rightarrow> bool" where
  "masks_between a b hs \<longleftrightarrow> (\<exists>h \<in> set (drop (nat (min a b)) (take (nat (max a b)) hs)). dh_forms h \<noteq> [])"

definition dt_dev_pop_history_items_ext :: "edit_env \<Rightarrow> int \<Rightarrow> develop_edit \<Rightarrow> develop_edit" where
  "dt_dev_pop_history_items_ext ee cnt d =
     (let end_prev = de_history_end d;
          d = d\<lparr>de_history_end := cnt\<rparr>;
          d = reset_modules d;
          d = replay_history cnt d;
          forms = replayed_forms (take (nat cnt) (de_history d));
          d = settle_orders ee d
      in if masks_between cnt end_prev (de_history d) then d\<lparr>de_forms := forms\<rparr> else d)"

definition dt_dev_pop_history_items :: "edit_env \<Rightarrow> int \<Rightarrow> develop_edit \<Rightarrow> develop_edit" where
  "dt_dev_pop_history_items ee cnt d =
     (let dev_iop = de_iop d;
          d = dt_dev_pop_history_items_ext ee cnt d;
          d = fold (\<lambda>m. dev_add_effect (Gui_Update m)) (de_iop d) d;
          dev_iop_changed = (map (\<lambda>m. in_iop_order (de_module d m)) (de_iop d)
                              \<noteq> map (\<lambda>m. in_iop_order (de_module d m)) dev_iop);
          d = dev_add_effect (if dev_iop_changed then Pipe_Rebuild else Pipe_Synch_All) d;
          d = dev_add_effect Invalidate_All d;
          d = dev_add_effect Masks_List_Change d
      in dev_add_effect Redraw_Center d)"

text \<open>What the collectors of the agent see of the history.\<close>

definition history_view :: "develop_state \<Rightarrow> develop_edit \<Rightarrow> develop_state" where
  "history_view dev d = dev
     \<lparr>dv_history_end := de_history_end d, dv_history := map (Some \<circ> dt_dev_history_item.truncate) (de_history d)\<rparr>"

subsection \<open>The history and the modules\<close>

text \<open>What the history up to its end says about a module.\<close>

definition last_item :: "develop_edit \<Rightarrow> nat \<Rightarrow> dt_dev_history_entry option" where
  "last_item d m = find (\<lambda>h. dh_module h = m) (rev (take (nat (de_history_end d)) (de_history d)))"

definition logged :: "develop_edit \<Rightarrow> nat \<Rightarrow> 8 word list \<times> bool" where
  "logged d m =
     (case last_item d m of
        None \<Rightarrow> (in_default_params (de_module d m), in_default_enabled (de_module d m))
      | Some h \<Rightarrow> (if in_params_size (de_module d m) = 0 then in_default_params (de_module d m) else dh_params h,
                   dh_enabled h))"

definition set_up :: "develop_edit \<Rightarrow> nat \<Rightarrow> 8 word list \<times> bool" where
  "set_up d m = (in_params (de_module d m), in_enabled (de_module d m))"

text \<open>The members of a module that no operation of the history changes.\<close>

definition fixed_view :: "dt_iop_instance \<Rightarrow> 8 word list \<times> bool" where
  "fixed_view x = (in_default_params x, in_default_enabled x)"

lemma logged_cong:
  "de_history d' = de_history d \<Longrightarrow> de_history_end d' = de_history_end d
     \<Longrightarrow> fixed_view (de_module d' m) = fixed_view (de_module d m) \<Longrightarrow> logged d' m = logged d m"
  by (simp add: logged_def last_item_def fixed_view_def in_params_size_def split: option.split)

lemma fold_modules:
  "distinct ms \<Longrightarrow> fold (\<lambda>m. module_upd m (f m)) ms d
     = d\<lparr>de_module := (\<lambda>k. if k \<in> set ms then f k (de_module d k) else de_module d k)\<rparr>"
proof (induction ms arbitrary: d)
  case (Cons m ms)
  then show ?case by (auto simp: module_upd_def fun_eq_iff intro!: develop_edit.equality)
qed simp

lemma reset_modules_result:
  assumes "distinct (de_iop d)"
  shows "reset_modules d = d\<lparr>de_module := de_module (reset_modules d)\<rparr>"
    "fixed_view (de_module (reset_modules d) m) = fixed_view (de_module d m)"
    "m \<in> set (de_iop d) \<Longrightarrow> set_up (reset_modules d) m = fixed_view (de_module d m)"
  by (simp_all add: reset_modules_def fold_modules [OF assms] reset_module_def dt_iop_commit_blend_params_def
      fixed_view_def set_up_def Let_def)

definition replayed :: "nat \<Rightarrow> dt_dev_history_entry list \<Rightarrow> dt_iop_instance \<Rightarrow> 8 word list \<times> bool" where
  "replayed m hs x =
     (case find (\<lambda>h. dh_module h = m) (rev hs) of
        None \<Rightarrow> (in_params x, in_enabled x)
      | Some h \<Rightarrow> (if in_params_size x = 0 then in_default_params x else dh_params h, dh_enabled h))"

lemma replay_items:
  "\<exists>ms. fold (\<lambda>h. module_upd (dh_module h) (replay_item h)) hs d = d\<lparr>de_module := ms\<rparr>
     \<and> (\<forall>m. fixed_view (ms m) = fixed_view (de_module d m)
       \<and> (in_params (ms m), in_enabled (ms m)) = replayed m hs (de_module d m))"
proof (induction hs rule: rev_induct)
  case Nil
  show ?case by (rule exI [of _ "de_module d"]) (simp add: replayed_def)
next
  case (snoc h hs)
  then obtain ms where ms: "fold (\<lambda>h. module_upd (dh_module h) (replay_item h)) hs d = d\<lparr>de_module := ms\<rparr>"
    "\<And>m. fixed_view (ms m) = fixed_view (de_module d m)"
    "\<And>m. (in_params (ms m), in_enabled (ms m)) =
          replayed m hs (de_module d m)" by blast
  let ?ms = "ms(dh_module h := replay_item h (ms (dh_module h)))"
  have f: "fixed_view (replay_item h x) = fixed_view x" "in_params_size (ms m) = in_params_size (de_module d m)" for x m
    using ms(2) [of m] by (simp_all add: replay_item_def dt_iop_commit_blend_params_def fixed_view_def in_params_size_def Let_def)
  have "fold (\<lambda>h. module_upd (dh_module h) (replay_item h)) (hs @ [h]) d = d\<lparr>de_module := ?ms\<rparr>"
    by (simp add: ms(1) module_upd_def)
  moreover have "fixed_view (?ms m) = fixed_view (de_module d m)" for m
    by (simp add: f ms(2))
  moreover have "(in_params (?ms m), in_enabled (?ms m)) =
          replayed m (hs @ [h]) (de_module d m)" for m
    using ms(3) [of m] f(2) [of m] ms(2) [of m]
    by (auto simp: replayed_def replay_item_def dt_iop_commit_blend_params_def Let_def fixed_view_def)
  ultimately show ?case by blast
qed

text \<open>A state with the history and modules of another, up to the order of the modules.\<close>

definition same_edit :: "develop_edit \<Rightarrow> develop_edit \<Rightarrow> bool" where
  "same_edit d d' \<longleftrightarrow> de_history d' = de_history d \<and> de_history_end d' = de_history_end d
     \<and> de_gui_attached d' = de_gui_attached d \<and> de_focus_hash d' = de_focus_hash d
     \<and> set (de_iop d') = set (de_iop d) \<and> distinct (de_iop d')
     \<and> (\<forall>m. set_up d' m = set_up d m \<and> fixed_view (de_module d' m) = fixed_view (de_module d m))"

lemma same_edit_trans: "same_edit d d' \<Longrightarrow> same_edit d' d'' \<Longrightarrow> same_edit d d''"
  by (simp add: same_edit_def)

lemma same_edit_logged: "same_edit d d' \<Longrightarrow> logged d' m = logged d m"
  by (rule logged_cong) (simp_all add: same_edit_def)

lemma resync_same_edit: "distinct (de_iop d) \<Longrightarrow> same_edit d (dt_ioppr_resync_modules_order d)"
  by (auto simp: dt_ioppr_resync_modules_order_def Let_def fold_modules same_edit_def set_up_def fixed_view_def)

lemma forms_same_edit: "distinct (de_iop d) \<Longrightarrow> same_edit d (if b then d\<lparr>de_forms := f\<rparr> else d)"
  by (simp add: same_edit_def set_up_def)

lemma settle_same_edit:
  assumes "distinct (de_iop d)" shows "same_edit d (settle_orders ee d)"
proof -
  let ?d = "dt_ioppr_resync_modules_order d"
  have s: "same_edit d ?d" by (rule resync_same_edit [OF assms])
  then have "distinct (de_iop ?d)" by (simp add: same_edit_def)
  from s fold_modules [OF this] show ?thesis
    by (auto simp: settle_orders_def Let_def same_edit_def set_up_def fixed_view_def)
qed

lemma pop_ext_replays:
  assumes "distinct (de_iop d)" and d': "d' = dt_dev_pop_history_items_ext ee cnt d"
  shows "de_history d' = de_history d \<and> de_history_end d' = cnt \<and> de_gui_attached d' = de_gui_attached d
    \<and> de_focus_hash d' = de_focus_hash d \<and> set (de_iop d') = set (de_iop d) \<and> distinct (de_iop d')
    \<and> (\<forall>m. fixed_view (de_module d' m) = fixed_view (de_module d m))
    \<and> (\<forall>m \<in> set (de_iop d). set_up d' m = logged d' m)"
proof -
  let ?d0 = "d\<lparr>de_history_end := cnt\<rparr>"
  have "distinct (de_iop ?d0)" using assms by simp
  note r = reset_modules_result [OF this]
  from r(1) obtain m1 where d1: "reset_modules ?d0 = ?d0\<lparr>de_module := m1\<rparr>" by blast
  from replay_items [of "take (nat cnt) (de_history d)" "?d0\<lparr>de_module := m1\<rparr>"]
  obtain m2 where d2: "replay_history cnt (?d0\<lparr>de_module := m1\<rparr>) = ?d0\<lparr>de_module := m2\<rparr>"
    and m2: "\<And>m. fixed_view (m2 m) = fixed_view (m1 m)"
      "\<And>m. (in_params (m2 m), in_enabled (m2 m)) = replayed m (take (nat cnt) (de_history d)) (m1 m)"
    by (auto simp: replay_history_def)
  let ?d2 = "?d0\<lparr>de_module := m2\<rparr>"
  have s: "same_edit ?d2 (settle_orders ee ?d2)" using assms by (intro settle_same_edit) simp
  have "\<exists>b f. d' = (if b then (settle_orders ee ?d2)\<lparr>de_forms := f\<rparr> else settle_orders ee ?d2)"
    unfolding d' dt_dev_pop_history_items_ext_def Let_def d1 d2 by (intro exI) (rule refl)
  then have s': "same_edit ?d2 d'"
    using same_edit_trans [OF s forms_same_edit] s by (auto simp: same_edit_def)
  have f1: "fixed_view (m1 m) = fixed_view (de_module d m)"
    "m \<in> set (de_iop d) \<Longrightarrow> (in_params (m1 m), in_enabled (m1 m)) = fixed_view (de_module d m)" for m
    using r(2,3) [of m] unfolding d1 by (simp_all add: set_up_def)
  have "set_up ?d2 m = logged ?d2 m" if "m \<in> set (de_iop d)" for m
    using m2 [of m] f1 [of m] that
    by (auto simp: replayed_def set_up_def logged_def last_item_def fixed_view_def in_params_size_def split: option.splits)
  with s' same_edit_logged [OF s'] f1(1) m2(1) show ?thesis by (simp add: same_edit_def)
qed

lemma effects_same_edit [simp]:
  "de_history (dev_add_effect e d) = de_history d" "de_history_end (dev_add_effect e d) = de_history_end d"
  "de_gui_attached (dev_add_effect e d) = de_gui_attached d" "de_focus_hash (dev_add_effect e d) = de_focus_hash d"
  "de_iop (dev_add_effect e d) = de_iop d" "de_module (dev_add_effect e d) = de_module d"
  by (simp_all add: dev_add_effect_def)

lemma fold_effects:
  "fold (\<lambda>m. dev_add_effect (f m)) ms d = d\<lparr>de_effects := de_effects d @ map f ms\<rparr>"
  by (induction ms arbitrary: d) (simp_all add: dev_add_effect_def)

lemma pop_replays:
  assumes "distinct (de_iop d)" and d': "d' = dt_dev_pop_history_items ee cnt d"
  shows "de_history d' = de_history d \<and> de_history_end d' = cnt \<and> de_gui_attached d' = de_gui_attached d
    \<and> de_focus_hash d' = de_focus_hash d \<and> set (de_iop d') = set (de_iop d) \<and> distinct (de_iop d')
    \<and> (\<forall>m. fixed_view (de_module d' m) = fixed_view (de_module d m))
    \<and> (\<forall>m \<in> set (de_iop d). set_up d' m = logged d' m)"
proof -
  let ?d = "dt_dev_pop_history_items_ext ee cnt d"
  have "\<exists>es. d' = ?d\<lparr>de_effects := es\<rparr>"
    unfolding d' dt_dev_pop_history_items_def Let_def fold_effects dev_add_effect_def
    by (rule exI) simp
  then obtain es where es: "d' = ?d\<lparr>de_effects := es\<rparr>" by blast
  have "logged d' m = logged ?d m" for m by (rule logged_cong) (simp_all add: es)
  with pop_ext_replays [OF assms(1) refl, of ee cnt] show ?thesis by (simp add: es set_up_def)
qed

subsection \<open>An edit is what the history says\<close>

text \<open>What adding an item leaves alone.\<close>

definition edit_frame :: "develop_edit \<Rightarrow> bool \<times> bool \<times> nat list" where
  "edit_frame d = (de_gui_attached d, de_focus_hash d, de_iop d)"

lemma auto_save_same:
  "de_history (dev_auto_save ee d) = de_history d" "de_history_end (dev_auto_save ee d) = de_history_end d"
  "edit_frame (dev_auto_save ee d) = edit_frame d" "de_module (dev_auto_save ee d) = de_module d"
  by (simp_all add: dev_auto_save_def edit_frame_def Let_def)

text \<open>The label touches the name of the module only.\<close>

lemma auto_label_same:
  "de_history (dev_auto_module_label ee m d) = de_history d"
  "de_history_end (dev_auto_module_label ee m d) = de_history_end d"
  "edit_frame (dev_auto_module_label ee m d) = edit_frame d"
  "\<exists>name. de_module (dev_auto_module_label ee m d)
     = (de_module d)(m := (de_module d m)\<lparr>in_multi_name := name\<rparr>)"
proof -
  show "\<exists>name. de_module (dev_auto_module_label ee m d) = (de_module d)(m := (de_module d m)\<lparr>in_multi_name := name\<rparr>)"
  proof (cases "\<not> in_hidden (de_module d m) \<and> \<not> in_multi_name_hand_edited (de_module d m) \<and> ee_auto_name ee")
    case True
    then show ?thesis by (auto simp: dev_auto_module_label_def module_upd_def Let_def)
  next
    case False
    then have "dev_auto_module_label ee m d = d" by (auto simp: dev_auto_module_label_def Let_def)
    then show ?thesis by (intro exI [of _ "in_multi_name (de_module d m)"]) simp
  qed
qed (simp_all add: dev_auto_module_label_def module_upd_def edit_frame_def Let_def)

lemma obsolete_cong:
  "de_history d' = de_history d \<Longrightarrow> de_history_end d' = de_history_end d
     \<Longrightarrow> (\<And>k. in_so (de_module d' k) = in_so (de_module d k)
           \<and> in_hide_enable_button (de_module d' k) = in_hide_enable_button (de_module d k)
           \<and> in_default_enabled (de_module d' k) = in_default_enabled (de_module d k))
     \<Longrightarrow> obsolete d' h = obsolete d h"
  by (simp add: obsolete_def earlier_entry_def)

text \<open>The undone items are all dropped.\<close>

lemma remove_all_obsolete:
  assumes "0 \<le> de_history_end d" "de_history_end d \<le> int (length (de_history d))"
    and "\<forall>h \<in> set (drop (nat (de_history_end d)) (de_history d)). obsolete d h"
  shows "remove_obsolete d = d\<lparr>de_history := take (nat (de_history_end d)) (de_history d)\<rparr>"
proof -
  have "filter (\<lambda>h. \<not> obsolete d h) (drop (nat (de_history_end d)) (de_history d)) = []"
    using assms(3) by (simp add: filter_empty_conv)
  with assms(2) show ?thesis by (simp add: remove_obsolete_def Let_def min_def)
qed

text \<open>
  The item on top after the edit, and what is below it; \<open>pushed\<close>: it is a new item.
\<close>

definition edited :: "bool \<Rightarrow> nat \<Rightarrow> develop_edit \<Rightarrow> develop_edit \<Rightarrow> bool" where
  "edited pushed m d d' \<longleftrightarrow> (\<exists>pre h. de_history d' = pre @ [h] \<and> de_history_end d' = int (length pre) + 1
     \<and> de_history_end d' = de_history_end d + of_bool pushed
     \<and> dh_module h = m \<and> (dh_params h, dh_enabled h) = set_up d' m
     \<and> (\<forall>k. k \<noteq> m \<longrightarrow> find (\<lambda>h. dh_module h = k) (rev pre) = last_item d k))"

lemma edited_logged:
  assumes "edited pushed m d d'" "fixed_view (de_module d' k) = fixed_view (de_module d k)"
  shows "k = m \<Longrightarrow> in_params_size (de_module d' m) = length (in_params (de_module d' m)) \<Longrightarrow> logged d' k = set_up d' k"
    and "k \<noteq> m \<Longrightarrow> logged d' k = logged d k"
proof -
  from assms(1) obtain pre h where h: "de_history d' = pre @ [h]" "de_history_end d' = int (length pre) + 1"
    "dh_module h = m" "(dh_params h, dh_enabled h) = set_up d' m"
    "\<And>k. k \<noteq> m \<Longrightarrow> find (\<lambda>h. dh_module h = k) (rev pre) = last_item d k"
    by (auto simp: edited_def)
  have "nat (de_history_end d') = length (pre @ [h])" using h(2) by simp
  then have l: "last_item d' k = (if m = k then Some h else find (\<lambda>h. dh_module h = k) (rev pre))"
    by (simp add: last_item_def h(1,3))
  show "k = m \<Longrightarrow> in_params_size (de_module d' m) = length (in_params (de_module d' m)) \<Longrightarrow> logged d' k = set_up d' k"
    using l h(4) by (auto simp: logged_def set_up_def in_params_size_def)
  show "k \<noteq> m \<Longrightarrow> logged d' k = logged d k"
    using l h(5) [of k] assms(2) by (simp add: logged_def fixed_view_def in_params_size_def split: option.split)
qed

text \<open>Putting the item into a history that ends at its length.\<close>

lemma push_edited:
  assumes "d' = push_history_item no_image include_masks m d" "de_history_end d = int (length (de_history d))"
  shows "edited True m d d' \<and> edit_frame d' = edit_frame d \<and> de_module d' = de_module d"
proof -
  let ?h = "new_history_item include_masks m d"
  have d': "de_history d' = de_history d @ [?h]" "de_history_end d' = int (length (de_history d)) + 1"
    "edit_frame d' = edit_frame d" "de_module d' = de_module d"
    using assms by (simp_all add: push_history_item_def pipes_changed_def edit_frame_def Let_def)
  moreover have "dh_module ?h = m" "(dh_params ?h, dh_enabled ?h) = set_up d' m"
    using d'(4) by (simp_all add: new_history_item_def set_up_def Let_def)
  moreover have "find (\<lambda>h. dh_module h = k) (rev (de_history d)) = last_item d k" for k
    using assms(2) by (simp add: last_item_def)
  moreover have "de_history_end d' = de_history_end d + of_bool True" using d'(2) assms(2) by simp
  ultimately show ?thesis unfolding edited_def by blast
qed

lemma update_edited:
  assumes "d' = update_history_item no_image include_masks m d" "de_history_end d = int (length (de_history d))"
    and "de_history d = pre @ [h]" "dh_module h = m"
  shows "edited False m d d' \<and> edit_frame d' = edit_frame d \<and> de_module d' = de_module d"
proof -
  let ?h = "merge_history_item include_masks m d h"
  have "nat (de_history_end d - 1) = length pre" using assms(2,3) by simp
  then have d': "de_history d' = pre @ [?h]" "de_history_end d' = int (length pre) + 1"
    "edit_frame d' = edit_frame d" "de_module d' = de_module d"
    using assms by (simp_all add: update_history_item_def pipes_changed_def edit_frame_def Let_def)
  moreover have "dh_module ?h = m" "(dh_params ?h, dh_enabled ?h) = set_up d' m"
    using d'(4) assms(4) by (simp_all add: merge_history_item_def set_up_def Let_def)
  moreover have "find (\<lambda>h. dh_module h = k) (rev pre) = last_item d k" if "k \<noteq> m" for k
    using assms(2,3,4) that by (simp add: last_item_def)
  moreover have "de_history_end d' = de_history_end d + of_bool False" using d'(2) assms(2,3) by simp
  ultimately show ?thesis unfolding edited_def by blast
qed

lemma put_edited:
  assumes "pushed = push_needed new_item include_masks m d (g_list_nth (de_history d) (de_history_end d - 1))"
    and "d' = (if pushed then push_history_item no_image include_masks m d else update_history_item no_image include_masks m d)"
    and "de_history_end d = int (length (de_history d))"
  shows "edited pushed m d d' \<and> edit_frame d' = edit_frame d \<and> de_module d' = de_module d"
proof (cases pushed)
  case True
  then have "d' = push_history_item no_image include_masks m d" using assms(2) by simp
  from push_edited [OF this assms(3)] True show ?thesis by simp
next
  case False
  then obtain h where h: "g_list_nth (de_history d) (de_history_end d - 1) = Some h" "dh_module h = m"
    using assms(1) by (auto simp: push_needed_def split: option.splits)
  then have "de_history d \<noteq> []" "last (de_history d) = h"
    using assms(3) by (auto simp: g_list_nth_def last_conv_nth nat_diff_distrib' split: if_splits)
  then have hist: "de_history d = butlast (de_history d) @ [h]" by (metis append_butlast_last_id)
  have "d' = update_history_item no_image include_masks m d" using assms(2) False by simp
  from update_edited [OF this assms(3) hist h(2)] False show ?thesis by simp
qed

lemma enable_same:
  "de_history (enable_module m b d) = de_history d" "de_history_end (enable_module m b d) = de_history_end d"
  "edit_frame (enable_module m b d) = edit_frame d"
  "de_module (enable_module m b d) = (de_module d)(m := (de_module d m)\<lparr>in_enabled := True\<rparr>)"
  by (simp_all add: enable_module_def module_upd_def edit_frame_def Let_def)

lemma edited_cong:
  "edited pushed m d a \<Longrightarrow> de_history b = de_history a \<Longrightarrow> de_history_end b = de_history_end a
     \<Longrightarrow> de_module b = de_module a \<Longrightarrow> edited pushed m d b"
  by (simp add: edited_def set_up_def)

lemma edited_start:
  "edited pushed m d d' \<Longrightarrow> (\<And>k. last_item d0 k = last_item d k) \<Longrightarrow> de_history_end d0 = de_history_end d
     \<Longrightarrow> edited pushed m d0 d'"
  unfolding edited_def by simp

lemma push_needed_cong:
  assumes "edit_frame d' = edit_frame d" "de_module d' = (de_module d)(m := (de_module d m)\<lparr>in_multi_name := name, in_enabled := b\<rparr>)"
  shows "push_needed new_item include_masks m d' upper = push_needed new_item include_masks m d upper"
  using assms by (simp add: push_needed_def in_params_size_def edit_frame_def split: option.split)

lemma last_item_cong:
  "de_history d' = de_history d \<Longrightarrow> de_history_end d' = de_history_end d \<Longrightarrow> last_item d' k = last_item d k"
  by (simp add: last_item_def)

text \<open>The item is put on what is left when the obsolete items are gone.\<close>

definition add_pushes :: "bool \<Rightarrow> bool \<Rightarrow> nat \<Rightarrow> develop_edit \<Rightarrow> bool" where
  "add_pushes new_item include_masks m d \<longleftrightarrow> push_needed new_item include_masks m d
     (g_list_nth (de_history (remove_obsolete d)) (de_history_end (remove_obsolete d) - 1))"

lemma add_pushes_cong:
  assumes "de_history d' = de_history d" "de_history_end d' = de_history_end d" "edit_frame d' = edit_frame d"
    and m: "de_module d' = (de_module d)(m := (de_module d m)\<lparr>in_multi_name := name, in_enabled := b\<rparr>)"
  shows "add_pushes new_item include_masks m d' = add_pushes new_item include_masks m d"
    and "de_history (remove_obsolete d') = de_history (remove_obsolete d)"
    and "de_history_end (remove_obsolete d') = de_history_end (remove_obsolete d)"
proof -
  have o: "obsolete d' h = obsolete d h" for h by (rule obsolete_cong) (simp_all add: assms)
  show r: "de_history (remove_obsolete d') = de_history (remove_obsolete d)"
    "de_history_end (remove_obsolete d') = de_history_end (remove_obsolete d)"
    by (simp_all add: remove_obsolete_def Let_def o assms(1,2))
  show "add_pushes new_item include_masks m d' = add_pushes new_item include_masks m d"
    unfolding add_pushes_def r by (rule push_needed_cong [OF assms(3) m])
qed

lemma remove_obsolete_same:
  "0 \<le> de_history_end d \<Longrightarrow> de_history_end d \<le> int (length (de_history d))
     \<Longrightarrow> de_history_end (remove_obsolete d) = int (length (de_history (remove_obsolete d)))"
  "edit_frame (remove_obsolete d) = edit_frame d" "de_module (remove_obsolete d) = de_module d"
  by (simp_all add: remove_obsolete_def edit_frame_def Let_def)

lemma add_ext_edited:
  assumes bounds: "0 \<le> de_history_end d" "de_history_end d \<le> int (length (de_history d))"
    and d': "d' = dev_add_history_item_ext ee m enable new_item no_image include_masks auto_name d"
  shows "edited (add_pushes new_item include_masks m d) m (remove_obsolete d) d' \<and> edit_frame d' = edit_frame d
    \<and> (\<exists>name. de_module d' = (de_module d)(m := (de_module d m)\<lparr>in_multi_name := name,
          in_enabled := enable \<or> in_enabled (de_module d m)\<rparr>))"
proof -
  define d1 where "d1 = (if auto_name then dev_auto_module_label ee m d else d)"
  have "\<exists>name. de_module d1 = (de_module d)(m := (de_module d m)\<lparr>in_multi_name := name\<rparr>)"
    using auto_label_same(4) [of ee m d] unfolding d1_def
    by (cases auto_name) (auto intro!: exI [of _ "in_multi_name (de_module d m)"])
  then obtain name where m1: "de_module d1 = (de_module d)(m := (de_module d m)\<lparr>in_multi_name := name\<rparr>)" by blast
  have h1: "de_history d1 = de_history d" "de_history_end d1 = de_history_end d" "edit_frame d1 = edit_frame d"
    by (simp_all add: d1_def auto_label_same)
  have "de_module d1 = (de_module d)(m := (de_module d m)\<lparr>in_multi_name := name, in_enabled := in_enabled (de_module d m)\<rparr>)"
    by (simp add: m1)
  note r = add_pushes_cong(2,3) [OF h1 this]
  define d2 where "d2 = remove_obsolete d1"
  define d3 where "d3 = (if enable then enable_module m no_image d2 else d2)"
  have h3: "de_history d3 = de_history d2" "de_history_end d3 = de_history_end d2" "edit_frame d3 = edit_frame d"
    by (simp_all add: d3_def enable_same d2_def remove_obsolete_same h1)
  have m3: "de_module d3 = (de_module d)(m := (de_module d m)\<lparr>in_multi_name := name,
      in_enabled := enable \<or> in_enabled (de_module d m)\<rparr>)"
    by (cases enable) (simp_all add: d3_def d2_def remove_obsolete_same enable_same m1)
  have pushed: "push_needed new_item include_masks m d3 (g_list_nth (de_history d2) (de_history_end d2 - 1))
      = add_pushes new_item include_masks m d"
    unfolding add_pushes_def d2_def r by (rule push_needed_cong [OF h3(3) m3])
  let ?pushed = "add_pushes new_item include_masks m d"
  define d4 where "d4 = (if ?pushed then push_history_item no_image include_masks m d3
      else update_history_item no_image include_masks m d3)"
  have d4: "edited ?pushed m d3 d4 \<and> edit_frame d4 = edit_frame d3 \<and> de_module d4 = de_module d3"
  proof (rule put_edited [OF _ d4_def])
    show "?pushed = push_needed new_item include_masks m d3 (g_list_nth (de_history d3) (de_history_end d3 - 1))"
      unfolding h3(1,2) by (rule pushed [symmetric])
    show "de_history_end d3 = int (length (de_history d3))"
      unfolding h3(1,2) d2_def using bounds by (intro remove_obsolete_same(1)) (simp_all add: h1)
  qed
  define d5 where "d5 = (if in_enabled (de_module d4 m) \<and> \<not> no_image then d4\<lparr>de_history_last_module := Some m\<rparr> else d4)"
  have h5: "de_history d5 = de_history d4" "de_history_end d5 = de_history_end d4" "edit_frame d5 = edit_frame d4"
    "de_module d5 = de_module d4" by (simp_all add: d5_def edit_frame_def)
  have "d' = (if de_autosaving d5 then dev_auto_save ee d5 else d5)"
    unfolding d' dev_add_history_item_ext_def Let_def d1_def [symmetric] d2_def [symmetric]
      d3_def [symmetric] pushed d4_def [symmetric] d5_def [symmetric] ..
  then have same: "de_history d' = de_history d4" "de_history_end d' = de_history_end d4" "edit_frame d' = edit_frame d4"
    "de_module d' = de_module d4"
    using h5 by (simp_all add: auto_save_same)
  have "edited ?pushed m d3 d'" using d4 edited_cong same(1,2,4) by blast
  then have "edited ?pushed m (remove_obsolete d) d'"
    by (rule edited_start, intro last_item_cong) (simp_all add: h3 d2_def r)
  moreover have "edit_frame d' = edit_frame d" using d4 same(3) h3(3) by simp
  moreover have "de_module d' = de_module d3" using d4 same(4) by simp
  ultimately show ?thesis unfolding m3 by blast
qed

lemma undo_record_same:
  "dev_undo_start_record_target ee target d = (b, d') \<Longrightarrow> de_history d' = de_history d
     \<and> de_history_end d' = de_history_end d \<and> edit_frame d' = edit_frame d \<and> de_module d' = de_module d"
  by (auto simp: dev_undo_start_record_target_def edit_frame_def Let_def split: if_splits)

lemma add_item_edited:
  assumes bounds: "0 \<le> de_history_end d" "de_history_end d \<le> int (length (de_history d))"
    and gui: "\<not> ee_gui_reset ee" "de_gui_attached d"
    and d': "d' = dev_add_history_item ee m enable new_item target d"
  shows "edited (add_pushes new_item False m d) m (remove_obsolete d) d' \<and> edit_frame d' = edit_frame d
    \<and> (\<exists>name. de_module d' = (de_module d)(m := (de_module d m)\<lparr>in_multi_name := name,
          in_enabled := enable \<or> in_enabled (de_module d m)\<rparr>))"
proof -
  define d1 where "d1 = dev_auto_module_label ee m d"
  obtain name where m1: "de_module d1 = (de_module d)(m := (de_module d m)\<lparr>in_multi_name := name\<rparr>)"
    using auto_label_same(4) [of ee m d] by (auto simp: d1_def)
  obtain b d2 where u: "dev_undo_start_record_target ee (if in_multi_name (de_module d m) \<noteq> in_multi_name (de_module d1 m)
      then None else target) d1 = (b, d2)" by force
  have h2: "de_history d2 = de_history d" "de_history_end d2 = de_history_end d" "edit_frame d2 = edit_frame d"
    "de_module d2 = (de_module d)(m := (de_module d m)\<lparr>in_multi_name := name\<rparr>)"
    using undo_record_same [OF u] m1 by (simp_all add: d1_def auto_label_same)
  then have "de_module d2 = (de_module d)(m := (de_module d m)\<lparr>in_multi_name := name, in_enabled := in_enabled (de_module d m)\<rparr>)"
    by simp
  note r = add_pushes_cong [OF h2(1-3) this]
  define d3 where "d3 = dev_add_history_item_ext ee m enable new_item False False False d2"
  from add_ext_edited [of d2, OF _ _ d3_def] bounds
  have d3: "edited (add_pushes new_item False m d) m (remove_obsolete d2) d3" "edit_frame d3 = edit_frame d2"
    "\<exists>name. de_module d3 = (de_module d2)(m := (de_module d2 m)\<lparr>in_multi_name := name,
          in_enabled := enable \<or> in_enabled (de_module d2 m)\<rparr>)" by (simp_all add: h2(1,2) r(1))
  have "de_gui_attached d2" "de_gui_attached d3" using d3(2) h2(3) gui(2) by (simp_all add: edit_frame_def)
  then have same: "de_history d' = de_history d3" "de_history_end d' = de_history_end d3" "de_module d' = de_module d3"
    "edit_frame d' = edit_frame d3"
    unfolding d' dev_add_history_item_def Let_def d1_def [symmetric]
    by (simp_all add: u gui(1) d3_def [symmetric] edit_frame_def)
  have "edited (add_pushes new_item False m d) m (remove_obsolete d2) d'" using d3(1) edited_cong same(1,2,3) by blast
  then have "edited (add_pushes new_item False m d) m (remove_obsolete d) d'"
    by (rule edited_start, intro last_item_cong) (simp_all add: r)
  moreover have "edit_frame d' = edit_frame d" using d3(2) h2(3) same(4) by simp
  moreover have "de_module d' = de_module d3" by (rule same(3))
  moreover obtain name' where "de_module d3 = (de_module d2)(m := (de_module d2 m)\<lparr>in_multi_name := name',
          in_enabled := enable \<or> in_enabled (de_module d2 m)\<rparr>)" using d3(3) by blast
  then have "de_module d3 = (de_module d)(m := (de_module d m)\<lparr>in_multi_name := name',
          in_enabled := enable \<or> in_enabled (de_module d m)\<rparr>)" by (simp add: h2(4))
  ultimately show ?thesis by auto
qed

text \<open>When nothing undone is kept, the item is put on the history as it was up to its end.\<close>

lemma edited_gone:
  assumes "0 \<le> de_history_end d" "de_history_end d \<le> int (length (de_history d))"
    and "\<forall>h \<in> set (drop (nat (de_history_end d)) (de_history d)). obsolete d h"
    and "edited pushed m (remove_obsolete d) d'"
  shows "edited pushed m d d'"
proof (rule edited_start [OF assms(4)])
  show "last_item d k = last_item (remove_obsolete d) k" "de_history_end d = de_history_end (remove_obsolete d)" for k
    unfolding remove_all_obsolete [OF assms(1-3)] by (simp_all add: last_item_def)
qed

subsection \<open>Runs of edits\<close>

text \<open>
  An edit changes the parameters and the switch of a module and adds it to the history; the other step
  goes to a position of the history.  Edits at a place where an undone item would be kept are left out:
  \<open>kept_item_returns\<close> below says what happens there.
\<close>

definition change_module :: "nat \<Rightarrow> 8 word list \<Rightarrow> bool \<Rightarrow> develop_edit \<Rightarrow> develop_edit" where
  "change_module m p b = module_upd m (\<lambda>x. x\<lparr>in_params := p, in_enabled := b\<rparr>)"

inductive edit_step :: "develop_edit \<Rightarrow> develop_edit \<Rightarrow> bool" where
  edit: "m \<in> set (de_iop d) \<Longrightarrow> length p = in_params_size (de_module d m) \<Longrightarrow> \<not> ee_gui_reset ee
     \<Longrightarrow> \<forall>h \<in> set (drop (nat (de_history_end d)) (de_history d)). obsolete d h
     \<Longrightarrow> edit_step d (dev_add_history_item ee m enable new_item target (change_module m p b d))"
| travel: "0 \<le> cnt \<Longrightarrow> cnt \<le> int (length (de_history d)) \<Longrightarrow> edit_step d (dt_dev_pop_history_items ee cnt d)"

text \<open>The darkroom after an image was loaded: it has gone to a position of the history that was read.\<close>

definition edit_init :: "develop_edit \<Rightarrow> bool" where
  "edit_init d \<longleftrightarrow> (\<exists>ee cnt d0. d = dt_dev_pop_history_items ee cnt d0 \<and> 0 \<le> cnt
     \<and> cnt \<le> int (length (de_history d0)) \<and> distinct (de_iop d0) \<and> de_gui_attached d0)"

definition edit_inv :: "develop_edit \<Rightarrow> bool" where
  "edit_inv d \<longleftrightarrow> 0 \<le> de_history_end d \<and> de_history_end d \<le> int (length (de_history d)) \<and> distinct (de_iop d)
     \<and> de_gui_attached d \<and> (\<forall>m \<in> set (de_iop d). set_up d m = logged d m)"

lemma pop_inv:
  assumes "distinct (de_iop d)" "de_gui_attached d" "0 \<le> cnt" "cnt \<le> int (length (de_history d))"
  shows "edit_inv (dt_dev_pop_history_items ee cnt d)"
  using pop_replays [OF assms(1) refl, of ee cnt] assms by (simp add: edit_inv_def)

lemma edit_step_inv: "edit_step d d' \<Longrightarrow> edit_inv d \<Longrightarrow> edit_inv d'"
proof (induction rule: edit_step.induct)
  case (travel cnt d ee)
  then show ?case by (intro pop_inv) (simp_all add: edit_inv_def)
next
  case (edit m d p ee enable new_item target b)
  let ?d = "change_module m p b d" and ?d' = "dev_add_history_item ee m enable new_item target (change_module m p b d)"
  have c: "de_history ?d = de_history d" "de_history_end ?d = de_history_end d" "edit_frame ?d = edit_frame d"
    "de_module ?d = (de_module d)(m := (de_module d m)\<lparr>in_params := p, in_enabled := b\<rparr>)"
    by (simp_all add: change_module_def module_upd_def edit_frame_def)
  have "obsolete ?d h = obsolete d h" for h by (rule obsolete_cong) (simp_all add: c)
  then have gone: "\<forall>h \<in> set (drop (nat (de_history_end ?d)) (de_history ?d)). obsolete ?d h" using edit(4) by (simp add: c)
  have b: "0 \<le> de_history_end ?d" "de_history_end ?d \<le> int (length (de_history ?d))" "de_gui_attached ?d"
    using edit.prems c by (simp_all add: edit_inv_def edit_frame_def)
  let ?pushed = "add_pushes new_item False m ?d"
  note e0 = add_item_edited [OF b(1,2) edit(3) b(3) refl, of new_item m enable target]
  have e: "edited ?pushed m ?d ?d'" using e0 by (intro edited_gone [OF b(1,2) gone]) blast
  from e0 have "edit_frame ?d' = edit_frame d"
    "\<exists>name. de_module ?d' = (de_module ?d)(m := (de_module ?d m)\<lparr>in_multi_name := name,
          in_enabled := enable \<or> in_enabled (de_module ?d m)\<rparr>)" unfolding c(3) by blast+
  note e = e this
  from e(3) obtain name where m: "de_module ?d' = (de_module ?d)(m := (de_module ?d m)\<lparr>in_multi_name := name,
          in_enabled := enable \<or> in_enabled (de_module ?d m)\<rparr>)" by blast
  have f: "fixed_view (de_module ?d' k) = fixed_view (de_module ?d k)" "fixed_view (de_module ?d k) = fixed_view (de_module d k)" for k
    by (simp_all add: m c(4) fixed_view_def)
  have "set_up ?d' k = logged ?d' k" if "k \<in> set (de_iop d)" for k
  proof (cases "k = m")
    case True
    have "in_params_size (de_module ?d' m) = length (in_params (de_module ?d' m))"
      using edit(2) by (simp add: m c(4) in_params_size_def)
    with edited_logged(1) [OF e(1) f(1)] True show ?thesis by simp
  next
    case False
    have "logged ?d' k = logged d k"
      using edited_logged(2) [OF e(1) f(1) False] logged_cong [OF c(1,2) f(2)] by simp
    moreover have "set_up ?d' k = set_up d k" using False by (simp add: set_up_def m c(4))
    ultimately show ?thesis using edit that by (simp add: edit_inv_def)
  qed
  moreover obtain pre h where "de_history ?d' = pre @ [h]" "de_history_end ?d' = int (length pre) + 1"
    using e(1) by (auto simp: edited_def)
  ultimately show ?case using edit e(2) by (simp add: edit_inv_def edit_frame_def)
qed

interpretation editing: step_system edit_init edit_step edit_inv
  by unfold_locales (auto simp: edit_init_def intro: pop_inv edit_step_inv)

text \<open>
  C21: The history is what was done.  In every run of edits and of steps back and forth in which no edit
  is made while an undone item would be kept (that of an always-on module without an earlier item;
  \<open>kept_item_returns\<close> shows what happens then), going to any position of the history and then to
  where one was gives every module the parameters and the switch it had, with the same history; the end
  stays within the history.
\<close>

theorem history_replays:
  assumes "edit_init d0" "edit_step\<^sup>*\<^sup>* d0 d" "0 \<le> cnt" "cnt \<le> int (length (de_history d))"
    and "d' = dt_dev_pop_history_items ee' (de_history_end d) (dt_dev_pop_history_items ee cnt d)"
    and "m \<in> set (de_iop d)"
  shows "in_params (de_module d' m) = in_params (de_module d m) \<and> in_enabled (de_module d' m) = in_enabled (de_module d m)
    \<and> de_history d' = de_history d \<and> de_history_end d' = de_history_end d
    \<and> 0 \<le> de_history_end d \<and> de_history_end d \<le> int (length (de_history d))"
proof -
  have inv: "edit_inv d" by (rule editing.inv_reachable [OF assms(1,2)])
  let ?d1 = "dt_dev_pop_history_items ee cnt d"
  have "distinct (de_iop d)" using inv by (simp add: edit_inv_def)
  note p1 = pop_replays [OF this refl, of ee cnt]
  then have "distinct (de_iop ?d1)" by blast
  note p2 = pop_replays [OF this assms(5)]
  have h: "de_history d' = de_history d" "de_history_end d' = de_history_end d"
    "fixed_view (de_module d' m) = fixed_view (de_module d m)" using p1 p2 by simp_all
  have "set_up d' m = logged d' m" using p1 p2 assms(6) by blast
  also have "\<dots> = logged d m" by (rule logged_cong [OF h])
  also have "\<dots> = set_up d m" using inv assms(6) by (simp add: edit_inv_def)
  finally show ?thesis using h inv by (simp add: set_up_def edit_inv_def)
qed

text \<open>A darkroom with two modules and the item of the first in its history.\<close>

definition sample_instance :: "nat \<Rightarrow> dt_iop_instance" where
  "sample_instance m = \<lparr>in_so = m, in_op = ''module'' @ show_nat m, in_instance = 0, in_multi_priority = 0,
     in_multi_name = [], in_multi_name_hand_edited = False, in_iop_order = int m, in_enabled = False,
     in_default_enabled = False, in_hide_enable_button = False, in_hidden = False, in_supports_blending = True,
     in_has_off = True, in_params = [0], in_default_params = [0],
     in_blend_params = \<lparr>bp_blend_cst = 1, bp_bytes = []\<rparr>, in_default_blendop_params = \<lparr>bp_blend_cst = 0, bp_bytes = []\<rparr>,
     in_default_cst = 2\<rparr>"

definition sample_entry :: "nat \<Rightarrow> 8 word list \<Rightarrow> dt_dev_history_entry" where
  "sample_entry m p = \<lparr>dh_enabled = True, dh_op_name = ''module'' @ show_nat m, dh_iop_order = 100 * int m + 100,
     dh_multi_priority = 0, dh_multi_name = [], dh_num = 0, dh_module = m, dh_params = p,
     dh_blend_params = \<lparr>bp_blend_cst = 1, bp_bytes = []\<rparr>, dh_multi_name_hand_edited = False, dh_forms = [],
     dh_focus_hash = True\<rparr>"

definition sample_edit :: develop_edit where
  "sample_edit = \<lparr>de_gui_attached = True, de_gui_previous_target = None, de_gui_previous_time = Fin 0,
     de_gui_previous_pipe_time = Fin 0, de_focus_hash = True, de_autosaving = False, de_autosave_time = Fin 0,
     de_gui_module = None, de_imgid = 42, de_requested_id = 42, de_full_loading = False, de_history_end = 1,
     de_history = [sample_entry 0 [7]], de_history_postpone_invalidate = False, de_history_last_module = None,
     de_module = sample_instance, de_iop = [0, 1],
     de_iop_order_list = [\<lparr>oe_iop_order = 100, oe_operation = ''module0'', oe_instance = 0\<rparr>,
       \<lparr>oe_iop_order = 200, oe_operation = ''module1'', oe_instance = 0\<rparr>],
     de_forms = [], de_full_changed = 0, de_preview_changed = 0, de_preview2_changed = 0, de_effects = []\<rparr>"

definition sample_edit_env :: edit_env where
  "sample_edit_env = \<lparr>ee_gui_reset = False, ee_auto_name = False, ee_preset_label = (\<lambda>x b. None), ee_wtime = Fin 1,
     ee_wtime_saved = Fin 1, ee_autosave_interval = 0, ee_merge_same_secs = Fin 0, ee_review_secs = Fin 0,
     ee_tag_attached = False, ee_duplicate_orders = (\<lambda>ms iop hs m. in_iop_order (ms m))\<rparr>"

definition loaded_edit :: develop_edit where
  "loaded_edit = dt_dev_pop_history_items sample_edit_env 1 sample_edit"

definition changed_edit :: develop_edit where
  "changed_edit = dt_dev_add_history_item sample_edit_env 1 True (change_module 1 [9] False loaded_edit)"

lemma loaded_edit_init: "edit_init loaded_edit"
  unfolding edit_init_def loaded_edit_def
  by (intro exI [of _ sample_edit_env] exI [of _ 1] exI [of _ sample_edit]) (simp add: sample_edit_def)

lemma loaded_edit_facts:
  "de_history loaded_edit = [sample_entry 0 [7]]" "de_history_end loaded_edit = 1" "set (de_iop loaded_edit) = {0, 1}"
  "fixed_view (de_module loaded_edit m) = ([0], False)"
proof -
  have "distinct (de_iop sample_edit)" by (simp add: sample_edit_def)
  from pop_replays [OF this loaded_edit_def]
  show "de_history loaded_edit = [sample_entry 0 [7]]" "de_history_end loaded_edit = 1" "set (de_iop loaded_edit) = {0, 1}"
    "fixed_view (de_module loaded_edit m) = ([0], False)"
    by (simp_all add: sample_edit_def fixed_view_def sample_instance_def)
qed

lemma changed_edit_run: "edit_step\<^sup>*\<^sup>* loaded_edit changed_edit"
  unfolding changed_edit_def dt_dev_add_history_item_def
  using loaded_edit_facts(4) [of 1]
  by (intro r_into_rtranclp edit) (simp_all add: loaded_edit_facts in_params_size_def fixed_view_def sample_edit_env_def)

theorem history_replays_witness:
  "\<exists>d'. d' = dt_dev_pop_history_items sample_edit_env (de_history_end changed_edit)
        (dt_dev_pop_history_items sample_edit_env 0 changed_edit)
     \<and> in_params (de_module d' 1) = in_params (de_module changed_edit 1) \<and> de_history d' = de_history changed_edit"
proof -
  have inv: "edit_inv loaded_edit" by (rule editing.inv_reachable [OF loaded_edit_init rtranclp.rtrancl_refl])
  let ?d = "change_module 1 [9] False loaded_edit"
  have "edit_frame changed_edit = edit_frame ?d"
    unfolding changed_edit_def dt_dev_add_history_item_def
    using add_item_edited [of ?d sample_edit_env, OF _ _ _ _ refl] inv
    by (simp add: change_module_def module_upd_def edit_inv_def sample_edit_env_def)
  then have "1 \<in> set (de_iop changed_edit)"
    by (simp add: edit_frame_def change_module_def module_upd_def loaded_edit_facts)
  from history_replays [OF loaded_edit_init changed_edit_run _ _ refl this, of 0 sample_edit_env sample_edit_env]
  show ?thesis by simp
qed

text \<open>
  An undone item of a module that is always on and has no earlier item is kept when another module is
  edited: the history then says again what was undone, but the module still has its defaults.
\<close>

lemma kept_item_returns:
  assumes inv: "edit_inv d" and gui: "\<not> ee_gui_reset ee" and k: "k \<in> set (de_iop d)" "k \<noteq> m"
    and none: "\<forall>x \<in> set (take (nat (de_history_end d)) (de_history d)). dh_module x \<noteq> k"
    and kept: "drop (nat (de_history_end d)) (de_history d) = [h]" "\<not> obsolete d h" "dh_module h = k"
    and d': "d' = dev_add_history_item ee m enable new_item target d"
  shows "set_up d' k = (in_default_params (de_module d k), in_default_enabled (de_module d k))"
    and "in_params_size (de_module d k) \<noteq> 0 \<Longrightarrow> logged d' k = (dh_params h, dh_enabled h)"
proof -
  have bounds: "0 \<le> de_history_end d" "de_history_end d \<le> int (length (de_history d))" "de_gui_attached d"
    using inv by (simp_all add: edit_inv_def)
  note e = add_item_edited [OF bounds(1,2) gui bounds(3) d']
  have "last_item d k = None" using none by (simp add: last_item_def find_None_iff)
  then have "set_up d k = (in_default_params (de_module d k), in_default_enabled (de_module d k))"
    using inv k(1) by (simp add: edit_inv_def logged_def)
  with e k(2) show "set_up d' k = (in_default_params (de_module d k), in_default_enabled (de_module d k))"
    by (auto simp: set_up_def)
  have r: "de_history (remove_obsolete d) = take (nat (de_history_end d)) (de_history d) @ [h]"
    using kept(1,2) by (simp add: remove_obsolete_def Let_def)
  then have "last_item (remove_obsolete d) k = Some h"
    using remove_obsolete_same(1) [OF bounds(1,2)] kept(3) by (simp add: last_item_def)
  then have "logged (remove_obsolete d) k = (dh_params h, dh_enabled h)" if "in_params_size (de_module d k) \<noteq> 0"
    using that by (simp add: logged_def remove_obsolete_same)
  moreover have "fixed_view (de_module d' k) = fixed_view (de_module (remove_obsolete d) k)"
    using e k(2) by (auto simp: remove_obsolete_same)
  with e k(2) have "logged d' k = logged (remove_obsolete d) k" by (intro edited_logged(2)) blast+
  ultimately show "in_params_size (de_module d k) \<noteq> 0 \<Longrightarrow> logged d' k = (dh_params h, dh_enabled h)" by simp
qed

end
