(* ===== verification/Chat_Revision.thy ===== *)
theory Chat_Revision
  imports Chat_Safety Edit_History
begin

text \<open>
  What the revision of an image can and cannot tell: the chat window compares the position and the
  length of the edit history only, so two kinds of edits do not change it.
\<close>

text \<open>The darkroom that the window sees has the image \<open>imgid\<close> and the history of \<open>d\<close>.\<close>

definition shows_history :: "chat_env \<Rightarrow> chat_world \<Rightarrow> int \<Rightarrow> develop_edit \<Rightarrow> bool" where
  "shows_history cx w imgid d \<longleftrightarrow>
     (\<exists>dev. cx_develop cx (cw_world w) = history_view dev d \<and> im_id (dv_image_storage dev) = imgid)"

lemma shown_revision_history:
  "shows_history cx w imgid d \<Longrightarrow> collect_current_image_revision_id cx w
    = Some (format_image_revision_id (0 < imgid) (if 0 < imgid then imgid else NO_IMGID)
        (de_history_end d) (int (length (de_history d))))"
  by (auto simp: shows_history_def revision_id_Some history_view_def chat_current_image_id_def NO_IMGID_def)

lemma same_revision:
  assumes "shows_history cx w imgid d" "shows_history cx w' imgid d'"
    and "de_history_end d' = de_history_end d" "length (de_history d') = length (de_history d)"
  shows "collect_current_image_revision_id cx w' = collect_current_image_revision_id cx w"
  by (simp add: shown_revision_history [OF assms(1)] shown_revision_history [OF assms(2)] assms(3,4))

lemma change_module_same:
  "de_history (change_module m p b d) = de_history d" "de_history_end (change_module m p b d) = de_history_end d"
  "edit_frame (change_module m p b d) = edit_frame d"
  "de_module (change_module m p b d) = (de_module d)(m := (de_module d m)\<lparr>in_params := p, in_enabled := b\<rparr>)"
  by (simp_all add: change_module_def module_upd_def edit_frame_def)

text \<open>The effect of an edit on the history, when nothing undone is kept.\<close>

lemma edit_effect:
  assumes "edit_inv d" "\<not> ee_gui_reset ee"
    and "\<forall>h \<in> set (drop (nat (de_history_end d)) (de_history d)). obsolete d h"
    and d': "d' = dt_dev_add_history_item ee m enable (change_module m p b d)"
  shows "\<exists>pre h. de_history d' = pre @ [h] \<and> dh_module h = m \<and> dh_params h = p
      \<and> de_history_end d' = int (length (de_history d'))
      \<and> de_history_end d' = de_history_end d + of_bool (push_needed False False m (change_module m p b d)
          (g_list_nth (take (nat (de_history_end d)) (de_history d)) (de_history_end d - 1)))"
proof -
  let ?d = "change_module m p b d"
  have inv: "0 \<le> de_history_end ?d" "de_history_end ?d \<le> int (length (de_history ?d))" "de_gui_attached ?d"
    using assms(1) change_module_same(3) [of m p b d] by (simp_all add: edit_inv_def edit_frame_def change_module_same)
  have "obsolete ?d h = obsolete d h" for h by (rule obsolete_cong) (simp_all add: change_module_same)
  then have gone: "\<forall>h \<in> set (drop (nat (de_history_end ?d)) (de_history ?d)). obsolete ?d h"
    using assms(3) by (simp add: change_module_same)
  note e = add_item_edited [OF inv(1,2) assms(2) inv(3) d' [unfolded dt_dev_add_history_item_def]]
  have "edited (add_pushes False False m ?d) m ?d d'" using e by (intro edited_gone [OF inv(1,2) gone]) blast
  moreover have "add_pushes False False m ?d = push_needed False False m ?d
      (g_list_nth (take (nat (de_history_end d)) (de_history d)) (de_history_end d - 1))"
    unfolding add_pushes_def remove_all_obsolete [OF inv(1,2) gone] by (simp add: change_module_same)
  moreover have "in_params (de_module d' m) = p" using e by (auto simp: change_module_same)
  ultimately show ?thesis by (auto simp: edited_def set_up_def change_module_same)
qed

text \<open>
  C20: The revision does not see that the item on top changes.  When the module on top of the history
  is edited again in the same focus, the edit is merged into its item: the parameters in the history are
  new, but the revision that the chat window compares is the old one.
\<close>

theorem merged_edit_keeps_revision:
  assumes "edit_init d0" "edit_step\<^sup>*\<^sup>* d0 d" "de_history_end d = int (length (de_history d))"
    and "de_history d = pre @ [h]" "dh_module h = m" "dh_focus_hash h = de_focus_hash d" "\<not> ee_gui_reset ee"
    and "d' = dt_dev_add_history_item ee m enable (change_module m p b d)"
    and "shows_history cx w imgid d" "shows_history cx w' imgid d'"
  shows "collect_current_image_revision_id cx w' = collect_current_image_revision_id cx w
    \<and> length (de_history d') = length (de_history d) \<and> dh_params (last (de_history d')) = p"
proof -
  have inv: "edit_inv d" by (rule editing.inv_reachable [OF assms(1,2)])
  have "drop (nat (de_history_end d)) (de_history d) = []" using assms(3) by simp
  then have gone: "\<forall>h \<in> set (drop (nat (de_history_end d)) (de_history d)). obsolete d h" by simp
  have "nat (de_history_end d - 1) = length pre" using assms(3,4) by simp
  then have nth: "g_list_nth (take (nat (de_history_end d)) (de_history d)) (de_history_end d - 1) = Some h"
    using assms(3,4) by (simp add: g_list_nth_def)
  have "\<not> push_needed False False m (change_module m p b d) (Some h)"
    using assms(5,6) change_module_same(3) [of m p b d] by (simp add: push_needed_def edit_frame_def)
  with edit_effect [OF inv assms(7) gone assms(8)] nth
  have "length (de_history d') = length (de_history d) \<and> de_history_end d' = de_history_end d
      \<and> dh_params (last (de_history d')) = p"
    using assms(3) by auto
  with same_revision [OF assms(9,10)] show ?thesis by simp
qed

text \<open>
  C19: A revision comes back.  The user undoes the last edit, at the end of the history, and edits
  another module than the one whose item is then on top.  If the undone item is one that a new edit
  drops (its module can be switched off by the user and is off by default, or has an earlier item), the
  image has the revision it had before, although its history ends with another edit.
\<close>

theorem revision_reused_after_undo:
  assumes "edit_init d0" "edit_step\<^sup>*\<^sup>* d0 d" "de_history_end d = int (length (de_history d))"
    and "de_history d = pre @ [h]" "d1 = dt_dev_pop_history_items ee (int (length pre)) d" "obsolete d1 h"
    and "pre = [] \<or> dh_module (last pre) \<noteq> m" "\<not> ee_gui_reset ee'"
    and "d' = dt_dev_add_history_item ee' m enable (change_module m p b d1)"
    and "shows_history cx w imgid d" "shows_history cx w' imgid d'"
  shows "collect_current_image_revision_id cx w' = collect_current_image_revision_id cx w
    \<and> dh_module (last (de_history d')) = m \<and> dh_params (last (de_history d')) = p"
proof -
  have inv: "edit_inv d" by (rule editing.inv_reachable [OF assms(1,2)])
  have undone: "edit_step d d1" unfolding assms(5) using assms(4) by (intro travel) simp_all
  have inv1: "edit_inv d1" by (rule edit_step_inv [OF undone inv])
  have "distinct (de_iop d)" using inv by (simp add: edit_inv_def)
  from pop_replays [OF this assms(5)] have h1: "de_history d1 = pre @ [h]" "de_history_end d1 = int (length pre)"
    using assms(4) by simp_all
  then have gone: "\<forall>h \<in> set (drop (nat (de_history_end d1)) (de_history d1)). obsolete d1 h" using assms(6) by simp
  have nth: "g_list_nth (take (nat (de_history_end d1)) (de_history d1)) (de_history_end d1 - 1)
      = (if pre = [] then None else Some (last pre))"
    by (auto simp: h1 g_list_nth_def last_conv_nth nat_diff_distrib')
  have "push_needed False False m (change_module m p b d1) (if pre = [] then None else Some (last pre))"
    using assms(7) by (auto simp: push_needed_def)
  with edit_effect [OF inv1 assms(8) gone assms(9)] nth
  have "length (de_history d') = length (de_history d) \<and> de_history_end d' = de_history_end d
      \<and> dh_module (last (de_history d')) = m \<and> dh_params (last (de_history d')) = p"
    using assms(3,4) h1 by auto
  with same_revision [OF assms(10,11)] show ?thesis by simp
qed

text \<open>A darkroom with two items of the same module, as it is seen before and after an edit.\<close>

definition edited_twice :: develop_edit where
  "edited_twice = dt_dev_pop_history_items sample_edit_env 2
     (sample_edit\<lparr>de_history := [sample_entry 0 [7], sample_entry 0 [8]]\<rparr>)"

definition two_views :: "develop_edit \<Rightarrow> develop_edit \<Rightarrow> chat_env" where
  "two_views d d' = sample_chat_env
     \<lparr>cx_develop := (\<lambda>wl. history_view sample_develop (if wd_zoom_step wl then d' else d))\<rparr>"

definition seen_world :: "bool \<Rightarrow> chat_world" where
  "seen_world b = sample_chat_world\<lparr>cw_world := (levels_world True)\<lparr>wd_zoom_step := b\<rparr>\<rparr>"

lemma two_views_show:
  "shows_history (two_views d d') (seen_world False) 42 d" "shows_history (two_views d d') (seen_world True) 42 d'"
  unfolding shows_history_def two_views_def seen_world_def
  by (rule exI [of _ sample_develop], simp add: sample_develop_def)+

lemma edited_twice_init: "edit_init edited_twice"
  unfolding edit_init_def edited_twice_def
  by (intro exI [of _ sample_edit_env] exI [of _ 2]
      exI [of _ "sample_edit\<lparr>de_history := [sample_entry 0 [7], sample_entry 0 [8]]\<rparr>"]) (simp add: sample_edit_def)

lemma edited_twice_facts:
  "de_history edited_twice = [sample_entry 0 [7]] @ [sample_entry 0 [8]]"
  "de_history_end edited_twice = int (length (de_history edited_twice))" "de_focus_hash edited_twice"
  "distinct (de_iop edited_twice)"
proof -
  have "distinct (de_iop (sample_edit\<lparr>de_history := [sample_entry 0 [7], sample_entry 0 [8]]\<rparr>))" by (simp add: sample_edit_def)
  from pop_replays [OF this edited_twice_def]
  show "de_history edited_twice = [sample_entry 0 [7]] @ [sample_entry 0 [8]]"
    "de_history_end edited_twice = int (length (de_history edited_twice))" "de_focus_hash edited_twice"
    "distinct (de_iop edited_twice)"
    by (simp_all add: sample_edit_def)
qed

lemma sample_entry_simps [simp]: "dh_module (sample_entry m p) = m" "dh_focus_hash (sample_entry m p)"
  by (simp_all add: sample_entry_def)

theorem merged_edit_keeps_revision_witness:
  "\<exists>d'. collect_current_image_revision_id (two_views edited_twice d') (seen_world True)
       = collect_current_image_revision_id (two_views edited_twice d') (seen_world False)
     \<and> dh_params (last (de_history d')) = [9]"
proof -
  let ?d' = "dt_dev_add_history_item sample_edit_env 0 True (change_module 0 [9] True edited_twice)"
  have reset: "\<not> ee_gui_reset sample_edit_env" by (simp add: sample_edit_env_def)
  have focus: "dh_focus_hash (sample_entry 0 [8]) = de_focus_hash edited_twice" by (simp add: edited_twice_facts)
  from merged_edit_keeps_revision [OF edited_twice_init rtranclp.rtrancl_refl edited_twice_facts(2,1) _ focus reset refl
      two_views_show [of edited_twice ?d']]
  show ?thesis by (intro exI [of _ ?d']) simp
qed

theorem revision_reused_after_undo_witness:
  "\<exists>d'. collect_current_image_revision_id (two_views edited_twice d') (seen_world True)
       = collect_current_image_revision_id (two_views edited_twice d') (seen_world False)
     \<and> dh_module (last (de_history d')) = 1"
proof -
  define d1 where "d1 = dt_dev_pop_history_items sample_edit_env (int (length [sample_entry 0 [7]])) edited_twice"
  let ?d' = "dt_dev_add_history_item sample_edit_env 1 True (change_module 1 [9] True d1)"
  have reset: "\<not> ee_gui_reset sample_edit_env" by (simp add: sample_edit_env_def)
  from pop_replays [OF edited_twice_facts(4) d1_def]
  have "de_history d1 = [sample_entry 0 [7], sample_entry 0 [8]]" "de_history_end d1 = 1"
    by (simp_all add: edited_twice_facts(1))
  then have gone: "obsolete d1 (sample_entry 0 [8])" by (simp add: obsolete_def earlier_entry_def)
  from revision_reused_after_undo [OF edited_twice_init rtranclp.rtrancl_refl edited_twice_facts(2,1) d1_def gone _ reset refl
      two_views_show [of edited_twice ?d']]
  show ?thesis by (intro exI [of _ ?d']) simp
qed

end
