(* ===== verification/Undo.thy ===== *)
theory Undo
  imports Floats Step_System "HOL-Library.Word" "HOL-Library.Multiset"
begin

unbundle bit_operations_syntax

text \<open>
  The undo and redo lists of \<open>common/undo.c\<close>: recording, groups, undoing and redoing, clearing and
  iterating.  \<open>self\<close> is not NULL and the recursive mutex makes every operation atomic, so that the
  operations are functions on the state; what the callbacks of the items do, to the lists too, is an argument.
\<close>

subsection \<open>The state\<close>

definition DT_UNDO_NONE :: "32 word" where "DT_UNDO_NONE = 0"
definition DT_UNDO_GEOTAG :: "32 word" where "DT_UNDO_GEOTAG = push_bit 0 1"
definition DT_UNDO_HISTORY :: "32 word" where "DT_UNDO_HISTORY = push_bit 1 1"
definition DT_UNDO_MASK :: "32 word" where "DT_UNDO_MASK = push_bit 2 1"
definition DT_UNDO_RATINGS :: "32 word" where "DT_UNDO_RATINGS = push_bit 3 1"
definition DT_UNDO_COLORLABELS :: "32 word" where "DT_UNDO_COLORLABELS = push_bit 4 1"
definition DT_UNDO_TAGS :: "32 word" where "DT_UNDO_TAGS = push_bit 5 1"
definition DT_UNDO_METADATA :: "32 word" where "DT_UNDO_METADATA = push_bit 6 1"
definition DT_UNDO_LT_HISTORY :: "32 word" where "DT_UNDO_LT_HISTORY = push_bit 7 1"
definition DT_UNDO_FLAGS :: "32 word" where "DT_UNDO_FLAGS = push_bit 8 1"
definition DT_UNDO_DATETIME :: "32 word" where "DT_UNDO_DATETIME = push_bit 9 1"
definition DT_UNDO_DUPLICATE :: "32 word" where "DT_UNDO_DUPLICATE = push_bit 10 1"

definition DT_UNDO_DEVELOP :: "32 word" where
  "DT_UNDO_DEVELOP = DT_UNDO_HISTORY OR DT_UNDO_LT_HISTORY OR DT_UNDO_MASK OR DT_UNDO_TAGS
     OR DT_UNDO_RATINGS OR DT_UNDO_COLORLABELS OR DT_UNDO_DUPLICATE"

definition DT_UNDO_LIGHTTABLE :: "32 word" where
  "DT_UNDO_LIGHTTABLE = DT_UNDO_RATINGS OR DT_UNDO_COLORLABELS OR DT_UNDO_TAGS
     OR DT_UNDO_METADATA OR DT_UNDO_LT_HISTORY OR DT_UNDO_GEOTAG
     OR DT_UNDO_FLAGS OR DT_UNDO_DATETIME OR DT_UNDO_DUPLICATE"

definition DT_UNDO_MAP :: "32 word" where
  "DT_UNDO_MAP = DT_UNDO_GEOTAG OR DT_UNDO_TAGS OR DT_UNDO_DATETIME"

definition DT_UNDO_ALL :: "32 word" where
  "DT_UNDO_ALL = DT_UNDO_MAP OR DT_UNDO_DEVELOP OR DT_UNDO_LIGHTTABLE"

datatype dt_undo_action_t = DT_ACTION_UNDO | DT_ACTION_REDO

text \<open>An item at its address.  Functions and the user data are addresses, None is NULL; \<open>'d\<close> is the undo data.\<close>

record 'd dt_undo_item_t =
  ui_addr :: nat
  ui_user_data :: nat
  ui_type :: "32 word"
  ui_data :: "'d option"
  ui_ts :: flt
  ui_is_group :: bool
  ui_undo :: "nat option"
  ui_free_data :: "nat option"

record 'd dt_undo_t =
  un_undo_list :: "'d dt_undo_item_t list"
  un_redo_list :: "'d dt_undo_item_t list"
  un_group :: "32 word"
  un_group_indent :: int
  un_disable_next :: bool

text \<open>What the operations and their callers do to the surroundings, in order.\<close>

datatype 'd undo_effect =
    Free_Undo_Data nat "'d option"
  | Free_Undo_Item nat
  | Stamp_Image int
  | Reload_Collection "int list"
  | Set_Cursor_Busy bool
  | Collection_Hint
  | Metadata_Changed
  | Image_Written int
  | Images_Rated int nat
  | No_Image_Selected
  | Images_Synched "int list"

text \<open>The lists with the rest of the program, which the callbacks change.\<close>

record ('d, 'w) undo_world =
  uw_undo :: "'d dt_undo_t"
  uw_rest :: 'w
  uw_effects :: "'d undo_effect list"

text \<open>The callbacks by the address of the function; they add to the list of images.\<close>

type_synonym ('d, 'w) undo_callbacks =
  "nat \<Rightarrow> nat \<Rightarrow> 32 word \<Rightarrow> 'd option \<Rightarrow> dt_undo_action_t \<Rightarrow> int list \<times> ('d, 'w) undo_world
     \<Rightarrow> int list \<times> ('d, 'w) undo_world"

definition undo_upd :: "('d dt_undo_t \<Rightarrow> 'd dt_undo_t) \<Rightarrow> ('d, 'w) undo_world \<Rightarrow> ('d, 'w) undo_world" where
  "undo_upd f w = w\<lparr>uw_undo := f (uw_undo w)\<rparr>"

definition undo_effects :: "'d undo_effect list \<Rightarrow> ('d, 'w) undo_world \<Rightarrow> ('d, 'w) undo_world" where
  "undo_effects es w = w\<lparr>uw_effects := uw_effects w @ es\<rparr>"

definition dt_undo_init :: "'d dt_undo_t" where
  "dt_undo_init = \<lparr>un_undo_list = [], un_redo_list = [], un_group = DT_UNDO_NONE, un_group_indent = 0,
     un_disable_next = False\<rparr>"

definition dt_undo_disable_next :: "('d, 'w) undo_world \<Rightarrow> ('d, 'w) undo_world" where
  "dt_undo_disable_next w = undo_upd (\<lambda>u. u\<lparr>un_disable_next := True\<rparr>) w"

definition free_undo_data :: "'d dt_undo_item_t \<Rightarrow> 'd undo_effect list" where
  "free_undo_data item =
     (case ui_free_data item of None \<Rightarrow> [] | Some f \<Rightarrow> [Free_Undo_Data f (ui_data item)]) @ [Free_Undo_Item (ui_addr item)]"

subsection \<open>Recording\<close>

text \<open>\<open>addr\<close> is the memory \<open>malloc\<close> returns and \<open>wtime\<close> the clock.\<close>

definition undo_record ::
  "nat \<Rightarrow> flt \<Rightarrow> nat \<Rightarrow> 32 word \<Rightarrow> 'd option \<Rightarrow> bool \<Rightarrow> nat option \<Rightarrow> nat option
     \<Rightarrow> ('d, 'w) undo_world \<Rightarrow> ('d, 'w) undo_world" where
  "undo_record addr wtime user_data type data is_group undo free_data w =
     (if un_disable_next (uw_undo w)
      then undo_upd (\<lambda>u. u\<lparr>un_disable_next := False\<rparr>)
             (undo_effects (case free_data of None \<Rightarrow> [] | Some f \<Rightarrow> [Free_Undo_Data f data]) w)
      else
        let item = \<lparr>ui_addr = addr, ui_user_data = user_data, ui_type = type, ui_data = data, ui_ts = wtime,
                    ui_is_group = is_group, ui_undo = undo, ui_free_data = free_data\<rparr>;
            w = undo_upd (\<lambda>u. u\<lparr>un_undo_list := item # un_undo_list u\<rparr>) w
        in undo_upd (\<lambda>u. u\<lparr>un_redo_list := []\<rparr>)
             (undo_effects (concat (map free_undo_data (un_redo_list (uw_undo w)))) w))"

definition dt_undo_start_group :: "nat \<Rightarrow> flt \<Rightarrow> 32 word \<Rightarrow> ('d, 'w) undo_world \<Rightarrow> ('d, 'w) undo_world" where
  "dt_undo_start_group addr wtime type w =
     (if un_group (uw_undo w) = DT_UNDO_NONE
      then undo_record addr wtime 0 type None True None None
             (undo_upd (\<lambda>u. u\<lparr>un_group := type, un_group_indent := 1\<rparr>) w)
      else undo_upd (\<lambda>u. u\<lparr>un_group_indent := un_group_indent u + 1\<rparr>) w)"

text \<open>None: the assertion fails.\<close>

definition dt_undo_end_group :: "nat \<Rightarrow> flt \<Rightarrow> ('d, 'w) undo_world \<Rightarrow> ('d, 'w) undo_world option" where
  "dt_undo_end_group addr wtime w =
     (if un_group_indent (uw_undo w) \<le> 0 then None
      else
        let w = undo_upd (\<lambda>u. u\<lparr>un_group_indent := un_group_indent u - 1\<rparr>) w
        in Some (if un_group_indent (uw_undo w) = 0
                 then undo_upd (\<lambda>u. u\<lparr>un_group := DT_UNDO_NONE\<rparr>)
                        (undo_record addr wtime 0 (un_group (uw_undo w)) None True None None w)
                 else w))"

definition dt_undo_record ::
  "nat \<Rightarrow> flt \<Rightarrow> nat \<Rightarrow> 32 word \<Rightarrow> 'd option \<Rightarrow> nat option \<Rightarrow> nat option \<Rightarrow> ('d, 'w) undo_world \<Rightarrow> ('d, 'w) undo_world" where
  "dt_undo_record addr wtime user_data type data undo free_data w =
     undo_record addr wtime user_data type data False undo free_data w"

subsection \<open>Undoing and redoing\<close>

fun from_list :: "dt_undo_action_t \<Rightarrow> 'd dt_undo_t \<Rightarrow> 'd dt_undo_item_t list" where
  "from_list DT_ACTION_UNDO u = un_undo_list u"
| "from_list DT_ACTION_REDO u = un_redo_list u"

fun from_list_upd :: "dt_undo_action_t \<Rightarrow> ('d dt_undo_item_t list \<Rightarrow> 'd dt_undo_item_t list) \<Rightarrow> 'd dt_undo_t \<Rightarrow> 'd dt_undo_t" where
  "from_list_upd DT_ACTION_UNDO f u = u\<lparr>un_undo_list := f (un_undo_list u)\<rparr>"
| "from_list_upd DT_ACTION_REDO f u = u\<lparr>un_redo_list := f (un_redo_list u)\<rparr>"

fun other_action :: "dt_undo_action_t \<Rightarrow> dt_undo_action_t" where
  "other_action DT_ACTION_UNDO = DT_ACTION_REDO"
| "other_action DT_ACTION_REDO = DT_ACTION_UNDO"

text \<open>\<open>g_list_remove\<close>: the first element that is the item.\<close>

fun g_list_remove :: "nat \<Rightarrow> 'd dt_undo_item_t list \<Rightarrow> 'd dt_undo_item_t list" where
  "g_list_remove addr [] = []"
| "g_list_remove addr (item # items) = (if ui_addr item = addr then items else item # g_list_remove addr items)"

definition undo_matches :: "32 word \<Rightarrow> 'd dt_undo_item_t \<Rightarrow> bool" where
  "undo_matches flags item \<longleftrightarrow> ui_type item AND flags \<noteq> 0"

definition take_item :: "dt_undo_action_t \<Rightarrow> 'd dt_undo_item_t \<Rightarrow> ('d, 'w) undo_world \<Rightarrow> ('d, 'w) undo_world" where
  "take_item action item w = undo_upd (from_list_upd action (g_list_remove (ui_addr item))) w"

definition put_item :: "dt_undo_action_t \<Rightarrow> 'd dt_undo_item_t \<Rightarrow> ('d, 'w) undo_world \<Rightarrow> ('d, 'w) undo_world" where
  "put_item action item w = undo_upd (from_list_upd (other_action action) (Cons item)) w"

text \<open>
  The callback of an item that is not a group marker.  The items to come are those after it when it is
  called: a callback that records while the redo list is walked, freeing it, is not modelled.  All callers
  of \<open>dt_undo_record\<close> pass a callback.
\<close>

definition call_undo ::
  "('d, 'w) undo_callbacks \<Rightarrow> dt_undo_action_t \<Rightarrow> 'd dt_undo_item_t \<Rightarrow> int list \<times> ('d, 'w) undo_world
     \<Rightarrow> int list \<times> ('d, 'w) undo_world" where
  "call_undo cb action item s =
     (case ui_undo item of
        Some f \<Rightarrow> cb f (ui_user_data item) (ui_type item) (ui_data item) action s
      | None \<Rightarrow> s)"

text \<open>What is done with one item: taken from one list, undone or redone, put on the other.\<close>

definition move_item ::
  "('d, 'w) undo_callbacks \<Rightarrow> dt_undo_action_t \<Rightarrow> 'd dt_undo_item_t \<Rightarrow> int list \<times> ('d, 'w) undo_world
     \<Rightarrow> int list \<times> ('d, 'w) undo_world" where
  "move_item cb action item s =
     (let s = apsnd (take_item action item) s;
          s = (if ui_is_group item then s else call_undo cb action item s)
      in apsnd (put_item action item) s)"

text \<open>A group: the items after its first marker, up to the other one.\<close>

fun move_group ::
  "('d, 'w) undo_callbacks \<Rightarrow> dt_undo_action_t \<Rightarrow> 'd dt_undo_item_t list \<Rightarrow> int list \<times> ('d, 'w) undo_world
     \<Rightarrow> int list \<times> ('d, 'w) undo_world" where
  "move_group cb action [] s = s"
| "move_group cb action (item # items) s =
     (let s = move_item cb action item s
      in if ui_is_group item then s else move_group cb action items s)"

definition MAX_TIME_PERIOD :: flt where
  "MAX_TIME_PERIOD = Fin (1 / 2)"

text \<open>No group at the front: the items of matching types of the same half second, whole groups among them.\<close>

fun move_period ::
  "('d, 'w) undo_callbacks \<Rightarrow> dt_undo_action_t \<Rightarrow> 32 word \<Rightarrow> flt \<Rightarrow> bool \<Rightarrow> 'd dt_undo_item_t list
     \<Rightarrow> int list \<times> ('d, 'w) undo_world \<Rightarrow> int list \<times> ('d, 'w) undo_world" where
  "move_period cb action flags first_item_ts in_group [] s = s"
| "move_period cb action flags first_item_ts in_group (item # items) s =
     (let s = move_item cb action item s;
          in_group = (if ui_is_group item then \<not> in_group else in_group)
      in case items of
           [] \<Rightarrow> s
         | next # _ \<Rightarrow>
             if undo_matches flags next
                \<and> (in_group \<or> fabs_flt (fsub round64 (ui_ts next) first_item_ts) < MAX_TIME_PERIOD)
             then move_period cb action flags first_item_ts in_group items s else s)"

text \<open>The images that were changed, sorted and each once.\<close>

definition changed_images :: "int list \<Rightarrow> int list" where
  "changed_images imgs = remdups_adj (sort imgs)"

definition undo_do_undo_redo ::
  "('d, 'w) undo_callbacks \<Rightarrow> 32 word \<Rightarrow> dt_undo_action_t \<Rightarrow> ('d, 'w) undo_world \<Rightarrow> ('d, 'w) undo_world" where
  "undo_do_undo_redo cb flags action w =
     (let (imgs, w) =
            (case dropWhile (\<lambda>item. \<not> undo_matches flags item) (from_list action (uw_undo w)) of
               [] \<Rightarrow> ([], w)
             | item # items \<Rightarrow>
                 if ui_is_group item then move_group cb action items (move_item cb action item ([], w))
                 else move_period cb action flags (ui_ts item) False (item # items) ([], w))
      in undo_effects (map Stamp_Image (changed_images imgs) @ [Reload_Collection (changed_images imgs)]) w)"

definition dt_undo_do_redo :: "('d, 'w) undo_callbacks \<Rightarrow> 32 word \<Rightarrow> ('d, 'w) undo_world \<Rightarrow> ('d, 'w) undo_world" where
  "dt_undo_do_redo cb flags w =
     undo_effects [Set_Cursor_Busy False] (undo_do_undo_redo cb flags DT_ACTION_REDO (undo_effects [Set_Cursor_Busy True] w))"

definition dt_undo_do_undo :: "('d, 'w) undo_callbacks \<Rightarrow> 32 word \<Rightarrow> ('d, 'w) undo_world \<Rightarrow> ('d, 'w) undo_world" where
  "dt_undo_do_undo cb flags w =
     undo_effects [Set_Cursor_Busy False] (undo_do_undo_redo cb flags DT_ACTION_UNDO (undo_effects [Set_Cursor_Busy True] w))"

subsection \<open>Clearing and iterating\<close>

fun undo_clear_list :: "32 word \<Rightarrow> 'd dt_undo_item_t list \<Rightarrow> 'd undo_effect list \<times> 'd dt_undo_item_t list" where
  "undo_clear_list flags [] = ([], [])"
| "undo_clear_list flags (item # items) =
     (if undo_matches flags item then apfst (append (free_undo_data item)) (undo_clear_list flags items)
      else apsnd (Cons item) (undo_clear_list flags items))"

definition dt_undo_clear :: "32 word \<Rightarrow> ('d, 'w) undo_world \<Rightarrow> ('d, 'w) undo_world" where
  "dt_undo_clear flags w =
     (let (freed, undo_list) = undo_clear_list flags (un_undo_list (uw_undo w));
          (freed', redo_list) = undo_clear_list flags (un_redo_list (uw_undo w));
          w = undo_upd (\<lambda>u. u\<lparr>un_undo_list := undo_list, un_redo_list := redo_list\<rparr>) (undo_effects (freed @ freed') w)
      in undo_upd (\<lambda>u. u\<lparr>un_undo_list := [], un_redo_list := [], un_disable_next := False\<rparr>) w)"

definition dt_undo_cleanup :: "('d, 'w) undo_world \<Rightarrow> ('d, 'w) undo_world" where
  "dt_undo_cleanup w = dt_undo_clear DT_UNDO_ALL w"

definition undo_iterate ::
  "32 word \<Rightarrow> nat \<Rightarrow> (nat \<Rightarrow> 32 word \<Rightarrow> 'd option \<Rightarrow> 'w \<Rightarrow> 'w) \<Rightarrow> 'd dt_undo_item_t list \<Rightarrow> 'w \<Rightarrow> 'w" where
  "undo_iterate flags user_data apply_to items w =
     fold (\<lambda>item w. if \<not> ui_is_group item \<and> undo_matches flags item
                    then apply_to user_data (ui_type item) (ui_data item) w else w) items w"

definition dt_undo_iterate ::
  "32 word \<Rightarrow> nat \<Rightarrow> (nat \<Rightarrow> 32 word \<Rightarrow> 'd option \<Rightarrow> 'w \<Rightarrow> 'w) \<Rightarrow> ('d, 'w) undo_world \<Rightarrow> ('d, 'w) undo_world" where
  "dt_undo_iterate flags user_data apply_to w =
     w\<lparr>uw_rest := undo_iterate flags user_data apply_to (un_redo_list (uw_undo w))
        (undo_iterate flags user_data apply_to (un_undo_list (uw_undo w)) (uw_rest w))\<rparr>"

subsection \<open>What an action moves\<close>

text \<open>The items that one action moves, from the first that matches.\<close>

fun group_run :: "'d dt_undo_item_t list \<Rightarrow> 'd dt_undo_item_t list" where
  "group_run [] = []"
| "group_run (item # items) = item # (if ui_is_group item then [] else group_run items)"

fun period_run :: "32 word \<Rightarrow> flt \<Rightarrow> bool \<Rightarrow> 'd dt_undo_item_t list \<Rightarrow> 'd dt_undo_item_t list" where
  "period_run flags ts g [] = []"
| "period_run flags ts g (item # items) = item #
     (let g = (if ui_is_group item then \<not> g else g)
      in case items of
           [] \<Rightarrow> []
         | next # _ \<Rightarrow>
             if undo_matches flags next \<and> (g \<or> fabs_flt (fsub round64 (ui_ts next) ts) < MAX_TIME_PERIOD)
             then period_run flags ts g items else [])"

definition action_run :: "32 word \<Rightarrow> 'd dt_undo_item_t list \<Rightarrow> 'd dt_undo_item_t list" where
  "action_run flags items =
     (case items of
        [] \<Rightarrow> []
      | item # rest \<Rightarrow> if ui_is_group item then item # group_run rest else period_run flags (ui_ts item) False items)"

lemma move_group_fold: "move_group cb a items s = fold (move_item cb a) (group_run items) s"
  by (induction items arbitrary: s) (auto simp: Let_def)

lemma move_period_fold: "move_period cb a flags ts g items s = fold (move_item cb a) (period_run flags ts g items) s"
proof (induction items arbitrary: g s)
  case (Cons item items)
  then show ?case by (cases items) (auto simp: Let_def)
qed simp

lemma group_run_prefix: "\<exists>post. items = group_run items @ post"
  by (induction items) auto

lemma period_run_prefix: "\<exists>post. items = period_run flags ts g items @ post"
proof (induction items arbitrary: g)
  case (Cons item items)
  then show ?case by (cases items) (auto simp: Let_def)
qed simp

lemma action_run_prefix: "\<exists>post. items = action_run flags items @ post"
proof (cases items)
  case (Cons item rest)
  then show ?thesis
    using group_run_prefix [of rest] period_run_prefix [of items flags "ui_ts item" False]
    by (cases "ui_is_group item") (auto simp: action_run_def simp del: period_run.simps)
qed (simp add: action_run_def)

lemma action_run_empty [simp]: "action_run flags items = [] \<longleftrightarrow> items = []"
  by (cases items) (simp_all add: action_run_def)

lemma do_undo_redo_fold:
  "undo_do_undo_redo cb flags a w =
     (let s = fold (move_item cb a) (action_run flags (dropWhile (\<lambda>item. \<not> undo_matches flags item) (from_list a (uw_undo w)))) ([], w)
      in undo_effects (map Stamp_Image (changed_images (fst s)) @ [Reload_Collection (changed_images (fst s))]) (snd s))"
proof (cases "dropWhile (\<lambda>item. \<not> undo_matches flags item) (from_list a (uw_undo w))")
  case Nil
  then show ?thesis unfolding undo_do_undo_redo_def action_run_def Nil by simp
next
  case (Cons item items)
  show ?thesis unfolding undo_do_undo_redo_def Cons
    by (cases "ui_is_group item")
      (simp_all add: action_run_def move_group_fold move_period_fold Let_def split_beta
        del: period_run.simps move_period.simps)
qed

text \<open>Moving items when the callbacks leave the lists alone.\<close>

definition moved :: "dt_undo_action_t \<Rightarrow> 'd dt_undo_item_t list \<Rightarrow> 'd dt_undo_item_t list \<Rightarrow> 'd dt_undo_t \<Rightarrow> 'd dt_undo_t" where
  "moved a run left u = from_list_upd (other_action a) (append (rev run)) (from_list_upd a (\<lambda>_. left) u)"

lemma undo_world_simps [simp]:
  "uw_undo (undo_upd f w) = f (uw_undo w)" "uw_rest (undo_upd f w) = uw_rest w"
  "uw_effects (undo_upd f w) = uw_effects w"
  "uw_undo (undo_effects es w) = uw_undo w" "uw_rest (undo_effects es w) = uw_rest w"
  "uw_effects (undo_effects es w) = uw_effects w @ es"
  by (simp_all add: undo_upd_def undo_effects_def)

lemma from_list_simps [simp]:
  "from_list a (from_list_upd a f u) = f (from_list a u)"
  "from_list (other_action a) (from_list_upd a f u) = from_list (other_action a) u"
  "from_list a (from_list_upd (other_action a) f u) = from_list a u"
  "from_list_upd a f (from_list_upd a g u) = from_list_upd a (\<lambda>x. f (g x)) u"
  by (cases a; simp)+

abbreviation addrs :: "'d dt_undo_item_t list \<Rightarrow> nat list" where
  "addrs items \<equiv> map ui_addr items"

lemma g_list_remove_here: "ui_addr item \<notin> set (addrs pre) \<Longrightarrow> g_list_remove (ui_addr item) (pre @ item # items) = pre @ items"
  by (induction pre) auto

text \<open>The items that were freed, in order.\<close>

fun freed_by :: "'d undo_effect \<Rightarrow> nat list" where
  "freed_by (Free_Undo_Item a) = [a]"
| "freed_by _ = []"

definition freed_items :: "('d, 'w) undo_world \<Rightarrow> nat list" where
  "freed_items w = concat (map freed_by (uw_effects w))"

subsection \<open>A recorded group\<close>

abbreviation group_marker :: "nat \<Rightarrow> flt \<Rightarrow> 32 word \<Rightarrow> 'd dt_undo_item_t" where
  "group_marker addr ts type \<equiv> \<lparr>ui_addr = addr, ui_user_data = 0, ui_type = type, ui_data = None, ui_ts = ts,
     ui_is_group = True, ui_undo = None, ui_free_data = None\<rparr>"

text \<open>What is between the two calls for the group may change anything but the lists.\<close>

lemma group_recorded:
  assumes "un_group (uw_undo w) = DT_UNDO_NONE" "\<not> un_disable_next (uw_undo w)" "type \<noteq> DT_UNDO_NONE"
    and "w1 = dt_undo_start_group a0 t0 type w" "uw_undo w2 = uw_undo w1"
    and "item = \<lparr>ui_addr = a1, ui_user_data = u, ui_type = type, ui_data = data, ui_ts = t1, ui_is_group = False,
            ui_undo = undo, ui_free_data = fr\<rparr>"
  shows "\<exists>w3. dt_undo_end_group a2 t2 (dt_undo_record a1 t1 u type data undo fr w2) = Some w3
    \<and> un_undo_list (uw_undo w3) = [group_marker a2 t2 type, item, group_marker a0 t0 type] @ un_undo_list (uw_undo w)
    \<and> un_redo_list (uw_undo w3) = [] \<and> un_group (uw_undo w3) = DT_UNDO_NONE \<and> \<not> un_disable_next (uw_undo w3)
    \<and> uw_rest w3 = uw_rest w2"
proof -
  have 1: "uw_undo w1 = (uw_undo w)\<lparr>un_undo_list := group_marker a0 t0 type # un_undo_list (uw_undo w), un_redo_list := [],
      un_group := type, un_group_indent := 1\<rparr>"
    using assms(1,2) unfolding assms(4) by (simp add: dt_undo_start_group_def undo_record_def Let_def)
  let ?w = "dt_undo_record a1 t1 u type data undo fr w2"
  have "uw_undo ?w = (uw_undo w1)\<lparr>un_undo_list := item # un_undo_list (uw_undo w1), un_redo_list := []\<rparr>" "uw_rest ?w = uw_rest w2"
    using assms(2,5,6) 1 by (simp_all add: dt_undo_record_def undo_record_def Let_def)
  then show ?thesis using assms(2) 1 by (simp add: dt_undo_end_group_def undo_record_def Let_def)
qed

subsection \<open>The interface to the clients\<close>

text \<open>The effect of an item on the rest of the program, where \<open>rest_of\<close> is that of the items of a client.\<close>

definition undo_act ::
  "(dt_undo_action_t \<Rightarrow> 'd dt_undo_item_t \<Rightarrow> 'w \<Rightarrow> 'w) \<Rightarrow> dt_undo_action_t \<Rightarrow> 'd dt_undo_item_t \<Rightarrow> 'w \<Rightarrow> 'w" where
  "undo_act rest_of a item r = (if ui_is_group item then r else rest_of a item r)"

definition replay :: "(dt_undo_action_t \<Rightarrow> 'd dt_undo_item_t \<Rightarrow> 'w \<Rightarrow> 'w) \<Rightarrow> 'd dt_undo_item_t list \<Rightarrow> 'w \<Rightarrow> 'w" where
  "replay rest_of items r = fold (undo_act rest_of DT_ACTION_REDO) items r"

text \<open>
  What the undo lists need of the callbacks of the items that are \<open>handled\<close>: they leave the lists alone
  and free no item.
\<close>

locale undo_lists =
  fixes cb :: "('d, 'w) undo_callbacks"
    and handled :: "'d dt_undo_item_t \<Rightarrow> bool"
  assumes quiet: "handled item \<Longrightarrow> uw_undo (snd (call_undo cb a item s)) = uw_undo (snd s)"
    and frees_none: "handled item \<Longrightarrow> freed_items (snd (call_undo cb a item s)) = freed_items (snd s)"
begin

abbreviation known :: "'d dt_undo_item_t \<Rightarrow> bool" where
  "known item \<equiv> ui_is_group item \<or> handled item"

lemma move_item_lists:
  assumes "known item"
  shows "uw_undo (snd (move_item cb a item s))
      = from_list_upd (other_action a) (Cons item) (from_list_upd a (g_list_remove (ui_addr item)) (uw_undo (snd s)))"
  using assms quiet [of item a "apsnd (take_item a item) s"]
  by (cases s) (auto simp: move_item_def take_item_def put_item_def Let_def)

lemma moves_lists:
  assumes "list_all known run" "from_list a (uw_undo (snd s)) = pre @ run @ post" "distinct (addrs (pre @ run @ post))"
  shows "uw_undo (snd (fold (move_item cb a) run s)) = moved a run (pre @ post) (uw_undo (snd s))"
  using assms
proof (induction run arbitrary: s)
  case Nil
  then have "from_list_upd a (\<lambda>_. pre @ post) (uw_undo (snd s)) = uw_undo (snd s)" by (cases a) simp_all
  moreover have "from_list_upd (other_action a) (\<lambda>x. x) u = u" for u :: "'d dt_undo_t" by (cases a) simp_all
  ultimately show ?case by (simp add: moved_def append_Nil [abs_def])
next
  case (Cons item run)
  let ?s = "move_item cb a item s"
  have k: "known item" "list_all known run" using Cons.prems(1) by simp_all
  have rem: "g_list_remove (ui_addr item) (pre @ item # run @ post) = pre @ run @ post"
    using Cons.prems(3) by (intro g_list_remove_here) auto
  note m = move_item_lists [OF k(1), of a s]
  have "from_list a (uw_undo (snd ?s)) = pre @ run @ post" using Cons.prems(2) rem by (simp add: m)
  from Cons.IH [OF k(2) this] Cons.prems(3)
  have ih: "uw_undo (snd (fold (move_item cb a) run ?s)) = moved a run (pre @ post) (uw_undo (snd ?s))" by auto
  have "moved a run (pre @ post) (uw_undo (snd ?s)) = moved a (item # run) (pre @ post) (uw_undo (snd s))"
    unfolding m moved_def by (cases a) simp_all
  with ih show ?case by simp
qed

lemma do_moves_lists:
  assumes "list_all known run" "distinct (addrs (from_list a (uw_undo w)))"
    and "from_list a (uw_undo w) = pre @ items" "\<forall>item \<in> set pre. \<not> undo_matches flags item"
    and "items = [] \<or> undo_matches flags (hd items)" "run = action_run flags items"
  shows "\<exists>post. items = run @ post \<and> uw_undo (undo_do_undo_redo cb flags a w) = moved a run (pre @ post) (uw_undo w)
    \<and> uw_rest (undo_do_undo_redo cb flags a w) = uw_rest (snd (fold (move_item cb a) run ([], w)))"
proof -
  have "dropWhile (\<lambda>item. \<not> undo_matches flags item) (pre @ items) = items"
    using assms(4,5) by (cases items) (auto simp: dropWhile_append)
  then have l: "dropWhile (\<lambda>item. \<not> undo_matches flags item) (from_list a (uw_undo w)) = items" using assms(3) by simp
  obtain post where post: "items = run @ post" using action_run_prefix assms(6) by blast
  from moves_lists [OF assms(1), of a "([], w)" pre post] assms(2,3) post
  have "uw_undo (snd (fold (move_item cb a) run ([], w))) = moved a run (pre @ post) (uw_undo w)" by simp
  then show ?thesis using post unfolding do_undo_redo_fold l assms(6) [symmetric] Let_def by simp
qed

lemma do_moves_some:
  assumes "list_all known (from_list a (uw_undo w))" "distinct (addrs (from_list a (uw_undo w)))"
  shows "\<exists>pre run post. from_list a (uw_undo w) = pre @ run @ post
    \<and> uw_undo (undo_do_undo_redo cb flags a w) = moved a run (pre @ post) (uw_undo w)"
proof -
  let ?p = "\<lambda>item. \<not> undo_matches flags item" and ?l = "from_list a (uw_undo w)"
  have 1: "?l = takeWhile ?p ?l @ dropWhile ?p ?l" by simp
  have 2: "\<forall>item \<in> set (takeWhile ?p ?l). ?p item" by (blast dest: set_takeWhileD)
  have 3: "dropWhile ?p ?l = [] \<or> undo_matches flags (hd (dropWhile ?p ?l))" using hd_dropWhile [of ?p ?l] by blast
  obtain run where run: "run = action_run flags (dropWhile ?p ?l)" by blast
  have "set run \<subseteq> set (dropWhile ?p ?l)" using action_run_prefix run by (metis set_append Un_upper1)
  then have known: "list_all known run" using assms(1) by (auto simp: list_all_iff dest!: set_dropWhileD)
  from do_moves_lists [OF known assms(2) 1 2 3 run] obtain post where
    "dropWhile ?p ?l = run @ post" "uw_undo (undo_do_undo_redo cb flags a w) = moved a run (takeWhile ?p ?l @ post) (uw_undo w)"
    by blast
  with 1 show ?thesis by (intro exI [of _ "takeWhile ?p ?l"] exI [of _ run] exI [of _ post]) simp
qed

lemma move_freed: "known item \<Longrightarrow> freed_items (snd (move_item cb a item s)) = freed_items (snd s)"
  using frees_none [of item a "apsnd (take_item a item) s"]
  by (cases s) (auto simp: move_item_def take_item_def put_item_def Let_def freed_items_def)

lemma moves_freed: "list_all known run \<Longrightarrow> freed_items (snd (fold (move_item cb a) run s)) = freed_items (snd s)"
  by (induction run arbitrary: s) (simp_all add: move_freed)

lemma do_freed:
  assumes "list_all known (from_list a (uw_undo w))"
  shows "freed_items (undo_do_undo_redo cb flags a w) = freed_items w"
proof -
  let ?l = "dropWhile (\<lambda>item. \<not> undo_matches flags item) (from_list a (uw_undo w))"
  have "set (action_run flags ?l) \<subseteq> set ?l" using action_run_prefix by (metis set_append Un_upper1)
  then have "list_all known (action_run flags ?l)" using assms by (auto simp: list_all_iff dest!: set_dropWhileD)
  from moves_freed [OF this, of a "([], w)"] show ?thesis
    by (simp add: do_undo_redo_fold Let_def freed_items_def comp_def)
qed

end

text \<open>What a client promises beyond this: its callback acts on the rest of the program as \<open>rest_of\<close> says.\<close>

locale undo_client = undo_lists cb handled
  for cb :: "('d, 'w) undo_callbacks" and handled +
  fixes rest_of :: "dt_undo_action_t \<Rightarrow> 'd dt_undo_item_t \<Rightarrow> 'w \<Rightarrow> 'w"
  assumes acts: "handled item \<Longrightarrow> uw_rest (snd (call_undo cb a item s)) = rest_of a item (uw_rest (snd s))"
begin

abbreviation act :: "dt_undo_action_t \<Rightarrow> 'd dt_undo_item_t \<Rightarrow> 'w \<Rightarrow> 'w" where
  "act \<equiv> undo_act rest_of"

lemma move_item_rest: "known item \<Longrightarrow> uw_rest (snd (move_item cb a item s)) = act a item (uw_rest (snd s))"
  using acts [of item a "apsnd (take_item a item) s"]
  by (cases s) (auto simp: move_item_def take_item_def put_item_def undo_act_def Let_def)

lemma moves_rest:
  "list_all known run \<Longrightarrow> uw_rest (snd (fold (move_item cb a) run s)) = fold (act a) run (uw_rest (snd s))"
  by (induction run arbitrary: s) (simp_all add: move_item_rest)

lemma do_moves:
  assumes "list_all known run" "distinct (addrs (from_list a (uw_undo w)))"
    and "from_list a (uw_undo w) = pre @ items" "\<forall>item \<in> set pre. \<not> undo_matches flags item"
    and "items = [] \<or> undo_matches flags (hd items)" "run = action_run flags items"
  shows "\<exists>post. items = run @ post \<and> uw_undo (undo_do_undo_redo cb flags a w) = moved a run (pre @ post) (uw_undo w)
    \<and> uw_rest (undo_do_undo_redo cb flags a w) = fold (act a) run (uw_rest w)"
  using do_moves_lists [OF assms] moves_rest [OF assms(1), of a "([], w)"] by auto

text \<open>A group of one item.\<close>

lemma group_moves:
  assumes "from_list a (uw_undo w) = [g1, item, g2] @ post" "distinct (addrs (from_list a (uw_undo w)))"
    and "ui_is_group g1" "ui_is_group g2" "\<not> ui_is_group item" "handled item" "undo_matches flags g1"
  shows "uw_undo (undo_do_undo_redo cb flags a w) = moved a [g1, item, g2] post (uw_undo w)
    \<and> uw_rest (undo_do_undo_redo cb flags a w) = rest_of a item (uw_rest w)"
proof -
  have run: "[g1, item, g2] = action_run flags ([g1, item, g2] @ post)" using assms(3,4,5) by (simp add: action_run_def)
  have "list_all known [g1, item, g2]" using assms by simp
  from do_moves [OF this assms(2), of "[]" "[g1, item, g2] @ post" flags, OF _ _ _ run] assms(1,3,4,5,7)
  show ?thesis by (auto simp: undo_act_def)
qed

lemma recorded_undone:
  assumes "un_undo_list (uw_undo w) = [g2, item, g1] @ post" "un_redo_list (uw_undo w) = []"
    and "distinct (addrs (un_undo_list (uw_undo w)))" "ui_is_group g1" "ui_is_group g2" "\<not> ui_is_group item" "handled item"
    and "undo_matches flags g1" "undo_matches flags g2"
    and "w1 = dt_undo_do_undo cb flags w" "w2 = dt_undo_do_redo cb flags w1"
  shows "un_undo_list (uw_undo w1) = post \<and> un_redo_list (uw_undo w1) = [g1, item, g2]
    \<and> uw_rest w1 = rest_of DT_ACTION_UNDO item (uw_rest w)
    \<and> un_undo_list (uw_undo w2) = un_undo_list (uw_undo w) \<and> un_redo_list (uw_undo w2) = []
    \<and> uw_rest w2 = rest_of DT_ACTION_REDO item (uw_rest w1)"
proof -
  from group_moves [of DT_ACTION_UNDO "undo_effects [Set_Cursor_Busy True] w" g2 item g1 post flags] assms
  have 1: "un_undo_list (uw_undo w1) = post" "un_redo_list (uw_undo w1) = [g1, item, g2]"
    "uw_rest w1 = rest_of DT_ACTION_UNDO item (uw_rest w)"
    by (simp_all add: dt_undo_do_undo_def moved_def)
  from group_moves [of DT_ACTION_REDO "undo_effects [Set_Cursor_Busy True] w1" g1 item g2 "[]" flags] assms 1
  have "un_undo_list (uw_undo w2) = un_undo_list (uw_undo w)" "un_redo_list (uw_undo w2) = []"
    "uw_rest w2 = rest_of DT_ACTION_REDO item (uw_rest w1)"
    by (auto simp: dt_undo_do_redo_def moved_def)
  with 1 show ?thesis by blast
qed

end

subsection \<open>The timeline\<close>

text \<open>
  The abstract view: one timeline of items with a position in it, and the program in the state that
  replaying the items before the position gives.
\<close>

fun fits_along ::
  "(dt_undo_action_t \<Rightarrow> 'd dt_undo_item_t \<Rightarrow> 'w \<Rightarrow> 'w) \<Rightarrow> ('d dt_undo_item_t \<Rightarrow> 'w \<Rightarrow> bool)
     \<Rightarrow> 'w \<Rightarrow> 'd dt_undo_item_t list \<Rightarrow> bool" where
  "fits_along rest_of fits r [] = True"
| "fits_along rest_of fits r (item # items) \<longleftrightarrow> (ui_is_group item \<or> fits item r)
     \<and> fits_along rest_of fits (undo_act rest_of DT_ACTION_REDO item r) items"

definition timeline :: "'d dt_undo_t \<Rightarrow> 'd dt_undo_item_t list" where
  "timeline u = rev (un_undo_list u) @ un_redo_list u"

definition consistent ::
  "('d dt_undo_item_t \<Rightarrow> bool) \<Rightarrow> (dt_undo_action_t \<Rightarrow> 'd dt_undo_item_t \<Rightarrow> 'w \<Rightarrow> 'w)
     \<Rightarrow> ('d dt_undo_item_t \<Rightarrow> 'w \<Rightarrow> bool) \<Rightarrow> 'w \<Rightarrow> ('d, 'w) undo_world \<Rightarrow> bool" where
  "consistent handled rest_of fits base w \<longleftrightarrow> fits_along rest_of fits base (timeline (uw_undo w))
     \<and> list_all (\<lambda>item. ui_is_group item \<or> handled item) (timeline (uw_undo w))
     \<and> distinct (addrs (timeline (uw_undo w)))
     \<and> uw_rest w = replay rest_of (rev (un_undo_list (uw_undo w))) base"

lemma fits_along_append:
  "fits_along rest_of fits r (xs @ ys) \<longleftrightarrow> fits_along rest_of fits r xs \<and> fits_along rest_of fits (replay rest_of xs r) ys"
  by (induction xs arbitrary: r) (auto simp: replay_def)

lemma consistent_effects [simp]: "consistent handled rest_of fits base (undo_effects es w) = consistent handled rest_of fits base w"
  by (simp add: consistent_def)

text \<open>A client whose items can be undone: undoing what was done in a state that fits gives that state again.\<close>

locale reversible_client = undo_client cb handled rest_of
  for cb :: "('d, 'w) undo_callbacks" and handled rest_of +
  fixes fits :: "'d dt_undo_item_t \<Rightarrow> 'w \<Rightarrow> bool"
  assumes inverse: "handled item \<Longrightarrow> fits item r \<Longrightarrow> rest_of DT_ACTION_UNDO item (rest_of DT_ACTION_REDO item r) = r"
begin

abbreviation ok :: "'w \<Rightarrow> ('d, 'w) undo_world \<Rightarrow> bool" where
  "ok \<equiv> consistent handled rest_of fits"

lemma undo_replayed:
  "fits_along rest_of fits r run \<Longrightarrow> list_all known run \<Longrightarrow> fold (act DT_ACTION_UNDO) (rev run) (replay rest_of run r) = r"
proof (induction run arbitrary: r)
  case (Cons item run)
  have "act DT_ACTION_UNDO item (act DT_ACTION_REDO item r) = r"
    using Cons.prems inverse by (auto simp: undo_act_def)
  with Cons show ?case by (simp add: replay_def)
qed (simp add: replay_def)

text \<open>An action moves the position along the timeline and keeps the program in step with it.\<close>

lemma action_keeps_timeline:
  assumes "ok base w" "list_all (undo_matches flags) (from_list a (uw_undo w))"
  shows "timeline (uw_undo (undo_do_undo_redo cb flags a w)) = timeline (uw_undo w)
    \<and> ok base (undo_do_undo_redo cb flags a w)
    \<and> (\<exists>run. from_list a (uw_undo w) = run @ from_list a (uw_undo (undo_do_undo_redo cb flags a w))
         \<and> (from_list a (uw_undo w) \<noteq> [] \<longrightarrow> run \<noteq> []))
    \<and> un_group (uw_undo (undo_do_undo_redo cb flags a w)) = un_group (uw_undo w)
    \<and> un_disable_next (uw_undo (undo_do_undo_redo cb flags a w)) = un_disable_next (uw_undo w)"
proof -
  let ?items = "from_list a (uw_undo w)" and ?w' = "undo_do_undo_redo cb flags a w"
  let ?run = "action_run flags ?items"
  have c: "list_all known (timeline (uw_undo w))" "distinct (addrs (timeline (uw_undo w)))"
    using assms(1) by (simp_all add: consistent_def)
  then have k: "list_all known ?items" "distinct (addrs ?items)"
    by (cases a; simp add: timeline_def rev_map [symmetric])+
  have hd: "?items = [] \<or> undo_matches flags (hd ?items)" using assms(2) by (cases ?items) auto
  have "set ?run \<subseteq> set ?items" using action_run_prefix by (metis set_append Un_upper1)
  then have "list_all known ?run" using k(1) by (auto simp: list_all_iff)
  from do_moves [OF this k(2), of "[]" ?items flags, OF _ _ hd refl] obtain post where
    m: "?items = ?run @ post" "uw_undo ?w' = moved a ?run post (uw_undo w)"
    "uw_rest ?w' = fold (act a) ?run (uw_rest w)" by auto
  have t: "timeline (uw_undo ?w') = timeline (uw_undo w)"
    using m(1) unfolding m(2) by (cases a) (simp_all add: timeline_def moved_def, metis append.assoc rev_append)
  have "uw_rest ?w' = replay rest_of (rev (un_undo_list (uw_undo ?w'))) base"
  proof (cases a)
    case DT_ACTION_REDO
    then show ?thesis
      using assms(1) unfolding m(2,3) by (simp add: moved_def consistent_def replay_def)
  next
    case DT_ACTION_UNDO
    then have u: "un_undo_list (uw_undo w) = ?run @ post" using m(1) by simp
    then have rev: "rev (un_undo_list (uw_undo w)) = rev post @ rev ?run" by simp
    have f: "fits_along rest_of fits (replay rest_of (rev post) base) (rev ?run)" "list_all known (rev ?run)"
      using assms(1) rev by (simp_all add: consistent_def timeline_def fits_along_append)
    have "fold (act DT_ACTION_UNDO) ?run (replay rest_of (rev ?run) (replay rest_of (rev post) base)) = replay rest_of (rev post) base"
      using undo_replayed [OF f] by simp
    moreover have "uw_rest w = replay rest_of (rev ?run) (replay rest_of (rev post) base)"
      using assms(1) rev by (simp add: consistent_def replay_def)
    ultimately show ?thesis using DT_ACTION_UNDO unfolding m(2,3) by (simp add: moved_def)
  qed
  then have cons: "ok base ?w'" using assms(1) t by (simp add: consistent_def)
  have "from_list a (uw_undo ?w') = post" unfolding m(2) moved_def by (cases a) simp_all
  with m(1) have "?items = ?run @ from_list a (uw_undo ?w')" "?items \<noteq> [] \<longrightarrow> ?run \<noteq> []" by simp_all
  moreover have "un_group (uw_undo ?w') = un_group (uw_undo w)" "un_disable_next (uw_undo ?w') = un_disable_next (uw_undo w)"
    unfolding m(2) moved_def by (cases a; simp)+
  ultimately show ?thesis using t cons by blast
qed

text \<open>A recorded group cuts the timeline at the position and extends it.\<close>

lemma group_keeps_timeline:
  assumes "ok base w" "un_undo_list (uw_undo w') = [g2, item, g1] @ un_undo_list (uw_undo w)" "un_redo_list (uw_undo w') = []"
    and "ui_is_group g1" "ui_is_group g2" "handled item" "\<not> ui_is_group item" "fits item (uw_rest w)"
    and "uw_rest w' = rest_of DT_ACTION_REDO item (uw_rest w)" "distinct (addrs (un_undo_list (uw_undo w')))"
  shows "ok base w'"
proof -
  have c: "fits_along rest_of fits base (rev (un_undo_list (uw_undo w)))" "list_all known (un_undo_list (uw_undo w))"
    "uw_rest w = replay rest_of (rev (un_undo_list (uw_undo w))) base"
    using assms(1) by (simp_all add: consistent_def timeline_def fits_along_append)
  have t: "timeline (uw_undo w') = rev (un_undo_list (uw_undo w)) @ [g1, item, g2]" using assms(2,3) by (simp add: timeline_def)
  have "uw_rest w' = replay rest_of (rev (un_undo_list (uw_undo w'))) base"
    using assms(2,4,5,7,9) c(3) by (simp add: replay_def undo_act_def)
  moreover have "fits_along rest_of fits base (timeline (uw_undo w'))"
    unfolding t using c(1,3) assms(4,5,7,8) by (simp add: fits_along_append undo_act_def)
  moreover have "distinct (addrs (timeline (uw_undo w')))"
    using assms(3,10) by (simp add: timeline_def rev_map [symmetric])
  ultimately show ?thesis using c(2) assms(4,5,6) t by (simp add: consistent_def)
qed

end

subsection \<open>Memory\<close>

text \<open>Any use of the lists by the clients whose items are \<open>handled\<close>; memory is new when it is allocated.\<close>

definition item_addrs :: "('d, 'w) undo_world \<Rightarrow> nat list" where
  "item_addrs w = addrs (un_undo_list (uw_undo w)) @ addrs (un_redo_list (uw_undo w)) @ freed_items w"

inductive undo_step :: "('d, 'w) undo_callbacks \<Rightarrow> ('d dt_undo_item_t \<Rightarrow> bool) \<Rightarrow> ('d, 'w) undo_world \<Rightarrow> ('d, 'w) undo_world \<Rightarrow> bool"
  for cb handled where
  group_start: "addr \<notin> set (item_addrs w) \<Longrightarrow> undo_step cb handled w (dt_undo_start_group addr ts type w)"
| group_stop: "addr \<notin> set (item_addrs w) \<Longrightarrow> dt_undo_end_group addr ts w = Some w' \<Longrightarrow> undo_step cb handled w w'"
| record_item: "addr \<notin> set (item_addrs w)
     \<Longrightarrow> handled \<lparr>ui_addr = addr, ui_user_data = u, ui_type = type, ui_data = data, ui_ts = ts, ui_is_group = False,
           ui_undo = undo, ui_free_data = fr\<rparr>
     \<Longrightarrow> undo_step cb handled w (dt_undo_record addr ts u type data undo fr w)"
| undo_items: "undo_step cb handled w (dt_undo_do_undo cb flags w)"
| redo_items: "undo_step cb handled w (dt_undo_do_redo cb flags w)"
| clear_items: "undo_step cb handled w (dt_undo_clear flags w)"
| disable_next: "undo_step cb handled w (dt_undo_disable_next w)"
| other_change: "uw_undo w' = uw_undo w \<Longrightarrow> freed_items w' = freed_items w \<Longrightarrow> undo_step cb handled w w'"

definition undo_init :: "('d, 'w) undo_world \<Rightarrow> bool" where
  "undo_init w \<longleftrightarrow> uw_undo w = dt_undo_init \<and> uw_effects w = []"

definition undo_inv :: "('d dt_undo_item_t \<Rightarrow> bool) \<Rightarrow> ('d, 'w) undo_world \<Rightarrow> bool" where
  "undo_inv handled w \<longleftrightarrow> distinct (item_addrs w)
     \<and> list_all (\<lambda>item. ui_is_group item \<or> handled item) (un_undo_list (uw_undo w) @ un_redo_list (uw_undo w))"

lemma freed_effects: "freed_items (undo_effects es w)
    = freed_items w @ concat (map freed_by es)"
  by (simp add: freed_items_def)

lemma freed_upd [simp]: "freed_items (undo_upd f w) = freed_items w"
  by (simp add: freed_items_def)

lemma freed_data: "concat (map freed_by (concat (map free_undo_data items))) = addrs items"
  by (induction items) (auto simp: free_undo_data_def split: option.splits)

lemma clear_list_freed:
  "concat (map freed_by (fst (undo_clear_list flags items)))
     = addrs (filter (undo_matches flags) items)"
  by (induction items) (auto simp: free_undo_data_def apfst_def map_prod_def
      split: option.splits prod.splits)

lemma record_inv:
  assumes "undo_inv handled w" "addr \<notin> set (item_addrs w)"
    and "g \<or> handled \<lparr>ui_addr = addr, ui_user_data = u, ui_type = type, ui_data = data, ui_ts = ts, ui_is_group = g,
           ui_undo = undo, ui_free_data = fr\<rparr>"
  shows "undo_inv handled (undo_record addr ts u type data g undo fr w)"
proof (cases "un_disable_next (uw_undo w)")
  case True
  then show ?thesis
    using assms(1) by (auto simp: undo_record_def undo_inv_def item_addrs_def freed_effects split: option.splits)
next
  case False
  then show ?thesis
    using assms by (auto simp: undo_record_def undo_inv_def item_addrs_def freed_effects freed_data Let_def)
qed

lemma undo_inv_upd: "undo_inv handled (undo_upd f w) = undo_inv handled w"
  if "un_undo_list (f (uw_undo w)) = un_undo_list (uw_undo w)" "un_redo_list (f (uw_undo w)) = un_redo_list (uw_undo w)"
  using that by (simp add: undo_inv_def item_addrs_def)

lemma item_addrs_upd: "item_addrs (undo_upd f w) = item_addrs w"
  if "un_undo_list (f (uw_undo w)) = un_undo_list (uw_undo w)" "un_redo_list (f (uw_undo w)) = un_redo_list (uw_undo w)"
  using that by (simp add: item_addrs_def)

lemma item_addrs_busy [simp]: "item_addrs (undo_effects [Set_Cursor_Busy b] w) = item_addrs w"
  by (simp add: item_addrs_def freed_effects)

lemma record_addrs: "set (item_addrs (undo_record addr ts u type data g undo fr w))
    = (if un_disable_next (uw_undo w) then {} else {addr}) \<union> set (item_addrs w)"
  by (auto simp: undo_record_def item_addrs_def freed_effects freed_data Let_def split: option.splits)

lemma undo_inv_busy [simp]: "undo_inv handled (undo_effects [Set_Cursor_Busy b] w) = undo_inv handled w"
  by (simp add: undo_inv_def item_addrs_def freed_effects)

text \<open>A step keeps every item in one place; only a clearing lets go of items, those of the types it is not for.\<close>

definition items_kept :: "('d, 'w) undo_world \<Rightarrow> ('d, 'w) undo_world \<Rightarrow> bool" where
  "items_kept w w' \<longleftrightarrow> set (item_addrs w) \<subseteq> set (item_addrs w')
     \<or> (\<exists>flags. w' = dt_undo_clear flags w \<and> set (item_addrs w) - set (item_addrs w')
          = ui_addr ` {item \<in> set (un_undo_list (uw_undo w) @ un_redo_list (uw_undo w)). \<not> undo_matches flags item})"

lemma kept_image: "inj_on f A \<Longrightarrow> f ` A - f ` {x \<in> A. P x} = f ` {x \<in> A. \<not> P x}"
  by (auto dest: inj_onD)

context undo_lists
begin

lemma action_inv:
  assumes "undo_inv handled w"
  shows "undo_inv handled (undo_do_undo_redo cb flags a w)
    \<and> set (item_addrs (undo_do_undo_redo cb flags a w)) = set (item_addrs w)"
proof -
  have k: "list_all known (from_list a (uw_undo w))" "distinct (addrs (from_list a (uw_undo w)))"
    using assms unfolding undo_inv_def item_addrs_def by (cases a; auto simp: list_all_iff)+
  from do_moves_some [OF k] obtain pre run post where
    m: "from_list a (uw_undo w) = pre @ run @ post" "uw_undo (undo_do_undo_redo cb flags a w) = moved a run (pre @ post) (uw_undo w)"
    by blast
  have "freed_items (undo_do_undo_redo cb flags a w) = freed_items w" by (rule do_freed [OF k(1)])
  then show ?thesis
    using assms m(1) unfolding undo_inv_def item_addrs_def m(2) moved_def by (cases a) (auto simp: rev_map [symmetric])
qed

lemma undo_step_keeps: "undo_step cb handled w w' \<Longrightarrow> undo_inv handled w \<Longrightarrow> undo_inv handled w' \<and> items_kept w w'"
proof (induction rule: undo_step.induct)
  case (group_start addr w ts type)
  have "addr \<notin> set (item_addrs (undo_upd (\<lambda>u. u\<lparr>un_group := type, un_group_indent := 1\<rparr>) w))"
    using group_start(1) by (simp add: item_addrs_def)
  with group_start show ?case
    by (auto simp: dt_undo_start_group_def undo_inv_upd record_inv items_kept_def record_addrs item_addrs_upd)
next
  case (group_stop addr w ts w')
  have "addr \<notin> set (item_addrs (undo_upd (\<lambda>u. u\<lparr>un_group_indent := un_group_indent u - 1\<rparr>) w))"
    using group_stop(1) by (simp add: item_addrs_def)
  with group_stop show ?case
    by (auto simp: dt_undo_end_group_def undo_inv_upd record_inv items_kept_def record_addrs item_addrs_upd Let_def
        split: if_splits)
next
  case (record_item addr w u type data ts undo fr)
  then show ?case by (auto simp: dt_undo_record_def record_inv items_kept_def record_addrs)
next
  case (undo_items w flags)
  with action_inv [of "undo_effects [Set_Cursor_Busy True] w" flags DT_ACTION_UNDO] show ?case
    by (simp add: dt_undo_do_undo_def items_kept_def)
next
  case (redo_items w flags)
  with action_inv [of "undo_effects [Set_Cursor_Busy True] w" flags DT_ACTION_REDO] show ?case
    by (simp add: dt_undo_do_redo_def items_kept_def)
next
  case (clear_items w flags)
  let ?u = "un_undo_list (uw_undo w)" and ?r = "un_redo_list (uw_undo w)"
  have a: "item_addrs (dt_undo_clear flags w)
      = freed_items w @ addrs (filter (undo_matches flags) ?u) @ addrs (filter (undo_matches flags) ?r)"
    by (simp add: dt_undo_clear_def item_addrs_def freed_effects Let_def split_beta clear_list_freed)
  have d: "distinct (addrs ?u @ addrs ?r @ freed_items w)" using clear_items by (simp add: undo_inv_def item_addrs_def)
  then have "distinct (item_addrs (dt_undo_clear flags w))" unfolding a by (auto simp: distinct_map_filter)
  moreover have "set (item_addrs w) - set (item_addrs (dt_undo_clear flags w))
      = ui_addr ` {item \<in> set (?u @ ?r). \<not> undo_matches flags item}"
  proof -
    have "distinct (addrs (?u @ ?r))" using d by auto
    then have inj: "inj_on ui_addr (set (?u @ ?r))" by (simp only: distinct_map)
    have split: "set (item_addrs w) = ui_addr ` set (?u @ ?r) \<union> set (freed_items w)" by (auto simp: item_addrs_def)
    have rest: "set (item_addrs (dt_undo_clear flags w))
        = set (freed_items w) \<union> ui_addr ` {item \<in> set (?u @ ?r). undo_matches flags item}"
      unfolding a by auto
    have "ui_addr ` set (?u @ ?r) \<inter> set (freed_items w) = {}" using d by auto
    with kept_image [OF inj, of "undo_matches flags"] show ?thesis unfolding split rest by blast
  qed
  ultimately show ?case unfolding items_kept_def
    by (auto simp: undo_inv_def) (simp_all add: dt_undo_clear_def Let_def split_beta)
next
  case (disable_next w)
  then show ?case by (simp add: dt_undo_disable_next_def undo_inv_upd items_kept_def item_addrs_upd)
next
  case (other_change w' w)
  then show ?case by (simp add: undo_inv_def item_addrs_def items_kept_def)
qed

end

end
