(* ===== verification/Undo_Clients.thy ===== *)
theory Undo_Clients
  imports Undo
begin

unbundle bit_operations_syntax

text \<open>
  Two clients of the undo lists: the ratings (\<open>common/ratings.c\<close>) and the color labels
  (\<open>common/colorlabels.c\<close>) of images, which record what they change and pass their callback along.
\<close>

subsection \<open>The images\<close>

text \<open>
  The flags of the images in the image cache (None: no such image) and the table \<open>color_labels\<close>, whose
  unique index makes it a set of rows.
\<close>

record image_store =
  is_flags :: "int \<Rightarrow> 32 word option"
  is_labels :: "(int \<times> nat) set"

record dt_undo_ratings_t =
  ur_imgid :: int
  ur_before :: int
  ur_after :: int

record dt_undo_colorlabels_t =
  uc_imgid :: int
  uc_before :: "8 word"
  uc_after :: "8 word"

datatype image_undo = Ratings_Undo "dt_undo_ratings_t list" | Labels_Undo "dt_undo_colorlabels_t list"

type_synonym image_world = "(image_undo, image_store) undo_world"

text \<open>The addresses of the functions that are passed to \<open>dt_undo_record\<close>.\<close>

definition RATINGS_POP_UNDO :: nat where "RATINGS_POP_UNDO = 1"
definition RATINGS_DATA_FREE :: nat where "RATINGS_DATA_FREE = 2"
definition LABELS_POP_UNDO :: nat where "LABELS_POP_UNDO = 3"
definition LABELS_DATA_FREE :: nat where "LABELS_DATA_FREE = 4"

definition dt_is_valid_imgid :: "int \<Rightarrow> bool" where
  "dt_is_valid_imgid n \<longleftrightarrow> n > 0"

definition store_upd :: "(image_store \<Rightarrow> image_store) \<Rightarrow> image_world \<Rightarrow> image_world" where
  "store_upd f w = w\<lparr>uw_rest := f (uw_rest w)\<rparr>"

subsection \<open>Ratings\<close>

definition DT_VIEW_RATINGS_MASK :: "32 word" where "DT_VIEW_RATINGS_MASK = 7"
definition DT_IMAGE_REJECTED :: "32 word" where "DT_IMAGE_REJECTED = 8"
definition DT_VIEW_DESERT :: int where "DT_VIEW_DESERT = 0"
definition DT_VIEW_STAR_1 :: int where "DT_VIEW_STAR_1 = 1"
definition DT_VIEW_STAR_5 :: int where "DT_VIEW_STAR_5 = 5"
definition DT_VIEW_REJECT :: int where "DT_VIEW_REJECT = 6"
definition DT_RATINGS_UPGRADE :: int where "DT_RATINGS_UPGRADE = - 1"
definition DT_RATINGS_DOWNGRADE :: int where "DT_RATINGS_DOWNGRADE = - 2"
definition DT_RATINGS_REJECT :: int where "DT_RATINGS_REJECT = - 3"
definition DT_RATINGS_UNREJECT :: int where "DT_RATINGS_UNREJECT = - 4"

definition dt_ratings_get :: "int \<Rightarrow> image_store \<Rightarrow> int" where
  "dt_ratings_get imgid st =
     (case is_flags st imgid of
        None \<Rightarrow> 0
      | Some flags \<Rightarrow> if flags AND DT_IMAGE_REJECTED \<noteq> 0 then DT_VIEW_REJECT
                      else uint (DT_VIEW_RATINGS_MASK AND flags))"

definition rated_flags :: "int \<Rightarrow> 32 word \<Rightarrow> 32 word" where
  "rated_flags rating flags =
     (if rating = DT_RATINGS_REJECT \<or> rating = DT_VIEW_REJECT then flags OR DT_IMAGE_REJECTED
      else if rating = DT_RATINGS_UNREJECT then flags AND NOT DT_IMAGE_REJECTED
      else (flags AND NOT (DT_IMAGE_REJECTED OR DT_VIEW_RATINGS_MASK))
             OR (DT_VIEW_RATINGS_MASK AND word_of_int rating))"

definition ratings_apply_to_image :: "int \<Rightarrow> int \<Rightarrow> image_world \<Rightarrow> image_world" where
  "ratings_apply_to_image imgid rating w =
     (case is_flags (uw_rest w) imgid of
        None \<Rightarrow> w
      | Some flags \<Rightarrow>
          undo_effects [Image_Written imgid, Metadata_Changed]
            (store_upd (\<lambda>st. st\<lparr>is_flags := (is_flags st)(imgid \<mapsto> rated_flags rating flags)\<rparr>) w))"

definition ratings_list :: "image_undo option \<Rightarrow> dt_undo_ratings_t list" where
  "ratings_list data = (case data of Some (Ratings_Undo rs) \<Rightarrow> rs | _ \<Rightarrow> [])"

definition ratings_pop_undo ::
  "nat \<Rightarrow> 32 word \<Rightarrow> image_undo option \<Rightarrow> dt_undo_action_t \<Rightarrow> int list \<times> image_world \<Rightarrow> int list \<times> image_world" where
  "ratings_pop_undo user_data type data action s =
     (if type = DT_UNDO_RATINGS
      then apsnd (undo_effects [Collection_Hint])
             (fold (\<lambda>r (imgs, w). (ur_imgid r # imgs,
                ratings_apply_to_image (ur_imgid r) (if action = DT_ACTION_UNDO then ur_before r else ur_after r) w))
              (ratings_list data) s)
      else s)"

definition ratings_toggle :: "bool \<Rightarrow> int list \<Rightarrow> int \<Rightarrow> image_store \<Rightarrow> bool" where
  "ratings_toggle double_tap imgs rating st =
     (if rating = DT_VIEW_REJECT then list_all (\<lambda>i. dt_ratings_get i st = DT_VIEW_REJECT) imgs
      else if \<not> double_tap \<and> rating = DT_VIEW_STAR_1 then list_all (\<lambda>i. dt_ratings_get i st = DT_VIEW_STAR_1) imgs
      else False)"

definition new_rating :: "int \<Rightarrow> bool \<Rightarrow> int \<Rightarrow> int" where
  "new_rating rating toggle old_rating =
     (if old_rating = DT_VIEW_REJECT \<and> rating < DT_VIEW_DESERT then DT_VIEW_REJECT
      else if rating = DT_RATINGS_UPGRADE then min DT_VIEW_STAR_5 (old_rating + 1)
      else if rating = DT_RATINGS_DOWNGRADE then max DT_VIEW_DESERT (old_rating - 1)
      else if rating = DT_VIEW_STAR_1 \<and> toggle then DT_VIEW_DESERT
      else if rating = DT_VIEW_REJECT \<and> toggle then DT_RATINGS_UNREJECT
      else if rating = DT_VIEW_REJECT \<and> \<not> toggle then DT_RATINGS_REJECT
      else rating)"

text \<open>The records for the undo lists and the state after rating the images one after the other.\<close>

definition ratings_apply :: "bool \<Rightarrow> int list \<Rightarrow> int \<Rightarrow> bool \<Rightarrow> image_world \<Rightarrow> dt_undo_ratings_t list \<times> image_world" where
  "ratings_apply double_tap imgs rating undo_on w =
     (let toggle = ratings_toggle double_tap imgs rating (uw_rest w);
          w = (if 2 \<le> length imgs then undo_effects [Images_Rated rating (length imgs)] w else w)
      in fold (\<lambda>image_id (undo, w).
           let old_rating = dt_ratings_get image_id (uw_rest w);
               undo = (if undo_on then undo @ [\<lparr>ur_imgid = image_id, ur_before = old_rating, ur_after = rating\<rparr>] else undo)
           in (undo, ratings_apply_to_image image_id (new_rating rating toggle old_rating) w)) imgs ([], w))"

text \<open>\<open>alloc\<close> and \<open>clock\<close> give the memory and the time of the records made.\<close>

definition dt_ratings_apply_on_list ::
  "(nat \<Rightarrow> nat) \<Rightarrow> (nat \<Rightarrow> flt) \<Rightarrow> bool \<Rightarrow> int list \<Rightarrow> int \<Rightarrow> bool \<Rightarrow> image_world \<Rightarrow> image_world option" where
  "dt_ratings_apply_on_list alloc clock double_tap img rating undo_on w =
     (if img = [] then Some w
      else
        let w = undo_effects [Set_Cursor_Busy True] w;
            w = (if undo_on then dt_undo_start_group (alloc 0) (clock 0) DT_UNDO_RATINGS w else w);
            (undo, w) = ratings_apply double_tap img rating undo_on w
        in map_option (undo_effects [Set_Cursor_Busy False, Collection_Hint])
             (if undo_on
              then dt_undo_end_group (alloc 2) (clock 2)
                     (dt_undo_record (alloc 1) (clock 1) 0 DT_UNDO_RATINGS (Some (Ratings_Undo undo))
                        (Some RATINGS_POP_UNDO) (Some RATINGS_DATA_FREE) w)
              else Some w))"

text \<open>\<open>grouped\<close> adds the images of the groups of images.\<close>

definition dt_ratings_apply_on_image ::
  "(nat \<Rightarrow> nat) \<Rightarrow> (nat \<Rightarrow> flt) \<Rightarrow> bool \<Rightarrow> (int list \<Rightarrow> int list) \<Rightarrow> int \<Rightarrow> int \<Rightarrow> bool \<Rightarrow> bool
     \<Rightarrow> image_world \<Rightarrow> image_world option" where
  "dt_ratings_apply_on_image alloc clock double_tap grouped imgid rating undo_on group_on w =
     (let imgs = (if dt_is_valid_imgid imgid then [imgid] else [])
      in if imgs = [] then Some (undo_effects [No_Image_Selected] w)
         else
           let w = (if undo_on then dt_undo_start_group (alloc 0) (clock 0) DT_UNDO_RATINGS w else w);
               imgs = (if group_on then grouped imgs else imgs);
               (undo, w) = ratings_apply double_tap imgs rating undo_on w
           in if undo_on
              then dt_undo_end_group (alloc 2) (clock 2)
                     (dt_undo_record (alloc 1) (clock 1) 0 DT_UNDO_RATINGS (Some (Ratings_Undo undo))
                        (Some RATINGS_POP_UNDO) (Some RATINGS_DATA_FREE) w)
              else Some w)"

subsection \<open>Color labels\<close>

text \<open>The colors are 0 to 31: an \<open>int\<close> has no more bits.\<close>

definition dt_colorlabels_get_labels :: "int \<Rightarrow> image_store \<Rightarrow> 32 word" where
  "dt_colorlabels_get_labels imgid st =
     (if \<not> dt_is_valid_imgid imgid then 0
      else fold (\<lambda>color colors. if (imgid, color) \<in> is_labels st then colors OR push_bit color 1 else colors) [0..<32] 0)"

definition dt_colorlabels_set_label :: "int \<Rightarrow> nat \<Rightarrow> image_world \<Rightarrow> image_world" where
  "dt_colorlabels_set_label imgid color w = store_upd (\<lambda>st. st\<lparr>is_labels := insert (imgid, color) (is_labels st)\<rparr>) w"

definition dt_colorlabels_remove_label :: "int \<Rightarrow> nat \<Rightarrow> image_world \<Rightarrow> image_world" where
  "dt_colorlabels_remove_label imgid color w =
     (if \<not> dt_is_valid_imgid imgid then w
      else store_upd (\<lambda>st. st\<lparr>is_labels := is_labels st - {(imgid, color)}\<rparr>) w)"

definition dt_colorlabels_remove_all_labels :: "int \<Rightarrow> image_world \<Rightarrow> image_world" where
  "dt_colorlabels_remove_all_labels imgid w =
     (if \<not> dt_is_valid_imgid imgid then w
      else store_upd (\<lambda>st. st\<lparr>is_labels := {row \<in> is_labels st. fst row \<noteq> imgid}\<rparr>) w)"

definition pop_undo_label :: "int \<Rightarrow> 8 word \<Rightarrow> 8 word \<Rightarrow> nat \<Rightarrow> image_world \<Rightarrow> image_world" where
  "pop_undo_label imgid before after color w =
     (if bit after color
      then if \<not> bit before color then dt_colorlabels_set_label imgid color w else w
      else if bit before color then dt_colorlabels_remove_label imgid color w else w)"

definition pop_undo_execute :: "int \<Rightarrow> 8 word \<Rightarrow> 8 word \<Rightarrow> image_world \<Rightarrow> image_world" where
  "pop_undo_execute imgid before after w =
     (if \<not> dt_is_valid_imgid imgid then w
      else fold (pop_undo_label imgid before after) [0..<5] w)"

definition labels_list :: "image_undo option \<Rightarrow> dt_undo_colorlabels_t list" where
  "labels_list data = (case data of Some (Labels_Undo ls) \<Rightarrow> ls | _ \<Rightarrow> [])"

definition labels_pop_undo ::
  "nat \<Rightarrow> 32 word \<Rightarrow> image_undo option \<Rightarrow> dt_undo_action_t \<Rightarrow> int list \<times> image_world \<Rightarrow> int list \<times> image_world" where
  "labels_pop_undo user_data type data action s =
     (if type = DT_UNDO_COLORLABELS
      then apsnd (undo_effects [Collection_Hint])
             (fold (\<lambda>l (imgs, w). (uc_imgid l # imgs,
                pop_undo_execute (uc_imgid l) (if action = DT_ACTION_UNDO then uc_after l else uc_before l)
                  (if action = DT_ACTION_UNDO then uc_before l else uc_after l) w))
              (labels_list data) s)
      else s)"

datatype dt_colorlabels_actions_t = DT_CA_SET | DT_CA_ADD | DT_CA_TOGGLE

definition new_labels :: "dt_colorlabels_actions_t \<Rightarrow> 32 word \<Rightarrow> 8 word \<Rightarrow> 8 word" where
  "new_labels action labels before =
     (case action of
        DT_CA_SET \<Rightarrow> ucast labels
      | DT_CA_ADD \<Rightarrow> ucast (ucast before OR labels)
      | DT_CA_TOGGLE \<Rightarrow> if ucast before AND labels \<noteq> 0 then ucast (ucast before AND NOT labels) else ucast (ucast before OR labels))"

definition colorlabels_execute ::
  "int list \<Rightarrow> 32 word \<Rightarrow> bool \<Rightarrow> dt_colorlabels_actions_t \<Rightarrow> image_world \<Rightarrow> dt_undo_colorlabels_t list \<times> image_world" where
  "colorlabels_execute imgs labels undo_on action w =
     (let w = undo_effects [Set_Cursor_Busy True] w;
          all_labelled = list_all (\<lambda>i. ucast (ucast (dt_colorlabels_get_labels i (uw_rest w)) :: 8 word) AND labels \<noteq> 0) imgs;
          action = (if action = DT_CA_TOGGLE \<and> \<not> all_labelled then DT_CA_ADD else action)
      in apsnd (undo_effects [Set_Cursor_Busy False, Metadata_Changed])
           (fold (\<lambda>imgid (undo, w).
              let before = ucast (dt_colorlabels_get_labels imgid (uw_rest w));
                  after = new_labels action labels before;
                  undo = (if undo_on then undo @ [\<lparr>uc_imgid = imgid, uc_before = before, uc_after = after\<rparr>] else undo)
              in (undo, pop_undo_execute imgid before after w)) imgs ([], w)))"

definition labels_recorded ::
  "(nat \<Rightarrow> nat) \<Rightarrow> (nat \<Rightarrow> flt) \<Rightarrow> bool \<Rightarrow> dt_undo_colorlabels_t list \<Rightarrow> image_world \<Rightarrow> image_world option" where
  "labels_recorded alloc clock undo_on undo w =
     (if undo_on
      then dt_undo_end_group (alloc 2) (clock 2)
             (dt_undo_record (alloc 1) (clock 1) 0 DT_UNDO_COLORLABELS (Some (Labels_Undo undo))
                (Some LABELS_POP_UNDO) (Some LABELS_DATA_FREE) w)
      else Some w)"

definition dt_colorlabels_set_labels ::
  "(nat \<Rightarrow> nat) \<Rightarrow> (nat \<Rightarrow> flt) \<Rightarrow> int list \<Rightarrow> 32 word \<Rightarrow> bool \<Rightarrow> bool \<Rightarrow> image_world \<Rightarrow> image_world option" where
  "dt_colorlabels_set_labels alloc clock img labels clear_on undo_on w =
     (if img = [] then Some w
      else
        let w = (if undo_on then dt_undo_start_group (alloc 0) (clock 0) DT_UNDO_COLORLABELS w else w);
            (undo, w) = colorlabels_execute img labels undo_on (if clear_on then DT_CA_SET else DT_CA_ADD) w
        in map_option (undo_effects [Collection_Hint]) (labels_recorded alloc clock undo_on undo w))"

definition dt_colorlabels_toggle_label_on_list ::
  "(nat \<Rightarrow> nat) \<Rightarrow> (nat \<Rightarrow> flt) \<Rightarrow> int list \<Rightarrow> nat \<Rightarrow> bool \<Rightarrow> image_world \<Rightarrow> image_world option" where
  "dt_colorlabels_toggle_label_on_list alloc clock img color undo_on w =
     (let w = undo_effects [Set_Cursor_Busy True] w;
          label = push_bit color 1;
          w = (if undo_on then dt_undo_start_group (alloc 0) (clock 0) DT_UNDO_COLORLABELS w else w);
          (undo, w) = (if color = 5 then colorlabels_execute img 0 undo_on DT_CA_SET w
                       else colorlabels_execute img label undo_on DT_CA_TOGGLE w);
          w = undo_effects [Images_Synched img] w
      in map_option (undo_effects [Set_Cursor_Busy False, Collection_Hint]) (labels_recorded alloc clock undo_on undo w))"

definition dt_colorlabels_check_label :: "int \<Rightarrow> nat \<Rightarrow> image_store \<Rightarrow> bool" where
  "dt_colorlabels_check_label imgid color st \<longleftrightarrow> dt_is_valid_imgid imgid \<and> (imgid, color) \<in> is_labels st"

definition DT_COLORLABELS_LAST :: int where "DT_COLORLABELS_LAST = 5"

definition dt_colorlabels_name :: "string list" where
  "dt_colorlabels_name = [''red'', ''yellow'', ''green'', ''blue'', ''purple'']"

definition dt_colorlabels_to_string :: "int \<Rightarrow> string" where
  "dt_colorlabels_to_string label =
     (if label < 0 \<or> DT_COLORLABELS_LAST \<le> label then [] else dt_colorlabels_name ! nat label)"

text \<open>The callbacks of the two clients; those of the others are an argument.\<close>

definition image_callbacks :: "(image_undo, image_store) undo_callbacks \<Rightarrow> (image_undo, image_store) undo_callbacks" where
  "image_callbacks other f user_data type data action s =
     (if f = RATINGS_POP_UNDO then ratings_pop_undo user_data type data action s
      else if f = LABELS_POP_UNDO then labels_pop_undo user_data type data action s
      else other f user_data type data action s)"

subsection \<open>What the callbacks do to the images\<close>

definition rate_store :: "int \<Rightarrow> int \<Rightarrow> image_store \<Rightarrow> image_store" where
  "rate_store imgid rating st = st\<lparr>is_flags := (is_flags st)(imgid := map_option (rated_flags rating) (is_flags st imgid))\<rparr>"

definition label_store :: "int \<Rightarrow> 8 word \<Rightarrow> 8 word \<Rightarrow> image_store \<Rightarrow> image_store" where
  "label_store imgid before after st = st\<lparr>is_labels := {(i, c). if dt_is_valid_imgid imgid \<and> i = imgid \<and> c < 5 \<and> bit after c \<noteq> bit before c
     then bit after c else (i, c) \<in> is_labels st}\<rparr>"

definition ratings_rest :: "dt_undo_action_t \<Rightarrow> dt_undo_ratings_t list \<Rightarrow> image_store \<Rightarrow> image_store" where
  "ratings_rest a rs st = fold (\<lambda>r. rate_store (ur_imgid r) (if a = DT_ACTION_UNDO then ur_before r else ur_after r)) rs st"

definition labels_rest :: "dt_undo_action_t \<Rightarrow> dt_undo_colorlabels_t list \<Rightarrow> image_store \<Rightarrow> image_store" where
  "labels_rest a ls st = fold (\<lambda>l. label_store (uc_imgid l) (if a = DT_ACTION_UNDO then uc_after l else uc_before l)
     (if a = DT_ACTION_UNDO then uc_before l else uc_after l)) ls st"

definition image_rest :: "dt_undo_action_t \<Rightarrow> image_undo dt_undo_item_t \<Rightarrow> image_store \<Rightarrow> image_store" where
  "image_rest a item st =
     (if ui_undo item = Some RATINGS_POP_UNDO \<and> ui_type item = DT_UNDO_RATINGS then ratings_rest a (ratings_list (ui_data item)) st
      else if ui_undo item = Some LABELS_POP_UNDO \<and> ui_type item = DT_UNDO_COLORLABELS then labels_rest a (labels_list (ui_data item)) st
      else st)"

definition of_images :: "image_undo dt_undo_item_t \<Rightarrow> bool" where
  "of_images item \<longleftrightarrow> ui_undo item = Some RATINGS_POP_UNDO \<or> ui_undo item = Some LABELS_POP_UNDO"

text \<open>What the operations on the images leave alone.\<close>

definition undo_view :: "image_world \<Rightarrow> image_undo dt_undo_t \<times> nat list" where
  "undo_view w = (uw_undo w, freed_items w)"

lemma store_upd_simps [simp]:
  "uw_rest (store_upd f w) = f (uw_rest w)" "undo_view (store_upd f w) = undo_view w"
  by (simp_all add: store_upd_def undo_view_def freed_items_def)

lemma undo_view_effects [simp]: "concat (map freed_by es) = [] \<Longrightarrow> undo_view (undo_effects es w) = undo_view w"
  by (simp add: undo_view_def freed_effects)

lemma apply_to_image_result [simp]:
  "uw_rest (ratings_apply_to_image i r w) = rate_store i r (uw_rest w)" "undo_view (ratings_apply_to_image i r w) = undo_view w"
  by (simp_all add: ratings_apply_to_image_def rate_store_def fun_upd_idem split: option.splits)

lemma pop_undo_execute_result [simp]:
  "uw_rest (pop_undo_execute i b a w) = label_store i b a (uw_rest w)" "undo_view (pop_undo_execute i b a w) = undo_view w"
proof -
  have v: "undo_view (pop_undo_label i b a c w) = undo_view w" for c w
    by (simp add: pop_undo_label_def dt_colorlabels_set_label_def dt_colorlabels_remove_label_def)
  have "undo_view (fold (pop_undo_label i b a) cs w) = undo_view w" for cs
    by (induction cs arbitrary: w) (simp_all add: v)
  then show "undo_view (pop_undo_execute i b a w) = undo_view w" by (simp add: pop_undo_execute_def)
  have s: "uw_rest (pop_undo_label i b a c w) = (uw_rest w)\<lparr>is_labels := {(j, d). if j = i \<and> d = c \<and> bit a d \<noteq> bit b d
      then bit a d else (j, d) \<in> is_labels (uw_rest w)}\<rparr>" if "dt_is_valid_imgid i" for c w
    using that by (auto simp: pop_undo_label_def dt_colorlabels_set_label_def dt_colorlabels_remove_label_def store_upd_def
        intro!: image_store.equality)
  have "uw_rest (fold (pop_undo_label i b a) [0..<n] w) = (uw_rest w)\<lparr>is_labels := {(j, d). if j = i \<and> d < n \<and> bit a d \<noteq> bit b d
      then bit a d else (j, d) \<in> is_labels (uw_rest w)}\<rparr>" if v: "dt_is_valid_imgid i" for n
  proof (induction n)
    case (Suc n)
    have "uw_rest (fold (pop_undo_label i b a) [0..<Suc n] w) = uw_rest (pop_undo_label i b a n (fold (pop_undo_label i b a) [0..<n] w))"
      by simp
    also have "\<dots> = (uw_rest w)\<lparr>is_labels := {(j, d). if j = i \<and> d < Suc n \<and> bit a d \<noteq> bit b d
      then bit a d else (j, d) \<in> is_labels (uw_rest w)}\<rparr>"
      unfolding s [OF v] Suc by (rule image_store.equality) (auto simp: less_Suc_eq)
    finally show ?case .
  qed (auto intro!: image_store.equality)
  from this [of 5] show "uw_rest (pop_undo_execute i b a w) = label_store i b a (uw_rest w)"
    by (cases "dt_is_valid_imgid i") (auto simp: pop_undo_execute_def label_store_def intro!: image_store.equality)
qed

lemma fold_pair_result:
  assumes "\<And>x w. uw_rest (f x w) = g x (uw_rest w)" "\<And>x w. undo_view (f x w) = undo_view w"
  shows "uw_rest (snd (fold (\<lambda>x (imgs, w). (h x # imgs, f x w)) xs s)) = fold g xs (uw_rest (snd s))
    \<and> undo_view (snd (fold (\<lambda>x (imgs, w). (h x # imgs, f x w)) xs s)) = undo_view (snd s)"
  using assms by (induction xs arbitrary: s) (auto simp: split_beta)

lemma image_callbacks_result:
  assumes "of_images item"
  shows "uw_rest (snd (call_undo (image_callbacks other) a item s)) = image_rest a item (uw_rest (snd s))"
    and "undo_view (snd (call_undo (image_callbacks other) a item s)) = undo_view (snd s)"
proof -
  have ne: "RATINGS_POP_UNDO \<noteq> LABELS_POP_UNDO" by (simp add: RATINGS_POP_UNDO_def LABELS_POP_UNDO_def)
  note r = fold_pair_result [of "\<lambda>r. ratings_apply_to_image (ur_imgid r) (if a = DT_ACTION_UNDO then ur_before r else ur_after r)"
      "\<lambda>r. rate_store (ur_imgid r) (if a = DT_ACTION_UNDO then ur_before r else ur_after r)" ur_imgid "ratings_list (ui_data item)" s]
  note l = fold_pair_result [of "\<lambda>l. pop_undo_execute (uc_imgid l) (if a = DT_ACTION_UNDO then uc_after l else uc_before l)
        (if a = DT_ACTION_UNDO then uc_before l else uc_after l)"
      "\<lambda>l. label_store (uc_imgid l) (if a = DT_ACTION_UNDO then uc_after l else uc_before l)
        (if a = DT_ACTION_UNDO then uc_before l else uc_after l)" uc_imgid "labels_list (ui_data item)" s]
  show "uw_rest (snd (call_undo (image_callbacks other) a item s)) = image_rest a item (uw_rest (snd s))"
    "undo_view (snd (call_undo (image_callbacks other) a item s)) = undo_view (snd s)"
    using assms ne r l
    by (auto simp: of_images_def call_undo_def image_callbacks_def image_rest_def ratings_pop_undo_def labels_pop_undo_def
        ratings_rest_def labels_rest_def)
qed

interpretation images: undo_client "image_callbacks other" of_images image_rest for other
  using image_callbacks_result by unfold_locales (simp_all add: undo_view_def)

subsection \<open>Color labels can be undone\<close>

text \<open>The rows of the images of some records agree with the colors \<open>p\<close>; the other rows.\<close>

definition label_matches :: "(dt_undo_colorlabels_t \<Rightarrow> 8 word) \<Rightarrow> dt_undo_colorlabels_t list \<Rightarrow> image_store \<Rightarrow> bool" where
  "label_matches p ls st \<longleftrightarrow> (\<forall>l \<in> set ls. dt_is_valid_imgid (uc_imgid l)
     \<longrightarrow> (\<forall>c<5. (uc_imgid l, c) \<in> is_labels st \<longleftrightarrow> bit (p l) c))"

definition other_rows :: "dt_undo_colorlabels_t list \<Rightarrow> image_store \<Rightarrow> (int \<times> nat) set" where
  "other_rows ls st = {(i, c) \<in> is_labels st. \<not> (c < 5 \<and> dt_is_valid_imgid i \<and> i \<in> uc_imgid ` set ls)}"

lemma labels_run:
  assumes "label_matches p ls st" "distinct (map uc_imgid ls)"
    and "st' = fold (\<lambda>l. label_store (uc_imgid l) (p l) (q l)) ls st"
  shows "label_matches q ls st' \<and> is_flags st' = is_flags st
    \<and> (\<forall>i c. \<not> (c < 5 \<and> dt_is_valid_imgid i \<and> i \<in> uc_imgid ` set ls) \<longrightarrow> ((i, c) \<in> is_labels st' \<longleftrightarrow> (i, c) \<in> is_labels st))"
  using assms
proof (induction ls arbitrary: st)
  case (Cons l ls)
  let ?s = "label_store (uc_imgid l) (p l) (q l) st"
  have "uc_imgid k \<noteq> uc_imgid l" if "k \<in> set ls" for k using Cons.prems(2) that by (metis distinct.simps(2) image_eqI list.simps(9) set_map)
  then have m: "label_matches p ls ?s" using Cons.prems(1) by (auto simp: label_matches_def label_store_def)
  have "distinct (map uc_imgid ls)" "st' = fold (\<lambda>l. label_store (uc_imgid l) (p l) (q l)) ls ?s" using Cons.prems(2,3) by simp_all
  from Cons.IH [OF m this] have ih: "label_matches q ls st'" "is_flags st' = is_flags ?s"
    "\<forall>i c. \<not> (c < 5 \<and> dt_is_valid_imgid i \<and> i \<in> uc_imgid ` set ls) \<longrightarrow> ((i, c) \<in> is_labels st' \<longleftrightarrow> (i, c) \<in> is_labels ?s)"
    by blast+
  have "(uc_imgid l, c) \<in> is_labels st' \<longleftrightarrow> bit (q l) c" if "dt_is_valid_imgid (uc_imgid l)" "c < 5" for c
  proof -
    have "(uc_imgid l, c) \<in> is_labels st' \<longleftrightarrow> (uc_imgid l, c) \<in> is_labels ?s" using ih(3) Cons.prems(2) by auto
    then show ?thesis using that Cons.prems(1) by (auto simp: label_store_def label_matches_def)
  qed
  then show ?case using ih by (auto simp: label_matches_def label_store_def)
qed (simp add: label_matches_def)

lemma labels_rest_run:
  "labels_rest a ls st = fold (\<lambda>l. label_store (uc_imgid l) ((if a = DT_ACTION_UNDO then uc_after else uc_before) l)
     ((if a = DT_ACTION_UNDO then uc_before else uc_after) l)) ls st"
  unfolding labels_rest_def by (cases a) simp_all

lemma labels_inverse:
  assumes "label_matches uc_before ls st" "distinct (map uc_imgid ls)"
  shows "labels_rest DT_ACTION_UNDO ls (labels_rest DT_ACTION_REDO ls st) = st"
proof -
  let ?s = "labels_rest DT_ACTION_REDO ls st" and ?t = "labels_rest DT_ACTION_UNDO ls (labels_rest DT_ACTION_REDO ls st)"
  note 1 = labels_run [OF assms, of ?s uc_after, unfolded labels_rest_run, simplified]
  note 2 = labels_run [OF conjunct1 [OF 1] assms(2), of _ uc_before, OF refl]
  have "is_labels ?t = is_labels st"
  proof (rule set_eqI)
    fix row :: "int \<times> nat"
    obtain i c where row: "row = (i, c)" by fastforce
    show "row \<in> is_labels ?t \<longleftrightarrow> row \<in> is_labels st"
    proof (cases "c < 5 \<and> dt_is_valid_imgid i \<and> i \<in> uc_imgid ` set ls")
      case True
      then obtain l where "l \<in> set ls" "i = uc_imgid l" by blast
      moreover have "label_matches uc_before ls ?t" using 2 by (simp add: labels_rest_run)
      ultimately show ?thesis using True assms(1) unfolding row label_matches_def by blast
    next
      case False
      then show ?thesis using 1 2 unfolding row labels_rest_run by simp
    qed
  qed
  moreover have "is_flags ?t = is_flags st" using 1 2 unfolding labels_rest_run by simp
  ultimately show ?thesis by simp
qed

text \<open>The items of color labels, each for images that are named once, in the state they were recorded for.\<close>

definition label_item :: "image_undo dt_undo_item_t \<Rightarrow> bool" where
  "label_item item \<longleftrightarrow> ui_undo item = Some LABELS_POP_UNDO \<and> ui_type item = DT_UNDO_COLORLABELS
     \<and> distinct (map uc_imgid (labels_list (ui_data item)))"

definition label_fits :: "image_undo dt_undo_item_t \<Rightarrow> image_store \<Rightarrow> bool" where
  "label_fits item st \<longleftrightarrow> label_matches uc_before (labels_list (ui_data item)) st"

lemma label_item_rest: "label_item item \<Longrightarrow> image_rest a item st = labels_rest a (labels_list (ui_data item)) st"
  by (simp add: label_item_def image_rest_def RATINGS_POP_UNDO_def LABELS_POP_UNDO_def)

interpretation labels: reversible_client "image_callbacks other" label_item image_rest label_fits for other
proof
  fix item a s
  assume "label_item item"
  then have "of_images item" by (simp add: label_item_def of_images_def)
  from images.quiet [OF this, of other a s] images.frees_none [OF this, of other a s] images.acts [OF this, of other a s]
  show "uw_undo (snd (call_undo (image_callbacks other) a item s)) = uw_undo (snd s)"
    "freed_items (snd (call_undo (image_callbacks other) a item s)) = freed_items (snd s)"
    "uw_rest (snd (call_undo (image_callbacks other) a item s)) = image_rest a item (uw_rest (snd s))" by blast+
next
  fix item r
  assume "label_item item" "label_fits item r"
  then show "image_rest DT_ACTION_UNDO item (image_rest DT_ACTION_REDO item r) = r"
    by (simp add: label_item_rest label_fits_def labels_inverse label_item_def)
qed

subsection \<open>What is recorded\<close>

lemma get_labels_bit:
  "c < 8 \<Longrightarrow> bit (ucast (dt_colorlabels_get_labels i st) :: 8 word) c \<longleftrightarrow> dt_is_valid_imgid i \<and> (i, c) \<in> is_labels st"
proof -
  assume c: "c < 8"
  have "bit (fold (\<lambda>color colors. if (i, color) \<in> is_labels st then colors OR push_bit color 1 else colors) [0..<n] (0 :: 32 word)) c
      \<longleftrightarrow> c < n \<and> (i, c) \<in> is_labels st" if "n \<le> 32" for n
    using that c by (induction n) (auto simp: bit_or_iff bit_exp_iff less_Suc_eq)
  from this [of 32] c show ?thesis by (simp add: dt_colorlabels_get_labels_def bit_ucast_iff)
qed

text \<open>What the loop over the images records is what it does, and the records name the labels there were.\<close>

definition label_records :: "dt_colorlabels_actions_t \<Rightarrow> 32 word \<Rightarrow> int list \<Rightarrow> image_store \<Rightarrow> dt_undo_colorlabels_t list" where
  "label_records action labels imgs st = map (\<lambda>i. let before = ucast (dt_colorlabels_get_labels i st)
     in \<lparr>uc_imgid = i, uc_before = before, uc_after = new_labels action labels before\<rparr>) imgs"

lemma label_store_other: "j \<noteq> i \<Longrightarrow> dt_colorlabels_get_labels j (label_store i b a st) = dt_colorlabels_get_labels j st"
  by (simp add: dt_colorlabels_get_labels_def label_store_def)

lemma label_records_other: "i \<notin> set imgs \<Longrightarrow> label_records action labels imgs (label_store i b a st) = label_records action labels imgs st"
proof -
  assume "i \<notin> set imgs"
  then have "dt_colorlabels_get_labels j (label_store i b a st) = dt_colorlabels_get_labels j st" if "j \<in> set imgs" for j
    using that by (intro label_store_other) auto
  then show ?thesis by (simp add: label_records_def cong: map_cong)
qed

lemma execute_result:
  assumes "distinct imgs" "(undo, w') = colorlabels_execute imgs labels True action w"
  shows "\<exists>action. undo = label_records action labels imgs (uw_rest w)
    \<and> uw_rest w' = labels_rest DT_ACTION_REDO undo (uw_rest w) \<and> undo_view w' = undo_view w"
proof -
  have loop: "fst (fold (\<lambda>imgid (undo, w).
              let before = ucast (dt_colorlabels_get_labels imgid (uw_rest w));
                  after = new_labels act labels before;
                  undo = (if True then undo @ [\<lparr>uc_imgid = imgid, uc_before = before, uc_after = after\<rparr>] else undo)
              in (undo, pop_undo_execute imgid before after w)) imgs (us, w)) = us @ label_records act labels imgs (uw_rest w)
    \<and> uw_rest (snd (fold (\<lambda>imgid (undo, w).
              let before = ucast (dt_colorlabels_get_labels imgid (uw_rest w));
                  after = new_labels act labels before;
                  undo = (if True then undo @ [\<lparr>uc_imgid = imgid, uc_before = before, uc_after = after\<rparr>] else undo)
              in (undo, pop_undo_execute imgid before after w)) imgs (us, w)))
        = labels_rest DT_ACTION_REDO (label_records act labels imgs (uw_rest w)) (uw_rest w)
    \<and> undo_view (snd (fold (\<lambda>imgid (undo, w).
              let before = ucast (dt_colorlabels_get_labels imgid (uw_rest w));
                  after = new_labels act labels before;
                  undo = (if True then undo @ [\<lparr>uc_imgid = imgid, uc_before = before, uc_after = after\<rparr>] else undo)
              in (undo, pop_undo_execute imgid before after w)) imgs (us, w))) = undo_view w"
    for act us w
    using assms(1)
  proof (induction imgs arbitrary: us w)
    case (Cons i imgs)
    then show ?case
      by (simp add: Let_def label_records_other labels_rest_def) (simp add: label_records_def Let_def)
  qed (simp add: label_records_def labels_rest_def)
  show ?thesis
    using assms(2) loop [of _ "[]" "undo_effects [Set_Cursor_Busy True] w"]
    unfolding colorlabels_execute_def Let_def by (auto simp: prod_eq_iff)
qed

lemma records_match:
  "label_matches uc_before (label_records action labels imgs st) st" "map uc_imgid (label_records action labels imgs st) = imgs"
  by (auto simp: label_matches_def label_records_def Let_def get_labels_bit comp_def)

text \<open>A group of one item was recorded for what happened between \<open>w\<close> and \<open>w'\<close>.\<close>

definition labels_done :: "(nat \<Rightarrow> nat) \<Rightarrow> (nat \<Rightarrow> flt) \<Rightarrow> image_world \<Rightarrow> image_undo dt_undo_item_t \<Rightarrow> image_world \<Rightarrow> bool" where
  "labels_done alloc clock w item w' \<longleftrightarrow> label_item item \<and> label_fits item (uw_rest w) \<and> \<not> ui_is_group item
    \<and> ui_addr item = alloc 1 \<and> ui_type item = DT_UNDO_COLORLABELS
    \<and> un_undo_list (uw_undo w') = [group_marker (alloc 2) (clock 2) DT_UNDO_COLORLABELS, item,
          group_marker (alloc 0) (clock 0) DT_UNDO_COLORLABELS] @ un_undo_list (uw_undo w)
    \<and> un_redo_list (uw_undo w') = [] \<and> un_group (uw_undo w') = DT_UNDO_NONE \<and> \<not> un_disable_next (uw_undo w')
    \<and> uw_rest w' = image_rest DT_ACTION_REDO item (uw_rest w)"

lemma label_group_result:
  assumes idle: "un_group (uw_undo w) = DT_UNDO_NONE" "\<not> un_disable_next (uw_undo w)" and imgs: "distinct imgs"
    and v: "(undo, v) = colorlabels_execute imgs labels True action (dt_undo_start_group (alloc 0) (clock 0) DT_UNDO_COLORLABELS w)"
    and v': "uw_undo v' = uw_undo v" "uw_rest v' = uw_rest v"
  shows "\<exists>w' item. labels_recorded alloc clock True undo v' = Some w' \<and> labels_done alloc clock w item w'"
proof -
  let ?w1 = "dt_undo_start_group (alloc 0) (clock 0) DT_UNDO_COLORLABELS w"
  have rest: "uw_rest ?w1 = uw_rest w"
    by (simp add: dt_undo_start_group_def undo_record_def Let_def)
  from execute_result [OF imgs v] obtain act where
    x: "undo = label_records act labels imgs (uw_rest w)" "uw_rest v = labels_rest DT_ACTION_REDO undo (uw_rest w)"
    "undo_view v = undo_view ?w1" by (auto simp: rest)
  let ?item = "\<lparr>ui_addr = alloc 1, ui_user_data = 0, ui_type = DT_UNDO_COLORLABELS, ui_data = Some (Labels_Undo undo),
     ui_ts = clock 1, ui_is_group = False, ui_undo = Some LABELS_POP_UNDO, ui_free_data = Some LABELS_DATA_FREE\<rparr>"
  have type: "DT_UNDO_COLORLABELS \<noteq> DT_UNDO_NONE" by (simp add: DT_UNDO_COLORLABELS_def DT_UNDO_NONE_def)
  have "uw_undo v' = uw_undo ?w1" using x(3) v'(1) by (simp add: undo_view_def)
  from group_recorded [OF idle type refl this refl, of "alloc 2" "clock 2" "alloc 1" "clock 1" 0 "Some (Labels_Undo undo)"
      "Some LABELS_POP_UNDO" "Some LABELS_DATA_FREE"] obtain w' where
    w': "labels_recorded alloc clock True undo v' = Some w'"
    "un_undo_list (uw_undo w') = [group_marker (alloc 2) (clock 2) DT_UNDO_COLORLABELS, ?item,
          group_marker (alloc 0) (clock 0) DT_UNDO_COLORLABELS] @ un_undo_list (uw_undo w)"
    "un_redo_list (uw_undo w') = []" "un_group (uw_undo w') = DT_UNDO_NONE" "\<not> un_disable_next (uw_undo w')"
    "uw_rest w' = uw_rest v'" by (auto simp: labels_recorded_def)
  have item: "label_item ?item" "label_fits ?item (uw_rest w)"
    using imgs by (simp_all add: label_item_def label_fits_def labels_list_def x(1) records_match)
  have "uw_rest w' = image_rest DT_ACTION_REDO ?item (uw_rest w)"
    using w'(6) v'(2) x(2) item(1) by (simp add: label_item_rest labels_list_def)
  then show ?thesis using w' item unfolding labels_done_def by (intro exI [of _ w'] exI [of _ ?item]) simp
qed

lemma labels_done_effects [simp]: "labels_done alloc clock w item (undo_effects es w') = labels_done alloc clock w item w'"
  by (simp add: labels_done_def)

lemma set_labels_result:
  assumes "un_group (uw_undo w) = DT_UNDO_NONE" "\<not> un_disable_next (uw_undo w)" "distinct imgs" "imgs \<noteq> []"
  shows "\<exists>w' item. dt_colorlabels_set_labels alloc clock imgs labels clear_on True w = Some w' \<and> labels_done alloc clock w item w'"
proof -
  let ?ca = "if clear_on then DT_CA_SET else DT_CA_ADD"
  obtain undo v where v: "(undo, v) = colorlabels_execute imgs labels True ?ca (dt_undo_start_group (alloc 0) (clock 0) DT_UNDO_COLORLABELS w)"
    by (metis surj_pair)
  from label_group_result [where alloc = alloc and clock = clock, OF assms(1,2,3) v refl refl] obtain w' item where
    "labels_recorded alloc clock True undo v = Some w'" "labels_done alloc clock w item w'" by blast
  then show ?thesis using assms(4) v [symmetric] by (auto simp: dt_colorlabels_set_labels_def)
qed

lemma toggle_label_result:
  assumes "un_group (uw_undo w) = DT_UNDO_NONE" "\<not> un_disable_next (uw_undo w)" "distinct imgs"
  shows "\<exists>w' item. dt_colorlabels_toggle_label_on_list alloc clock imgs color True w = Some w' \<and> labels_done alloc clock w item w'"
proof -
  let ?w = "undo_effects [Set_Cursor_Busy True] w"
  let ?labels = "if color = 5 then 0 else push_bit color 1" and ?ca = "if color = 5 then DT_CA_SET else DT_CA_TOGGLE"
  obtain undo v where v: "(undo, v) = colorlabels_execute imgs ?labels True ?ca (dt_undo_start_group (alloc 0) (clock 0) DT_UNDO_COLORLABELS ?w)"
    by (metis surj_pair)
  have "un_group (uw_undo ?w) = DT_UNDO_NONE" "\<not> un_disable_next (uw_undo ?w)" using assms by simp_all
  from label_group_result [where alloc = alloc and clock = clock, OF this assms(3) v, of "undo_effects [Images_Synched imgs] v"] obtain w' item where
    r: "labels_recorded alloc clock True undo (undo_effects [Images_Synched imgs] v) = Some w'" "labels_done alloc clock ?w item w'"
    by auto
  then have "labels_done alloc clock w item w'" by (simp add: labels_done_def)
  moreover have e: "(if color = 5 then colorlabels_execute imgs 0 True DT_CA_SET (dt_undo_start_group (alloc 0) (clock 0) DT_UNDO_COLORLABELS ?w)
      else colorlabels_execute imgs (push_bit color 1) True DT_CA_TOGGLE
             (dt_undo_start_group (alloc 0) (clock 0) DT_UNDO_COLORLABELS ?w)) = (undo, v)"
    using v by (cases "color = 5") simp_all
  have "dt_colorlabels_toggle_label_on_list alloc clock imgs color True w = map_option (undo_effects [Set_Cursor_Busy False, Collection_Hint])
      (labels_recorded alloc clock True undo (undo_effects [Images_Synched imgs] v))"
    unfolding dt_colorlabels_toggle_label_on_list_def Let_def by (simp only: if_True e prod.case)
  ultimately show ?thesis using r(1) by auto
qed

lemma matches_commute: "flags AND type \<noteq> 0 \<Longrightarrow> ui_type item = type \<Longrightarrow> undo_matches flags item"
  by (simp add: undo_matches_def and.commute)

text \<open>A world with images and empty lists, and no other clients.\<close>

definition no_callbacks :: "(image_undo, image_store) undo_callbacks" where
  "no_callbacks f user_data type data action s = s"

definition sample_images :: image_world where
  "sample_images = \<lparr>uw_undo = dt_undo_init, uw_rest = \<lparr>is_flags = (\<lambda>i. Some 0), is_labels = {(7, 1)}\<rparr>, uw_effects = []\<rparr>"

definition sample_labelled :: image_world where
  "sample_labelled = the (dt_colorlabels_set_labels (\<lambda>n. n) (\<lambda>n. Fin 0) [7, 8] 5 True True sample_images)"

text \<open>
  C36: A change of color labels can be undone and redone.  After labels were set for a list of images, one
  undo gives every image the labels it had and leaves the earlier items as they were, and one redo sets
  the labels again, whatever other items the lists hold.
\<close>

theorem labels_undone_redone:
  assumes "un_group (uw_undo w) = DT_UNDO_NONE" "\<not> un_disable_next (uw_undo w)" "distinct imgs" "imgs \<noteq> []"
    and "distinct (alloc 0 # alloc 1 # alloc 2 # addrs (un_undo_list (uw_undo w)))"
    and "dt_colorlabels_set_labels alloc clock imgs labels clear_on True w = Some w1"
    and "flags AND DT_UNDO_COLORLABELS \<noteq> 0" "w2 = dt_undo_do_undo (image_callbacks other) flags w1"
    and "w3 = dt_undo_do_redo (image_callbacks other) flags w2"
  shows "uw_rest w2 = uw_rest w \<and> un_undo_list (uw_undo w2) = un_undo_list (uw_undo w)
    \<and> uw_rest w3 = uw_rest w1 \<and> un_undo_list (uw_undo w3) = un_undo_list (uw_undo w1)"
proof -
  from set_labels_result [OF assms(1-4)] assms(6) obtain item where
    d: "labels_done alloc clock w item w1" by (metis option.inject)
  have m: "undo_matches flags (group_marker a t DT_UNDO_COLORLABELS)" for a t
    by (rule matches_commute [OF assms(7)]) simp
  have "distinct (addrs (un_undo_list (uw_undo w1)))" using assms(5) d by (auto simp: labels_done_def)
  with d labels.recorded_undone [of w1 _ item _ "un_undo_list (uw_undo w)" flags, OF _ _ _ _ _ _ _ m m assms(8,9)]
    labels.inverse [of item "uw_rest w"]
  show ?thesis unfolding labels_done_def by auto
qed

theorem labels_undone_redone_witness:
  "uw_rest (dt_undo_do_undo (image_callbacks no_callbacks) DT_UNDO_ALL sample_labelled) = uw_rest sample_images"
proof -
  have "un_group (uw_undo sample_images) = DT_UNDO_NONE" "\<not> un_disable_next (uw_undo sample_images)"
    by (simp_all add: sample_images_def dt_undo_init_def)
  from set_labels_result [OF this, of "[7, 8]" "\<lambda>n. n" "\<lambda>n. Fin 0" 5 True] have "dt_colorlabels_set_labels (\<lambda>n. n) (\<lambda>n. Fin 0) [7, 8] 5 True True sample_images = Some sample_labelled"
    by (auto simp: sample_labelled_def)
  moreover have "DT_UNDO_ALL AND DT_UNDO_COLORLABELS \<noteq> 0" by code_simp
  ultimately show ?thesis
    using labels_undone_redone [of sample_images "[7, 8]" "\<lambda>n. n" "\<lambda>n. Fin 0" 5 True sample_labelled DT_UNDO_ALL _ no_callbacks, OF _ _ _ _ _ _ _ refl refl]
    by (simp add: sample_images_def dt_undo_init_def)
qed

subsection \<open>Going back and forth\<close>

text \<open>A session with color labels: changes of labels, undo and redo, in any order.\<close>

inductive label_step :: "(image_undo, image_store) undo_callbacks \<Rightarrow> image_world \<Rightarrow> image_world \<Rightarrow> bool" for other where
  set_labels: "distinct imgs \<Longrightarrow> imgs \<noteq> [] \<Longrightarrow> distinct (alloc 0 # alloc 1 # alloc 2 # addrs (un_undo_list (uw_undo w)))
     \<Longrightarrow> dt_colorlabels_set_labels alloc clock imgs labels clear_on True w = Some w' \<Longrightarrow> label_step other w w'"
| toggle_label: "distinct imgs \<Longrightarrow> distinct (alloc 0 # alloc 1 # alloc 2 # addrs (un_undo_list (uw_undo w)))
     \<Longrightarrow> dt_colorlabels_toggle_label_on_list alloc clock imgs color True w = Some w' \<Longrightarrow> label_step other w w'"
| undo_labels: "flags AND DT_UNDO_COLORLABELS \<noteq> 0
     \<Longrightarrow> label_step other w (dt_undo_do_undo (image_callbacks other) flags w)"
| redo_labels: "flags AND DT_UNDO_COLORLABELS \<noteq> 0
     \<Longrightarrow> label_step other w (dt_undo_do_redo (image_callbacks other) flags w)"

definition label_inv :: "image_store \<Rightarrow> image_world \<Rightarrow> bool" where
  "label_inv base w \<longleftrightarrow> consistent label_item image_rest label_fits base w \<and> un_group (uw_undo w) = DT_UNDO_NONE
     \<and> \<not> un_disable_next (uw_undo w) \<and> list_all (\<lambda>item. ui_type item = DT_UNDO_COLORLABELS) (timeline (uw_undo w))"

lemma label_inv_effects [simp]: "label_inv base (undo_effects es w) = label_inv base w"
  by (simp add: label_inv_def)

lemma done_inv:
  assumes "label_inv base w" "labels_done alloc clock w item w'"
    and "distinct (alloc 0 # alloc 1 # alloc 2 # addrs (un_undo_list (uw_undo w)))"
  shows "label_inv base w'"
proof -
  have "distinct (addrs (un_undo_list (uw_undo w')))" using assms(2,3) by (auto simp: labels_done_def)
  with assms labels.group_keeps_timeline [of base w w' "group_marker (alloc 2) (clock 2) DT_UNDO_COLORLABELS" item
      "group_marker (alloc 0) (clock 0) DT_UNDO_COLORLABELS"]
  show ?thesis by (auto simp: label_inv_def labels_done_def timeline_def)
qed

lemma label_action:
  assumes "label_inv base w" "flags AND DT_UNDO_COLORLABELS \<noteq> 0"
  shows "label_inv base (undo_do_undo_redo (image_callbacks other) flags a w)
    \<and> (\<exists>run. from_list a (uw_undo w) = run @ from_list a (uw_undo (undo_do_undo_redo (image_callbacks other) flags a w))
         \<and> (from_list a (uw_undo w) \<noteq> [] \<longrightarrow> run \<noteq> []))"
proof -
  have "undo_matches flags item" if "item \<in> set (from_list a (uw_undo w))" for item
  proof (rule matches_commute [OF assms(2)])
    show "ui_type item = DT_UNDO_COLORLABELS"
      using assms(1) that by (cases a) (auto simp: label_inv_def timeline_def list_all_iff)
  qed
  then have "list_all (undo_matches flags) (from_list a (uw_undo w))" by (simp add: list_all_iff)
  with labels.action_keeps_timeline [of base w flags a] assms(1) show ?thesis by (auto simp: label_inv_def)
qed

interpretation labelling: step_system "\<lambda>w. uw_undo w = dt_undo_init \<and> uw_rest w = base" "label_step other" "label_inv base" for other base
proof
  show "label_inv base w" if "uw_undo w = dt_undo_init \<and> uw_rest w = base" for w
    using that by (simp add: label_inv_def consistent_def timeline_def replay_def dt_undo_init_def)
next
  fix w w'
  assume inv: "label_inv base w" and step: "label_step other w w'"
  then have idle: "un_group (uw_undo w) = DT_UNDO_NONE" "\<not> un_disable_next (uw_undo w)" by (simp_all add: label_inv_def)
  from step show "label_inv base w'"
  proof cases
    case (set_labels imgs alloc clock labels clear_on)
    from set_labels_result [OF idle set_labels(1,2)] set_labels(4) obtain item where
      "labels_done alloc clock w item w'" by (metis option.inject)
    then show ?thesis by (rule done_inv [OF inv _ set_labels(3)])
  next
    case (toggle_label imgs alloc clock color)
    from toggle_label_result [OF idle toggle_label(1)] toggle_label(3) obtain item where
      "labels_done alloc clock w item w'" by (metis option.inject)
    then show ?thesis by (rule done_inv [OF inv _ toggle_label(2)])
  next
    case (undo_labels flags)
    then show ?thesis using label_action [of base "undo_effects [Set_Cursor_Busy True] w" flags other DT_ACTION_UNDO] inv
      by (simp add: dt_undo_do_undo_def)
  next
    case (redo_labels flags)
    then show ?thesis using label_action [of base "undo_effects [Set_Cursor_Busy True] w" flags other DT_ACTION_REDO] inv
      by (simp add: dt_undo_do_redo_def)
  qed
qed

lemma undo_to_start:
  assumes "label_inv base w"
  shows "\<exists>w'. (label_step other)\<^sup>*\<^sup>* w w' \<and> un_undo_list (uw_undo w') = [] \<and> label_inv base w'"
  using assms
proof (induction "length (un_undo_list (uw_undo w))" arbitrary: w rule: less_induct)
  case less
  show ?case
  proof (cases "un_undo_list (uw_undo w) = []")
    case True
    with less.prems show ?thesis by blast
  next
    case False
    let ?w = "dt_undo_do_undo (image_callbacks other) DT_UNDO_COLORLABELS w"
    have flags: "DT_UNDO_COLORLABELS AND DT_UNDO_COLORLABELS \<noteq> 0" by (simp add: DT_UNDO_COLORLABELS_def)
    from label_action [of base "undo_effects [Set_Cursor_Busy True] w", OF _ flags, of other DT_ACTION_UNDO] less.prems False
    obtain run where k: "label_inv base ?w" "un_undo_list (uw_undo w) = run @ un_undo_list (uw_undo ?w)" "run \<noteq> []"
      by (auto simp: dt_undo_do_undo_def)
    from k(2,3) have "length (un_undo_list (uw_undo ?w)) < length (un_undo_list (uw_undo w))"
      by (metis length_append length_greater_0_conv less_add_same_cancel2)
    from less.hyps [OF this k(1)] label_step.undo_labels [OF flags, of other w] show ?thesis
      by (blast intro: converse_rtranclp_into_rtranclp)
  qed
qed

text \<open>
  C37: The images are always at one point of a timeline of changes.  In any session of label changes,
  undos and redos, the labels are what replaying the items of the undo list, oldest first, makes of the
  labels at the start, and undoing leads back to those.
\<close>

theorem labels_follow_timeline:
  assumes "uw_undo w0 = dt_undo_init" "(label_step other)\<^sup>*\<^sup>* w0 w"
  shows "uw_rest w = replay image_rest (rev (un_undo_list (uw_undo w))) (uw_rest w0)
    \<and> (\<exists>w'. (label_step other)\<^sup>*\<^sup>* w w' \<and> un_undo_list (uw_undo w') = [] \<and> uw_rest w' = uw_rest w0)"
proof -
  have inv: "label_inv (uw_rest w0) w" by (rule labelling.inv_reachable [OF _ assms(2)]) (simp add: assms(1))
  from undo_to_start [OF this, of other] obtain w' where
    w': "(label_step other)\<^sup>*\<^sup>* w w'" "un_undo_list (uw_undo w') = []" "label_inv (uw_rest w0) w'" by blast
  then have "uw_rest w' = uw_rest w0" by (simp add: label_inv_def consistent_def replay_def)
  with inv w' show ?thesis by (auto simp: label_inv_def consistent_def)
qed

theorem labels_follow_timeline_witness:
  "uw_rest sample_labelled = replay image_rest (rev (un_undo_list (uw_undo sample_labelled))) (uw_rest sample_images)"
proof -
  have idle: "un_group (uw_undo sample_images) = DT_UNDO_NONE" "\<not> un_disable_next (uw_undo sample_images)"
    and init: "uw_undo sample_images = dt_undo_init"
    by (simp_all add: sample_images_def dt_undo_init_def)
  from set_labels_result [OF idle, of "[7, 8]" "\<lambda>n. n" "\<lambda>n. Fin 0" 5 True]
  have "dt_colorlabels_set_labels (\<lambda>n. n) (\<lambda>n. Fin 0) [7, 8] 5 True True sample_images = Some sample_labelled"
    by (auto simp: sample_labelled_def)
  then have "label_step undefined sample_images sample_labelled"
    by (intro set_labels [of "[7, 8]" "\<lambda>n. n"]) (simp_all add: init dt_undo_init_def)
  from labels_follow_timeline [OF init r_into_rtranclp [of "label_step undefined", OF this]] show ?thesis by blast
qed

subsection \<open>Ratings can be undone\<close>

definition shown_rating :: "32 word \<Rightarrow> int" where
  "shown_rating flags = (if flags AND DT_IMAGE_REJECTED \<noteq> 0 then DT_VIEW_REJECT else uint (DT_VIEW_RATINGS_MASK AND flags))"

lemma ratings_get_eq: "dt_ratings_get i st = (case is_flags st i of None \<Rightarrow> 0 | Some flags \<Rightarrow> shown_rating flags)"
  by (simp add: dt_ratings_get_def shown_rating_def split: option.splits)

lemma low_bits:
  "((x AND NOT (push_bit k 1 OR mask k)) OR (mask k AND y)) AND push_bit k 1 = (0 :: 32 word)"
  "mask k AND ((x AND NOT (push_bit k 1 OR mask k)) OR (mask k AND y)) = mask k AND (y :: 32 word)"
  "k < 32 \<Longrightarrow> (x OR push_bit k 1) AND push_bit k 1 = (push_bit k 1 :: 32 word)"
  by (rule bit_word_eqI; auto simp: bit_simps)+

lemma uint_low: "uint (mask 3 AND x :: 32 word) = uint x mod 8"
  unfolding and.commute [of "mask 3" x] take_bit_eq_mask [symmetric] unsigned_take_bit_eq
  by (simp only: take_bit_eq_mod) simp

lemma rating_flags_masks: "DT_VIEW_RATINGS_MASK = mask 3" "DT_IMAGE_REJECTED = push_bit 3 1"
  by (simp_all add: DT_VIEW_RATINGS_MASK_def DT_IMAGE_REJECTED_def mask_eq_exp_minus_1)

lemma shown_rating_range: "0 \<le> shown_rating flags \<and> shown_rating flags < 8"
  by (simp add: shown_rating_def rating_flags_masks(1) uint_low DT_VIEW_REJECT_def)

lemma rated_number:
  assumes "g \<noteq> DT_RATINGS_REJECT" "g \<noteq> DT_VIEW_REJECT" "g \<noteq> DT_RATINGS_UNREJECT"
  shows "shown_rating (rated_flags g flags) = g mod 8"
proof -
  have "(8 :: int) dvd 2 ^ 32" by simp
  then have "uint (mask 3 AND word_of_int g :: 32 word) = g mod 8"
    unfolding uint_low by (simp add: uint_word_of_int mod_mod_cancel)
  with assms low_bits [where x = flags and k = 3] show ?thesis
    unfolding shown_rating_def rated_flags_def rating_flags_masks by (auto simp del: push_bit_of_1)
qed

lemma rated_shown: "0 \<le> g \<Longrightarrow> g < 8 \<Longrightarrow> shown_rating (rated_flags g flags) = g"
proof (cases "g = DT_VIEW_REJECT")
  case True
  have "push_bit 3 1 \<noteq> (0 :: 32 word)" by simp
  with True low_bits(3) [where x = flags and k = 3] show ?thesis
    unfolding shown_rating_def rated_flags_def rating_flags_masks by (auto simp del: push_bit_of_1)
qed (simp add: rated_number DT_RATINGS_REJECT_def DT_RATINGS_UNREJECT_def)

definition rating_records :: "int \<Rightarrow> int list \<Rightarrow> image_store \<Rightarrow> dt_undo_ratings_t list" where
  "rating_records rating imgs st = map (\<lambda>i. \<lparr>ur_imgid = i, ur_before = dt_ratings_get i st, ur_after = rating\<rparr>) imgs"

lemma rate_store_other: "j \<noteq> i \<Longrightarrow> is_flags (rate_store i r st) j = is_flags st j"
  by (simp add: rate_store_def)

text \<open>Rating the images one after the other and giving them their former ratings again.\<close>

lemma rating_loop:
  assumes "distinct imgs"
  shows "fst (fold (\<lambda>image_id (undo, w).
           let old_rating = dt_ratings_get image_id (uw_rest w);
               undo = (if True then undo @ [\<lparr>ur_imgid = image_id, ur_before = old_rating, ur_after = rating\<rparr>] else undo)
           in (undo, ratings_apply_to_image image_id (new_rating rating toggle old_rating) w)) imgs (us, w))
      = us @ rating_records rating imgs (uw_rest w)
    \<and> undo_view (snd (fold (\<lambda>image_id (undo, w).
           let old_rating = dt_ratings_get image_id (uw_rest w);
               undo = (if True then undo @ [\<lparr>ur_imgid = image_id, ur_before = old_rating, ur_after = rating\<rparr>] else undo)
           in (undo, ratings_apply_to_image image_id (new_rating rating toggle old_rating) w)) imgs (us, w))) = undo_view w
    \<and> (\<forall>i. i \<notin> set imgs \<longrightarrow> is_flags (uw_rest (snd (fold (\<lambda>image_id (undo, w).
           let old_rating = dt_ratings_get image_id (uw_rest w);
               undo = (if True then undo @ [\<lparr>ur_imgid = image_id, ur_before = old_rating, ur_after = rating\<rparr>] else undo)
           in (undo, ratings_apply_to_image image_id (new_rating rating toggle old_rating) w)) imgs (us, w)))) i = is_flags (uw_rest w) i)
    \<and> (\<forall>i. is_flags (uw_rest (snd (fold (\<lambda>image_id (undo, w).
           let old_rating = dt_ratings_get image_id (uw_rest w);
               undo = (if True then undo @ [\<lparr>ur_imgid = image_id, ur_before = old_rating, ur_after = rating\<rparr>] else undo)
           in (undo, ratings_apply_to_image image_id (new_rating rating toggle old_rating) w)) imgs (us, w)))) i = None
         \<longleftrightarrow> is_flags (uw_rest w) i = None)"
  using assms
proof (induction imgs arbitrary: us w)
  case (Cons i imgs)
  have get: "dt_ratings_get j (rate_store i r st) = dt_ratings_get j st" if "j \<in> set imgs" for j r st
  proof -
    have "j \<noteq> i" using that Cons.prems by auto
    then show ?thesis by (simp add: ratings_get_eq rate_store_other)
  qed
  have "rating_records rating imgs (rate_store i r st) = rating_records rating imgs st" for r st
    using get by (simp add: rating_records_def)
  then show ?case
    using Cons.IH [of "us @ [\<lparr>ur_imgid = i, ur_before = dt_ratings_get i (uw_rest w), ur_after = rating\<rparr>]"
        "ratings_apply_to_image i (new_rating rating toggle (dt_ratings_get i (uw_rest w))) w"] Cons.prems
    by (simp add: Let_def) (auto simp: rating_records_def rate_store_def)
qed (simp add: rating_records_def)

lemma ratings_given:
  assumes "distinct (map ur_imgid rs)" "is_flags st i \<noteq> None" "find (\<lambda>r. ur_imgid r = i) rs = Some r"
  shows "dt_ratings_get i (ratings_rest a rs st)
    = dt_ratings_get i (rate_store i (if a = DT_ACTION_UNDO then ur_before r else ur_after r) st)"
  using assms
proof (induction rs arbitrary: st)
  case (Cons q rs)
  have other: "is_flags (ratings_rest a rs st) i = is_flags st i" if "i \<notin> set (map ur_imgid rs)" for st
    using that unfolding ratings_rest_def by (induction rs arbitrary: st) (auto simp: rate_store_other)
  show ?case
  proof (cases "ur_imgid q = i")
    case True
    with Cons.prems have "i \<notin> set (map ur_imgid rs)" "q = r" by auto
    with True other show ?thesis by (simp add: ratings_rest_def ratings_get_eq)
  next
    case False
    with Cons.prems Cons.IH [of "rate_store (ur_imgid q) (if a = DT_ACTION_UNDO then ur_before q else ur_after q) st"]
    show ?thesis by (simp add: ratings_rest_def ratings_get_eq rate_store_def)
  qed
qed simp

lemma ratings_left: "i \<notin> ur_imgid ` set rs \<Longrightarrow> is_flags (ratings_rest a rs st) i = is_flags st i"
  unfolding ratings_rest_def by (induction rs arbitrary: st) (auto simp: rate_store_other)

lemma ratings_none: "is_flags (ratings_rest a rs st) i = None \<longleftrightarrow> is_flags st i = None"
  unfolding ratings_rest_def by (induction rs arbitrary: st) (auto simp: rate_store_def)

lemma ratings_labels: "is_labels (ratings_rest a rs st) = is_labels st"
  unfolding ratings_rest_def by (induction rs arbitrary: st) (simp_all add: rate_store_def)

lemma records_found: "i \<in> set imgs \<Longrightarrow> find (\<lambda>r. ur_imgid r = i) (rating_records rating imgs st)
    = Some \<lparr>ur_imgid = i, ur_before = dt_ratings_get i st, ur_after = rating\<rparr>"
  unfolding rating_records_def by (induction imgs) auto

lemma records_imgids: "map ur_imgid (rating_records rating imgs st) = imgs"
  by (simp add: rating_records_def comp_def)

lemma ratings_result:
  assumes "distinct imgs"
  shows "dt_ratings_get i (ratings_rest a (rating_records rating imgs st0) st)
    = (if i \<in> set imgs \<and> is_flags st i \<noteq> None
       then shown_rating (rated_flags (if a = DT_ACTION_UNDO then dt_ratings_get i st0 else rating) (the (is_flags st i)))
       else dt_ratings_get i st)"
proof (cases "i \<in> set imgs \<and> is_flags st i \<noteq> None")
  case True
  with assms ratings_given [of "rating_records rating imgs st0" st i _ a, OF _ _ records_found] show ?thesis
    by (auto simp: records_imgids rate_store_def ratings_get_eq [of i "is_flags_update _ _"])
next
  case False
  have ids: "ur_imgid ` set (rating_records rating imgs st0) = set imgs" by (metis records_imgids set_map)
  have "is_flags (ratings_rest a (rating_records rating imgs st0) st) i = is_flags st i"
    using False ratings_left [of i "rating_records rating imgs st0" a st]
      ratings_none [of a "rating_records rating imgs st0" st i] by (cases "i \<in> set imgs") (simp_all add: ids)
  with False show ?thesis by (auto simp: ratings_get_eq)
qed

text \<open>A list of images was rated, one undo and one redo follow.\<close>

lemma rating_group_result:
  assumes "un_group (uw_undo w) = DT_UNDO_NONE" "\<not> un_disable_next (uw_undo w)" "distinct imgs" "imgs \<noteq> []"
    and "distinct (alloc 0 # alloc 1 # alloc 2 # addrs (un_undo_list (uw_undo w)))"
    and "dt_ratings_apply_on_list alloc clock double_tap imgs rating True w = Some w1"
    and "flags AND DT_UNDO_RATINGS \<noteq> 0" "w2 = dt_undo_do_undo (image_callbacks other) flags w1"
    and "w3 = dt_undo_do_redo (image_callbacks other) flags w2"
  defines "undo \<equiv> rating_records rating imgs (uw_rest w)"
  shows "un_undo_list (uw_undo w2) = un_undo_list (uw_undo w)
    \<and> uw_rest w2 = ratings_rest DT_ACTION_UNDO undo (uw_rest w1) \<and> uw_rest w3 = ratings_rest DT_ACTION_REDO undo (uw_rest w2)
    \<and> (\<forall>i. i \<notin> set imgs \<longrightarrow> is_flags (uw_rest w1) i = is_flags (uw_rest w) i)
    \<and> (\<forall>i. is_flags (uw_rest w1) i = None \<longleftrightarrow> is_flags (uw_rest w) i = None)"
proof -
  let ?w0 = "dt_undo_start_group (alloc 0) (clock 0) DT_UNDO_RATINGS (undo_effects [Set_Cursor_Busy True] w)"
  obtain us v where v: "ratings_apply double_tap imgs rating True ?w0 = (us, v)" by fastforce
  have rest: "uw_rest ?w0 = uw_rest w" by (simp add: dt_undo_start_group_def undo_record_def Let_def)
  let ?w0' = "if 2 \<le> length imgs then undo_effects [Images_Rated rating (length imgs)] ?w0 else ?w0"
  have "uw_rest ?w0' = uw_rest w" "undo_view ?w0' = undo_view ?w0" using rest by simp_all
  with v rating_loop [OF assms(3), of rating "ratings_toggle double_tap imgs rating (uw_rest w)" "[]" ?w0']
  have x: "us = undo" "undo_view v = undo_view ?w0"
    "\<forall>i. i \<notin> set imgs \<longrightarrow> is_flags (uw_rest v) i = is_flags (uw_rest w) i"
    "\<forall>i. is_flags (uw_rest v) i = None \<longleftrightarrow> is_flags (uw_rest w) i = None"
    unfolding ratings_apply_def Let_def rest undo_def by (auto simp: prod_eq_iff)
  let ?item = "\<lparr>ui_addr = alloc 1, ui_user_data = 0, ui_type = DT_UNDO_RATINGS, ui_data = Some (Ratings_Undo undo),
     ui_ts = clock 1, ui_is_group = False, ui_undo = Some RATINGS_POP_UNDO, ui_free_data = Some RATINGS_DATA_FREE\<rparr>"
  have type: "DT_UNDO_RATINGS \<noteq> DT_UNDO_NONE" by (simp add: DT_UNDO_RATINGS_def DT_UNDO_NONE_def)
  have "un_group (uw_undo (undo_effects [Set_Cursor_Busy True] w)) = DT_UNDO_NONE"
    "\<not> un_disable_next (uw_undo (undo_effects [Set_Cursor_Busy True] w))" "uw_undo v = uw_undo ?w0"
    using assms(1,2) x(2) by (simp_all add: undo_view_def)
  from group_recorded [OF this(1,2) type refl this(3) refl, of "alloc 2" "clock 2" "alloc 1" "clock 1" 0 "Some (Ratings_Undo undo)"
      "Some RATINGS_POP_UNDO" "Some RATINGS_DATA_FREE"] assms(4,6) v x(1)
  have w1: "un_undo_list (uw_undo w1) = [group_marker (alloc 2) (clock 2) DT_UNDO_RATINGS, ?item,
      group_marker (alloc 0) (clock 0) DT_UNDO_RATINGS] @ un_undo_list (uw_undo w)" "un_redo_list (uw_undo w1) = []"
    "uw_rest w1 = uw_rest v"
    by (auto simp: dt_ratings_apply_on_list_def Let_def)
  have m: "undo_matches flags (group_marker a t DT_UNDO_RATINGS)" for a t
    by (rule matches_commute [OF assms(7)]) simp
  have "distinct (addrs (un_undo_list (uw_undo w1)))" using assms(5) by (auto simp: w1(1))
  from images.recorded_undone [OF w1(1,2) this _ _ _ _ m m assms(8,9)] x(3,4)
  show ?thesis by (simp add: of_images_def w1(3) image_rest_def ratings_list_def)
qed

text \<open>
  C38: A rating can be undone.  After a list of images was rated, upgraded, downgraded, rejected or toggled,
  one undo shows every image with the rating it had and leaves the earlier items as they were.
\<close>

theorem rating_undone:
  assumes "un_group (uw_undo w) = DT_UNDO_NONE" "\<not> un_disable_next (uw_undo w)" "distinct imgs" "imgs \<noteq> []"
    and "distinct (alloc 0 # alloc 1 # alloc 2 # addrs (un_undo_list (uw_undo w)))"
    and "dt_ratings_apply_on_list alloc clock double_tap imgs rating True w = Some w1"
    and "flags AND DT_UNDO_RATINGS \<noteq> 0" "w2 = dt_undo_do_undo (image_callbacks other) flags w1"
  shows "dt_ratings_get i (uw_rest w2) = dt_ratings_get i (uw_rest w) \<and> is_labels (uw_rest w2) = is_labels (uw_rest w1)
    \<and> un_undo_list (uw_undo w2) = un_undo_list (uw_undo w)"
proof -
  note r = rating_group_result [OF assms refl]
  have "0 \<le> dt_ratings_get i (uw_rest w) \<and> dt_ratings_get i (uw_rest w) < 8"
    using shown_rating_range by (simp add: ratings_get_eq split: option.splits)
  moreover have none: "is_flags (uw_rest w1) i = None" if "is_flags (uw_rest w) i = None" using r that by blast
  ultimately have "dt_ratings_get i (uw_rest w2) = dt_ratings_get i (uw_rest w)"
    using r assms(3) by (auto simp: ratings_result rated_shown) (simp_all add: ratings_get_eq none)
  with r show ?thesis by (simp add: ratings_labels)
qed

text \<open>Two images are rejected.\<close>

theorem rating_undone_witness:
  "\<exists>w1. dt_ratings_apply_on_list (\<lambda>n. n) (\<lambda>n. Fin 0) False [7, 8] DT_VIEW_REJECT True sample_images = Some w1
     \<and> dt_ratings_get 7 (uw_rest w1) = DT_VIEW_REJECT
     \<and> dt_ratings_get 7 (uw_rest (dt_undo_do_undo (image_callbacks no_callbacks) DT_UNDO_ALL w1)) = 0"
proof -
  let ?w1 = "the (dt_ratings_apply_on_list (\<lambda>n. n) (\<lambda>n. Fin 0) False [7, 8] DT_VIEW_REJECT True sample_images)"
  have "\<not> Option.is_none (dt_ratings_apply_on_list (\<lambda>n. n) (\<lambda>n. Fin 0) False [7, 8] DT_VIEW_REJECT True sample_images)"
    by code_simp
  then have w1: "dt_ratings_apply_on_list (\<lambda>n. n) (\<lambda>n. Fin 0) False [7, 8] DT_VIEW_REJECT True sample_images = Some ?w1"
    by (simp add: Option.is_none_def)
  have get: "dt_ratings_get 7 (uw_rest ?w1) = DT_VIEW_REJECT" "dt_ratings_get 7 (uw_rest sample_images) = 0"
    by code_simp+
  have "DT_UNDO_ALL AND DT_UNDO_RATINGS \<noteq> 0" by code_simp
  from rating_undone [where other = no_callbacks and i = 7, OF _ _ _ _ _ w1 this refl] get
  have "dt_ratings_get 7 (uw_rest (dt_undo_do_undo (image_callbacks no_callbacks) DT_UNDO_ALL ?w1)) = 0"
    by (simp add: sample_images_def dt_undo_init_def)
  with w1 get(1) show ?thesis by blast
qed

text \<open>
  C39: What redoing an upgrade gives is no number of stars.  After images were upgraded or downgraded by a
  star, one undo and one redo show every one of them with the number -1 or -2 of the action, cut to three
  bits: 7 for an upgrade, 6, the number of a rejected image, for a downgrade.
\<close>

theorem relative_rating_redone:
  assumes "un_group (uw_undo w) = DT_UNDO_NONE" "\<not> un_disable_next (uw_undo w)" "distinct imgs" "i \<in> set imgs"
    and "distinct (alloc 0 # alloc 1 # alloc 2 # addrs (un_undo_list (uw_undo w)))"
    and "dt_ratings_apply_on_list alloc clock double_tap imgs rating True w = Some w1"
    and "flags AND DT_UNDO_RATINGS \<noteq> 0" "w2 = dt_undo_do_undo (image_callbacks other) flags w1"
    and "w3 = dt_undo_do_redo (image_callbacks other) flags w2"
    and "rating = DT_RATINGS_UPGRADE \<or> rating = DT_RATINGS_DOWNGRADE" "is_flags (uw_rest w) i \<noteq> None"
  shows "dt_ratings_get i (uw_rest w3) = (if rating = DT_RATINGS_UPGRADE then 7 else DT_VIEW_REJECT)"
proof -
  from assms(4) have "imgs \<noteq> []" by auto
  note r = rating_group_result [OF assms(1-3) this assms(5-9)]
  have "is_flags (uw_rest w2) i \<noteq> None" using r assms(11) by (auto simp: ratings_none)
  with r assms(3,4) have "dt_ratings_get i (uw_rest w3) = shown_rating (rated_flags rating (the (is_flags (uw_rest w2) i)))"
    by (simp add: ratings_result)
  also have "\<dots> = rating mod 8"
    using assms(10) by (intro rated_number) (auto simp: DT_RATINGS_UPGRADE_def DT_RATINGS_DOWNGRADE_def
        DT_RATINGS_REJECT_def DT_RATINGS_UNREJECT_def DT_VIEW_REJECT_def)
  finally show ?thesis using assms(10) by (auto simp: DT_RATINGS_UPGRADE_def DT_RATINGS_DOWNGRADE_def DT_VIEW_REJECT_def)
qed

text \<open>Two images without a star are upgraded.\<close>

theorem relative_rating_redone_witness:
  "\<exists>w1. dt_ratings_apply_on_list (\<lambda>n. n) (\<lambda>n. Fin 0) False [7, 8] DT_RATINGS_UPGRADE True sample_images = Some w1
     \<and> dt_ratings_get 7 (uw_rest w1) = 1
     \<and> dt_ratings_get 7 (uw_rest (dt_undo_do_redo (image_callbacks no_callbacks) DT_UNDO_ALL
           (dt_undo_do_undo (image_callbacks no_callbacks) DT_UNDO_ALL w1))) = 7"
proof -
  let ?w1 = "the (dt_ratings_apply_on_list (\<lambda>n. n) (\<lambda>n. Fin 0) False [7, 8] DT_RATINGS_UPGRADE True sample_images)"
  have "\<not> Option.is_none (dt_ratings_apply_on_list (\<lambda>n. n) (\<lambda>n. Fin 0) False [7, 8] DT_RATINGS_UPGRADE True sample_images)"
    by code_simp
  then have w1: "dt_ratings_apply_on_list (\<lambda>n. n) (\<lambda>n. Fin 0) False [7, 8] DT_RATINGS_UPGRADE True sample_images = Some ?w1"
    by (simp add: Option.is_none_def)
  have get: "dt_ratings_get 7 (uw_rest ?w1) = 1" by code_simp
  have "DT_UNDO_ALL AND DT_UNDO_RATINGS \<noteq> 0" by code_simp
  from relative_rating_redone [where other = no_callbacks and i = 7, OF _ _ _ _ _ w1 this refl refl]
  have "dt_ratings_get 7 (uw_rest (dt_undo_do_redo (image_callbacks no_callbacks) DT_UNDO_ALL
      (dt_undo_do_undo (image_callbacks no_callbacks) DT_UNDO_ALL ?w1))) = 7"
    by (simp add: sample_images_def dt_undo_init_def)
  with w1 get show ?thesis by blast
qed

subsection \<open>Every item is accounted for\<close>

text \<open>
  The items whose callback leaves the lists alone, whoever records them; those of the ratings and of the
  color labels are such items.
\<close>

definition leaves_lists :: "('d, 'w) undo_callbacks \<Rightarrow> 'd dt_undo_item_t \<Rightarrow> bool" where
  "leaves_lists cb item \<longleftrightarrow> (\<forall>a s. uw_undo (snd (call_undo cb a item s)) = uw_undo (snd s)
     \<and> freed_items (snd (call_undo cb a item s)) = freed_items (snd s))"

lemma of_images_leave_lists: "of_images item \<Longrightarrow> leaves_lists (image_callbacks other) item"
  using image_callbacks_result(2) by (simp add: leaves_lists_def undo_view_def)

interpretation any_items: undo_lists "image_callbacks other" "leaves_lists (image_callbacks other)" for other
  by unfold_locales (unfold leaves_lists_def, blast+)

interpretation item_lists: step_system undo_init
  "undo_step (image_callbacks other) (leaves_lists (image_callbacks other))"
  "undo_inv (leaves_lists (image_callbacks other))" for other
proof
  show "undo_inv (leaves_lists (image_callbacks other)) w" if "undo_init w" for w :: image_world
    using that by (simp add: undo_init_def undo_inv_def item_addrs_def freed_items_def dt_undo_init_def)
qed (use any_items.undo_step_keeps in blast)

text \<open>
  C40: No item is lost, doubled or freed twice.  Whatever is recorded by the ratings, the color labels
  and any other part of the program whose callbacks do not themselves use the lists, in any session of
  recordings, groups, undos, redos and clearings each item is on one of the two lists or has been freed
  once, and a step lets go of an item only when it clears the lists for other types than the item's:
  these items are dropped and never freed.
\<close>

theorem undo_items_accounted:
  assumes "undo_init w0" "(undo_step (image_callbacks other) (leaves_lists (image_callbacks other)))\<^sup>*\<^sup>* w0 w"
    and "undo_step (image_callbacks other) (leaves_lists (image_callbacks other)) w w'"
  shows "distinct (item_addrs w') \<and> items_kept w w'
    \<and> (\<forall>item. of_images item \<longrightarrow> leaves_lists (image_callbacks other) item)"
proof -
  have "undo_inv (leaves_lists (image_callbacks other)) w" by (rule item_lists.inv_reachable [OF assms(1,2)])
  from any_items.undo_step_keeps [OF assms(3) this] of_images_leave_lists show ?thesis
    by (simp add: undo_inv_def)
qed

text \<open>
  A change of the history, of which the development models no callback, is recorded, and the lists are
  cleared for the color labels: the item is dropped.
\<close>

theorem undo_items_accounted_witness:
  "items_kept (dt_undo_record 5 (Fin 0) 0 DT_UNDO_HISTORY None (Some 99) None sample_images)
     (dt_undo_clear DT_UNDO_COLORLABELS (dt_undo_record 5 (Fin 0) 0 DT_UNDO_HISTORY None (Some 99) None sample_images))
   \<and> item_addrs (dt_undo_record 5 (Fin 0) 0 DT_UNDO_HISTORY None (Some 99) None sample_images) = [5]
   \<and> item_addrs (dt_undo_clear DT_UNDO_COLORLABELS
         (dt_undo_record 5 (Fin 0) 0 DT_UNDO_HISTORY None (Some 99) None sample_images)) = []"
proof -
  let ?w = "dt_undo_record 5 (Fin 0) 0 DT_UNDO_HISTORY None (Some 99) None sample_images"
  let ?step = "undo_step (image_callbacks no_callbacks) (leaves_lists (image_callbacks no_callbacks))"
  have init: "undo_init sample_images" by (simp add: undo_init_def sample_images_def)
  have "item_addrs sample_images = []" by (simp add: sample_images_def item_addrs_def freed_items_def dt_undo_init_def)
  then have "?step sample_images ?w"
    by (intro record_item) (simp_all add: leaves_lists_def call_undo_def image_callbacks_def no_callbacks_def
        RATINGS_POP_UNDO_def LABELS_POP_UNDO_def)
  then have "?step\<^sup>*\<^sup>* sample_images ?w" by (rule r_into_rtranclp)
  from undo_items_accounted [OF init this clear_items [of _ _ _ DT_UNDO_COLORLABELS]]
  have "items_kept ?w (dt_undo_clear DT_UNDO_COLORLABELS ?w)" by simp
  then show ?thesis
    by (simp add: dt_undo_record_def undo_record_def dt_undo_clear_def sample_images_def dt_undo_init_def item_addrs_def
        freed_items_def undo_matches_def DT_UNDO_HISTORY_def DT_UNDO_COLORLABELS_def DT_UNDO_NONE_def Let_def split_beta)
qed

end
