(* ===== verification/Module_Order.thy ===== *)
theory Module_Order
  imports Edit_History "HOL-Library.Signed_Division"
begin

text \<open>
  Modules with equal numbers in the pipe (\<open>dt_ioppr_check_duplicate_iop_order\<close> of \<open>common/iop_order.c\<close>),
  which the edit history takes as an argument.  The search restarts after a recursive call and need not
  end, so that it is a partial function: None says that it does not return.
\<close>

subsection \<open>The search\<close>

text \<open>Whether \<open>_ioppr_search_history_by_module\<close> finds an item, and whether a module may be given another number.\<close>

definition in_history :: "dt_dev_history_entry list \<Rightarrow> nat \<Rightarrow> bool" where
  "in_history history m \<longleftrightarrow> list_ex (\<lambda>hist. dh_module hist = m) history"

definition may_move :: "dt_dev_history_entry list \<Rightarrow> (nat \<Rightarrow> dt_iop_instance) \<Rightarrow> nat \<Rightarrow> bool" where
  "may_move history ms m \<longleftrightarrow> \<not> in_enabled (ms m) \<and> \<not> in_history history m"

definition order_moved :: "nat \<Rightarrow> int \<Rightarrow> (nat \<Rightarrow> dt_iop_instance) \<Rightarrow> nat \<Rightarrow> dt_iop_instance" where
  "order_moved m by_order ms = ms(m := (ms m)\<lparr>in_iop_order := in_iop_order (ms m) + by_order\<rparr>)"

text \<open>
  What is done at position \<open>p\<close> of the module list, where the previous module is that at \<open>p - 1\<close>; None: the
  rest of the list is searched in a recursive call.
\<close>

definition order_step ::
  "nat list \<Rightarrow> dt_dev_history_entry list \<Rightarrow> nat \<Rightarrow> (nat \<Rightarrow> dt_iop_instance) \<Rightarrow> (nat \<Rightarrow> dt_iop_instance) option" where
  "order_step iop history p ms =
     (let m = iop ! p; prev = iop ! (p - 1); order = in_iop_order (ms m)
      in if order = in_iop_order (ms prev) \<and> order \<noteq> INT_MAX
         then if may_move history ms m
              then if p + 1 < length iop
                   then let next_order = in_iop_order (ms (iop ! (p + 1)))
                        in if order \<noteq> next_order then Some (order_moved m ((next_order - order) sdiv 2) ms) else None
                   else Some (order_moved m 1 ms)
              else if may_move history ms prev
              then if 2 \<le> p
                   then let next_order = in_iop_order (ms (iop ! (p - 2)))
                        in if in_iop_order (ms prev) \<noteq> next_order
                           then Some (order_moved prev (- ((in_iop_order (ms prev) - next_order) sdiv 2)) ms)
                           else Some ms
                   else Some (order_moved prev (- 1) ms)
              else Some ms
         else Some ms)"

text \<open>
  The loop of a call that was given the list from position \<open>start\<close>.  The elements before \<open>start\<close> can be
  reached, as the list is linked both ways.
\<close>

partial_function (option) check_orders ::
  "nat list \<Rightarrow> dt_dev_history_entry list \<Rightarrow> nat \<Rightarrow> nat \<Rightarrow> (nat \<Rightarrow> dt_iop_instance) \<Rightarrow> (nat \<Rightarrow> dt_iop_instance) option" where
  "check_orders iop history start p ms =
     (if length iop \<le> p then Some ms
      else case order_step iop history p ms of
             Some ms' \<Rightarrow> check_orders iop history start (p + 1) ms'
           | None \<Rightarrow> Option.bind (check_orders iop history p (p + 1) ms)
                      (\<lambda>ms'. check_orders iop history start (start + 1) ms'))"

declare check_orders.simps [code]

definition dt_ioppr_check_duplicate_iop_order ::
  "nat list \<Rightarrow> dt_dev_history_entry list \<Rightarrow> (nat \<Rightarrow> dt_iop_instance) \<Rightarrow> (nat \<Rightarrow> dt_iop_instance) option" where
  "dt_ioppr_check_duplicate_iop_order iop history ms = check_orders iop history 0 1 ms"

subsection \<open>When it returns\<close>

text \<open>A module that may not be moved keeps its number, and of the others only the number changes.\<close>

definition orders_kept :: "dt_dev_history_entry list \<Rightarrow> nat list \<Rightarrow> (nat \<Rightarrow> dt_iop_instance) \<Rightarrow> (nat \<Rightarrow> dt_iop_instance) \<Rightarrow> bool" where
  "orders_kept history iop ms ms' \<longleftrightarrow> (\<forall>m. ms' m = ms m
     \<or> may_move history ms m \<and> m \<in> set iop \<and> ms' m = (ms m)\<lparr>in_iop_order := in_iop_order (ms' m)\<rparr>)"

lemma order_moved_simps [simp]:
  "in_enabled (order_moved m n ms k) = in_enabled (ms k)" "may_move history (order_moved m n ms) k = may_move history ms k"
  "in_iop_order (order_moved m n ms k) = (if k = m then in_iop_order (ms m) + n else in_iop_order (ms k))"
  by (simp_all add: order_moved_def may_move_def)

lemma orders_kept_refl [simp]: "orders_kept history iop ms ms"
  by (simp add: orders_kept_def)

lemma orders_kept_moved: "may_move history ms m \<Longrightarrow> m \<in> set iop \<Longrightarrow> orders_kept history iop ms (order_moved m n ms)"
  by (simp add: orders_kept_def order_moved_def)

lemma order_step_kept:
  assumes "order_step iop history p ms = Some ms'" "p < length iop"
  shows "orders_kept history iop ms ms'"
proof -
  have "iop ! p \<in> set iop" "iop ! (p - 1) \<in> set iop" using assms(2) by auto
  with assms(1) show ?thesis by (auto simp: order_step_def Let_def orders_kept_moved split: if_splits)
qed

text \<open>Three modules in a row with the same number.\<close>

definition triple :: "nat list \<Rightarrow> (nat \<Rightarrow> dt_iop_instance) \<Rightarrow> nat \<Rightarrow> bool" where
  "triple iop ms i \<longleftrightarrow> i + 2 < length iop \<and> in_iop_order (ms (iop ! i)) \<noteq> INT_MAX
     \<and> in_iop_order (ms (iop ! i)) = in_iop_order (ms (iop ! (i + 1)))
     \<and> in_iop_order (ms (iop ! i)) = in_iop_order (ms (iop ! (i + 2)))"

lemma half_way: "n \<noteq> order \<Longrightarrow> order + (n - order) sdiv 2 \<noteq> (n :: int)"
  by (auto simp: signed_divide_int_def sgn_if abs_if)

lemma order_step_cases:
  assumes "order_step iop history p ms = Some ms'" "p + 1 < length iop"
  obtains "ms' = ms" | n where "ms' = order_moved (iop ! (p - 1)) n ms"
    | "in_iop_order (ms (iop ! (p + 1))) \<noteq> in_iop_order (ms (iop ! p))"
      "ms' = order_moved (iop ! p) ((in_iop_order (ms (iop ! (p + 1))) - in_iop_order (ms (iop ! p))) sdiv 2) ms"
proof -
  from assms have "ms' = ms \<or> (\<exists>n. ms' = order_moved (iop ! (p - 1)) n ms)
      \<or> in_iop_order (ms (iop ! (p + 1))) \<noteq> in_iop_order (ms (iop ! p))
         \<and> ms' = order_moved (iop ! p) ((in_iop_order (ms (iop ! (p + 1))) - in_iop_order (ms (iop ! p))) sdiv 2) ms"
    unfolding order_step_def Let_def by (simp only: split: if_splits) force+
  with that show ?thesis by blast
qed

lemma orders_kept_trans:
  assumes "orders_kept history iop ms ms1" "orders_kept history iop ms1 ms2"
  shows "orders_kept history iop ms ms2"
  unfolding orders_kept_def
proof
  fix m
  from assms have 1: "ms1 m = ms m \<or> may_move history ms m \<and> m \<in> set iop \<and> ms1 m = (ms m)\<lparr>in_iop_order := in_iop_order (ms1 m)\<rparr>"
    and 2: "ms2 m = ms1 m \<or> may_move history ms1 m \<and> m \<in> set iop \<and> ms2 m = (ms1 m)\<lparr>in_iop_order := in_iop_order (ms2 m)\<rparr>"
    unfolding orders_kept_def by blast+
  from 1 have "in_enabled (ms1 m) = in_enabled (ms m)" by (metis dt_iop_instance.select_convs(8) dt_iop_instance.surjective dt_iop_instance.update_convs(7))
  then have "may_move history ms1 m = may_move history ms m" by (simp add: may_move_def)
  with 1 2 show "ms2 m = ms m \<or> may_move history ms m \<and> m \<in> set iop \<and> ms2 m = (ms m)\<lparr>in_iop_order := in_iop_order (ms2 m)\<rparr>"
    by (cases "ms m"; cases "ms1 m"; cases "ms2 m") auto
qed

lemma triple_moved:
  assumes "distinct iop" "order_step iop history p ms = Some ms'" "1 \<le> p" "p < length iop" "p \<le> i"
    and "\<forall>i. p \<le> i + 1 \<longrightarrow> \<not> triple iop ms i"
  shows "\<not> triple iop ms' i"
proof
  assume t: "triple iop ms' i"
  then have len: "i + 2 < length iop" by (simp add: triple_def)
  have ne: "iop ! j \<noteq> iop ! k" if "j \<noteq> k" "j < length iop" "k < length iop" for j k
    using assms(1) that by (simp add: nth_eq_iff_index_eq)
  have same: "in_iop_order (ms' (iop ! j)) = in_iop_order (ms (iop ! j))" if "p < j" "j < length iop" for j
  proof -
    have "iop ! j \<noteq> iop ! p" by (rule ne) (use that assms(3,4) in auto)
    moreover have "iop ! j \<noteq> iop ! (p - 1)" by (rule ne) (use that assms(3,4) in auto)
    ultimately show ?thesis using assms(2) by (auto simp: order_step_def Let_def split: if_splits)
  qed
  have no: "\<not> triple iop ms i" using assms(5,6) by simp
  show False
  proof (cases "i = p")
    case False
    with assms(5) len have "in_iop_order (ms' (iop ! j)) = in_iop_order (ms (iop ! j))" if "j \<in> {i, i + 1, i + 2}" for j
      using that by (intro same) auto
    with t no show False by (simp add: triple_def)
  next
    case True
    with len have p: "p + 1 < length iop" by simp
    have pp: "iop ! p \<noteq> iop ! (p - 1)" by (rule ne) (use assms(3,4) in auto)
    have "in_iop_order (ms' (iop ! p)) = in_iop_order (ms (iop ! p))
        \<or> in_iop_order (ms' (iop ! p)) \<noteq> in_iop_order (ms (iop ! (p + 1)))"
      using pp by (cases rule: order_step_cases [OF assms(2) p]) (simp_all add: half_way)
    with t True no same [of "p + 1"] same [of "p + 2"] len show False by (auto simp: triple_def)
  qed
qed

text \<open>Without such a triple one pass is enough.\<close>

lemma one_pass:
  assumes "distinct iop" "1 \<le> p" "\<forall>i. p \<le> i + 1 \<longrightarrow> \<not> triple iop ms i"
  shows "\<exists>ms'. check_orders iop history start p ms = Some ms' \<and> orders_kept history iop ms ms'"
  using assms(2,3)
proof (induction "length iop - p" arbitrary: p ms rule: less_induct)
  case less
  show ?case
  proof (cases "length iop \<le> p")
    case True
    then show ?thesis by (simp add: check_orders.simps)
  next
    case False
    show ?thesis
    proof (cases "order_step iop history p ms")
      case None
      then have "triple iop ms (p - 1)" using less.prems(1)
        by (auto simp: order_step_def triple_def Let_def split: if_splits)
      with less.prems show ?thesis by simp
    next
      case (Some ms1)
      have "\<forall>i. p + 1 \<le> i + 1 \<longrightarrow> \<not> triple iop ms1 i"
        using triple_moved [OF assms(1) Some less.prems(1)] False less.prems(2) by auto
      moreover have "length iop - (p + 1) < length iop - p" using False by simp
      ultimately obtain ms' where
        ms': "check_orders iop history start (p + 1) ms1 = Some ms'" "orders_kept history iop ms1 ms'"
        using less.hyps [of "p + 1" ms1] by auto
      have "orders_kept history iop ms ms1" using order_step_kept [OF Some] False by simp
      with ms' Some False show ?thesis by (subst check_orders.simps) (auto intro: orders_kept_trans)
    qed
  qed
qed

subsection \<open>When it does not\<close>

text \<open>
  The first three modules have the same number, the second may be moved and the third may not: the second
  is not moved as its successor has its number, and the recursive call finds that its predecessor has it.
\<close>

definition trap :: "nat list \<Rightarrow> dt_dev_history_entry list \<Rightarrow> (nat \<Rightarrow> dt_iop_instance) \<Rightarrow> bool" where
  "trap iop history ms \<longleftrightarrow> triple iop ms 0 \<and> may_move history ms (iop ! 1) \<and> \<not> may_move history ms (iop ! 2)"

lemma trap_step:
  assumes "distinct iop" "trap iop history ms" "order_step iop history p ms = Some ms'" "2 \<le> p" "p < length iop"
  shows "trap iop history ms'"
proof -
  have len: "2 < length iop" using assms(4,5) by simp
  have ne: "iop ! j \<noteq> iop ! k" if "j \<noteq> k" "j < length iop" "k < length iop" for j k
    using assms(1) that by (simp add: nth_eq_iff_index_eq)
  have "ms' (iop ! j) = ms (iop ! j)" if "j \<le> 2" for j
  proof (cases "p = 2")
    case True
    with assms(2,3) show ?thesis by (auto simp: order_step_def Let_def trap_def triple_def numeral_2_eq_2 split: if_splits)
  next
    case False
    have "iop ! j \<noteq> iop ! p" by (rule ne) (use False that assms(4,5) in auto)
    with that False assms(4) have p: "iop ! j \<noteq> iop ! p" "p - 1 = j \<Longrightarrow> j = 2" by auto
    show ?thesis
    proof (cases "p - 1 = 2")
      case True
      then have "\<not> may_move history ms (iop ! (p - 1))" using assms(2) by (simp add: trap_def)
      with assms(3) p(1) show ?thesis by (auto simp: order_step_def Let_def order_moved_def split: if_splits)
    next
      case False
      then have "iop ! j \<noteq> iop ! (p - 1)" using that assms(4,5) p(2) by (intro ne) auto
      with assms(3) p(1) show ?thesis by (auto simp: order_step_def Let_def order_moved_def split: if_splits)
    qed
  qed
  with assms(2) show ?thesis by (simp add: trap_def triple_def may_move_def)
qed

definition trapped :: "nat list \<Rightarrow> dt_dev_history_entry list \<Rightarrow> nat \<Rightarrow> nat \<Rightarrow> (nat \<Rightarrow> dt_iop_instance) \<Rightarrow> (nat \<Rightarrow> dt_iop_instance) \<Rightarrow> bool" where
  "trapped iop history start p ms ms' \<longleftrightarrow> (distinct iop \<and> trap iop history ms \<and> start < p
     \<longrightarrow> (start = 0 \<longrightarrow> p \<noteq> 1) \<and> (start \<noteq> 0 \<longrightarrow> trap iop history ms'))"

lemma trap_first: "trap iop history ms \<Longrightarrow> order_step iop history 1 ms = None"
  by (simp add: order_step_def trap_def triple_def Let_def numeral_2_eq_2)

lemma trap_never_returns:
  assumes "check_orders iop history start p ms = Some ms'"
  shows "trapped iop history start p ms ms'"
proof (rule check_orders.raw_induct [where P = trapped, OF _ assms])
  fix check iop history start p ms ms'
  assume ih: "\<And>iop history start p ms ms'. check iop history start p ms = Some ms' \<Longrightarrow> trapped iop history start p ms ms'"
    and body: "(if length iop \<le> p then Some ms
      else case order_step iop history p ms of
             None \<Rightarrow> Option.bind (check iop history p (p + 1) ms) (check iop history start (start + 1))
           | Some ms' \<Rightarrow> check iop history start (p + 1) ms') = Some ms'"
  show "trapped iop history start p ms ms'" unfolding trapped_def
  proof (rule impI)
    assume a: "distinct iop \<and> trap iop history ms \<and> start < p"
    show "(start = 0 \<longrightarrow> p \<noteq> 1) \<and> (start \<noteq> 0 \<longrightarrow> trap iop history ms')"
    proof (cases "length iop \<le> p")
      case True
      with body a show ?thesis by (auto simp: trap_def triple_def)
    next
      case False
      show ?thesis
      proof (cases "order_step iop history p ms")
        case (Some ms1)
        with a have p: "2 \<le> p" using trap_first [of iop history ms] by (cases "p = 1") auto
        with trap_step [of iop history ms p ms1] a Some False have "trap iop history ms1" by simp
        moreover have "check iop history start (p + 1) ms1 = Some ms'" using body False Some by simp
        then have "trapped iop history start (p + 1) ms1 ms'" by (rule ih)
        ultimately show ?thesis using a p by (simp add: trapped_def)
      next
        case None
        with body False obtain ms1 where r: "check iop history p (p + 1) ms = Some ms1"
          "check iop history start (start + 1) ms1 = Some ms'" by (auto simp: bind_eq_Some_conv)
        from ih [OF r(1)] a have "trap iop history ms1" by (simp add: trapped_def)
        with ih [OF r(2)] a show ?thesis by (simp add: trapped_def)
      qed
    qed
  qed
qed

text \<open>
  In the edit history the argument stands for the numbers that the search leaves.  Where it returns, a
  module that is enabled or in the history has the number of the order list.
\<close>

definition orders_of_search :: "edit_env \<Rightarrow> bool" where
  "orders_of_search ee \<longleftrightarrow> (\<forall>ms iop history ms' m. dt_ioppr_check_duplicate_iop_order iop history ms = Some ms'
     \<longrightarrow> ee_duplicate_orders ee ms iop history m = in_iop_order (ms' m))"

lemma settled_orders:
  assumes "orders_of_search ee" "dt_ioppr_resync_modules_order d = d1" "distinct (de_iop d1)"
    and "\<forall>i. \<not> triple (de_iop d1) (de_module d1) i" "m \<in> set (de_iop d1)" "\<not> may_move (de_history d1) (de_module d1) m"
  shows "in_iop_order (de_module (settle_orders ee d) m) = in_iop_order (de_module d1 m)"
proof -
  from assms(4) have "\<forall>i. 1 \<le> i + 1 \<longrightarrow> \<not> triple (de_iop d1) (de_module d1) i" by simp
  from one_pass [OF assms(3) order_refl this, of "de_history d1" 0] obtain ms' where
    ms': "dt_ioppr_check_duplicate_iop_order (de_iop d1) (de_history d1) (de_module d1) = Some ms'"
    "orders_kept (de_history d1) (de_iop d1) (de_module d1) ms'"
    unfolding dt_ioppr_check_duplicate_iop_order_def by blast
  from ms'(2) assms(6) have "ms' m = de_module d1 m" by (auto simp: orders_kept_def)
  then have "ee_duplicate_orders ee (de_module d1) (de_iop d1) (de_history d1) m = in_iop_order (de_module d1 m)"
    using assms(1) ms'(1) by (simp add: orders_of_search_def)
  then show ?thesis using assms(2,3,5) by (simp add: settle_orders_def Let_def fold_modules)
qed

text \<open>
  C22: Making equal module numbers different ends unless three in a row are equal.  Without three neighbours
  of the same number the search returns after one pass and has changed nothing but the numbers of modules
  that are disabled and not in the history; when the first three are equal, the second may be changed and the
  third may not, it never returns.
\<close>

theorem duplicate_orders_end:
  assumes "distinct iop"
  shows "((\<forall>i. \<not> triple iop ms i) \<longrightarrow> (\<exists>ms'. dt_ioppr_check_duplicate_iop_order iop history ms = Some ms'
        \<and> (\<forall>m. ms' m = ms m
           \<or> may_move history ms m \<and> m \<in> set iop \<and> ms' m = (ms m)\<lparr>in_iop_order := in_iop_order (ms' m)\<rparr>)))
    \<and> (triple iop ms 0 \<and> may_move history ms (iop ! 1) \<and> \<not> may_move history ms (iop ! 2)
        \<longrightarrow> dt_ioppr_check_duplicate_iop_order iop history ms = None)"
proof (intro conjI impI)
  show "\<exists>ms'. dt_ioppr_check_duplicate_iop_order iop history ms = Some ms'
      \<and> (\<forall>m. ms' m = ms m
         \<or> may_move history ms m \<and> m \<in> set iop \<and> ms' m = (ms m)\<lparr>in_iop_order := in_iop_order (ms' m)\<rparr>)"
    if "\<forall>i. \<not> triple iop ms i"
    using one_pass [OF assms, of 1 ms history 0] that by (simp add: dt_ioppr_check_duplicate_iop_order_def orders_kept_def)
  show "dt_ioppr_check_duplicate_iop_order iop history ms = None"
    if "triple iop ms 0 \<and> may_move history ms (iop ! 1) \<and> \<not> may_move history ms (iop ! 2)"
  proof (cases "check_orders iop history 0 1 ms")
    case (Some ms')
    from trap_never_returns [OF this] assms that show ?thesis by (simp add: trapped_def trap_def)
  qed (simp add: dt_ioppr_check_duplicate_iop_order_def)
qed

text \<open>Three disabled modules, the last of them in the history.\<close>

definition sample_modules :: "int \<Rightarrow> nat \<Rightarrow> dt_iop_instance" where
  "sample_modules third m = (sample_instance m)\<lparr>in_iop_order := (if m = 2 then third else 5)\<rparr>"

lemma sample_modules_simps [simp]:
  "in_iop_order (sample_modules third m) = (if m = 2 then third else 5)"
  "may_move [sample_entry 2 [7]] (sample_modules third) m \<longleftrightarrow> m \<noteq> 2"
  by (auto simp: sample_modules_def may_move_def in_history_def sample_instance_def sample_entry_def)

lemma duplicate_orders_end_witness:
  "dt_ioppr_check_duplicate_iop_order [0, 1, 2] [sample_entry 2 [7]] (sample_modules 5) = None
   \<and> (\<exists>ms'. dt_ioppr_check_duplicate_iop_order [0, 1, 2] [sample_entry 2 [7]] (sample_modules 9) = Some ms' \<and> ms' 2 = sample_modules 9 2)"
proof -
  have d: "distinct [0, 1, 2 :: nat]" by simp
  have "triple [0, 1, 2] (sample_modules 5) 0" "\<not> triple [0, 1, 2] (sample_modules 9) i" for i
    by (cases i; simp add: triple_def INT_MAX_def)+
  with duplicate_orders_end [OF d, of "sample_modules 5" "[sample_entry 2 [7]]"]
    duplicate_orders_end [OF d, of "sample_modules 9" "[sample_entry 2 [7]]"]
  have "dt_ioppr_check_duplicate_iop_order [0, 1, 2] [sample_entry 2 [7]] (sample_modules 5) = None"
    and "\<exists>ms'. dt_ioppr_check_duplicate_iop_order [0, 1, 2] [sample_entry 2 [7]] (sample_modules 9) = Some ms'
       \<and> (ms' 2 = sample_modules 9 2 \<or> may_move [sample_entry 2 [7]] (sample_modules 9) 2)"
    by (simp_all del: sample_modules_simps(1)) blast+
  then show ?thesis by simp
qed

end
