(* ===== verification/Spec2Isabelle.thy ===== *)
theory Spec2Isabelle
  imports Action_Path Job_Workers Chat_Delivery Chat_Revision Undo_Clients Module_Order
begin

text \<open>
  A verification library for the agent subsystem of darktableAgent: the part of the darkroom that
  describes an image and its controls to a language-model server, sends a chat request, receives a
  stream of events with a response, and executes the operations of the response on the controls.
  The program is the C code below \<open>src/darktable/src\<close>; a path in this text is relative to that
  directory.

  \<^bold>\<open>Parts and theories.\<close>

  \<^item> \<open>Prelude\<close>, \<open>Floats\<close>, \<open>Json\<close>: C strings, \<open>GError\<close>s and results, narrowing conversions, number
    printing; \<open>float\<close> and \<open>double\<close> as NaN, infinities and exact rationals rounded to the format after
    each operation; JSON trees and the json-glib accessors (the parser and generator of json-glib are
    arguments of the definitions that call them).
  \<^item> \<open>Protocol_Types\<close> (\<open>common/agent_protocol.h\<close>, \<open>agent_capabilities\<close>, \<open>agent_state.h\<close>): the structs
    as records and their init, clear and copy functions.  \<open>Protocol_Parse\<close>: the response parser of
    \<open>agent_protocol.c\<close>, every member, check and error.  \<open>Protocol_Serialize\<close>: the request serialiser, as
    the tree it builds.
  \<^item> \<open>Bauhaus\<close> (\<open>bauhaus/bauhaus.c\<close>, \<open>common/introspection.h\<close>, \<open>common/action.h\<close>): sliders,
    comboboxes and toggle buttons, parameter memory and introspection tables, as a \<open>world\<close>.
  \<^item> \<open>Catalog\<close> (\<open>agent_catalog.c\<close>): the descriptors of the controls an agent may use, looking them up,
    reading and writing through them.  \<open>Action_Path\<close> relates the paths it builds to \<open>_action_find\<close> of
    \<open>gui/accelerators.c\<close>.
  \<^item> \<open>Execute\<close>, \<open>Execute_Limits\<close> (\<open>agent_execute.c\<close>, \<open>agent_actions.c\<close>): the order of execution, the
    validation of a batch, its execution and its report.
  \<^item> \<open>Collect\<close> (\<open>agent_state.c\<close>, \<open>agent_capabilities.c\<close>): what a request says about the image: manifest,
    metadata, controls, history, preview and histogram.
  \<^item> \<open>Client\<close>, \<open>Client_Stream\<close>, \<open>Client_Job\<close> (\<open>agent_client.c\<close>): request handles and their reference
    counts, endpoints, cancel and progress payloads; the parser of server-sent events, byte by byte; the
    background job, its deliveries on the main loop and the cancellation, as steps that interleave.
  \<^item> \<open>Jobs\<close> (\<open>control/jobs.c\<close>): the queues of background jobs the client's job goes through.
    \<open>Job_Workers\<close> (with \<open>control/control.c\<close>): the threads that work on them: workers, reserved workers and
    kicker, the condition variable they sleep on, starting and closing them.
  \<^item> \<open>Chat_State\<close>, \<open>Chat_Request\<close>, \<open>Chat_Response\<close> (the \<open>_agent_chat_*\<close> functions of \<open>views/darkroom.c\<close> and
    their state in \<open>develop/develop.h\<close>): the chat window: its sessions, one per image, its widgets as the
    values they show, the active request; building and submitting a request; the progress and result
    callbacks, refinement passes, previews and the test report.  \<open>Chat_Session\<close>: entering and leaving the
    darkroom, the buttons, what switching between images keeps.  \<open>Chat_Safety\<close>: which results may change
    the image.  \<open>Chat_System\<close>: the window together with the client jobs it has started, as steps that
    interleave (every event of the window is one step \<open>window_event\<close>, the worker and the deliveries of a
    request are \<open>request_step\<close>), and who owns a request.  \<open>Chat_Widgets\<close>: what the window shows.
    \<open>Chat_Runs\<close>, \<open>Chat_Liveness\<close>, \<open>Chat_Passes\<close>: what holds in every run.  \<open>Chat_Delivery\<close>: from the bytes
    the server sends to the operations on the image.
  \<^item> \<open>Edit_History\<close> (\<open>develop/develop.c\<close>, with the module order of \<open>common/iop_order.c\<close>): adding an edit to
    the history and going to a position of it, with the modules they set.  \<open>Module_Order\<close>: the search that
    makes equal numbers of modules in the pipe different.  \<open>Chat_Revision\<close>: what the
    revision of an image, which counts that history, tells the chat window.
  \<^item> \<open>Undo\<close> (\<open>common/undo.c\<close>): the undo and redo lists of the editor: recording, groups, undoing, redoing,
    clearing.  \<open>Undo_Clients\<close> (\<open>common/ratings.c\<close>, \<open>common/colorlabels.c\<close>): the ratings and color labels of
    images, which are recorded there.
  \<^item> \<open>Step_System\<close>: the interface of the state machines (initial states, steps, invariant), instantiated
    by the client job, by the job queues and their threads, by the chat window, by the edit history and by the undo lists.

  \<^bold>\<open>How the parts interact.\<close>  Sending a message (\<open>submit_internal\<close>) collects manifest and image state
  (\<open>Collect\<close>, which reads the controls through \<open>Catalog\<close>), builds the request (\<open>Protocol_Types\<close>) and hands
  a copy to the client (\<open>dt_agent_client_chat_async\<close>), whose job waits in the queues of \<open>Jobs\<close>,
  serialises it (\<open>Protocol_Serialize\<close>), reads the event stream (\<open>Client_Stream\<close>), parses progress and
  response (\<open>Protocol_Parse\<close>) and delivers both to the window, which checks them against its state and
  executes the operations (\<open>Execute\<close>, which writes through \<open>Catalog\<close> and \<open>Bauhaus\<close>).

  \<^bold>\<open>Interfaces.\<close>  \<open>key_table\<close> (the table of seen setting ids of the catalog), \<open>chunk_consumer\<close> (a state
  machine fed with pieces of a stream), \<open>step_system\<close>, \<open>window_contract\<close> (a property of the requests that
  cancelling and starting keep, which therefore every handler of the window keeps), \<open>undo_lists\<close> (items whose
  callbacks leave the undo lists alone), \<open>undo_client\<close> (a part of the program that says what its callbacks
  do) and \<open>reversible_client\<close> (one whose items undo what they redo) are locales; each is interpreted on the definitions of the model that provide it.

  \<^bold>\<open>State and errors.\<close>  C structs are records with the fields of the code, with a prefix per record.
  Functions that change memory take and return it.  A function with a \<open>GError **\<close> argument returns what
  it leaves there, or a sum whose left side is the error.  Each field of an \<open>env\<close>, \<open>stream_env\<close>,
  \<open>collect_env\<close> or \<open>chat_env\<close> argument stands for code outside the model: callbacks of modules and widgets, the curve
  code, curl, json-glib, GdkPixbuf, the export pipeline.  Where a property needs such code to behave as
  documented, a named hypothesis says so and the witness of the property instantiates it.

  \<^bold>\<open>What the lemmas show.\<close>  \<open>Protocol_*\<close>: accepted responses are well formed, well-formed responses
  survive the round trip, refusals leave an error and, if they come late, a cleared response.  \<open>Catalog\<close>: descriptors are well formed, unique and
  findable, what is written can be read back.  \<open>Execute\<close>: a batch that does not validate changes
  nothing (levels handles and colour zone bands excepted), the report accounts for every operation and is true, the order is a stable sort of the white balance
  operations.  \<open>Collect\<close>: manifest and state agree, previews are bounded and histograms count their
  pixels (and those of a picture that could not be encoded).  \<open>Client_*\<close>: chunking does not matter, encoded events come back, the handle is freed exactly
  once, deliveries are progress reports and one result.  \<open>Jobs\<close>: queues stay consistent, every job is in
  one place at every moment, also between two locks, and no job at the head of a queue starves.  \<open>Job_Workers\<close>: the threads keep to the steps of the queues, a job is executed
  although a notice was lost, and when closing the program hangs.  \<open>Chat_*\<close>: only a result that answers
  the request, image and revision shown (or ends a run that has edited the image already) changes the image, and executes each operation once; every request has one owner, is released and
  its handle freed; the widgets show the state; what is sent is a complete request; a pass that asks for
  another gets it, and the passes end when the server counts them; a response the window may use reaches
  the image.  \<open>Edit_History\<close>: going back and forth
  restores every module, so the history is what was done, unless an undone item was kept.  \<open>Module_Order\<close>: when the search for equal
  numbers returns, and what it leaves alone.  \<open>Chat_Revision\<close>: which edits the revision
  check of the chat window does not see.  \<open>Undo\<close>, \<open>Undo_Clients\<close>: undoing gives back the ratings and labels
  there were, redoing the labels; the lists are a timeline of the labels; no item is on two lists or freed twice.

  \<^bold>\<open>Bounds.\<close>  No definition needs fuel: every loop of the modelled code but one is bounded by its data and
  terminates as a structural recursion, a fold or with a measure.  The search of \<open>Module_Order\<close> can run
  for ever and is a partial function with None for that.  Machine integers that can wrap
  (priorities, bins, flags, narrowed counts) are words or carry the conversion; sizes of images are
  unbounded integers.  That a run of the window comes to rest is stated with the steps that lead there
  (\<open>active_request_released\<close>, \<open>response_reaches_image\<close>) and with the limit of passes
  (\<open>refinement_passes_bounded\<close>).  Starvation freedom is stated for ten scheduling rounds and priorities
  up to 245, so that the eight-bit priority does not wrap.

  \<^bold>\<open>Not modelled.\<close> Creating the widgets of the chat window, their geometry,
  scrolling, styles and focus, and the transfer that posts a preview (its request is an effect of
  the model); the rest of \<open>views/darkroom.c\<close>; the database side of the edit history,
  its records on the undo lists (the numbers that the search of \<open>Module_Order\<close> leaves are an argument of
  the edit history, as the search need not return); the other clients of the undo lists, whose callbacks are an argument; the callbacks of the modules
  between a control and the edit history; the debug log, the progress bars of jobs,
  freeing of memory beyond reference counts and disposal, the Python server
  (\<open>src/server\<close>, another program whose answers are arbitrary data here), and the image
  editor itself: pixel pipeline, image operations, database, lighttable and toolkit code of upstream
  darktable.
\<close>

end
